(* ===== verification/Prelude.thy ===== *)
theory Prelude
  imports Complex_Main "HOL-Library.Word" "HOL-Library.Multiset"
begin

text \<open>
  Shared vocabulary of the development.

  The Go code under verification returns errors as values, mutates database rows and
  in-memory structs, and works with fixed-width integers. The components model these as
  sums (\<open>Inl\<close> is the error), as state passing over records, and as \<open>'n word\<close> values.
  This theory holds the names of the common types, the sequencing operator for fallible
  steps, the table operations the SQL statements of several components need, and the
  list lemmas their proofs share.
\<close>

section \<open>Names for the Go types\<close>

type_synonym byte = "8 word"
type_synonym uint32 = "32 word"
type_synonym uint64 = "64 word"

text \<open>
  Instants and durations (\<open>time.Time\<close>, \<open>time.Duration\<close>) are nanosecond counts.
\<close>

type_synonym time = int
type_synonym duration = int

abbreviation (input) millisecond :: duration where "millisecond \<equiv> 1000000"
abbreviation (input) second :: duration where "second \<equiv> 1000000000"
abbreviation (input) minute :: duration where "minute \<equiv> 60000000000"

section \<open>Collections of rewrite rules\<close>

named_theorems codec_simps \<open>decoder and encoder sequencing\<close>
named_theorems table_simps \<open>SQL-style updates of tables\<close>
named_theorems engine_simps \<open>task engine operations\<close>
named_theorems pipeline_simps \<open>sealing pipeline operations\<close>

section \<open>Fallible steps\<close>

definition rbind :: "'e + 'a \<Rightarrow> ('a \<Rightarrow> 'e + 'b) \<Rightarrow> 'e + 'b" where
  "rbind m f = (case m of Inl e \<Rightarrow> Inl e | Inr x \<Rightarrow> f x)"

lemma rbind_simps [simp]:
  "rbind (Inl e) f = Inl e"
  "rbind (Inr x) f = f x"
  by (simp_all add: rbind_def)

lemma rbind_Inr_iff: "rbind m f = Inr y \<longleftrightarrow> (\<exists>x. m = Inr x \<and> f x = Inr y)"
  by (cases m) simp_all

lemma rbind_Inl_iff: "rbind m f = Inl e \<longleftrightarrow> m = Inl e \<or> (\<exists>x. m = Inr x \<and> f x = Inl e)"
  by (cases m) simp_all

section \<open>Tables\<close>

text \<open>
  A database table is the list of its rows. \<open>update_where p f t\<close> is
  \<open>UPDATE t SET f WHERE p\<close>, \<open>delete_where p t\<close> is \<open>DELETE FROM t WHERE p\<close>, and
  \<open>count_where p t\<close> the number of rows a statement with condition \<open>p\<close> affects.
\<close>

definition update_where :: "('r \<Rightarrow> bool) \<Rightarrow> ('r \<Rightarrow> 'r) \<Rightarrow> 'r list \<Rightarrow> 'r list" where
  "update_where p f t = map (\<lambda>r. if p r then f r else r) t"

definition delete_where :: "('r \<Rightarrow> bool) \<Rightarrow> 'r list \<Rightarrow> 'r list" where
  "delete_where p t = filter (\<lambda>r. \<not> p r) t"

definition count_where :: "('r \<Rightarrow> bool) \<Rightarrow> 'r list \<Rightarrow> nat" where
  "count_where p t = length (filter p t)"

lemma set_update_where [table_simps]:
  "set (update_where p f t) = {r \<in> set t. \<not> p r} \<union> f ` {r \<in> set t. p r}"
  by (auto simp: update_where_def)

lemma length_update_where [simp]: "length (update_where p f t) = length t"
  by (simp add: update_where_def)

lemma nth_update_where:
  "i < length t \<Longrightarrow> update_where p f t ! i = (if p (t ! i) then f (t ! i) else t ! i)"
  by (simp add: update_where_def)

lemma set_delete_where [table_simps]: "set (delete_where p t) = {r \<in> set t. \<not> p r}"
  by (auto simp: delete_where_def)

lemma map_update_where_key:
  "(\<And>r. key (f r) = key r) \<Longrightarrow> map key (update_where p f t) = map key t"
  by (auto simp: update_where_def)

lemma update_where_none: "\<forall>r\<in>set t. \<not> p r \<Longrightarrow> update_where p f t = t"
  by (auto simp: update_where_def intro: map_idI)

lemma distinct_map_delete_where: "distinct (map key t) \<Longrightarrow> distinct (map key (delete_where p t))"
  by (simp add: delete_where_def distinct_map_filter)

lemma find_Some_set: "find p xs = Some x \<Longrightarrow> x \<in> set xs \<and> p x"
  by (induction xs) (auto split: if_splits)

lemma find_None_iff_set: "find p xs = None \<longleftrightarrow> (\<forall>x\<in>set xs. \<not> p x)"
  by (induction xs) auto

text \<open>A table whose key column has no duplicates has at most one row per key.\<close>

lemma distinct_key_eq:
  "distinct (map key t) \<Longrightarrow> r \<in> set t \<Longrightarrow> r' \<in> set t \<Longrightarrow> key r = key r' \<Longrightarrow> r = r'"
  by (simp add: distinct_map inj_on_def)

lemma find_key:
  "distinct (map key t) \<Longrightarrow> r \<in> set t \<Longrightarrow> find (\<lambda>x. key x = key r) t = Some r"
  by (induction t) auto

end
