(* ===== verification/Bincode.thy ===== *)
theory Bincode
  imports Prelude
begin

text \<open>
  The bincode primitives of \<open>lib/proof/bincode_util.go\<close> and the contract every
  encoder/decoder pair of the package has to meet.

  A reader (\<open>io.Reader\<close> over a byte slice) is the list of the bytes it has left; a
  decoder takes it and returns an error or the value with what is left. A writer is an
  in-memory buffer, whose writes do not fail; an encoder returns an error or the bytes it
  appends. Only the innermost cause of an error is kept: the text that
  \<open>fmt.Errorf\<close> wraps around it is not.
\<close>

section \<open>Readers and writers\<close>

datatype encode_error = NotFixedSize | ProofDataNil
datatype decode_error = EOF | UnexpectedEOF | UnknownProofType uint32 | ExpectedEOF | MakeSlicePanic

type_synonym 'a encoder = "'a \<Rightarrow> encode_error + byte list"
type_synonym 'a decoder = "byte list \<Rightarrow> decode_error + ('a \<times> byte list)"

text \<open>\<open>io.ReadFull\<close>: no bytes at all is \<open>EOF\<close>, too few are \<open>ErrUnexpectedEOF\<close>.\<close>

definition ReadFull :: "nat \<Rightarrow> byte list decoder" where
  "ReadFull n bs =
     (if n \<le> length bs then Inr (take n bs, drop n bs)
      else if bs = [] then Inl EOF else Inl UnexpectedEOF)"

fun le_bytes :: "nat \<Rightarrow> nat \<Rightarrow> byte list" where
  "le_bytes 0 v = []"
| "le_bytes (Suc k) v = word_of_nat (v mod 256) # le_bytes k (v div 256)"

fun of_le_bytes :: "byte list \<Rightarrow> nat" where
  "of_le_bytes [] = 0"
| "of_le_bytes (b # bs) = unat b + 256 * of_le_bytes bs"

text \<open>
  \<open>binary.Write\<close> is generic in the type of its argument and refuses types without a
  fixed size; \<open>int\<close> is one of them.
\<close>

datatype le_value = U32 uint32 | U64 uint64 | GoInt int

fun WriteLE :: "le_value encoder" where
  "WriteLE (U32 w) = Inr (le_bytes 4 (unat w))"
| "WriteLE (U64 w) = Inr (le_bytes 8 (unat w))"
| "WriteLE (GoInt i) = Inl NotFixedSize"

definition dbind :: "'a decoder \<Rightarrow> ('a \<Rightarrow> 'b decoder) \<Rightarrow> 'b decoder" where
  "dbind d f bs = (case d bs of Inl e \<Rightarrow> Inl e | Inr (x, r) \<Rightarrow> f x r)"

definition dreturn :: "'a \<Rightarrow> 'a decoder" where
  "dreturn x bs = Inr (x, bs)"

definition ReadLE_uint32 :: "uint32 decoder" where
  "ReadLE_uint32 = dbind (ReadFull 4) (\<lambda>b. dreturn (word_of_nat (of_le_bytes b)))"

definition ReadLE_uint64 :: "uint64 decoder" where
  "ReadLE_uint64 = dbind (ReadFull 8) (\<lambda>b. dreturn (word_of_nat (of_le_bytes b)))"

text \<open>Consecutive writes: the first error stops the sequence.\<close>

fun write_all :: "(encode_error + byte list) list \<Rightarrow> encode_error + byte list" where
  "write_all [] = Inr []"
| "write_all (w # ws) = rbind w (\<lambda>b. rbind (write_all ws) (\<lambda>bs. Inr (b @ bs)))"

section \<open>Length-prefixed slices\<close>

text \<open>
  Every slice is written as its length (\<open>uint64\<close>) and its elements. Reading one
  allocates it first: \<open>make([]T, n)\<close> panics when \<open>n\<close> elements of \<open>T\<close> do not fit into the
  address space (\<open>maxAlloc\<close> of the Go runtime on 64-bit Linux); \<open>sz\<close> is the size of \<open>T\<close>.
\<close>

definition maxAlloc :: nat where
  "maxAlloc = 2 ^ 48"

definition encode_slice :: "'a encoder \<Rightarrow> 'a list encoder" where
  "encode_slice enc xs =
     write_all (WriteLE (U64 (word_of_nat (length xs))) # map enc xs)"

primrec decode_n :: "'a decoder \<Rightarrow> nat \<Rightarrow> 'a list decoder" where
  "decode_n dec 0 = dreturn []"
| "decode_n dec (Suc n) = dbind dec (\<lambda>x. dbind (decode_n dec n) (\<lambda>xs. dreturn (x # xs)))"

definition decode_slice :: "nat \<Rightarrow> 'a decoder \<Rightarrow> 'a list decoder" where
  "decode_slice sz dec =
     dbind ReadLE_uint64 (\<lambda>n bs.
       if unat n * sz > maxAlloc then Inl MakeSlicePanic else decode_n dec (unat n) bs)"

definition wf_slice :: "nat \<Rightarrow> ('a \<Rightarrow> bool) \<Rightarrow> 'a list \<Rightarrow> bool" where
  "wf_slice sz valid xs \<longleftrightarrow> (\<forall>x\<in>set xs. valid x) \<and> length xs * sz \<le> maxAlloc"

text \<open>\<open>ReadString\<close> and \<open>WriteString\<close>; a string is its bytes.\<close>

definition ReadString :: "byte list decoder" where
  "ReadString =
     dbind ReadLE_uint64 (\<lambda>l bs.
       if unat l > maxAlloc then Inl MakeSlicePanic else ReadFull (unat l) bs)"

definition WriteString :: "byte list encoder" where
  "WriteString s = write_all [WriteLE (U64 (word_of_nat (length s))), Inr s]"

section \<open>Lemmas about the primitives\<close>

lemma dbind_Inr [codec_simps]:
  "dbind d f bs = Inr (y, rest) \<longleftrightarrow> (\<exists>x r. d bs = Inr (x, r) \<and> f x r = Inr (y, rest))"
  by (auto simp: dbind_def split: sum.splits prod.splits)

lemma dreturn_Inr [codec_simps]: "dreturn x bs = Inr (y, rest) \<longleftrightarrow> y = x \<and> rest = bs"
  by (auto simp: dreturn_def)

lemma write_all_Cons_Inr [codec_simps]:
  "write_all (w # ws) = Inr b \<longleftrightarrow>
     (\<exists>b1 b2. w = Inr b1 \<and> write_all ws = Inr b2 \<and> b = b1 @ b2)"
  by (auto simp: rbind_Inr_iff)

lemma write_all_Nil_Inr [codec_simps]: "write_all [] = Inr b \<longleftrightarrow> b = []"
  by auto

declare write_all.simps [simp del]

lemma write_all_Cons: "write_all (w # ws) = rbind w (\<lambda>b. rbind (write_all ws) (\<lambda>bs. Inr (b @ bs)))"
  by (simp add: write_all.simps)

lemma write_all_total: "(\<forall>w\<in>set ws. \<exists>b. w = Inr b) \<Longrightarrow> \<exists>b. write_all ws = Inr b"
  by (induction ws) (auto simp: codec_simps)

lemma length_le_bytes [simp]: "length (le_bytes k v) = k"
  by (induction k arbitrary: v) auto

lemma of_le_le: "v < 256 ^ k \<Longrightarrow> of_le_bytes (le_bytes k v) = v"
proof (induction k arbitrary: v)
  case 0
  then show ?case by simp
next
  case (Suc k)
  have "v div 256 < 256 ^ k"
    using Suc.prems by (simp add: less_mult_imp_div_less mult.commute)
  then have "of_le_bytes (le_bytes k (v div 256)) = v div 256"
    by (rule Suc.IH)
  moreover have "unat (word_of_nat (v mod 256) :: byte) = v mod 256"
    by (simp add: unat_of_nat)
  ultimately show ?case by simp
qed

lemma of_le_bytes_less: "of_le_bytes bs < 256 ^ length bs"
proof (induction bs)
  case Nil
  then show ?case by simp
next
  case (Cons b bs)
  have "unat b < 256" using unsigned_less [of b] by simp
  with Cons show ?case by simp
qed

lemma le_of_le: "le_bytes (length bs) (of_le_bytes bs) = bs"
proof (induction bs)
  case Nil
  then show ?case by simp
next
  case (Cons b bs)
  have b: "unat b < 256" using unsigned_less [of b] by simp
  then have "(unat b + 256 * of_le_bytes bs) mod 256 = unat b"
    and "(unat b + 256 * of_le_bytes bs) div 256 = of_le_bytes bs"
    by simp_all
  with Cons show ?case by simp
qed

lemma ReadFull_Inr [codec_simps]:
  "ReadFull n bs = Inr (x, rest) \<longleftrightarrow> length x = n \<and> bs = x @ rest"
  by (auto simp: ReadFull_def)

lemma uint64_le: "of_le_bytes (le_bytes 8 (unat n)) = unat n" for n :: uint64
proof (rule of_le_le)
  show "unat n < 256 ^ 8" using unsigned_less [of n] by simp
qed

lemma uint32_le: "of_le_bytes (le_bytes 4 (unat n)) = unat n" for n :: uint32
proof (rule of_le_le)
  show "unat n < 256 ^ 4" using unsigned_less [of n] by simp
qed

lemma ReadLE_uint64_iff: "ReadLE_uint64 bs = Inr (n, r) \<longleftrightarrow> bs = le_bytes 8 (unat n) @ r"
proof
  assume "ReadLE_uint64 bs = Inr (n, r)"
  then obtain x where x: "length x = 8" "bs = x @ r" "n = word_of_nat (of_le_bytes x)"
    by (auto simp: ReadLE_uint64_def codec_simps)
  then have "of_le_bytes x < 2 ^ 64" using of_le_bytes_less [of x] by simp
  with x have "unat n = of_le_bytes x" by (simp add: unat_of_nat)
  with x show "bs = le_bytes 8 (unat n) @ r" using le_of_le [of x] by simp
next
  assume "bs = le_bytes 8 (unat n) @ r"
  then show "ReadLE_uint64 bs = Inr (n, r)"
    using uint64_le by (auto simp: ReadLE_uint64_def codec_simps)
qed

lemma ReadLE_uint32_iff: "ReadLE_uint32 bs = Inr (n, r) \<longleftrightarrow> bs = le_bytes 4 (unat n) @ r"
proof
  assume "ReadLE_uint32 bs = Inr (n, r)"
  then obtain x where x: "length x = 4" "bs = x @ r" "n = word_of_nat (of_le_bytes x)"
    by (auto simp: ReadLE_uint32_def codec_simps)
  then have "of_le_bytes x < 2 ^ 32" using of_le_bytes_less [of x] by simp
  with x have "unat n = of_le_bytes x" by (simp add: unat_of_nat)
  with x show "bs = le_bytes 4 (unat n) @ r" using le_of_le [of x] by simp
next
  assume "bs = le_bytes 4 (unat n) @ r"
  then show "ReadLE_uint32 bs = Inr (n, r)"
    using uint32_le by (auto simp: ReadLE_uint32_def codec_simps)
qed

section \<open>The contract of an encoder/decoder pair\<close>

text \<open>
  \<open>valid\<close> are the values of the Go type. The decoder accepts exactly the encodings of such
  values, in front of any rest, and every such value has an encoding.
\<close>

locale codec =
  fixes enc :: "'a encoder"
    and dec :: "'a decoder"
    and valid :: "'a \<Rightarrow> bool"
  assumes dec_iff: "dec bs = Inr (x, rest) \<longleftrightarrow> valid x \<and> (\<exists>b. enc x = Inr b \<and> bs = b @ rest)"
    and enc_total: "valid x \<Longrightarrow> \<exists>b. enc x = Inr b"
begin

lemma dec_enc: "valid x \<Longrightarrow> enc x = Inr b \<Longrightarrow> dec (b @ rest) = Inr (x, rest)"
  by (simp add: dec_iff)

lemma enc_dec: "dec bs = Inr (x, rest) \<Longrightarrow> valid x \<and> (\<exists>b. enc x = Inr b \<and> bs = b @ rest)"
  by (simp add: dec_iff)

lemma prefix_free:
  assumes "valid x" "valid y" "enc x = Inr b" "enc y = Inr c" "b @ r = c @ s"
  shows "x = y \<and> r = s"
proof -
  have "dec (b @ r) = Inr (x, r)" "dec (c @ s) = Inr (y, s)"
    by (intro dec_enc assms)+
  with assms(5) show ?thesis by simp
qed

lemma decode_n_iff:
  "decode_n dec n bs = Inr (xs, rest) \<longleftrightarrow>
     length xs = n \<and> (\<forall>x\<in>set xs. valid x) \<and> (\<exists>b. write_all (map enc xs) = Inr b \<and> bs = b @ rest)"
proof (induction n arbitrary: bs xs)
  case 0
  then show ?case by (auto simp: codec_simps)
next
  case (Suc n)
  show ?case
  proof (cases xs)
    case Nil
    then show ?thesis by (simp add: codec_simps)
  next
    case (Cons y ys)
    then show ?thesis
      by (auto simp: codec_simps Suc.IH dec_iff)
  qed
qed

text \<open>A length prefix followed by that many elements, without the allocation check.\<close>

lemma counted_iff:
  "dbind ReadLE_uint64 (\<lambda>n. decode_n dec (unat n)) bs = Inr (xs, rest) \<longleftrightarrow>
     length xs < 2 ^ 64 \<and> (\<forall>x\<in>set xs. valid x) \<and>
     (\<exists>b. encode_slice enc xs = Inr b \<and> bs = b @ rest)"
proof
  assume "dbind ReadLE_uint64 (\<lambda>n. decode_n dec (unat n)) bs = Inr (xs, rest)"
  then obtain n :: uint64 and r where n: "bs = le_bytes 8 (unat n) @ r"
    and d: "decode_n dec (unat n) r = Inr (xs, rest)"
    by (auto simp: codec_simps ReadLE_uint64_iff)
  then have "length xs = unat n" by (simp add: decode_n_iff)
  moreover have "unat n < 2 ^ 64" using unsigned_less [of n] by simp
  ultimately show "length xs < 2 ^ 64 \<and> (\<forall>x\<in>set xs. valid x) \<and>
     (\<exists>b. encode_slice enc xs = Inr b \<and> bs = b @ rest)"
    using n d by (auto simp: decode_n_iff encode_slice_def codec_simps)
next
  assume "length xs < 2 ^ 64 \<and> (\<forall>x\<in>set xs. valid x) \<and>
     (\<exists>b. encode_slice enc xs = Inr b \<and> bs = b @ rest)"
  then show "dbind ReadLE_uint64 (\<lambda>n. decode_n dec (unat n)) bs = Inr (xs, rest)"
    by (auto simp: codec_simps encode_slice_def ReadLE_uint64_iff decode_n_iff unat_of_nat
        intro!: exI [of _ "word_of_nat (length xs)"])
qed

lemma slice_codec:
  assumes "0 < sz"
  shows "codec (encode_slice enc) (decode_slice sz dec) (wf_slice sz valid)"
proof
  fix bs rest and xs :: "'a list"
  have w: "unat (word_of_nat (length xs) :: uint64) = length xs" if "length xs * sz \<le> maxAlloc"
  proof -
    have "length xs \<le> length xs * sz" using assms by simp
    then have "length xs \<le> 2 ^ 48" using that unfolding maxAlloc_def by (rule le_trans)
    also have "(2::nat) ^ 48 < 2 ^ 64" by simp
    finally have "length xs < 2 ^ 64" .
    then show ?thesis by (simp add: unat_of_nat)
  qed
  show "decode_slice sz dec bs = Inr (xs, rest) \<longleftrightarrow>
      wf_slice sz valid xs \<and> (\<exists>b. encode_slice enc xs = Inr b \<and> bs = b @ rest)"
  proof
    assume "decode_slice sz dec bs = Inr (xs, rest)"
    then obtain n :: uint64 and r where n: "bs = le_bytes 8 (unat n) @ r" "\<not> maxAlloc < unat n * sz"
      and d: "decode_n dec (unat n) r = Inr (xs, rest)"
      by (auto simp: decode_slice_def codec_simps ReadLE_uint64_iff split: if_splits)
    then have "length xs = unat n" by (simp add: decode_n_iff)
    with n d show "wf_slice sz valid xs \<and> (\<exists>b. encode_slice enc xs = Inr b \<and> bs = b @ rest)"
      by (auto simp: decode_n_iff wf_slice_def encode_slice_def codec_simps)
  next
    assume "wf_slice sz valid xs \<and> (\<exists>b. encode_slice enc xs = Inr b \<and> bs = b @ rest)"
    then show "decode_slice sz dec bs = Inr (xs, rest)"
      using w by (auto simp: decode_slice_def wf_slice_def encode_slice_def codec_simps
          ReadLE_uint64_iff decode_n_iff intro!: exI [of _ "word_of_nat (length xs)"])
  qed
next
  fix xs
  assume "wf_slice sz valid xs"
  then have "\<exists>b. write_all (map enc xs) = Inr b"
    by (intro write_all_total) (auto simp: wf_slice_def enc_total)
  then show "\<exists>b. encode_slice enc xs = Inr b"
    by (auto simp: encode_slice_def codec_simps)
qed

end

end
