(* ===== verification/VanillaProof.thy ===== *)
theory VanillaProof
  imports Bincode
begin

text \<open>
  The vanilla proof structures of package \<open>lib/proof\<close> (\<open>merkle.go\<close>,
  \<open>porep_vproof_types.go\<close>, \<open>post_vproof_types.go\<close>) and their bincode encoders and
  decoders (\<open>porep_vproof_bin_encode.go\<close>, \<open>porep_vproof_bin_decode.go\<close>,
  \<open>post_vproof_bin_decode.go\<close>), one definition per Go function.

  The Go types are generic in the hasher domain, which is always \<open>[32]byte\<close>; an array is
  the list of its bytes, and the \<open>valid_\<close> predicates say that its length is 32 and that a
  slice fits into memory. A pointer is an \<open>option\<close>.
\<close>

section \<open>Data\<close>

type_synonym Commitment = "byte list"
type_synonym Ticket = "byte list"
type_synonym HasherDomain = "byte list"

record PathElement =
  pe_Hashes :: "HasherDomain list"
  pe_Index :: uint64

record InclusionPath =
  ip_Path :: "PathElement list"

record SingleProof =
  single_Root :: HasherDomain
  single_Leaf :: HasherDomain
  single_Path :: InclusionPath

record SubProof =
  sub_BaseProof :: InclusionPath
  sub_SubProof :: InclusionPath
  sub_Root :: HasherDomain
  sub_Leaf :: HasherDomain

record TopProof =
  top_BaseProof :: InclusionPath
  top_SubProof :: InclusionPath
  top_TopProof :: InclusionPath
  top_Root :: HasherDomain
  top_Leaf :: HasherDomain

record ProofData =
  pd_Single :: "SingleProof option"
  pd_Sub :: "SubProof option"
  pd_Top :: "TopProof option"

record MerkleProof =
  mp_Data :: ProofData

text \<open>\<open>Column.H\<close> has type \<open>any\<close>; neither side of the codec touches it.\<close>

record Column =
  col_Index :: uint32
  col_Rows :: "HasherDomain list"
  col_H :: "string option"

record ColumnProof =
  cp_Column :: Column
  cp_InclusionProof :: MerkleProof

record ReplicaColumnProof =
  rcp_C_X :: ColumnProof
  rcp_DrgParents :: "ColumnProof list"
  rcp_ExpParents :: "ColumnProof list"

record LabelingProof =
  lp_Parents :: "HasherDomain list"
  lp_LayerIndex :: uint32
  lp_Node :: uint64

record EncodingProof =
  ep_Parents :: "HasherDomain list"
  ep_LayerIndex :: uint32
  ep_Node :: uint64

record VanillaStackedProof =
  vsp_CommDProofs :: MerkleProof
  vsp_CommRLastProof :: MerkleProof
  vsp_ReplicaColumnProofs :: ReplicaColumnProof
  vsp_LabelingProofs :: "LabelingProof list"
  vsp_EncodingProof :: EncodingProof

record Commit1OutRaw =
  c1_CommD :: Commitment
  c1_CommR :: Commitment
  c1_RegisteredProof :: string
  c1_ReplicaID :: Commitment
  c1_Seed :: Ticket
  c1_Ticket :: Ticket
  c1_VanillaProofs :: "string \<rightharpoonup> VanillaStackedProof list list"

record SectorProof =
  sp_InclusionProofs :: "MerkleProof list"
  sp_CommC :: HasherDomain
  sp_CommRLast :: HasherDomain

record VanillaProof =
  vp_Sectors :: "SectorProof list"

record FallbackPoStSectorProof =
  fp_SectorID :: uint64
  fp_CommR :: HasherDomain
  fp_VanillaProof :: VanillaProof

section \<open>Encoders\<close>

definition EncodeHasherDomain :: "HasherDomain encoder" where
  "EncodeHasherDomain h = Inr h"

definition EncodeTicket :: "Ticket encoder" where
  "EncodeTicket t = Inr t"

definition EncodeCommitment :: "Commitment encoder" where
  "EncodeCommitment c = Inr c"

definition EncodePathElement :: "PathElement encoder" where
  "EncodePathElement pe =
     write_all [encode_slice EncodeHasherDomain (pe_Hashes pe), WriteLE (U64 (pe_Index pe))]"

definition EncodeInclusionPath :: "InclusionPath encoder" where
  "EncodeInclusionPath ip = encode_slice EncodePathElement (ip_Path ip)"

definition EncodeSingleProof :: "SingleProof encoder" where
  "EncodeSingleProof sp =
     write_all [EncodeHasherDomain (single_Root sp), EncodeHasherDomain (single_Leaf sp),
       EncodeInclusionPath (single_Path sp)]"

definition EncodeSubProof :: "SubProof encoder" where
  "EncodeSubProof sp =
     write_all [EncodeInclusionPath (sub_BaseProof sp), EncodeInclusionPath (sub_SubProof sp),
       EncodeHasherDomain (sub_Root sp), EncodeHasherDomain (sub_Leaf sp)]"

definition EncodeTopProof :: "TopProof encoder" where
  "EncodeTopProof tp =
     write_all [EncodeInclusionPath (top_BaseProof tp), EncodeInclusionPath (top_SubProof tp),
       EncodeInclusionPath (top_TopProof tp),
       EncodeHasherDomain (top_Root tp), EncodeHasherDomain (top_Leaf tp)]"

text \<open>The first non-nil pointer decides the tag.\<close>

definition EncodeProofData :: "ProofData encoder" where
  "EncodeProofData pd =
     (case pd_Single pd of
        Some s \<Rightarrow> write_all [WriteLE (U32 0), EncodeSingleProof s]
      | None \<Rightarrow> (case pd_Sub pd of
          Some s \<Rightarrow> write_all [WriteLE (U32 1), EncodeSubProof s]
        | None \<Rightarrow> (case pd_Top pd of
            Some t \<Rightarrow> write_all [WriteLE (U32 2), EncodeTopProof t]
          | None \<Rightarrow> Inl ProofDataNil)))"

definition EncodeMerkleProof :: "MerkleProof encoder" where
  "EncodeMerkleProof m = EncodeProofData (mp_Data m)"

definition EncodeColumn :: "Column encoder" where
  "EncodeColumn c =
     write_all [WriteLE (U32 (col_Index c)), encode_slice EncodeHasherDomain (col_Rows c)]"

definition EncodeColumnProof :: "ColumnProof encoder" where
  "EncodeColumnProof cp =
     write_all [EncodeColumn (cp_Column cp), EncodeMerkleProof (cp_InclusionProof cp)]"

definition EncodeReplicaColumnProof :: "ReplicaColumnProof encoder" where
  "EncodeReplicaColumnProof rcp =
     write_all [EncodeColumnProof (rcp_C_X rcp),
       encode_slice EncodeColumnProof (rcp_DrgParents rcp),
       encode_slice EncodeColumnProof (rcp_ExpParents rcp)]"

definition EncodeLabelingProof :: "LabelingProof encoder" where
  "EncodeLabelingProof lp =
     write_all [encode_slice EncodeHasherDomain (lp_Parents lp),
       WriteLE (U32 (lp_LayerIndex lp)), WriteLE (U64 (lp_Node lp))]"

definition EncodeEncodingProof :: "EncodingProof encoder" where
  "EncodeEncodingProof ep =
     write_all [encode_slice EncodeHasherDomain (ep_Parents ep),
       WriteLE (U32 (ep_LayerIndex ep)), WriteLE (U64 (ep_Node ep))]"

definition EncodeVanillaStackedProof :: "VanillaStackedProof encoder" where
  "EncodeVanillaStackedProof v =
     write_all [EncodeMerkleProof (vsp_CommDProofs v), EncodeMerkleProof (vsp_CommRLastProof v),
       EncodeReplicaColumnProof (vsp_ReplicaColumnProofs v),
       encode_slice EncodeLabelingProof (vsp_LabelingProofs v),
       EncodeEncodingProof (vsp_EncodingProof v)]"

text \<open>
  Without the \<open>StackedDrg32GiBV1\<close> entry the code calls \<open>WriteLE(w, 0)\<close>, whose argument
  has type \<open>int\<close>.
\<close>

definition EncodeCommit1OutRaw :: "Commit1OutRaw encoder" where
  "EncodeCommit1OutRaw c =
     write_all
       [(case c1_VanillaProofs c ''StackedDrg32GiBV1'' of
           None \<Rightarrow> WriteLE (GoInt 0)
         | Some proofs \<Rightarrow> encode_slice (encode_slice EncodeVanillaStackedProof) proofs),
        EncodeCommitment (c1_CommR c), EncodeCommitment (c1_CommD c),
        EncodeCommitment (c1_ReplicaID c), EncodeTicket (c1_Seed c), EncodeTicket (c1_Ticket c)]"

section \<open>Decoders\<close>

text \<open>
  The first argument of \<open>decode_slice\<close> is the size of the Go element type in bytes:
  32 for a domain and a \<open>PathElement\<close>, 72 for a \<open>ColumnProof\<close>, 40 for a
  \<open>LabelingProof\<close>, 232 for a \<open>VanillaStackedProof\<close>, 24 for a \<open>MerkleProof\<close> and 88 for a
  \<open>SectorProof\<close>.
\<close>

definition DecodeHasherDomain :: "HasherDomain decoder" where
  "DecodeHasherDomain = ReadFull 32"

definition DecodeTicket :: "Ticket decoder" where
  "DecodeTicket = ReadFull 32"

definition DecodeCommitment :: "Commitment decoder" where
  "DecodeCommitment = ReadFull 32"

definition DecodePathElement :: "PathElement decoder" where
  "DecodePathElement =
     dbind (decode_slice 32 DecodeHasherDomain) (\<lambda>hashes.
     dbind ReadLE_uint64 (\<lambda>idx.
     dreturn \<lparr>pe_Hashes = hashes, pe_Index = idx\<rparr>))"

definition DecodeInclusionPath :: "InclusionPath decoder" where
  "DecodeInclusionPath =
     dbind (decode_slice 32 DecodePathElement) (\<lambda>path. dreturn \<lparr>ip_Path = path\<rparr>)"

definition DecodeSingleProof :: "SingleProof decoder" where
  "DecodeSingleProof =
     dbind DecodeHasherDomain (\<lambda>root.
     dbind DecodeHasherDomain (\<lambda>leaf.
     dbind DecodeInclusionPath (\<lambda>path.
     dreturn \<lparr>single_Root = root, single_Leaf = leaf, single_Path = path\<rparr>)))"

definition DecodeSubProof :: "SubProof decoder" where
  "DecodeSubProof =
     dbind DecodeInclusionPath (\<lambda>base.
     dbind DecodeInclusionPath (\<lambda>sub.
     dbind DecodeHasherDomain (\<lambda>root.
     dbind DecodeHasherDomain (\<lambda>leaf.
     dreturn \<lparr>sub_BaseProof = base, sub_SubProof = sub, sub_Root = root, sub_Leaf = leaf\<rparr>))))"

definition DecodeTopProof :: "TopProof decoder" where
  "DecodeTopProof =
     dbind DecodeInclusionPath (\<lambda>base.
     dbind DecodeInclusionPath (\<lambda>sub.
     dbind DecodeInclusionPath (\<lambda>top.
     dbind DecodeHasherDomain (\<lambda>root.
     dbind DecodeHasherDomain (\<lambda>leaf.
     dreturn \<lparr>top_BaseProof = base, top_SubProof = sub, top_TopProof = top,
       top_Root = root, top_Leaf = leaf\<rparr>)))))"

definition DecodeProofData :: "ProofData decoder" where
  "DecodeProofData =
     dbind ReadLE_uint32 (\<lambda>proofType.
       if proofType = 0 then
         dbind DecodeSingleProof (\<lambda>s. dreturn \<lparr>pd_Single = Some s, pd_Sub = None, pd_Top = None\<rparr>)
       else if proofType = 1 then
         dbind DecodeSubProof (\<lambda>s. dreturn \<lparr>pd_Single = None, pd_Sub = Some s, pd_Top = None\<rparr>)
       else if proofType = 2 then
         dbind DecodeTopProof (\<lambda>t. dreturn \<lparr>pd_Single = None, pd_Sub = None, pd_Top = Some t\<rparr>)
       else (\<lambda>_. Inl (UnknownProofType proofType)))"

definition DecodeMerkleProof :: "MerkleProof decoder" where
  "DecodeMerkleProof = dbind DecodeProofData (\<lambda>d. dreturn \<lparr>mp_Data = d\<rparr>)"

definition DecodeColumn :: "Column decoder" where
  "DecodeColumn =
     dbind ReadLE_uint32 (\<lambda>idx.
     dbind (decode_slice 32 DecodeHasherDomain) (\<lambda>rows.
     dreturn \<lparr>col_Index = idx, col_Rows = rows, col_H = None\<rparr>))"

definition DecodeColumnProof :: "ColumnProof decoder" where
  "DecodeColumnProof =
     dbind DecodeColumn (\<lambda>c.
     dbind DecodeMerkleProof (\<lambda>m.
     dreturn \<lparr>cp_Column = c, cp_InclusionProof = m\<rparr>))"

definition DecodeReplicaColumnProof :: "ReplicaColumnProof decoder" where
  "DecodeReplicaColumnProof =
     dbind DecodeColumnProof (\<lambda>cx.
     dbind (decode_slice 72 DecodeColumnProof) (\<lambda>drg.
     dbind (decode_slice 72 DecodeColumnProof) (\<lambda>exp_ps.
     dreturn \<lparr>rcp_C_X = cx, rcp_DrgParents = drg, rcp_ExpParents = exp_ps\<rparr>)))"

definition DecodeLabelingProof :: "LabelingProof decoder" where
  "DecodeLabelingProof =
     dbind (decode_slice 32 DecodeHasherDomain) (\<lambda>parents.
     dbind ReadLE_uint32 (\<lambda>layer.
     dbind ReadLE_uint64 (\<lambda>node.
     dreturn \<lparr>lp_Parents = parents, lp_LayerIndex = layer, lp_Node = node\<rparr>)))"

definition DecodeEncodingProof :: "EncodingProof decoder" where
  "DecodeEncodingProof =
     dbind (decode_slice 32 DecodeHasherDomain) (\<lambda>parents.
     dbind ReadLE_uint32 (\<lambda>layer.
     dbind ReadLE_uint64 (\<lambda>node.
     dreturn \<lparr>ep_Parents = parents, ep_LayerIndex = layer, ep_Node = node\<rparr>)))"

definition DecodeVanillaStackedProof :: "VanillaStackedProof decoder" where
  "DecodeVanillaStackedProof =
     dbind DecodeMerkleProof (\<lambda>d.
     dbind DecodeMerkleProof (\<lambda>r.
     dbind DecodeReplicaColumnProof (\<lambda>rcp.
     dbind (decode_slice 40 DecodeLabelingProof) (\<lambda>lps.
     dbind DecodeEncodingProof (\<lambda>ep.
     dreturn \<lparr>vsp_CommDProofs = d, vsp_CommRLastProof = r, vsp_ReplicaColumnProofs = rcp,
       vsp_LabelingProofs = lps, vsp_EncodingProof = ep\<rparr>)))))"

text \<open>
  The outer slice is grown with \<open>append\<close>, one entry of the map per iteration, so no
  iteration leaves the map empty. After the last field the reader must be at its end.
\<close>

definition DecodeCommit1OutRaw :: "byte list \<Rightarrow> decode_error + Commit1OutRaw" where
  "DecodeCommit1OutRaw bs =
     rbind
       (dbind ReadLE_uint64 (\<lambda>vpOuterLength.
        dbind (decode_n (decode_slice 232 DecodeVanillaStackedProof) (unat vpOuterLength)) (\<lambda>proofs.
        dbind DecodeCommitment (\<lambda>commR.
        dbind DecodeCommitment (\<lambda>commD.
        dbind DecodeCommitment (\<lambda>replicaID.
        dbind DecodeTicket (\<lambda>seed.
        dbind DecodeTicket (\<lambda>ticket.
        dreturn \<lparr>c1_CommD = commD, c1_CommR = commR, c1_RegisteredProof = ''StackedDrg32GiBV1_1'',
          c1_ReplicaID = replicaID, c1_Seed = seed, c1_Ticket = ticket,
          c1_VanillaProofs =
            (if proofs = [] then Map.empty else [''StackedDrg32GiBV1'' \<mapsto> proofs])\<rparr>))))))) bs)
       (\<lambda>(out, rest). if rest = [] then Inr out else Inl ExpectedEOF)"

definition DecodeSectorProof :: "SectorProof decoder" where
  "DecodeSectorProof =
     dbind (decode_slice 24 DecodeMerkleProof) (\<lambda>ips.
     dbind DecodeHasherDomain (\<lambda>commC.
     dbind DecodeHasherDomain (\<lambda>commRLast.
     dreturn \<lparr>sp_InclusionProofs = ips, sp_CommC = commC, sp_CommRLast = commRLast\<rparr>)))"

definition DecodeVanillaProof :: "VanillaProof decoder" where
  "DecodeVanillaProof =
     dbind (decode_slice 88 DecodeSectorProof) (\<lambda>ss. dreturn \<lparr>vp_Sectors = ss\<rparr>)"

definition DecodeFallbackPoStSectorProof :: "FallbackPoStSectorProof decoder" where
  "DecodeFallbackPoStSectorProof =
     dbind ReadLE_uint64 (\<lambda>sid.
     dbind DecodeHasherDomain (\<lambda>commR.
     dbind DecodeVanillaProof (\<lambda>vp.
     dreturn \<lparr>fp_SectorID = sid, fp_CommR = commR, fp_VanillaProof = vp\<rparr>)))"

section \<open>Registered proof names\<close>

text \<open>
  The numbers of \<open>abi.RegisteredSealProof\<close> as the comment in
  \<open>porep_vproof_types.go\<close> lists them; a \<open>switch\<close> over distinct constants is a lookup.
\<close>

definition ToABI :: "string \<Rightarrow> int option" where
  "ToABI = map_of
    [(''StackedDrg2KiBV1'', 0),
     (''StackedDrg8MiBV1'', 1),
     (''StackedDrg512MiBV1'', 2),
     (''StackedDrg32GiBV1'', 3),
     (''StackedDrg64GiBV1'', 4),
     (''StackedDrg2KiBV1_1'', 5),
     (''StackedDrg8MiBV1_1'', 6),
     (''StackedDrg512MiBV1_1'', 7),
     (''StackedDrg32GiBV1_1'', 8),
     (''StackedDrg64GiBV1_1'', 9),
     (''StackedDrg2KiBV1_1_Feat_SyntheticPoRep'', 10),
     (''StackedDrg8MiBV1_1_Feat_SyntheticPoRep'', 11),
     (''StackedDrg512MiBV1_1_Feat_SyntheticPoRep'', 12),
     (''StackedDrg32GiBV1_1_Feat_SyntheticPoRep'', 13),
     (''StackedDrg64GiBV1_1_Feat_SyntheticPoRep'', 14),
     (''StackedDrg2KiBV1_2_Feat_NonInteractivePoRep'', 15),
     (''StackedDrg8MiBV1_2_Feat_NonInteractivePoRep'', 16),
     (''StackedDrg512MiBV1_2_Feat_NonInteractivePoRep'', 17),
     (''StackedDrg32GiBV1_2_Feat_NonInteractivePoRep'', 18),
     (''StackedDrg64GiBV1_2_Feat_NonInteractivePoRep'', 19)]"

definition StringProofFromAbi :: "int \<Rightarrow> string option" where
  "StringProofFromAbi = map_of
    [(0, ''StackedDrg2KiBV1''),
     (1, ''StackedDrg8MiBV1''),
     (2, ''StackedDrg512MiBV1''),
     (3, ''StackedDrg32GiBV1''),
     (4, ''StackedDrg64GiBV1''),
     (5, ''StackedDrg2KiBV1_1''),
     (6, ''StackedDrg8MiBV1_1''),
     (7, ''StackedDrg512MiBV1_1''),
     (8, ''StackedDrg32GiBV1_1''),
     (9, ''StackedDrg64GiBV1_1''),
     (10, ''StackedDrg2KiBV1_1_Feat_SyntheticPoRep''),
     (11, ''StackedDrg8MiBV1_1_Feat_SyntheticPoRep''),
     (12, ''StackedDrg512MiBV1_1_Feat_SyntheticPoRep''),
     (13, ''StackedDrg32GiBV1_1_Feat_SyntheticPoRep''),
     (14, ''StackedDrg64GiBV1_1_Feat_SyntheticPoRep''),
     (15, ''StackedDrg2KiBV1_2_Feat_NonInteractivePoRep''),
     (16, ''StackedDrg8MiBV1_2_Feat_NonInteractivePoRep''),
     (17, ''StackedDrg512MiBV1_2_Feat_NonInteractivePoRep''),
     (18, ''StackedDrg32GiBV1_2_Feat_NonInteractivePoRep''),
     (19, ''StackedDrg64GiBV1_2_Feat_NonInteractivePoRep'')]"

end
