(* ===== verification/VanillaCodec.thy ===== *)
theory VanillaCodec
  imports VanillaProof
begin

text \<open>
  Every encoder/decoder pair of the vanilla proof format meets the contract
  \<open>codec\<close> of theory Bincode: one interpretation per Go type, bottom up. The round
  trips of \<open>Commit1OutRaw\<close> and of the PoSt sector proof follow.
\<close>

section \<open>The values of the Go types\<close>

definition valid_domain :: "HasherDomain \<Rightarrow> bool" where
  "valid_domain h \<longleftrightarrow> length h = 32"

definition valid_PathElement :: "PathElement \<Rightarrow> bool" where
  "valid_PathElement pe \<longleftrightarrow> wf_slice 32 valid_domain (pe_Hashes pe)"

definition valid_InclusionPath :: "InclusionPath \<Rightarrow> bool" where
  "valid_InclusionPath ip \<longleftrightarrow> wf_slice 32 valid_PathElement (ip_Path ip)"

definition valid_SingleProof :: "SingleProof \<Rightarrow> bool" where
  "valid_SingleProof sp \<longleftrightarrow>
     valid_domain (single_Root sp) \<and> valid_domain (single_Leaf sp) \<and>
     valid_InclusionPath (single_Path sp)"

definition valid_SubProof :: "SubProof \<Rightarrow> bool" where
  "valid_SubProof sp \<longleftrightarrow>
     valid_InclusionPath (sub_BaseProof sp) \<and> valid_InclusionPath (sub_SubProof sp) \<and>
     valid_domain (sub_Root sp) \<and> valid_domain (sub_Leaf sp)"

definition valid_TopProof :: "TopProof \<Rightarrow> bool" where
  "valid_TopProof tp \<longleftrightarrow>
     valid_InclusionPath (top_BaseProof tp) \<and> valid_InclusionPath (top_SubProof tp) \<and>
     valid_InclusionPath (top_TopProof tp) \<and>
     valid_domain (top_Root tp) \<and> valid_domain (top_Leaf tp)"

text \<open>Exactly one of the three pointers is set, as in the Rust enum.\<close>

definition valid_ProofData :: "ProofData \<Rightarrow> bool" where
  "valid_ProofData pd \<longleftrightarrow>
     (case (pd_Single pd, pd_Sub pd, pd_Top pd) of
        (Some s, None, None) \<Rightarrow> valid_SingleProof s
      | (None, Some s, None) \<Rightarrow> valid_SubProof s
      | (None, None, Some t) \<Rightarrow> valid_TopProof t
      | _ \<Rightarrow> False)"

definition valid_MerkleProof :: "MerkleProof \<Rightarrow> bool" where
  "valid_MerkleProof m \<longleftrightarrow> valid_ProofData (mp_Data m)"

definition valid_Column :: "Column \<Rightarrow> bool" where
  "valid_Column c \<longleftrightarrow> wf_slice 32 valid_domain (col_Rows c) \<and> col_H c = None"

definition valid_ColumnProof :: "ColumnProof \<Rightarrow> bool" where
  "valid_ColumnProof cp \<longleftrightarrow>
     valid_Column (cp_Column cp) \<and> valid_MerkleProof (cp_InclusionProof cp)"

definition valid_ReplicaColumnProof :: "ReplicaColumnProof \<Rightarrow> bool" where
  "valid_ReplicaColumnProof r \<longleftrightarrow>
     valid_ColumnProof (rcp_C_X r) \<and> wf_slice 72 valid_ColumnProof (rcp_DrgParents r) \<and>
     wf_slice 72 valid_ColumnProof (rcp_ExpParents r)"

definition valid_LabelingProof :: "LabelingProof \<Rightarrow> bool" where
  "valid_LabelingProof lp \<longleftrightarrow> wf_slice 32 valid_domain (lp_Parents lp)"

definition valid_EncodingProof :: "EncodingProof \<Rightarrow> bool" where
  "valid_EncodingProof ep \<longleftrightarrow> wf_slice 32 valid_domain (ep_Parents ep)"

definition valid_VanillaStackedProof :: "VanillaStackedProof \<Rightarrow> bool" where
  "valid_VanillaStackedProof v \<longleftrightarrow>
     valid_MerkleProof (vsp_CommDProofs v) \<and> valid_MerkleProof (vsp_CommRLastProof v) \<and>
     valid_ReplicaColumnProof (vsp_ReplicaColumnProofs v) \<and>
     wf_slice 40 valid_LabelingProof (vsp_LabelingProofs v) \<and>
     valid_EncodingProof (vsp_EncodingProof v)"

text \<open>
  A \<open>Commit1OutRaw\<close> that the decoder can produce: the registered proof it fills in, and
  no entry of the map but the non-empty \<open>StackedDrg32GiBV1\<close> one.
\<close>

definition valid_Commit1OutRaw :: "Commit1OutRaw \<Rightarrow> bool" where
  "valid_Commit1OutRaw c \<longleftrightarrow>
     c1_RegisteredProof c = ''StackedDrg32GiBV1_1'' \<and>
     length (c1_CommR c) = 32 \<and> length (c1_CommD c) = 32 \<and> length (c1_ReplicaID c) = 32 \<and>
     length (c1_Seed c) = 32 \<and> length (c1_Ticket c) = 32 \<and>
     (case c1_VanillaProofs c ''StackedDrg32GiBV1'' of
        None \<Rightarrow> False
      | Some proofs \<Rightarrow> proofs \<noteq> [] \<and> c1_VanillaProofs c = [''StackedDrg32GiBV1'' \<mapsto> proofs] \<and>
          length proofs < 2 ^ 64 \<and> list_all (wf_slice 232 valid_VanillaStackedProof) proofs)"

section \<open>One interpretation per type\<close>

lemma WriteLE_iff [codec_simps]:
  "WriteLE (U64 w) = Inr b \<longleftrightarrow> b = le_bytes 8 (unat w)"
  "WriteLE (U32 v) = Inr b \<longleftrightarrow> b = le_bytes 4 (unat v)"
  by auto

declare ReadLE_uint64_iff [codec_simps] ReadLE_uint32_iff [codec_simps]

interpretation domain: codec EncodeHasherDomain DecodeHasherDomain valid_domain
  by unfold_locales
    (auto simp: EncodeHasherDomain_def DecodeHasherDomain_def valid_domain_def codec_simps)

interpretation domains: codec "encode_slice EncodeHasherDomain"
  "decode_slice 32 DecodeHasherDomain" "wf_slice 32 valid_domain"
  by (rule domain.slice_codec) simp

interpretation path_element: codec EncodePathElement DecodePathElement valid_PathElement
proof
  show "DecodePathElement bs = Inr (x, rest) \<longleftrightarrow>
      valid_PathElement x \<and> (\<exists>b. EncodePathElement x = Inr b \<and> bs = b @ rest)" for bs x rest
    by (cases x) (auto simp: EncodePathElement_def DecodePathElement_def valid_PathElement_def
        codec_simps domains.dec_iff)
  show "valid_PathElement x \<Longrightarrow> \<exists>b. EncodePathElement x = Inr b" for x
    by (auto simp: EncodePathElement_def valid_PathElement_def intro!: write_all_total domains.enc_total)
qed

interpretation path_elements: codec "encode_slice EncodePathElement"
  "decode_slice 32 DecodePathElement" "wf_slice 32 valid_PathElement"
  by (rule path_element.slice_codec) simp

interpretation path: codec EncodeInclusionPath DecodeInclusionPath valid_InclusionPath
proof
  show "DecodeInclusionPath bs = Inr (x, rest) \<longleftrightarrow>
      valid_InclusionPath x \<and> (\<exists>b. EncodeInclusionPath x = Inr b \<and> bs = b @ rest)" for bs x rest
    by (cases x) (auto simp: EncodeInclusionPath_def DecodeInclusionPath_def valid_InclusionPath_def
        codec_simps path_elements.dec_iff)
  show "valid_InclusionPath x \<Longrightarrow> \<exists>b. EncodeInclusionPath x = Inr b" for x
    by (auto simp: EncodeInclusionPath_def valid_InclusionPath_def intro!: write_all_total path_elements.enc_total)
qed

interpretation single: codec EncodeSingleProof DecodeSingleProof valid_SingleProof
proof
  show "DecodeSingleProof bs = Inr (x, rest) \<longleftrightarrow>
      valid_SingleProof x \<and> (\<exists>b. EncodeSingleProof x = Inr b \<and> bs = b @ rest)" for bs x rest
    by (cases x) (auto simp: EncodeSingleProof_def DecodeSingleProof_def valid_SingleProof_def
        codec_simps domain.dec_iff path.dec_iff)
  show "valid_SingleProof x \<Longrightarrow> \<exists>b. EncodeSingleProof x = Inr b" for x
    by (auto simp: EncodeSingleProof_def valid_SingleProof_def intro!: write_all_total domain.enc_total path.enc_total)
qed

interpretation sub: codec EncodeSubProof DecodeSubProof valid_SubProof
proof
  show "DecodeSubProof bs = Inr (x, rest) \<longleftrightarrow>
      valid_SubProof x \<and> (\<exists>b. EncodeSubProof x = Inr b \<and> bs = b @ rest)" for bs x rest
    by (cases x) (auto simp: EncodeSubProof_def DecodeSubProof_def valid_SubProof_def
        codec_simps domain.dec_iff path.dec_iff)
  show "valid_SubProof x \<Longrightarrow> \<exists>b. EncodeSubProof x = Inr b" for x
    by (auto simp: EncodeSubProof_def valid_SubProof_def intro!: write_all_total domain.enc_total path.enc_total)
qed

interpretation top: codec EncodeTopProof DecodeTopProof valid_TopProof
proof
  show "DecodeTopProof bs = Inr (x, rest) \<longleftrightarrow>
      valid_TopProof x \<and> (\<exists>b. EncodeTopProof x = Inr b \<and> bs = b @ rest)" for bs x rest
    by (cases x) (auto simp: EncodeTopProof_def DecodeTopProof_def valid_TopProof_def
        codec_simps domain.dec_iff path.dec_iff)
  show "valid_TopProof x \<Longrightarrow> \<exists>b. EncodeTopProof x = Inr b" for x
    by (auto simp: EncodeTopProof_def valid_TopProof_def intro!: write_all_total domain.enc_total path.enc_total)
qed

lemma DecodeProofData_iff:
  "DecodeProofData bs = Inr (pd, rest) \<longleftrightarrow>
     (\<exists>s r. bs = le_bytes 4 0 @ r \<and> DecodeSingleProof r = Inr (s, rest) \<and>
        pd = \<lparr>pd_Single = Some s, pd_Sub = None, pd_Top = None\<rparr>) \<or>
     (\<exists>s r. bs = le_bytes 4 1 @ r \<and> DecodeSubProof r = Inr (s, rest) \<and>
        pd = \<lparr>pd_Single = None, pd_Sub = Some s, pd_Top = None\<rparr>) \<or>
     (\<exists>s r. bs = le_bytes 4 2 @ r \<and> DecodeTopProof r = Inr (s, rest) \<and>
        pd = \<lparr>pd_Single = None, pd_Sub = None, pd_Top = Some s\<rparr>)"
  (is "?L \<longleftrightarrow> ?A \<or> ?B \<or> ?C")
proof
  assume ?L
  then show "?A \<or> ?B \<or> ?C"
    by (auto simp: DecodeProofData_def codec_simps split: if_splits)
next
  have tag: "ReadLE_uint32 (le_bytes 4 (unat n) @ r) = Inr (n, r)" for n r
    by (simp add: ReadLE_uint32_iff)
  assume "?A \<or> ?B \<or> ?C"
  then show ?L
    using tag [of 0] tag [of 1] tag [of 2]
    by (auto simp: DecodeProofData_def dbind_def dreturn_def)
qed

interpretation proof_data: codec EncodeProofData DecodeProofData valid_ProofData
proof
  show "DecodeProofData bs = Inr (x, rest) \<longleftrightarrow>
      valid_ProofData x \<and> (\<exists>b. EncodeProofData x = Inr b \<and> bs = b @ rest)" for bs x rest
    by (cases x) (auto simp: EncodeProofData_def DecodeProofData_iff valid_ProofData_def
        codec_simps single.dec_iff sub.dec_iff top.dec_iff split: option.splits)
  show "valid_ProofData x \<Longrightarrow> \<exists>b. EncodeProofData x = Inr b" for x
    by (auto simp: EncodeProofData_def valid_ProofData_def split: option.splits
        intro!: write_all_total single.enc_total sub.enc_total top.enc_total)
qed

interpretation merkle: codec EncodeMerkleProof DecodeMerkleProof valid_MerkleProof
proof
  show "DecodeMerkleProof bs = Inr (x, rest) \<longleftrightarrow>
      valid_MerkleProof x \<and> (\<exists>b. EncodeMerkleProof x = Inr b \<and> bs = b @ rest)" for bs x rest
    by (cases x) (auto simp: EncodeMerkleProof_def DecodeMerkleProof_def valid_MerkleProof_def
        codec_simps proof_data.dec_iff)
  show "valid_MerkleProof x \<Longrightarrow> \<exists>b. EncodeMerkleProof x = Inr b" for x
    by (auto simp: EncodeMerkleProof_def valid_MerkleProof_def intro!: write_all_total proof_data.enc_total)
qed

interpretation merkles: codec "encode_slice EncodeMerkleProof"
  "decode_slice 24 DecodeMerkleProof" "wf_slice 24 valid_MerkleProof"
  by (rule merkle.slice_codec) simp

interpretation column: codec EncodeColumn DecodeColumn valid_Column
proof
  show "DecodeColumn bs = Inr (x, rest) \<longleftrightarrow>
      valid_Column x \<and> (\<exists>b. EncodeColumn x = Inr b \<and> bs = b @ rest)" for bs x rest
    by (cases x) (auto simp: EncodeColumn_def DecodeColumn_def valid_Column_def
        codec_simps domains.dec_iff)
  show "valid_Column x \<Longrightarrow> \<exists>b. EncodeColumn x = Inr b" for x
    by (auto simp: EncodeColumn_def valid_Column_def intro!: write_all_total domains.enc_total)
qed

interpretation column_proof: codec EncodeColumnProof DecodeColumnProof valid_ColumnProof
proof
  show "DecodeColumnProof bs = Inr (x, rest) \<longleftrightarrow>
      valid_ColumnProof x \<and> (\<exists>b. EncodeColumnProof x = Inr b \<and> bs = b @ rest)" for bs x rest
    by (cases x) (auto simp: EncodeColumnProof_def DecodeColumnProof_def valid_ColumnProof_def
        codec_simps column.dec_iff merkle.dec_iff)
  show "valid_ColumnProof x \<Longrightarrow> \<exists>b. EncodeColumnProof x = Inr b" for x
    by (auto simp: EncodeColumnProof_def valid_ColumnProof_def intro!: write_all_total column.enc_total merkle.enc_total)
qed

interpretation column_proofs: codec "encode_slice EncodeColumnProof"
  "decode_slice 72 DecodeColumnProof" "wf_slice 72 valid_ColumnProof"
  by (rule column_proof.slice_codec) simp

interpretation replica: codec EncodeReplicaColumnProof DecodeReplicaColumnProof valid_ReplicaColumnProof
proof
  show "DecodeReplicaColumnProof bs = Inr (x, rest) \<longleftrightarrow>
      valid_ReplicaColumnProof x \<and> (\<exists>b. EncodeReplicaColumnProof x = Inr b \<and> bs = b @ rest)" for bs x rest
    by (cases x) (auto simp: EncodeReplicaColumnProof_def DecodeReplicaColumnProof_def valid_ReplicaColumnProof_def
        codec_simps column_proof.dec_iff column_proofs.dec_iff)
  show "valid_ReplicaColumnProof x \<Longrightarrow> \<exists>b. EncodeReplicaColumnProof x = Inr b" for x
    by (auto simp: EncodeReplicaColumnProof_def valid_ReplicaColumnProof_def intro!: write_all_total column_proof.enc_total column_proofs.enc_total)
qed

interpretation labeling: codec EncodeLabelingProof DecodeLabelingProof valid_LabelingProof
proof
  show "DecodeLabelingProof bs = Inr (x, rest) \<longleftrightarrow>
      valid_LabelingProof x \<and> (\<exists>b. EncodeLabelingProof x = Inr b \<and> bs = b @ rest)" for bs x rest
    by (cases x) (auto simp: EncodeLabelingProof_def DecodeLabelingProof_def valid_LabelingProof_def
        codec_simps domains.dec_iff)
  show "valid_LabelingProof x \<Longrightarrow> \<exists>b. EncodeLabelingProof x = Inr b" for x
    by (auto simp: EncodeLabelingProof_def valid_LabelingProof_def intro!: write_all_total domains.enc_total)
qed

interpretation labelings: codec "encode_slice EncodeLabelingProof"
  "decode_slice 40 DecodeLabelingProof" "wf_slice 40 valid_LabelingProof"
  by (rule labeling.slice_codec) simp

interpretation encoding: codec EncodeEncodingProof DecodeEncodingProof valid_EncodingProof
proof
  show "DecodeEncodingProof bs = Inr (x, rest) \<longleftrightarrow>
      valid_EncodingProof x \<and> (\<exists>b. EncodeEncodingProof x = Inr b \<and> bs = b @ rest)" for bs x rest
    by (cases x) (auto simp: EncodeEncodingProof_def DecodeEncodingProof_def valid_EncodingProof_def
        codec_simps domains.dec_iff)
  show "valid_EncodingProof x \<Longrightarrow> \<exists>b. EncodeEncodingProof x = Inr b" for x
    by (auto simp: EncodeEncodingProof_def valid_EncodingProof_def intro!: write_all_total domains.enc_total)
qed

interpretation stacked: codec EncodeVanillaStackedProof DecodeVanillaStackedProof valid_VanillaStackedProof
proof
  show "DecodeVanillaStackedProof bs = Inr (x, rest) \<longleftrightarrow>
      valid_VanillaStackedProof x \<and> (\<exists>b. EncodeVanillaStackedProof x = Inr b \<and> bs = b @ rest)" for bs x rest
    by (cases x) (auto simp: EncodeVanillaStackedProof_def DecodeVanillaStackedProof_def valid_VanillaStackedProof_def
        codec_simps merkle.dec_iff replica.dec_iff labelings.dec_iff encoding.dec_iff)
  show "valid_VanillaStackedProof x \<Longrightarrow> \<exists>b. EncodeVanillaStackedProof x = Inr b" for x
    by (auto simp: EncodeVanillaStackedProof_def valid_VanillaStackedProof_def intro!: write_all_total merkle.enc_total replica.enc_total labelings.enc_total encoding.enc_total)
qed

interpretation stackeds: codec "encode_slice EncodeVanillaStackedProof"
  "decode_slice 232 DecodeVanillaStackedProof" "wf_slice 232 valid_VanillaStackedProof"
  by (rule stacked.slice_codec) simp

section \<open>Commit1OutRaw\<close>

lemma DecodeCommitment_iff [codec_simps]:
  "DecodeCommitment bs = Inr (c, rest) \<longleftrightarrow> length c = 32 \<and> bs = c @ rest"
  by (simp add: DecodeCommitment_def codec_simps)

lemma DecodeTicket_iff [codec_simps]:
  "DecodeTicket bs = Inr (c, rest) \<longleftrightarrow> length c = 32 \<and> bs = c @ rest"
  by (simp add: DecodeTicket_def codec_simps)

lemma outer_iff:
  "dbind ReadLE_uint64 (\<lambda>n.
     dbind (decode_n (decode_slice 232 DecodeVanillaStackedProof) (unat n)) g) bs = Inr (y, rest) \<longleftrightarrow>
   (\<exists>xs b r. length xs < 2 ^ 64 \<and> (\<forall>x\<in>set xs. wf_slice 232 valid_VanillaStackedProof x) \<and>
     encode_slice (encode_slice EncodeVanillaStackedProof) xs = Inr b \<and> bs = b @ r \<and>
     g xs r = Inr (y, rest))"
  (is "?L \<longleftrightarrow> ?R")
proof -
  have "?L \<longleftrightarrow> (\<exists>xs r. dbind ReadLE_uint64 (\<lambda>n.
      decode_n (decode_slice 232 DecodeVanillaStackedProof) (unat n)) bs = Inr (xs, r) \<and>
      g xs r = Inr (y, rest))"
    unfolding dbind_Inr by blast
  then show ?thesis unfolding stackeds.counted_iff by blast
qed

lemma DecodeCommit1OutRaw_iff:
  "DecodeCommit1OutRaw bs = Inr c \<longleftrightarrow>
     (\<exists>proofs b. length proofs < 2 ^ 64 \<and> (\<forall>p\<in>set proofs. wf_slice 232 valid_VanillaStackedProof p) \<and>
        encode_slice (encode_slice EncodeVanillaStackedProof) proofs = Inr b \<and>
        bs = b @ c1_CommR c @ c1_CommD c @ c1_ReplicaID c @ c1_Seed c @ c1_Ticket c \<and>
        length (c1_CommR c) = 32 \<and> length (c1_CommD c) = 32 \<and> length (c1_ReplicaID c) = 32 \<and>
        length (c1_Seed c) = 32 \<and> length (c1_Ticket c) = 32 \<and>
        c1_RegisteredProof c = ''StackedDrg32GiBV1_1'' \<and>
        c1_VanillaProofs c = (if proofs = [] then Map.empty else [''StackedDrg32GiBV1'' \<mapsto> proofs]))"
  unfolding DecodeCommit1OutRaw_def rbind_Inr_iff split_paired_Ex outer_iff
  by (cases c) (auto simp: codec_simps split: if_splits)

text \<open>Encoding a value that is no sector's proof fails: the length of a missing map entry is
  written with the type \<open>int\<close>.\<close>

lemma EncodeCommit1OutRaw_no_key:
  "c1_VanillaProofs c ''StackedDrg32GiBV1'' = None \<Longrightarrow> EncodeCommit1OutRaw c = Inl NotFixedSize"
  by (simp add: EncodeCommit1OutRaw_def write_all_Cons)

lemma EncodeCommit1OutRaw_key:
  assumes "c1_VanillaProofs c ''StackedDrg32GiBV1'' = Some proofs"
  shows "EncodeCommit1OutRaw c = Inr bs \<longleftrightarrow>
    (\<exists>b. encode_slice (encode_slice EncodeVanillaStackedProof) proofs = Inr b \<and>
       bs = b @ c1_CommR c @ c1_CommD c @ c1_ReplicaID c @ c1_Seed c @ c1_Ticket c)"
  using assms
  by (auto simp: EncodeCommit1OutRaw_def EncodeCommitment_def EncodeTicket_def codec_simps)

text \<open>A small proof with one partition, for the witnesses.\<close>

definition zero32 :: "byte list" where
  "zero32 = replicate 32 0"

definition sample_merkle :: MerkleProof where
  "sample_merkle = \<lparr>mp_Data = \<lparr>pd_Single = Some \<lparr>single_Root = zero32, single_Leaf = zero32,
     single_Path = \<lparr>ip_Path = [\<lparr>pe_Hashes = [zero32], pe_Index = 1\<rparr>]\<rparr>\<rparr>, pd_Sub = None, pd_Top = None\<rparr>\<rparr>"

definition sample_column :: ColumnProof where
  "sample_column = \<lparr>cp_Column = \<lparr>col_Index = 7, col_Rows = [zero32], col_H = None\<rparr>,
     cp_InclusionProof = sample_merkle\<rparr>"

definition sample_stacked :: VanillaStackedProof where
  "sample_stacked = \<lparr>vsp_CommDProofs = sample_merkle, vsp_CommRLastProof = sample_merkle,
     vsp_ReplicaColumnProofs = \<lparr>rcp_C_X = sample_column, rcp_DrgParents = [sample_column],
       rcp_ExpParents = []\<rparr>,
     vsp_LabelingProofs = [\<lparr>lp_Parents = [zero32], lp_LayerIndex = 1, lp_Node = 9\<rparr>],
     vsp_EncodingProof = \<lparr>ep_Parents = [], ep_LayerIndex = 2, ep_Node = 9\<rparr>\<rparr>"

definition sample_c1 :: Commit1OutRaw where
  "sample_c1 = \<lparr>c1_CommD = zero32, c1_CommR = zero32, c1_RegisteredProof = ''StackedDrg32GiBV1_1'',
     c1_ReplicaID = zero32, c1_Seed = zero32, c1_Ticket = zero32,
     c1_VanillaProofs = [''StackedDrg32GiBV1'' \<mapsto> [[sample_stacked], []]]\<rparr>"

lemma sample_valid: "valid_Commit1OutRaw sample_c1"
  by (simp add: valid_Commit1OutRaw_def sample_c1_def sample_stacked_def sample_column_def
      sample_merkle_def zero32_def wf_slice_def maxAlloc_def valid_VanillaStackedProof_def
      valid_MerkleProof_def valid_ProofData_def valid_SingleProof_def valid_InclusionPath_def
      valid_PathElement_def valid_domain_def valid_ReplicaColumnProof_def valid_ColumnProof_def
      valid_Column_def valid_LabelingProof_def valid_EncodingProof_def)

lemma Encode_then_Decode:
  assumes "valid_Commit1OutRaw c"
  shows "\<exists>bs. EncodeCommit1OutRaw c = Inr bs \<and> DecodeCommit1OutRaw bs = Inr c"
proof -
  obtain proofs where p: "proofs \<noteq> []" "c1_VanillaProofs c = [''StackedDrg32GiBV1'' \<mapsto> proofs]"
      "length proofs < 2 ^ 64" "\<forall>p\<in>set proofs. wf_slice 232 valid_VanillaStackedProof p"
    using assms by (auto simp: valid_Commit1OutRaw_def list_all_iff split: option.splits)
  have "\<exists>b. encode_slice (encode_slice EncodeVanillaStackedProof) proofs = Inr b"
    unfolding encode_slice_def [of "encode_slice EncodeVanillaStackedProof"]
    using p(4) by (intro write_all_total) (auto intro: stackeds.enc_total)
  then obtain b where b: "encode_slice (encode_slice EncodeVanillaStackedProof) proofs = Inr b" ..
  define bs where "bs = b @ c1_CommR c @ c1_CommD c @ c1_ReplicaID c @ c1_Seed c @ c1_Ticket c"
  have "EncodeCommit1OutRaw c = Inr bs"
    using b p(2) by (simp add: EncodeCommit1OutRaw_key bs_def)
  moreover have "DecodeCommit1OutRaw bs = Inr c"
    unfolding DecodeCommit1OutRaw_iff
    using assms b p by (intro exI [of _ proofs] exI [of _ b]) (auto simp: bs_def valid_Commit1OutRaw_def)
  ultimately show ?thesis by blast
qed


lemma Decode_then_Encode:
  assumes "DecodeCommit1OutRaw bs = Inr c"
    and "c1_VanillaProofs c ''StackedDrg32GiBV1'' = Some proofs"
  shows "valid_Commit1OutRaw c \<and> EncodeCommit1OutRaw c = Inr bs"
proof -
  have ne: "c1_VanillaProofs c \<noteq> Map.empty" using assms(2) by auto
  show ?thesis
    using assms ne
    by (auto simp: DecodeCommit1OutRaw_iff EncodeCommit1OutRaw_key valid_Commit1OutRaw_def
        list_all_iff split: if_splits)
qed

section \<open>PoSt sector proofs\<close>

text \<open>
  The repository has no encoder for the PoSt structures. Their layout is the one the
  decoder's comments give for the Rust structs: fields in order, slices with their length.
\<close>

definition layout_SectorProof :: "SectorProof encoder" where
  "layout_SectorProof s =
     write_all [encode_slice EncodeMerkleProof (sp_InclusionProofs s),
       EncodeHasherDomain (sp_CommC s), EncodeHasherDomain (sp_CommRLast s)]"

definition layout_VanillaProof :: "VanillaProof encoder" where
  "layout_VanillaProof v = encode_slice layout_SectorProof (vp_Sectors v)"

definition layout_FallbackPoSt :: "FallbackPoStSectorProof encoder" where
  "layout_FallbackPoSt f =
     write_all [WriteLE (U64 (fp_SectorID f)), EncodeHasherDomain (fp_CommR f),
       layout_VanillaProof (fp_VanillaProof f)]"

definition valid_SectorProof :: "SectorProof \<Rightarrow> bool" where
  "valid_SectorProof s \<longleftrightarrow>
     wf_slice 24 valid_MerkleProof (sp_InclusionProofs s) \<and>
     valid_domain (sp_CommC s) \<and> valid_domain (sp_CommRLast s)"

definition valid_VanillaProof :: "VanillaProof \<Rightarrow> bool" where
  "valid_VanillaProof v \<longleftrightarrow> wf_slice 88 valid_SectorProof (vp_Sectors v)"

definition valid_FallbackPoSt :: "FallbackPoStSectorProof \<Rightarrow> bool" where
  "valid_FallbackPoSt f \<longleftrightarrow> valid_domain (fp_CommR f) \<and> valid_VanillaProof (fp_VanillaProof f)"

interpretation post_sector: codec layout_SectorProof DecodeSectorProof valid_SectorProof
proof
  show "DecodeSectorProof bs = Inr (x, rest) \<longleftrightarrow>
      valid_SectorProof x \<and> (\<exists>b. layout_SectorProof x = Inr b \<and> bs = b @ rest)" for bs x rest
    by (cases x) (auto simp: layout_SectorProof_def DecodeSectorProof_def valid_SectorProof_def
        codec_simps merkles.dec_iff domain.dec_iff)
  show "valid_SectorProof x \<Longrightarrow> \<exists>b. layout_SectorProof x = Inr b" for x
    by (auto simp: layout_SectorProof_def valid_SectorProof_def intro!: write_all_total merkles.enc_total domain.enc_total)
qed

interpretation post_sectors: codec "encode_slice layout_SectorProof"
  "decode_slice 88 DecodeSectorProof" "wf_slice 88 valid_SectorProof"
  by (rule post_sector.slice_codec) simp

interpretation post_vanilla: codec layout_VanillaProof DecodeVanillaProof valid_VanillaProof
proof
  show "DecodeVanillaProof bs = Inr (x, rest) \<longleftrightarrow>
      valid_VanillaProof x \<and> (\<exists>b. layout_VanillaProof x = Inr b \<and> bs = b @ rest)" for bs x rest
    by (cases x) (auto simp: layout_VanillaProof_def DecodeVanillaProof_def valid_VanillaProof_def
        codec_simps post_sectors.dec_iff)
  show "valid_VanillaProof x \<Longrightarrow> \<exists>b. layout_VanillaProof x = Inr b" for x
    by (auto simp: layout_VanillaProof_def valid_VanillaProof_def intro!: write_all_total post_sectors.enc_total)
qed

interpretation post: codec layout_FallbackPoSt DecodeFallbackPoStSectorProof valid_FallbackPoSt
proof
  show "DecodeFallbackPoStSectorProof bs = Inr (x, rest) \<longleftrightarrow>
      valid_FallbackPoSt x \<and> (\<exists>b. layout_FallbackPoSt x = Inr b \<and> bs = b @ rest)" for bs x rest
    by (cases x) (auto simp: layout_FallbackPoSt_def DecodeFallbackPoStSectorProof_def valid_FallbackPoSt_def
        codec_simps post_vanilla.dec_iff domain.dec_iff)
  show "valid_FallbackPoSt x \<Longrightarrow> \<exists>b. layout_FallbackPoSt x = Inr b" for x
    by (auto simp: layout_FallbackPoSt_def valid_FallbackPoSt_def intro!: write_all_total post_vanilla.enc_total domain.enc_total)
qed

section \<open>Tables read in both directions\<close>

lemma map_of_swap:
  assumes "distinct (map fst xs)" and "distinct (map fst ys)" and "ys = map prod.swap xs"
  shows "map_of xs k = Some v \<longleftrightarrow> map_of ys v = Some k"
  using assms by (simp add: map_of_eq_Some_iff)

lemma proof_tables_swap: "ToABI s = Some p \<longleftrightarrow> StringProofFromAbi p = Some s"
  unfolding ToABI_def StringProofFromAbi_def
  by (rule map_of_swap) simp_all

section \<open>Properties\<close>

text \<open>C17: round trip. Every well-formed \<open>Commit1OutRaw\<close> is encoded without an error, and
  decoding the bytes gives the value back.\<close>

theorem commit1_roundtrip:
  "valid_Commit1OutRaw c \<Longrightarrow> \<exists>bs. EncodeCommit1OutRaw c = Inr bs \<and> DecodeCommit1OutRaw bs = Inr c"
  by (rule Encode_then_Decode)

theorem commit1_roundtrip_witness:
  "\<exists>bs. EncodeCommit1OutRaw sample_c1 = Inr bs \<and> DecodeCommit1OutRaw bs = Inr sample_c1"
  by (rule commit1_roundtrip [OF sample_valid])

text \<open>C23: canonical encoding. A byte string that decodes to a value with at least one partition
  is the encoding of that value: the decoder accepts no second spelling.\<close>

theorem commit1_canonical:
  "DecodeCommit1OutRaw bs = Inr c \<Longrightarrow> c1_VanillaProofs c ''StackedDrg32GiBV1'' \<noteq> None \<Longrightarrow>
   EncodeCommit1OutRaw c = Inr bs"
  using Decode_then_Encode by blast

theorem commit1_canonical_witness:
  "\<exists>bs. DecodeCommit1OutRaw bs = Inr sample_c1 \<and> EncodeCommit1OutRaw sample_c1 = Inr bs"
proof -
  obtain bs where "DecodeCommit1OutRaw bs = Inr sample_c1"
    using Encode_then_Decode [OF sample_valid] by blast
  moreover have "c1_VanillaProofs sample_c1 ''StackedDrg32GiBV1'' \<noteq> None"
    by (simp add: sample_c1_def)
  ultimately show ?thesis using commit1_canonical by blast
qed

text \<open>error. A stream with an outer length of zero decodes, but the result cannot be encoded
  again: the branch that means to write a zero length fails.\<close>

theorem commit1_empty_not_encodable:
  "\<exists>c. DecodeCommit1OutRaw (replicate 168 0) = Inr c \<and> EncodeCommit1OutRaw c = Inl NotFixedSize"
proof -
  let ?c = "\<lparr>c1_CommD = zero32, c1_CommR = zero32, c1_RegisteredProof = ''StackedDrg32GiBV1_1'',
     c1_ReplicaID = zero32, c1_Seed = zero32, c1_Ticket = zero32, c1_VanillaProofs = Map.empty\<rparr>"
  have "replicate 168 0 = le_bytes 8 0 @ zero32 @ zero32 @ zero32 @ zero32 @ zero32"
    by (simp add: zero32_def flip: replicate_add) code_simp
  then have "DecodeCommit1OutRaw (replicate 168 0) = Inr ?c"
    unfolding DecodeCommit1OutRaw_iff
    by (intro exI [of _ "[]"] exI [of _ "le_bytes 8 0"])
      (simp add: encode_slice_def write_all_Cons write_all.simps zero32_def)
  moreover have "EncodeCommit1OutRaw ?c = Inl NotFixedSize"
    by (simp add: EncodeCommit1OutRaw_no_key)
  ultimately show ?thesis by blast
qed

text \<open>exact layout. The PoSt sector proof decoder accepts exactly the layouts of well-formed
  values, and leaves what follows untouched.\<close>

theorem post_decode_exact:
  "DecodeFallbackPoStSectorProof bs = Inr (p, rest) \<longleftrightarrow>
   valid_FallbackPoSt p \<and> (\<exists>b. layout_FallbackPoSt p = Inr b \<and> bs = b @ rest)"
  by (rule post.dec_iff)

text \<open>round trip. \<open>ToABI\<close> and \<open>StringProofFromAbi\<close> are inverse to each other, on the
  strings and on the numbers they know.\<close>

theorem proof_names_inverse: "ToABI s = Some p \<longleftrightarrow> StringProofFromAbi p = Some s"
  by (rule proof_tables_swap)

end
