(* ===== verification/HarmonyDB.thy ===== *)
theory HarmonyDB
  imports Prelude
begin

text \<open>
  The tables of the task engine (\<open>harmony/harmonydb/sql\<close>) and the machine registry
  (\<open>harmony/resources/resources.go\<close>).

  The database is a record of tables. A statement that touches a row referenced by a
  foreign key also applies the key's action: deleting a machine clears
  \<open>harmony_task.owner_id\<close>, deleting a task clears \<open>harmony_task_singletons.task_id\<close>.
  A \<open>SERIAL\<close> column draws from a sequence, which a rollback does not reset.
  Whether a call fails for a reason outside the model (a lost connection) is an argument
  of the operation that makes it.
\<close>

section \<open>Tables\<close>

type_synonym TaskID = int

record task_row =
  t_id :: TaskID
  t_name :: string
  t_owner_id :: "int option"
  t_added_by :: int
  t_posted_time :: time
  t_update_time :: time
  t_retries :: nat

record history_row =
  h_id :: int
  h_task_id :: TaskID
  h_name :: string
  h_posted :: time
  h_work_start :: time
  h_work_end :: time
  h_result :: bool
  h_completed_by :: string
  h_err :: string

record machine_row =
  m_id :: int
  m_host_and_port :: string
  m_cpu :: int
  m_ram :: uint64
  m_gpu :: rat
  m_last_contact :: time
  m_unschedulable :: bool
  m_restart_request :: "time option"

record singleton_row =
  s_task_name :: string
  s_task_id :: "TaskID option"
  s_last_run_time :: time
  s_run_now_request :: bool

record harmony_db =
  harmony_task :: "task_row list"
  harmony_task_history :: "history_row list"
  harmony_machines :: "machine_row list"
  harmony_task_singletons :: "singleton_row list"
  sectors_pipeline_events :: "(int \<times> int \<times> int) list"
  task_seq :: int
  history_seq :: int
  machine_seq :: int

datatype db_error = UniqueConstraint | Serialization | ForeignKey | NoRows | OtherError string

section \<open>Statements with foreign key actions\<close>

definition delete_task :: "TaskID \<Rightarrow> harmony_db \<Rightarrow> harmony_db" where
  "delete_task tid db = db
     \<lparr>harmony_task := delete_where (\<lambda>r. t_id r = tid) (harmony_task db),
      harmony_task_singletons :=
        update_where (\<lambda>s. s_task_id s = Some tid) (\<lambda>s. s\<lparr>s_task_id := None\<rparr>)
          (harmony_task_singletons db)\<rparr>"

definition delete_machines :: "(machine_row \<Rightarrow> bool) \<Rightarrow> harmony_db \<Rightarrow> harmony_db" where
  "delete_machines p db =
     (let gone = map m_id (filter p (harmony_machines db))
      in db\<lparr>harmony_machines := delete_where p (harmony_machines db),
            harmony_task :=
              update_where (\<lambda>r. \<exists>m\<in>set gone. t_owner_id r = Some m) (\<lambda>r. r\<lparr>t_owner_id := None\<rparr>)
                (harmony_task db)\<rparr>)"

definition insert_task :: "string \<Rightarrow> int \<Rightarrow> time \<Rightarrow> harmony_db \<Rightarrow> TaskID \<times> harmony_db" where
  "insert_task name added_by now db =
     (let tid = task_seq db
      in (tid, db\<lparr>task_seq := tid + 1,
                  harmony_task := harmony_task db @
                    [\<lparr>t_id = tid, t_name = name, t_owner_id = None, t_added_by = added_by,
                      t_posted_time = now, t_update_time = now, t_retries = 0\<rparr>]\<rparr>))"

definition find_task :: "TaskID \<Rightarrow> harmony_db \<Rightarrow> task_row option" where
  "find_task tid db = find (\<lambda>r. t_id r = tid) (harmony_task db)"

definition registered :: "int \<Rightarrow> harmony_db \<Rightarrow> bool" where
  "registered m db \<longleftrightarrow> m \<in> m_id ` set (harmony_machines db)"

text \<open>\<open>append_sector_pipeline_events\<close>: insert unless the row is there.\<close>

definition append_sector_pipeline_events :: "int \<Rightarrow> int \<Rightarrow> int \<Rightarrow> harmony_db \<Rightarrow> harmony_db" where
  "append_sector_pipeline_events sp num hid db =
     (if (sp, num, hid) \<in> set (sectors_pipeline_events db) then db
      else db\<lparr>sectors_pipeline_events := sectors_pipeline_events db @ [(sp, num, hid)]\<rparr>)"

section \<open>Machines\<close>

definition LOOKS_DEAD_TIMEOUT :: duration where
  "LOOKS_DEAD_TIMEOUT = 10 * minute"

record Resources =
  r_Cpu :: int
  r_Gpu :: rat
  r_Ram :: uint64
  r_MachineID :: int

text \<open>The statement compares in whole milliseconds; \<open>fail\<close> is a failure of the call.\<close>

definition CleanupMachines :: "time \<Rightarrow> bool \<Rightarrow> harmony_db \<Rightarrow> int \<times> harmony_db" where
  "CleanupMachines now fail db =
     (if fail then (0, db)
      else let dead = (\<lambda>m. m_last_contact m < now - (LOOKS_DEAD_TIMEOUT div millisecond) * millisecond)
           in (int (count_where dead (harmony_machines db)), delete_machines dead db))"

datatype register_error = NoResources | InsertingMachine

text \<open>
  \<open>Register\<close>: update the rows of this host or insert one, learn the machine ID, clean up.
  \<open>insp\<close> is what the injected \<open>ResourceInspector\<close> reports.
\<close>

definition Register ::
  "string \<Rightarrow> Resources option \<Rightarrow> time \<Rightarrow> bool \<Rightarrow> bool \<Rightarrow> harmony_db \<Rightarrow>
   register_error + (Resources \<times> harmony_db)" where
  "Register host insp now upsert_fails cleanup_fails db =
     (case insp of
        None \<Rightarrow> Inl NoResources
      | Some res \<Rightarrow>
          if upsert_fails then Inl InsertingMachine
          else
            let upd = update_where (\<lambda>m. m_host_and_port m = host)
                  (\<lambda>m. m\<lparr>m_cpu := r_Cpu res, m_ram := r_Ram res, m_gpu := r_Gpu res,
                         m_last_contact := now\<rparr>) (harmony_machines db);
                (oid, db1) =
                  (case find (\<lambda>m. m_host_and_port m = host) upd of
                     Some m \<Rightarrow> (m_id m, db\<lparr>harmony_machines := upd\<rparr>)
                   | None \<Rightarrow> (machine_seq db,
                       db\<lparr>harmony_machines := upd @
                           [\<lparr>m_id = machine_seq db, m_host_and_port = host, m_cpu = r_Cpu res,
                             m_ram = r_Ram res, m_gpu = r_Gpu res, m_last_contact = now,
                             m_unschedulable = False, m_restart_request = None\<rparr>],
                          machine_seq := machine_seq db + 1\<rparr>))
            in Inr (res\<lparr>r_MachineID := oid\<rparr>, snd (CleanupMachines now cleanup_fails db1)))"

text \<open>One round of the keepalive goroutine; nothing happens once \<open>Shutdown\<close> set the flag.\<close>

definition keepalive :: "bool \<Rightarrow> int \<Rightarrow> time \<Rightarrow> bool \<Rightarrow> harmony_db \<Rightarrow> harmony_db" where
  "keepalive shut mid now fail db =
     (if shut \<or> fail then db
      else db\<lparr>harmony_machines :=
             update_where (\<lambda>m. m_id m = mid) (\<lambda>m. m\<lparr>m_last_contact := now\<rparr>) (harmony_machines db)\<rparr>)"

section \<open>Well-formed databases\<close>

text \<open>
  Primary keys are unique, sequences are ahead of the keys they gave out, and the two
  foreign keys point to rows that exist.
\<close>

definition wf_db :: "harmony_db \<Rightarrow> bool" where
  "wf_db db \<longleftrightarrow>
     distinct (map t_id (harmony_task db)) \<and>
     distinct (map m_id (harmony_machines db)) \<and>
     (\<forall>r\<in>set (harmony_task db). t_id r < task_seq db) \<and>
     (\<forall>m\<in>set (harmony_machines db). m_id m < machine_seq db) \<and>
     (\<forall>r\<in>set (harmony_task db). \<forall>m. t_owner_id r = Some m \<longrightarrow> registered m db) \<and>
     distinct (map s_task_name (harmony_task_singletons db)) \<and>
     (\<forall>s\<in>set (harmony_task_singletons db). \<forall>t. s_task_id s = Some t \<longrightarrow> t \<in> t_id ` set (harmony_task db))"

section \<open>Lemmas\<close>

lemma find_task_Some: "find_task tid db = Some r \<Longrightarrow> r \<in> set (harmony_task db) \<and> t_id r = tid"
  unfolding find_task_def by (rule find_Some_set)

lemma find_task_None: "find_task tid db = None \<longleftrightarrow> tid \<notin> t_id ` set (harmony_task db)"
  by (auto simp: find_task_def find_None_iff_set)

lemma find_task_wf: "wf_db db \<Longrightarrow> r \<in> set (harmony_task db) \<Longrightarrow> find_task (t_id r) db = Some r"
  by (simp add: find_task_def wf_db_def find_key)

lemma find_update_where_key:
  "(\<And>r. key (f r) = key r) \<Longrightarrow>
   find (\<lambda>r. key r = k) (update_where p f t) =
   map_option (\<lambda>r. if p r then f r else r) (find (\<lambda>r. key r = k) t)"
  by (induction t) (auto simp: update_where_def)

lemma find_task_delete:
  "find_task tid (delete_task tid' db) = (if tid = tid' then None else find_task tid db)"
proof -
  have "find (\<lambda>r. t_id r = tid) (filter (\<lambda>r. t_id r \<noteq> tid') xs) =
      (if tid = tid' then None else find (\<lambda>r. t_id r = tid) xs)" for xs :: "task_row list"
    by (induction xs) auto
  then show ?thesis by (simp add: find_task_def delete_task_def delete_where_def)
qed

lemma find_task_delete_machines:
  "find_task tid (delete_machines p db) =
   map_option (\<lambda>r. if \<exists>m\<in>set (filter p (harmony_machines db)). t_owner_id r = Some (m_id m)
     then r\<lparr>t_owner_id := None\<rparr> else r) (find_task tid db)"
  by (auto simp: find_task_def delete_machines_def Let_def find_update_where_key intro!: map_option_cong)

lemma wf_dbI:
  assumes "distinct (map t_id (harmony_task db))" "distinct (map m_id (harmony_machines db))"
    "\<And>r. r \<in> set (harmony_task db) \<Longrightarrow> t_id r < task_seq db"
    "\<And>m. m \<in> set (harmony_machines db) \<Longrightarrow> m_id m < machine_seq db"
    "\<And>r m. r \<in> set (harmony_task db) \<Longrightarrow> t_owner_id r = Some m \<Longrightarrow> m \<in> m_id ` set (harmony_machines db)"
    "distinct (map s_task_name (harmony_task_singletons db))"
    "\<And>s t. s \<in> set (harmony_task_singletons db) \<Longrightarrow> s_task_id s = Some t \<Longrightarrow>
       t \<in> t_id ` set (harmony_task db)"
  shows "wf_db db"
  using assms by (auto simp: wf_db_def registered_def)

lemma wf_dbD:
  assumes "wf_db db"
  shows "distinct (map t_id (harmony_task db))" "distinct (map m_id (harmony_machines db))"
    "\<And>r. r \<in> set (harmony_task db) \<Longrightarrow> t_id r < task_seq db"
    "\<And>m. m \<in> set (harmony_machines db) \<Longrightarrow> m_id m < machine_seq db"
    "\<And>r m. r \<in> set (harmony_task db) \<Longrightarrow> t_owner_id r = Some m \<Longrightarrow> m \<in> m_id ` set (harmony_machines db)"
    "distinct (map s_task_name (harmony_task_singletons db))"
    "\<And>s t. s \<in> set (harmony_task_singletons db) \<Longrightarrow> s_task_id s = Some t \<Longrightarrow>
       t \<in> t_id ` set (harmony_task db)"
  using assms by (simp_all add: wf_db_def registered_def)

lemma wf_db_cong:
  "harmony_task db = harmony_task db' \<Longrightarrow> harmony_machines db = harmony_machines db' \<Longrightarrow>
   harmony_task_singletons db = harmony_task_singletons db' \<Longrightarrow> task_seq db = task_seq db' \<Longrightarrow>
   machine_seq db = machine_seq db' \<Longrightarrow> wf_db db = wf_db db'"
  by (simp add: wf_db_def registered_def)

lemma wf_delete_task:
  assumes "wf_db db"
  shows "wf_db (delete_task tid db)"
proof (rule wf_dbI)
  fix s t
  assume "s \<in> set (harmony_task_singletons (delete_task tid db))" "s_task_id s = Some t"
  then have "s \<in> set (harmony_task_singletons db)" "t \<noteq> tid"
    by (auto simp: delete_task_def table_simps)
  with wf_dbD(7) [OF assms] \<open>s_task_id s = Some t\<close>
  show "t \<in> t_id ` set (harmony_task (delete_task tid db))"
    by (fastforce simp: delete_task_def table_simps)
qed (use wf_dbD [OF assms] in
    \<open>auto simp: delete_task_def table_simps distinct_map_delete_where map_update_where_key\<close>)

lemma wf_delete_machines:
  assumes "wf_db db"
  shows "wf_db (delete_machines p db)"
proof (rule wf_dbI)
  fix r m
  assume r: "r \<in> set (harmony_task (delete_machines p db))" and m: "t_owner_id r = Some m"
  then have "r \<in> set (harmony_task db)" "m \<notin> m_id ` set (filter p (harmony_machines db))"
    by (auto simp: delete_machines_def Let_def table_simps)
  with wf_dbD(5) [OF assms] m show "m \<in> m_id ` set (harmony_machines (delete_machines p db))"
    by (fastforce simp: delete_machines_def Let_def table_simps)
next
  fix s t
  assume "s \<in> set (harmony_task_singletons (delete_machines p db))" "s_task_id s = Some t"
  then have "t \<in> set (map t_id (harmony_task db))"
    using wf_dbD(7) [OF assms] by (simp add: delete_machines_def Let_def)
  moreover have "map t_id (harmony_task (delete_machines p db)) = map t_id (harmony_task db)"
    by (simp add: delete_machines_def Let_def map_update_where_key)
  ultimately show "t \<in> t_id ` set (harmony_task (delete_machines p db))"
    by (metis list.set_map)
qed (use wf_dbD [OF assms] in
    \<open>auto simp: delete_machines_def Let_def table_simps distinct_map_delete_where map_update_where_key\<close>)

lemma wf_insert_task: "wf_db db \<Longrightarrow> wf_db (snd (insert_task name by now db))"
  by (rule wf_dbI)
    (auto simp: insert_task_def Let_def dest: wf_dbD(3-7) intro: wf_dbD(1,2) less_trans zless_add1_eq [THEN iffD2])

lemma wf_machines_update:
  assumes "wf_db db" "\<And>m. m_id (f m) = m_id m"
  shows "wf_db (db\<lparr>harmony_machines := update_where p f (harmony_machines db)\<rparr>)"
proof -
  have ids: "map m_id (update_where p f (harmony_machines db)) = map m_id (harmony_machines db)"
    using assms(2) by (rule map_update_where_key)
  then have "m_id ` set (update_where p f (harmony_machines db)) = m_id ` set (harmony_machines db)"
    by (metis list.set_map)
  then show ?thesis
    by (intro wf_dbI) (use wf_dbD [OF assms(1)] ids assms(2) in \<open>auto simp: table_simps\<close>)
qed

lemma wf_machines_insert:
  assumes "wf_db db" "m_id m = machine_seq db"
  shows "wf_db (db\<lparr>harmony_machines := harmony_machines db @ [m], machine_seq := machine_seq db + 1\<rparr>)"
  by (rule wf_dbI) (use wf_dbD [OF assms(1)] assms(2) in \<open>fastforce+\<close>)

lemma wf_CleanupMachines: "wf_db db \<Longrightarrow> wf_db (snd (CleanupMachines now fail db))"
  by (simp add: CleanupMachines_def wf_delete_machines Let_def)

lemma wf_keepalive: "wf_db db \<Longrightarrow> wf_db (keepalive shut mid now fail db)"
  by (simp add: keepalive_def wf_machines_update)

lemma wf_Register:
  assumes "wf_db db" "Register host insp now uf cf db = Inr (reg, db')"
  shows "wf_db db'"
proof -
  obtain res where res: "insp = Some res" "\<not> uf"
    using assms(2) by (auto simp: Register_def split: option.splits if_splits)
  let ?f = "\<lambda>m. m\<lparr>m_cpu := r_Cpu res, m_ram := r_Ram res, m_gpu := r_Gpu res, m_last_contact := now\<rparr>"
  let ?upd = "update_where (\<lambda>m. m_host_and_port m = host) ?f (harmony_machines db)"
  have 1: "wf_db (db\<lparr>harmony_machines := ?upd\<rparr>)" by (rule wf_machines_update [OF assms(1)]) simp
  show ?thesis
    using assms(2) res wf_CleanupMachines [OF 1] wf_CleanupMachines [OF wf_machines_insert [OF 1]]
    by (auto simp: Register_def Let_def split: option.splits)
qed

end
