(* ===== verification/Limiter.thy ===== *)
theory Limiter
  imports Prelude
begin

text \<open>
  Package \<open>harmony/taskhelp\<close>: the concurrency limiter of the task engine
  (\<open>max.go\<close>), the retry delays (\<open>retry.go\<close>) and the slice and name helpers
  (\<open>common.go\<close>).

  A \<open>MaxCounter\<close> holds two pointers to atomic 32-bit counters. The shared counter is
  reached from every instance made by \<open>Instance\<close>, so the model keeps the counters in a
  store indexed by address and a counter record holds the two addresses.
\<close>

section \<open>Counters\<close>

type_synonym int32 = "32 word"
type_synonym counters = "nat \<Rightarrow> int32"

record MaxCounter =
  N :: int
  current :: nat
  currentThis :: nat

definition UnlimitedHeadroom :: int where
  "UnlimitedHeadroom = 1000000"

definition MaxCounter_Max :: "MaxCounter \<Rightarrow> int" where
  "MaxCounter_Max m = N m"

definition Active :: "counters \<Rightarrow> MaxCounter \<Rightarrow> int" where
  "Active c m = sint (c (current m))"

definition ActiveThis :: "counters \<Rightarrow> MaxCounter \<Rightarrow> int" where
  "ActiveThis c m = sint (c (currentThis m))"

definition AtMax :: "counters \<Rightarrow> MaxCounter \<Rightarrow> bool" where
  "AtMax c m \<longleftrightarrow> MaxCounter_Max m > 0 \<and> Active c m \<ge> MaxCounter_Max m"

definition Headroom :: "counters \<Rightarrow> MaxCounter \<Rightarrow> int" where
  "Headroom c m =
     (if N m \<le> 0 then UnlimitedHeadroom else MaxCounter_Max m - Active c m)"

text \<open>
  \<open>Add\<close> converts its argument to \<open>int32\<close> and adds it to both counters; the atomic
  addition wraps around.
\<close>

definition MaxCounter_Add :: "MaxCounter \<Rightarrow> int \<Rightarrow> counters \<Rightarrow> counters" where
  "MaxCounter_Add m n c =
     (let c' = c(current m := c (current m) + word_of_int n)
      in c'(currentThis m := c' (currentThis m) + word_of_int n))"

text \<open>
  \<open>Max\<close> allocates two fresh counters, \<open>Instance\<close> one; \<open>next\<close> is the first unused address.
\<close>

definition Max_new :: "int \<Rightarrow> nat \<Rightarrow> counters \<Rightarrow> MaxCounter \<times> nat \<times> counters" where
  "Max_new n next c =
     (\<lparr>N = n, current = next, currentThis = next + 1\<rparr>, next + 2, c(next := 0, next + 1 := 0))"

definition Instance :: "MaxCounter \<Rightarrow> nat \<Rightarrow> counters \<Rightarrow> MaxCounter \<times> nat \<times> counters" where
  "Instance m next c =
     (\<lparr>N = N m, current = current m, currentThis = next\<rparr>, next + 1, c(next := 0))"

text \<open>A counter whose two cells are different, as both constructors make it.\<close>

definition wf_counter :: "MaxCounter \<Rightarrow> bool" where
  "wf_counter m \<longleftrightarrow> current m \<noteq> currentThis m"

section \<open>Retry delays\<close>

definition RetryWaitLinear :: "duration \<Rightarrow> duration \<Rightarrow> int \<Rightarrow> duration" where
  "RetryWaitLinear initial increment retries = initial + retries * increment"

section \<open>Slices and task names\<close>

text \<open>
  \<open>SliceIfFound\<close> moves the elements that satisfy the predicate to the front by swapping,
  and returns the prefix. The loop reads \<open>slice[i]\<close> as it is when iteration \<open>i\<close> starts.
\<close>

definition swap :: "'a list \<Rightarrow> nat \<Rightarrow> nat \<Rightarrow> 'a list" where
  "swap xs i j = xs[i := xs ! j, j := xs ! i]"

function SliceIfFound_loop :: "('a \<Rightarrow> bool) \<Rightarrow> nat \<Rightarrow> nat \<Rightarrow> 'a list \<Rightarrow> 'a list \<times> nat" where
  "SliceIfFound_loop f i ct xs =
     (if i < length xs then
        (if f (xs ! i) then SliceIfFound_loop f (Suc i) (Suc ct) (swap xs ct i)
         else SliceIfFound_loop f (Suc i) ct xs)
      else (xs, ct))"
  by pat_completeness auto
termination
  by (relation "measure (\<lambda>(f, i, ct, xs). length xs - i)") (auto simp: swap_def)

declare SliceIfFound_loop.simps [simp del]

definition SliceIfFound :: "'a list \<Rightarrow> ('a \<Rightarrow> bool) \<Rightarrow> 'a list \<times> bool" where
  "SliceIfFound xs f =
     (let (ys, ct) = SliceIfFound_loop f 0 0 xs
      in if ct = 0 then (ys, False) else (take ct ys, True))"

definition BackgroundTask :: "string \<Rightarrow> string" where
  "BackgroundTask name = ''bg:'' @ name"

definition IsBackgroundTask :: "string \<Rightarrow> bool" where
  "IsBackgroundTask name \<longleftrightarrow> take 3 name = ''bg:''"

section \<open>Lemmas\<close>

lemma Max_new_wf: "wf_counter (fst (Max_new n next c))"
  by (simp add: Max_new_def wf_counter_def)

lemma Instance_wf: "current m < next \<Longrightarrow> wf_counter (fst (Instance m next c))"
  by (simp add: Instance_def wf_counter_def)

lemma IsBackgroundTask_BackgroundTask [simp]: "IsBackgroundTask (BackgroundTask n)"
  by (simp add: IsBackgroundTask_def BackgroundTask_def)

text \<open>
  \<open>int32\<close> values are read as signed; a sum that fits is not wrapped.
\<close>

lemma sint_add_fits:
  fixes w :: int32
  assumes "- (2 ^ 31) \<le> sint w + n" "sint w + n < 2 ^ 31"
  shows "sint (w + word_of_int n) = sint w + n"
proof -
  have "w + word_of_int n = word_of_int (sint w + n)" by simp
  then have "sint (w + word_of_int n) = signed_take_bit 31 (sint w + n)"
    by (simp only: sint_sbintrunc') simp
  then show ?thesis using assms by (simp add: signed_take_bit_int_eq_self)
qed

section \<open>What the engine relies on\<close>

text \<open>
  The contract of a limiter: a state with a limit (no limit when it is not positive), the
  number of running tasks, the room left, and the addition of tasks. Counts are exact as
  long as they stay below \<open>cap\<close>.
\<close>

locale limiter =
  fixes ok :: "'s \<Rightarrow> bool"
    and limit active headroom :: "'s \<Rightarrow> int"
    and at_max :: "'s \<Rightarrow> bool"
    and add :: "int \<Rightarrow> 's \<Rightarrow> 's"
    and cap :: int
  assumes headroom_limited: "limit s > 0 \<Longrightarrow> headroom s = limit s - active s"
    and at_max_iff: "at_max s \<longleftrightarrow> limit s > 0 \<and> limit s \<le> active s"
    and limit_add: "limit (add n s) = limit s"
    and ok_add: "ok s \<Longrightarrow> ok (add n s)"
    and ok_limit: "ok s \<Longrightarrow> limit s < cap"
    and active_add: "ok s \<Longrightarrow> - cap \<le> active s + n \<Longrightarrow> active s + n < cap \<Longrightarrow>
      active (add n s) = active s + n"
begin

lemma add_within_limit:
  assumes "ok s" "limit s > 0" "0 \<le> active s" "0 \<le> n" "n \<le> headroom s"
  shows "active (add n s) = active s + n \<and> active (add n s) \<le> limit s"
  using assms ok_limit [of s] active_add [of s n] headroom_limited [of s] by linarith

lemma headroom_positive: "limit s > 0 \<Longrightarrow> \<not> at_max s \<Longrightarrow> 0 < headroom s"
  using headroom_limited [of s] at_max_iff [of s] by linarith

lemma add_sub_active:
  assumes "ok s" "0 \<le> active s" "0 \<le> n" "active s + n < cap"
  shows "active (add (- n) (add n s)) = active s"
  using active_add [of s n] active_add [OF ok_add [OF assms(1), of n], of "- n"] assms by linarith

end

lemma Active_Add:
  assumes "wf_counter m" "- (2 ^ 31) \<le> Active c m + n" "Active c m + n < 2 ^ 31"
  shows "Active (MaxCounter_Add m n c) m = Active c m + n"
  using assms sint_add_fits [of "c (current m)" n]
  by (simp add: Active_def MaxCounter_Add_def wf_counter_def)

lemma ActiveThis_Add:
  assumes "wf_counter m" "- (2 ^ 31) \<le> ActiveThis c m + n" "ActiveThis c m + n < 2 ^ 31"
  shows "ActiveThis (MaxCounter_Add m n c) m = ActiveThis c m + n"
  using assms sint_add_fits [of "c (currentThis m)" n]
  by (simp add: ActiveThis_def MaxCounter_Add_def wf_counter_def)

lemma Add_other:
  "a \<noteq> current m \<Longrightarrow> a \<noteq> currentThis m \<Longrightarrow> MaxCounter_Add m n c a = c a"
  by (simp add: MaxCounter_Add_def)

interpretation lim: limiter
  "\<lambda>(m, c). wf_counter m \<and> N m < 2 ^ 31" "\<lambda>(m, c). MaxCounter_Max m"
  "\<lambda>(m, c). Active c m" "\<lambda>(m, c). Headroom c m" "\<lambda>(m, c). AtMax c m"
  "\<lambda>n (m, c). (m, MaxCounter_Add m n c)" "2 ^ 31"
  by unfold_locales (auto simp: Headroom_def MaxCounter_Max_def AtMax_def Active_Add)

section \<open>SliceIfFound\<close>

lemma mset_swap: "i < length xs \<Longrightarrow> j < length xs \<Longrightarrow> mset (swap xs i j) = mset xs"
  unfolding swap_def by (metis mset_swap)

lemma SliceIfFound_loop_spec:
  assumes "ct \<le> i" "i \<le> length xs" "SliceIfFound_loop f i ct xs = (ys, n)"
  shows "take n ys = take ct xs @ filter f (drop i xs) \<and>
    n = ct + length (filter f (drop i xs)) \<and> mset ys = mset xs"
  using assms
proof (induction f i ct xs rule: SliceIfFound_loop.induct)
  case (1 f i ct xs)
  show ?case
  proof (cases "i < length xs")
    case False
    with 1 show ?thesis by (simp add: SliceIfFound_loop.simps)
  next
    case True
    then have drop: "drop i xs = xs ! i # drop (Suc i) xs" by (rule Cons_nth_drop_Suc [symmetric])
    show ?thesis
    proof (cases "f (xs ! i)")
      case False
      with True 1 drop show ?thesis by (auto simp: SliceIfFound_loop.simps [of f i])
    next
      case found: True
      have "take (Suc ct) (swap xs ct i) = take ct xs @ [xs ! i]"
        using True 1 by (auto simp: swap_def take_Suc_conv_app_nth nth_list_update)
      moreover have "drop (Suc i) (swap xs ct i) = drop (Suc i) xs"
        using 1 by (simp add: swap_def)
      moreover have "length (swap xs ct i) = length xs" by (simp add: swap_def)
      ultimately show ?thesis
        using 1 True found drop mset_swap [of ct xs i]
        by (auto simp: SliceIfFound_loop.simps [of f i])
    qed
  qed
qed

text \<open>
  \<open>SliceIfFound\<close> returns exactly the elements that satisfy the predicate, in the order
  of the slice, and \<open>true\<close> when there is one; otherwise the whole slice and \<open>false\<close>.
\<close>

theorem SliceIfFound_filter:
  "SliceIfFound xs f = (if filter f xs = [] then (xs, False) else (filter f xs, True))"
proof -
  have none: "SliceIfFound_loop f i ct xs = (xs, ct)" if "filter f (drop i xs) = []" for i ct
    using that
  proof (induction f i ct xs rule: SliceIfFound_loop.induct)
    case (1 f i ct xs)
    then show ?case
      by (cases "i < length xs")
        (auto simp: SliceIfFound_loop.simps [of f i] Cons_nth_drop_Suc [symmetric] split: if_splits)
  qed
  obtain ys n where r: "SliceIfFound_loop f 0 0 xs = (ys, n)" by fastforce
  with SliceIfFound_loop_spec [OF _ _ r] none [of 0 0] show ?thesis
    by (auto simp: SliceIfFound_def)
qed

end
