(* ===== verification/TaskEngine.thy ===== *)
theory TaskEngine
  imports HarmonyDB Limiter
begin

text \<open>
  The task engine of one node (\<open>harmony/harmonytask/harmonytask.go\<close> and
  \<open>task_type_handler.go\<close>): accepting work, recording its completion, adding tasks, and
  the poller that drives them.

  The engine's mutable fields are a record that every operation takes and returns, with
  the database. What the engine cannot decide itself is an argument: the answers of the
  task implementation (\<open>CanAccept\<close>, \<open>HasCapacity\<close>, \<open>Claim\<close>, \<open>Do\<close>), the clock, the rows
  other transactions hold locked, and whether a database call fails. GPU counts
  (\<open>float64\<close>) are rationals; RAM is a \<open>uint64\<close> and wraps. Logging and metrics have no
  counterpart.
\<close>

section \<open>State\<close>

record TaskTypeDetails =
  td_Max :: "MaxCounter option"
  td_Name :: string
  td_Cpu :: int
  td_Gpu :: rat
  td_Ram :: uint64
  td_Storage :: bool
  td_MaxFailures :: nat
  td_RetryWait :: "(int \<Rightarrow> duration) option"
  td_SchedulingOverrides :: "string list option"
  td_CanYield :: bool
  td_TimeSensitive :: bool
  td_IAmBored :: bool

record taskTypeHandler = TaskTypeDetails +
  h_Max :: MaxCounter
  h_storageFailures :: "TaskID \<rightharpoonup> time"

record TaskEngine =
  e_handlers :: "taskTypeHandler list"
  e_reg :: Resources
  e_ownerID :: int
  e_hostAndPort :: string
  e_yieldBackground :: bool
  e_lastFollowTime :: time
  e_lastCleanup :: time
  e_counters :: counters

definition POLL_DURATION :: duration where "POLL_DURATION = 3 * second"
definition POLL_NEXT_DURATION :: duration where "POLL_NEXT_DURATION = 100 * millisecond"
definition CLEANUP_FREQUENCY :: duration where "CLEANUP_FREQUENCY = 5 * minute"
definition FOLLOW_FREQUENCY :: duration where "FOLLOW_FREQUENCY = 1 * minute"
definition STORAGE_FAILURE_TIMEOUT :: duration where "STORAGE_FAILURE_TIMEOUT = 3 * minute"

definition WorkSourcePoller :: string where "WorkSourcePoller = ''poller''"
definition WorkSourceRecover :: string where "WorkSourceRecover = ''recovered''"
definition WorkSourceIAmBored :: string where "WorkSourceIAmBored = ''bored''"

text \<open>What one call of \<open>considerWork\<close> gets from its surroundings.\<close>

record work_env =
  we_now :: time
  we_MaxHeadroom :: int
  we_CanAccept :: "string \<Rightarrow> TaskID list \<Rightarrow> string + TaskID list"
  we_HasCapacity :: bool
  we_Claim :: "TaskID \<Rightarrow> bool"
  we_locked :: "TaskID \<Rightarrow> bool"
  we_claim_fails :: bool
  we_reset_fails :: bool

section \<open>Capacity\<close>

definition ResourcesAvailable :: "TaskEngine \<Rightarrow> Resources" where
  "ResourcesAvailable e =
     fold (\<lambda>t tmp.
        let ct = ActiveThis (e_counters e) (h_Max t);
            ramUsed = word_of_int ct * td_Ram t
        in tmp\<lparr>r_Cpu := r_Cpu tmp - ct * td_Cpu t,
               r_Gpu := r_Gpu tmp - of_int ct * td_Gpu t,
               r_Ram := (if ramUsed \<ge> r_Ram tmp then 0 else r_Ram tmp - ramUsed)\<rparr>)
       (e_handlers e) (e_reg e)"

datatype capacity_error = AtMaxAlready | OutOfCpu | OutOfRam | OutOfGpu | OutOfStorage

definition AssertMachineHasCapacity ::
  "int \<Rightarrow> bool \<Rightarrow> TaskEngine \<Rightarrow> taskTypeHandler \<Rightarrow> capacity_error + int" where
  "AssertMachineHasCapacity maxHeadroom hasCapacity e h =
     (let r = ResourcesAvailable e; headroom0 = maxHeadroom in
      if AtMax (e_counters e) (h_Max h) then Inl AtMaxAlready
      else if r_Cpu r - td_Cpu h < 0 then Inl OutOfCpu
      else
        let headroom1 = (if td_Cpu h > 0 \<and> r_Cpu r div td_Cpu h < headroom0
                         then r_Cpu r div td_Cpu h else headroom0) in
        if td_Ram h > r_Ram r then Inl OutOfRam
        else
          let headroom2 = (if td_Ram h > 0 \<and> r_Ram r div td_Ram h < word_of_int headroom1
                           then uint (r_Ram r div td_Ram h) else headroom1) in
          if r_Gpu r - td_Gpu h < 0 then Inl OutOfGpu
          else
            let headroom3 = (if td_Gpu h > 0 \<and> r_Gpu r / td_Gpu h < of_int headroom2
                             then \<lfloor>r_Gpu r / td_Gpu h\<rfloor> else headroom2) in
            if td_Storage h \<and> \<not> hasCapacity then Inl OutOfStorage
            else Inr headroom3)"

section \<open>considerWork\<close>

text \<open>Tasks whose storage claim failed recently are skipped; expired entries are dropped.\<close>

fun filter_storage_failures ::
  "time \<Rightarrow> (TaskID \<rightharpoonup> time) \<Rightarrow> TaskID list \<Rightarrow> TaskID list \<times> (TaskID \<rightharpoonup> time)" where
  "filter_storage_failures now sf [] = ([], sf)"
| "filter_storage_failures now sf (t # ts) =
     (case sf t of
        None \<Rightarrow> let (ts', sf') = filter_storage_failures now sf ts in (t # ts', sf')
      | Some v \<Rightarrow>
          if now - v > STORAGE_FAILURE_TIMEOUT
          then let (ts', sf') = filter_storage_failures now (sf(t := None)) ts in (t # ts', sf')
          else filter_storage_failures now sf ts)"

fun array_position :: "'a list \<Rightarrow> 'a \<Rightarrow> nat" where
  "array_position [] y = 0"
| "array_position (x # xs) y = (if x = y then 0 else Suc (array_position xs y))"

text \<open>
  The claim statement. The candidates are the unowned rows among \<open>tIDs\<close> that no other
  transaction holds locked (\<open>SKIP LOCKED\<close>), in the order of \<open>tIDs\<close>, at most \<open>limit\<close>; they
  get \<open>owner_id\<close>. A negative limit is a database error, and so is an owner whose machine
  row is gone (the foreign key).
\<close>

definition claimable :: "(TaskID \<Rightarrow> bool) \<Rightarrow> harmony_db \<Rightarrow> TaskID \<Rightarrow> bool" where
  "claimable locked db t \<longleftrightarrow>
     (case find_task t db of None \<Rightarrow> False | Some r \<Rightarrow> t_owner_id r = None \<and> \<not> locked t)"

definition set_owner :: "TaskID list \<Rightarrow> int option \<Rightarrow> harmony_db \<Rightarrow> harmony_db" where
  "set_owner ts owner db = db\<lparr>harmony_task :=
     update_where (\<lambda>r. t_id r \<in> set ts) (\<lambda>r. r\<lparr>t_owner_id := owner\<rparr>) (harmony_task db)\<rparr>"

definition claim_tasks ::
  "(TaskID \<Rightarrow> bool) \<Rightarrow> bool \<Rightarrow> int \<Rightarrow> TaskID list \<Rightarrow> int \<Rightarrow> harmony_db \<Rightarrow>
   db_error + (TaskID list \<times> harmony_db)" where
  "claim_tasks locked fails owner tIDs limit db =
     (let accepted = remdups (take (nat limit)
            (sort_key (array_position tIDs) (filter (claimable locked db) tIDs)))
      in if fails \<or> limit < 0 then Inl (OtherError ''claim'')
         else if accepted \<noteq> [] \<and> \<not> registered owner db then Inl ForeignKey
         else Inr (accepted, set_owner accepted (Some owner) db))"

fun claim_storage ::
  "(TaskID \<Rightarrow> bool) \<Rightarrow> time \<Rightarrow> TaskID list \<Rightarrow> (TaskID \<rightharpoonup> time) \<Rightarrow>
   TaskID list \<times> TaskID list \<times> (TaskID \<rightharpoonup> time)" where
  "claim_storage claim now [] sf = ([], [], sf)"
| "claim_storage claim now (t # ts) sf =
     (if claim t
      then let (good, failed, sf') = claim_storage claim now ts sf in (t # good, failed, sf')
      else let (good, failed, sf') = claim_storage claim now ts (sf(t \<mapsto> now)) in (good, t # failed, sf'))"

definition set_storageFailures :: "nat \<Rightarrow> (TaskID \<rightharpoonup> time) \<Rightarrow> TaskEngine \<Rightarrow> TaskEngine" where
  "set_storageFailures i sf e =
     e\<lparr>e_handlers := (e_handlers e)[i := (e_handlers e ! i)\<lparr>h_storageFailures := sf\<rparr>]\<rparr>"

definition add_active :: "nat \<Rightarrow> int \<Rightarrow> TaskEngine \<Rightarrow> TaskEngine" where
  "add_active i n e = e\<lparr>e_counters := MaxCounter_Add (h_Max (e_handlers e ! i)) n (e_counters e)\<rparr>"

text \<open>
  The last part of \<open>considerWork\<close>: storage is claimed task by task, tasks whose claim
  fails are given back, and a goroutine is started for each of the others.
  The result is whether work was accepted, the tasks for which a goroutine is started,
  and the new engine and database. \<open>i\<close> is the index of the handler.
\<close>

definition start_work ::
  "work_env \<Rightarrow> nat \<Rightarrow> TaskID list \<Rightarrow> (TaskID \<rightharpoonup> time) \<Rightarrow> TaskEngine \<Rightarrow> harmony_db \<Rightarrow>
   bool \<times> TaskID list \<times> TaskEngine \<times> harmony_db" where
  "start_work env i tIDs sf e db =
     (if td_Storage (e_handlers e ! i) then
        (let (good, failed, sf') = claim_storage (we_Claim env) (we_now env) tIDs sf;
             e' = set_storageFailures i sf' e;
             db' = (if failed \<noteq> [] \<and> \<not> we_reset_fails env then set_owner failed None db else db)
         in if failed \<noteq> [] \<and> good = [] then (False, [], e', db')
            else (True, good, add_active i (int (length good)) e', db'))
      else (True, tIDs, add_active i (int (length tIDs)) e, db))"

text \<open>
  The middle part: storage failures are filtered out, and unless the tasks are already
  ours they are claimed, as many as the resources and the limit of the type allow.
\<close>

definition take_work ::
  "work_env \<Rightarrow> string \<Rightarrow> nat \<Rightarrow> int \<Rightarrow> TaskID list \<Rightarrow> TaskEngine \<Rightarrow> harmony_db \<Rightarrow>
   bool \<times> TaskID list \<times> TaskEngine \<times> harmony_db" where
  "take_work env from i capacity tIDs e db =
     (let h = e_handlers e ! i;
          headroom = Headroom (e_counters e) (h_Max h);
          maxAcceptable = (if capacity > headroom then headroom else capacity);
          (tIDs1, sf1) = filter_storage_failures (we_now env) (h_storageFailures h) tIDs;
          e1 = set_storageFailures i sf1 e
      in if from \<noteq> WorkSourceRecover then
           (case claim_tasks (we_locked env) (we_claim_fails env) (e_ownerID e) tIDs1 maxAcceptable db of
              Inl _ \<Rightarrow> (False, [], e1, db)
            | Inr (accepted, db1) \<Rightarrow>
                if accepted = [] then (False, [], e1, db1)
                else start_work env i (if length accepted \<noteq> length tIDs1 then accepted else tIDs1) sf1 e1 db1)
         else start_work env i tIDs1 sf1 e1 db)"

definition considerWork ::
  "work_env \<Rightarrow> string \<Rightarrow> nat \<Rightarrow> TaskID list \<Rightarrow> TaskEngine \<Rightarrow> harmony_db \<Rightarrow>
   bool \<times> TaskID list \<times> TaskEngine \<times> harmony_db" where
  "considerWork env from i ids e db =
     (let h = e_handlers e ! i in
      if ids = [] then (True, [], e, db)
      else if AtMax (e_counters e) (h_Max h) then (False, [], e, db)
      else case AssertMachineHasCapacity (we_MaxHeadroom env) (we_HasCapacity env) e h of
        Inl _ \<Rightarrow> (False, [], e, db)
      | Inr capacity \<Rightarrow>
        (case we_CanAccept env from ids of
           Inl _ \<Rightarrow> (False, [], e, db)
         | Inr tIDs \<Rightarrow>
             if tIDs = [] then (False, [], e, db)
             else take_work env from i capacity tIDs e db))"

text \<open>The closure passed to \<open>Do\<close>; a \<open>NULL\<close> owner cannot be scanned into an \<open>int\<close>.\<close>

definition stillOwned :: "taskTypeHandler \<Rightarrow> TaskEngine \<Rightarrow> TaskID \<Rightarrow> bool \<Rightarrow> harmony_db \<Rightarrow> bool" where
  "stillOwned h e tID fails db \<longleftrightarrow>
     \<not> ((IsBackgroundTask (td_Name h) \<or> td_CanYield h) \<and> e_yieldBackground e) \<and>
     \<not> fails \<and>
     (case find_task tID db of
        None \<Rightarrow> False
      | Some r \<Rightarrow> (case t_owner_id r of None \<Rightarrow> False | Some owner \<Rightarrow> owner = e_ownerID e))"

section \<open>recordCompletion\<close>

definition completion_result :: "bool \<Rightarrow> string option \<Rightarrow> string" where
  "completion_result don doErr =
     (if don then (case doErr of None \<Rightarrow> '''' | Some err \<Rightarrow> ''non-failing error: '' @ err)
      else (case doErr of None \<Rightarrow> ''unspecified error'' | Some err \<Rightarrow> ''error: '' @ err))"

text \<open>One attempt: the transaction of \<open>recordCompletion\<close>.\<close>

definition recordCompletion_tx ::
  "taskTypeHandler \<Rightarrow> string \<Rightarrow> TaskID \<Rightarrow> (int \<times> int) option \<Rightarrow> time \<Rightarrow> time \<Rightarrow> time \<Rightarrow>
   bool \<Rightarrow> string option \<Rightarrow> harmony_db \<Rightarrow> db_error + harmony_db" where
  "recordCompletion_tx h host tID sectorID workStart workEnd now don doErr db =
     (case find_task tID db of
        None \<Rightarrow> Inl NoRows
      | Some row \<Rightarrow>
          let deleteTask = td_MaxFailures h > 0 \<and> t_retries row \<ge> td_MaxFailures h - 1;
              db1 = (if don \<or> deleteTask then delete_task tID db
                     else db\<lparr>harmony_task :=
                       update_where (\<lambda>r. t_id r = tID)
                         (\<lambda>r. r\<lparr>t_owner_id := None, t_retries := t_retries row + 1, t_update_time := now\<rparr>)
                         (harmony_task db)\<rparr>);
              hid = history_seq db1;
              db2 = db1\<lparr>history_seq := hid + 1,
                        harmony_task_history := harmony_task_history db1 @
                          [\<lparr>h_id = hid, h_task_id = tID, h_name = td_Name h,
                            h_posted = t_posted_time row, h_work_start = workStart,
                            h_work_end = workEnd, h_result = don, h_completed_by = host,
                            h_err = completion_result don doErr\<rparr>]\<rparr>
          in Inr (case sectorID of
                    None \<Rightarrow> db2
                  | Some (sp, num) \<Rightarrow> append_sector_pipeline_events sp num hid db2))"

text \<open>
  The retry loop. Each attempt sees the database as it is then, and may fail for outside
  reasons; \<open>None\<close> means that no attempt so far has committed.
\<close>

fun recordCompletion ::
  "taskTypeHandler \<Rightarrow> string \<Rightarrow> TaskID \<Rightarrow> (int \<times> int) option \<Rightarrow> time \<Rightarrow> time \<Rightarrow>
   bool \<Rightarrow> string option \<Rightarrow> (bool \<times> time \<times> harmony_db) list \<Rightarrow> harmony_db option" where
  "recordCompletion h host tID sectorID workStart workEnd don doErr [] = None"
| "recordCompletion h host tID sectorID workStart workEnd don doErr ((fails, now, db) # attempts) =
     (case (if fails then Inl (OtherError ''tx'')
            else recordCompletion_tx h host tID sectorID workStart workEnd now don doErr db) of
        Inl _ \<Rightarrow> recordCompletion h host tID sectorID workStart workEnd don doErr attempts
      | Inr db' \<Rightarrow> Some db')"

text \<open>
  The deferred end of a work goroutine, also after a panic of \<open>Do\<close> (then \<open>don\<close> is false
  and \<open>doErr\<close> nil): the counters go down and the completion is recorded.
\<close>

definition finish_task ::
  "nat \<Rightarrow> TaskID \<Rightarrow> (int \<times> int) option \<Rightarrow> time \<Rightarrow> time \<Rightarrow> bool \<Rightarrow> string option \<Rightarrow>
   (bool \<times> time \<times> harmony_db) list \<Rightarrow> TaskEngine \<Rightarrow> TaskEngine \<times> harmony_db option" where
  "finish_task i tID sectorID workStart workEnd don doErr attempts e =
     (add_active i (-1) e,
      recordCompletion (e_handlers e ! i) (e_hostAndPort e) tID sectorID workStart workEnd don doErr attempts)"

section \<open>AddTask\<close>

type_synonym extra_info = "TaskID \<Rightarrow> harmony_db \<Rightarrow> (db_error + bool) \<times> harmony_db"

text \<open>
  One transaction: insert the row, run \<open>extraInfo\<close>, commit if it says so. A rollback
  undoes everything but the sequence.
\<close>

definition AddTask_tx ::
  "string \<Rightarrow> int \<Rightarrow> time \<Rightarrow> extra_info \<Rightarrow> db_error option \<Rightarrow> harmony_db \<Rightarrow>
   (db_error + bool) \<times> harmony_db" where
  "AddTask_tx name owner now extra commit_err db =
     (let (tID, db1) = insert_task name owner now db;
          (res, db2) = extra tID db1;
          rolled_back = db\<lparr>task_seq := tID + 1\<rparr>
      in case res of
           Inl err \<Rightarrow> (Inl err, rolled_back)
         | Inr shouldCommit \<Rightarrow>
             if \<not> shouldCommit then (Inr False, rolled_back)
             else (case commit_err of None \<Rightarrow> (Inr True, db2) | Some err \<Rightarrow> (Inl err, rolled_back)))"

text \<open>Serialization failures are retried; \<open>None\<close> means that it is still retrying.\<close>

fun AddTask ::
  "string \<Rightarrow> int \<Rightarrow> time \<Rightarrow> extra_info \<Rightarrow> db_error option list \<Rightarrow> harmony_db \<Rightarrow>
   (db_error + bool) option \<times> harmony_db" where
  "AddTask name owner now extra [] db = (None, db)"
| "AddTask name owner now extra (ce # ces) db =
     (case AddTask_tx name owner now extra ce db of
        (Inl Serialization, db') \<Rightarrow> AddTask name owner now extra ces db'
      | (res, db') \<Rightarrow> (Some res, db'))"

section \<open>New\<close>

text \<open>
  \<open>taskMap\<close> is keyed by name and a later implementation of the same name replaces an
  earlier one, so it is the last handler of that name.
\<close>

fun taskMap :: "taskTypeHandler list \<Rightarrow> string \<Rightarrow> nat option" where
  "taskMap [] name = None"
| "taskMap (h # hs) name =
     (case taskMap hs name of
        Some i \<Rightarrow> Some (Suc i)
      | None \<Rightarrow> if td_Name h = name then Some 0 else None)"

datatype new_error = CannotGetResources register_error | NotRegistered string | NameTooLong string | SelectFailed

definition make_handler ::
  "TaskTypeDetails \<Rightarrow> nat \<Rightarrow> counters \<Rightarrow> taskTypeHandler \<times> nat \<times> counters" where
  "make_handler d next c =
     (let (m, next1, c1) = (case td_Max d of None \<Rightarrow> Max_new 0 next c | Some m \<Rightarrow> (m, next, c));
          (inst, next2, c2) = Instance m next1 c1
      in (TaskTypeDetails.extend d \<lparr>h_Max = inst, h_storageFailures = Map.empty\<rparr>, next2, c2))"

fun make_handlers ::
  "(string \<Rightarrow> bool) \<Rightarrow> TaskTypeDetails list \<Rightarrow> nat \<Rightarrow> counters \<Rightarrow>
   new_error + (taskTypeHandler list \<times> nat \<times> counters)" where
  "make_handlers Registry [] next c = Inr ([], next, c)"
| "make_handlers Registry (d # ds) next c =
     (let (h, next', c') = make_handler d next c in
      if \<not> Registry (td_Name h) then Inl (NotRegistered (td_Name h))
      else if length (td_Name h) > 16 then Inl (NameTooLong (td_Name h))
      else rbind (make_handlers Registry ds next' c') (\<lambda>(hs, r). Inr (h # hs, r)))"

text \<open>
  The tasks this machine owned before a restart are offered to their handlers, and given
  up when the handler is not there or refuses. Returns the tasks started.
\<close>

definition release_own :: "TaskID \<Rightarrow> int \<Rightarrow> harmony_db \<Rightarrow> harmony_db" where
  "release_own tid owner db = db\<lparr>harmony_task :=
     update_where (\<lambda>r. t_id r = tid \<and> t_owner_id r = Some owner) (\<lambda>r. r\<lparr>t_owner_id := None\<rparr>)
       (harmony_task db)\<rparr>"

fun resurrect ::
  "(TaskID \<Rightarrow> work_env) \<Rightarrow> (TaskID \<Rightarrow> bool) \<Rightarrow> (TaskID \<times> string) list \<Rightarrow> TaskEngine \<Rightarrow> harmony_db \<Rightarrow>
   TaskID list \<times> TaskEngine \<times> harmony_db" where
  "resurrect envs release_fails [] e db = ([], e, db)"
| "resurrect envs release_fails ((tid, name) # ws) e db =
     (let (ok, started, e1, db1) =
            (case taskMap (e_handlers e) name of
               None \<Rightarrow> (False, [], e, db)
             | Some i \<Rightarrow> considerWork (envs tid) WorkSourceRecover i [tid] e db);
          db2 = (if ok \<or> release_fails tid then db1 else release_own tid (e_ownerID e) db1);
          (more, e3, db3) = resurrect envs release_fails ws e1 db2
      in (started @ more, e3, db3))"

definition owned_by :: "int \<Rightarrow> harmony_db \<Rightarrow> task_row list" where
  "owned_by owner db = filter (\<lambda>r. t_owner_id r = Some owner) (harmony_task db)"

definition New ::
  "(string \<Rightarrow> bool) \<Rightarrow> TaskTypeDetails list \<Rightarrow> string \<Rightarrow> Resources option \<Rightarrow> time \<Rightarrow>
   bool \<Rightarrow> bool \<Rightarrow> bool \<Rightarrow> (TaskID \<Rightarrow> work_env) \<Rightarrow> (TaskID \<Rightarrow> bool) \<Rightarrow> nat \<Rightarrow> counters \<Rightarrow> harmony_db \<Rightarrow>
   new_error + (TaskID list \<times> TaskEngine \<times> harmony_db)" where
  "New Registry impls host insp now upsert_fails cleanup_fails select_fails envs release_fails next c db =
     (case Register host insp now upsert_fails cleanup_fails db of
        Inl err \<Rightarrow> Inl (CannotGetResources err)
      | Inr (reg, db1) \<Rightarrow>
          rbind (make_handlers Registry impls next c) (\<lambda>(hs, next', c').
            if select_fails then Inl SelectFailed
            else
              let e = \<lparr>e_handlers = hs, e_reg = reg, e_ownerID = r_MachineID reg,
                       e_hostAndPort = host, e_yieldBackground = False, e_lastFollowTime = 0,
                       e_lastCleanup = now, e_counters = c'\<rparr>
              in Inr (resurrect envs release_fails
                   (map (\<lambda>r. (t_id r, t_name r)) (owned_by (e_ownerID e) db1)) e db1)))"

section \<open>The poller\<close>

text \<open>What one round of \<open>pollerTryAllWork\<close> gets from its surroundings, per handler.\<close>

record poll_env =
  pe_now :: time
  pe_cleanup_fails :: bool
  pe_override_fails :: "nat \<Rightarrow> string \<Rightarrow> bool"
  pe_select_fails :: "nat \<Rightarrow> bool"
  pe_work :: "nat \<Rightarrow> work_env"
  pe_bored_work :: "nat \<Rightarrow> work_env"
  pe_bored_adds :: "nat \<Rightarrow> (extra_info \<times> db_error option list) list"
  pe_bored_err :: "nat \<Rightarrow> bool"

text \<open>
  The overrides of a type on a cordoned machine: one assigned task of a related type is
  enough, and a failed query stops the search.
\<close>

fun foundOverride :: "(string \<Rightarrow> bool) \<Rightarrow> int \<Rightarrow> harmony_db \<Rightarrow> string list \<Rightarrow> bool" where
  "foundOverride fails owner db [] = False"
| "foundOverride fails owner db (n # ns) =
     (if fails n then False
      else if \<exists>r\<in>set (harmony_task db). t_owner_id r = Some owner \<and> t_name r = n then True
      else foundOverride fails owner db ns)"

definition allUnownedTasks :: "string \<Rightarrow> harmony_db \<Rightarrow> task_row list" where
  "allUnownedTasks name db =
     take 512 (sort_key t_update_time
       (filter (\<lambda>r. t_owner_id r = None \<and> t_name r = name) (harmony_task db)))"

definition retry_ready :: "(int \<Rightarrow> duration) option \<Rightarrow> time \<Rightarrow> task_row \<Rightarrow> bool" where
  "retry_ready RetryWait now t \<longleftrightarrow>
     (case RetryWait of
        None \<Rightarrow> True
      | Some wait \<Rightarrow> t_retries t = 0 \<or> now - t_update_time t > wait (int (t_retries t)))"

definition unownedTasks :: "taskTypeHandler \<Rightarrow> time \<Rightarrow> harmony_db \<Rightarrow> TaskID list" where
  "unownedTasks v now db =
     map t_id (filter (retry_ready (td_RetryWait v) now) (allUnownedTasks (td_Name v) db))"

definition try_handler ::
  "poll_env \<Rightarrow> bool \<Rightarrow> nat \<Rightarrow> TaskEngine \<Rightarrow> harmony_db \<Rightarrow>
   bool \<times> TaskID list \<times> TaskEngine \<times> harmony_db" where
  "try_handler pe schedulable i e db =
     (let v = e_handlers e ! i; env = pe_work pe i in
      if \<not> schedulable \<and>
         (case td_SchedulingOverrides v of
            None \<Rightarrow> True
          | Some names \<Rightarrow> \<not> foundOverride (pe_override_fails pe i) (e_ownerID e) db names)
      then (False, [], e, db)
      else case AssertMachineHasCapacity (we_MaxHeadroom env) (we_HasCapacity env) e v of
        Inl _ \<Rightarrow> (False, [], e, db)
      | Inr _ \<Rightarrow>
          if pe_select_fails pe i then (False, [], e, db)
          else
            let ids = unownedTasks v (pe_now pe) db in
            if ids = [] then (False, [], e, db)
            else considerWork env WorkSourcePoller i ids e db)"

fun try_handlers ::
  "poll_env \<Rightarrow> bool \<Rightarrow> nat list \<Rightarrow> TaskEngine \<Rightarrow> harmony_db \<Rightarrow>
   bool \<times> (nat \<times> TaskID list) list \<times> TaskEngine \<times> harmony_db" where
  "try_handlers pe schedulable [] e db = (False, [], e, db)"
| "try_handlers pe schedulable (i # is) e db =
     (case try_handler pe schedulable i e db of
        (True, ts, e', db') \<Rightarrow> (True, [(i, ts)], e', db')
      | (False, ts, e', db') \<Rightarrow> try_handlers pe schedulable is e' db')"

text \<open>
  The function given to \<open>IAmBored\<close>: it adds a task and remembers the ID of each
  attempt whose \<open>extraInfo\<close> agreed, whether or not the commit then succeeds.
\<close>

fun bored_add ::
  "string \<Rightarrow> int \<Rightarrow> time \<Rightarrow> extra_info \<Rightarrow> db_error option list \<Rightarrow> harmony_db \<Rightarrow>
   TaskID list \<times> harmony_db" where
  "bored_add name owner now extra [] db = ([], db)"
| "bored_add name owner now extra (ce # ces) db =
     (let (tID, db1) = insert_task name owner now db;
          added = (if fst (extra tID db1) = Inr True then [tID] else [])
      in case AddTask_tx name owner now extra ce db of
           (Inl Serialization, db') \<Rightarrow>
             let (more, db'') = bored_add name owner now extra ces db' in (added @ more, db'')
         | (_, db') \<Rightarrow> (added, db'))"

fun bored_adds ::
  "string \<Rightarrow> int \<Rightarrow> time \<Rightarrow> (extra_info \<times> db_error option list) list \<Rightarrow> harmony_db \<Rightarrow>
   TaskID list \<times> harmony_db" where
  "bored_adds name owner now [] db = ([], db)"
| "bored_adds name owner now ((extra, ces) # calls) db =
     (let (added, db1) = bored_add name owner now extra ces db;
          (more, db2) = bored_adds name owner now calls db1
      in (added @ more, db2))"

fun try_bored ::
  "poll_env \<Rightarrow> nat list \<Rightarrow> TaskEngine \<Rightarrow> harmony_db \<Rightarrow>
   (nat \<times> TaskID list) list \<times> TaskEngine \<times> harmony_db" where
  "try_bored pe [] e db = ([], e, db)"
| "try_bored pe (i # is) e db =
     (let v = e_handlers e ! i; env = pe_bored_work pe i;
          (started, e1, db1) =
            (case AssertMachineHasCapacity (we_MaxHeadroom env) (we_HasCapacity env) e v of
               Inl _ \<Rightarrow> ([], e, db)
             | Inr _ \<Rightarrow>
                 if \<not> td_IAmBored v then ([], e, db)
                 else
                   let (added, db') = bored_adds (td_Name v) (e_ownerID e) (pe_now pe)
                                        (pe_bored_adds pe i) db in
                   if pe_bored_err pe i \<or> added = [] then ([], e, db')
                   else let (ok, ts, e'', db'') = considerWork env WorkSourceIAmBored i added e db'
                        in ([(i, ts)], e'', db''));
          (more, e2, db2) = try_bored pe is e1 db1
      in (started @ more, e2, db2))"

definition pollerTryAllWork ::
  "poll_env \<Rightarrow> bool \<Rightarrow> TaskEngine \<Rightarrow> harmony_db \<Rightarrow>
   bool \<times> (nat \<times> TaskID list) list \<times> TaskEngine \<times> harmony_db" where
  "pollerTryAllWork pe schedulable e db =
     (let (e0, db0) =
            (if pe_now pe - e_lastCleanup e > CLEANUP_FREQUENCY
             then (e\<lparr>e_lastCleanup := pe_now pe\<rparr>, snd (CleanupMachines (pe_now pe) (pe_cleanup_fails pe) db))
             else (e, db));
          is = [0..<length (e_handlers e)]
      in case try_handlers pe schedulable is e0 db0 of
           (True, ts, e1, db1) \<Rightarrow> (True, ts, e1, db1)
         | (False, ts, e1, db1) \<Rightarrow>
             if \<not> schedulable then (False, ts, e1, db1)
             else let (ts', e2, db2) = try_bored pe is e1 db1 in (False, ts @ ts', e2, db2))"

section \<open>Node flags\<close>

datatype node_flags = FlagsError | Restart harmony_db | Schedulable bool

text \<open>
  \<open>restartIfNoTasksPending\<close> gives the database it leaves when it exits the process, and
  nothing when it returns.
\<close>

definition restartIfNoTasksPending :: "TaskEngine \<Rightarrow> bool \<Rightarrow> bool \<Rightarrow> harmony_db \<Rightarrow> harmony_db option" where
  "restartIfNoTasksPending e count_fails exec_fails db =
     (if count_fails then None
      else if length (owned_by (e_ownerID e) db) = 0 then
        (if exec_fails then None
         else Some (db\<lparr>harmony_machines :=
                 update_where (\<lambda>m. m_host_and_port m = e_hostAndPort e)
                   (\<lambda>m. m\<lparr>m_restart_request := None, m_unschedulable := False\<rparr>)
                   (harmony_machines db)\<rparr>))
      else None)"

definition checkNodeFlags ::
  "TaskEngine \<Rightarrow> bool \<Rightarrow> bool \<Rightarrow> bool \<Rightarrow> harmony_db \<Rightarrow> node_flags" where
  "checkNodeFlags e query_fails count_fails exec_fails db =
     (if query_fails then FlagsError
      else case find (\<lambda>m. m_host_and_port m = e_hostAndPort e) (harmony_machines db) of
        None \<Rightarrow> FlagsError
      | Some m \<Rightarrow>
          (case (case m_restart_request m of
                   None \<Rightarrow> None
                 | Some _ \<Rightarrow> restartIfNoTasksPending e count_fails exec_fails db) of
             Some db' \<Rightarrow> Restart db'
           | None \<Rightarrow> Schedulable (\<not> m_unschedulable m)))"

text \<open>
  \<open>followWorkInDB\<close> iterates over \<open>e.follows\<close>, which \<open>New\<close> creates empty and no code
  fills, so only the timestamp changes.
\<close>

definition followWorkInDB :: "time \<Rightarrow> TaskEngine \<Rightarrow> TaskEngine" where
  "followWorkInDB now e = e\<lparr>e_lastFollowTime := now\<rparr>"

datatype poll_outcome =
  Exited harmony_db
| Polled duration "(nat \<times> TaskID list) list" TaskEngine harmony_db

text \<open>One round of the loop of \<open>poller\<close>, after the timer fired.\<close>

definition poller_round ::
  "poll_env \<Rightarrow> bool \<Rightarrow> bool \<Rightarrow> bool \<Rightarrow> TaskEngine \<Rightarrow> harmony_db \<Rightarrow> poll_outcome" where
  "poller_round pe query_fails count_fails exec_fails e db =
     (case checkNodeFlags e query_fails count_fails exec_fails db of
        FlagsError \<Rightarrow> Polled POLL_DURATION [] e db
      | Restart db' \<Rightarrow> Exited db'
      | Schedulable schedulable \<Rightarrow>
          let (accepted, ts, e1, db1) =
                pollerTryAllWork pe schedulable (e\<lparr>e_yieldBackground := \<not> schedulable\<rparr>) db;
              wait = (if accepted then POLL_NEXT_DURATION else POLL_DURATION)
          in if \<not> schedulable then Polled wait ts e1 db1
             else Polled wait ts
                    (if pe_now pe - e_lastFollowTime e1 > FOLLOW_FREQUENCY
                     then followWorkInDB (pe_now pe) e1 else e1) db1)"

text \<open>\<open>GracefullyTerminate\<close> returns once a pass over the handlers finds nothing to wait for.\<close>

definition may_terminate :: "TaskEngine \<Rightarrow> bool" where
  "may_terminate e \<longleftrightarrow>
     (\<forall>h\<in>set (e_handlers e). \<not> (td_TimeSensitive h \<and> Active (e_counters e) (h_Max h) > 0))"

definition RunningCount :: "TaskEngine \<Rightarrow> string \<Rightarrow> int option" where
  "RunningCount e name =
     map_option (\<lambda>i. Active (e_counters e) (h_Max (e_handlers e ! i))) (taskMap (e_handlers e) name)"

end
