(* ===== verification/EngineSafety.thy ===== *)
theory EngineSafety
  imports TaskEngine
begin

text \<open>
  What \<open>considerWork\<close> and the poller keep: only unowned tasks are claimed, the limit of a
  task type and the resources of the machine are never exceeded by newly claimed work.
\<close>

section \<open>Specification vocabulary\<close>

text \<open>The row \<open>t\<close> passed from nobody to \<open>owner\<close>.\<close>

definition newly_claimed :: "(TaskID \<Rightarrow> bool) \<Rightarrow> int \<Rightarrow> harmony_db \<Rightarrow> harmony_db \<Rightarrow> TaskID \<Rightarrow> bool" where
  "newly_claimed locked owner db db' t \<longleftrightarrow>
     (case find_task t db of
        None \<Rightarrow> False
      | Some r \<Rightarrow> t_owner_id r = None \<and> \<not> locked t \<and>
                  find_task t db' = Some (r\<lparr>t_owner_id := Some owner\<rparr>))"

text \<open>
  Every handler has its own counter, none of them is another handler's shared counter,
  the limits fit the counter and costs are not negative.
\<close>

definition wf_engine :: "TaskEngine \<Rightarrow> bool" where
  "wf_engine e \<longleftrightarrow>
     distinct (map (currentThis \<circ> h_Max) (e_handlers e)) \<and>
     (\<forall>h\<in>set (e_handlers e). \<forall>h'\<in>set (e_handlers e). currentThis (h_Max h) \<noteq> current (h_Max h')) \<and>
     (\<forall>h\<in>set (e_handlers e). N (h_Max h) < 2 ^ 31 \<and> 0 \<le> td_Cpu h \<and> 0 \<le> td_Gpu h)"

definition counts_ok :: "TaskEngine \<Rightarrow> bool" where
  "counts_ok e \<longleftrightarrow>
     (\<forall>h\<in>set (e_handlers e).
        0 \<le> ActiveThis (e_counters e) (h_Max h) \<and>
        ActiveThis (e_counters e) (h_Max h) \<le> Active (e_counters e) (h_Max h))"

definition used :: "(taskTypeHandler \<Rightarrow> rat) \<Rightarrow> TaskEngine \<Rightarrow> rat" where
  "used cost e = (\<Sum>h\<leftarrow>e_handlers e. of_int (ActiveThis (e_counters e) (h_Max h)) * cost h)"

abbreviation cpu_cost :: "taskTypeHandler \<Rightarrow> rat" where "cpu_cost h \<equiv> of_int (td_Cpu h)"
abbreviation ram_cost :: "taskTypeHandler \<Rightarrow> rat" where "ram_cost h \<equiv> of_int (uint (td_Ram h))"

definition within_resources :: "TaskEngine \<Rightarrow> bool" where
  "within_resources e \<longleftrightarrow>
     used cpu_cost e \<le> of_int (r_Cpu (e_reg e)) \<and>
     used td_Gpu e \<le> r_Gpu (e_reg e) \<and>
     used ram_cost e \<le> of_int (uint (r_Ram (e_reg e)))"

section \<open>A concrete node\<close>

text \<open>
  Two machines; tasks 10 and 12 are free, task 11 belongs to machine 2. The first
  machine runs sealing tasks, two at a time, with 4 cores and 64 bytes of RAM each.
\<close>

definition ex_task :: "TaskID \<Rightarrow> string \<Rightarrow> int option \<Rightarrow> nat \<Rightarrow> task_row" where
  "ex_task t name owner retries = \<lparr>t_id = t, t_name = name, t_owner_id = owner, t_added_by = 1,
     t_posted_time = 5, t_update_time = 5, t_retries = retries\<rparr>"

definition ex_machine :: "int \<Rightarrow> string \<Rightarrow> time \<Rightarrow> machine_row" where
  "ex_machine m host contact = \<lparr>m_id = m, m_host_and_port = host, m_cpu = 16, m_ram = 256, m_gpu = 1,
     m_last_contact = contact, m_unschedulable = False, m_restart_request = None\<rparr>"

definition ex_db :: harmony_db where
  "ex_db = \<lparr>harmony_task = [ex_task 10 ''SDR'' None 0, ex_task 11 ''SDR'' (Some 2) 0, ex_task 12 ''SDR'' None 2],
     harmony_task_history = [], harmony_machines = [ex_machine 1 ''a:1'' 100, ex_machine 2 ''b:1'' 100],
     harmony_task_singletons = [], sectors_pipeline_events = [],
     task_seq = 13, history_seq = 1, machine_seq = 3\<rparr>"

definition ex_handler :: taskTypeHandler where
  "ex_handler = \<lparr>td_Max = None, td_Name = ''SDR'', td_Cpu = 4, td_Gpu = 0, td_Ram = 64, td_Storage = True,
     td_MaxFailures = 3, td_RetryWait = None, td_SchedulingOverrides = None, td_CanYield = False,
     td_TimeSensitive = False, td_IAmBored = False,
     h_Max = \<lparr>N = 2, current = 0, currentThis = 1\<rparr>, h_storageFailures = Map.empty\<rparr>"

definition ex_engine :: TaskEngine where
  "ex_engine = \<lparr>e_handlers = [ex_handler],
     e_reg = \<lparr>r_Cpu = 16, r_Gpu = 1, r_Ram = 256, r_MachineID = 1\<rparr>, e_ownerID = 1, e_hostAndPort = ''a:1'',
     e_yieldBackground = False, e_lastFollowTime = 0, e_lastCleanup = 0, e_counters = (\<lambda>_. 0)\<rparr>"

definition ex_env :: work_env where
  "ex_env = \<lparr>we_now = 200, we_MaxHeadroom = 100, we_CanAccept = (\<lambda>from ids. Inr ids), we_HasCapacity = True,
     we_Claim = (\<lambda>t. t \<noteq> 12), we_locked = (\<lambda>t. False), we_claim_fails = False, we_reset_fails = False\<rparr>"

section \<open>The claim statement\<close>

lemma claim_tasks_Inr:
  assumes "claim_tasks locked fails owner tIDs limit db = Inr (accepted, db')"
  shows "int (length accepted) \<le> limit" "distinct accepted" "set accepted \<subseteq> set tIDs"
    "\<forall>t\<in>set accepted. claimable locked db t" "db' = set_owner accepted (Some owner) db"
    "accepted \<noteq> [] \<Longrightarrow> registered owner db"
proof -
  let ?s = "sort_key (array_position tIDs) (filter (claimable locked db) tIDs)"
  have acc: "accepted = remdups (take (nat limit) ?s)" and "0 \<le> limit"
    and res: "db' = set_owner accepted (Some owner) db" "accepted \<noteq> [] \<Longrightarrow> registered owner db"
    using assms by (auto simp: claim_tasks_def Let_def split: if_splits)
  have "length accepted \<le> nat limit"
    unfolding acc by (rule order_trans [OF length_remdups_leq]) simp
  with \<open>0 \<le> limit\<close> show "int (length accepted) \<le> limit" by linarith
  have "set accepted \<subseteq> set ?s" unfolding acc using set_take_subset by fastforce
  then show "set accepted \<subseteq> set tIDs" "\<forall>t\<in>set accepted. claimable locked db t" by auto
  show "distinct accepted" unfolding acc by simp
qed (use assms in \<open>auto simp: claim_tasks_def Let_def split: if_splits\<close>)

text \<open>When as many tasks were accepted as asked for, they are the tasks asked for.\<close>

lemma all_accepted:
  assumes "distinct accepted" "set accepted \<subseteq> set ts" "length accepted = length ts"
  shows "distinct ts \<and> set ts = set accepted"
proof -
  have "card (set ts) \<le> card (set accepted)"
    using assms by (simp add: distinct_card card_length)
  then have "set accepted = set ts" using assms(2) by (simp add: card_seteq)
  with assms show ?thesis by (metis card_distinct distinct_card)
qed

lemma claim_storage_result:
  "claim_storage claim now ts sf = (good, failed, sf') \<Longrightarrow>
   good = filter claim ts \<and> failed = filter (\<lambda>t. \<not> claim t) ts"
  by (induction ts arbitrary: sf good failed sf') (auto simp: Let_def split: if_splits prod.splits)

lemma find_task_set_owner:
  "find_task t (set_owner ts o' db) =
   map_option (\<lambda>r. if t_id r \<in> set ts then r\<lparr>t_owner_id := o'\<rparr> else r) (find_task t db)"
  by (simp add: find_task_def set_owner_def find_update_where_key)

lemma set_owner_nil [simp]: "set_owner [] o' db = db"
  by (simp add: set_owner_def update_where_none)

text \<open>Giving back what was just claimed leaves the rows as they were.\<close>

lemma set_owner_give_back:
  assumes "wf_db db" "\<forall>t\<in>set ts. claimable locked db t"
  shows "set_owner (filter (\<lambda>t. \<not> p t) ts) None (set_owner ts (Some owner) db) =
    set_owner (filter p ts) (Some owner) db"
proof -
  have "t_owner_id r = None" if "r \<in> set (harmony_task db)" "t_id r \<in> set ts" for r
    using that assms find_task_wf [OF assms(1) that(1)] by (auto simp: claimable_def)
  then show ?thesis by (auto simp: set_owner_def update_where_def)
qed

lemma MaxCounter_Add_0 [simp]: "MaxCounter_Add m 0 c = c"
  by (simp add: MaxCounter_Add_def)

lemma set_storageFailures_simps [simp]:
  "e_counters (set_storageFailures i sf e) = e_counters e"
  "e_reg (set_storageFailures i sf e) = e_reg e"
  "e_ownerID (set_storageFailures i sf e) = e_ownerID e"
  "length (e_handlers (set_storageFailures i sf e)) = length (e_handlers e)"
  by (simp_all add: set_storageFailures_def)

text \<open>Two engines that differ in counters and storage failures only.\<close>

definition same_types :: "TaskEngine \<Rightarrow> TaskEngine \<Rightarrow> bool" where
  "same_types e e' \<longleftrightarrow>
     map (h_storageFailures_update (\<lambda>_. Map.empty)) (e_handlers e') =
     map (h_storageFailures_update (\<lambda>_. Map.empty)) (e_handlers e) \<and>
     e_reg e' = e_reg e \<and> e_ownerID e' = e_ownerID e \<and> e_hostAndPort e' = e_hostAndPort e"

lemma same_types_refl [simp]: "same_types e e"
  by (simp add: same_types_def)

lemma same_types_trans: "same_types e e' \<Longrightarrow> same_types e' e'' \<Longrightarrow> same_types e e''"
  by (simp add: same_types_def)

lemma same_types_set_storageFailures [simp]: "same_types e (set_storageFailures i sf e)"
  by (cases "i < length (e_handlers e)")
    (auto simp: same_types_def set_storageFailures_def map_update list_update_same_conv list_update_beyond)

lemma same_types_add_active [simp]: "same_types e (add_active i n e') \<longleftrightarrow> same_types e e'"
  by (simp add: same_types_def add_active_def)

lemma same_types_map:
  assumes "same_types e e'" "\<And>h. f (h\<lparr>h_storageFailures := Map.empty\<rparr>) = f h"
  shows "map f (e_handlers e') = map f (e_handlers e)"
proof -
  have "map (f \<circ> h_storageFailures_update (\<lambda>_. Map.empty)) (e_handlers e') =
      map (f \<circ> h_storageFailures_update (\<lambda>_. Map.empty)) (e_handlers e)"
    using assms(1) unfolding same_types_def by (metis map_map)
  then show ?thesis by (simp add: o_def assms(2))
qed

lemma h_Max_set_storageFailures [simp]:
  "h_Max (e_handlers (set_storageFailures i sf e) ! j) = h_Max (e_handlers e ! j)"
  by (cases "i < length (e_handlers e)")
    (auto simp: set_storageFailures_def nth_list_update list_update_beyond)

lemma e_counters_add_active [simp]:
  "e_counters (add_active i n e) = MaxCounter_Add (h_Max (e_handlers e ! i)) n (e_counters e)"
  by (simp add: add_active_def)

text \<open>
  What a call of \<open>considerWork\<close> that is not a recovery did: \<open>owned\<close> are the tasks that
  changed hands, the started ones among them.
\<close>

definition claim_outcome ::
  "work_env \<Rightarrow> nat \<Rightarrow> TaskEngine \<Rightarrow> harmony_db \<Rightarrow> TaskID list \<Rightarrow> TaskID list \<Rightarrow> TaskEngine \<Rightarrow> harmony_db \<Rightarrow> bool" where
  "claim_outcome env i e db owned started e' db' \<longleftrightarrow>
     set started \<subseteq> set owned \<and> distinct started \<and>
     (\<forall>t\<in>set owned. claimable (we_locked env) db t) \<and>
     db' = set_owner owned (Some (e_ownerID e)) db \<and>
     (owned \<noteq> [] \<longrightarrow> registered (e_ownerID e) db) \<and>
     e_counters e' = MaxCounter_Add (h_Max (e_handlers e ! i)) (int (length started)) (e_counters e) \<and>
     same_types e e' \<and>
     (started \<noteq> [] \<longrightarrow>
        \<not> AtMax (e_counters e) (h_Max (e_handlers e ! i)) \<and>
        int (length started) \<le> Headroom (e_counters e) (h_Max (e_handlers e ! i)) \<and>
        (\<exists>capacity.
           AssertMachineHasCapacity (we_MaxHeadroom env) (we_HasCapacity env) e (e_handlers e ! i) = Inr capacity \<and>
           int (length started) \<le> capacity))"

lemma claim_outcome_nothing:
  "claim_outcome env i e db [] [] e db"
  "claim_outcome env i e db [] [] (set_storageFailures i sf e) db"
  by (simp_all add: claim_outcome_def)

lemma claim_outcome_claimed:
  fixes e :: TaskEngine and i :: nat
  defines "m \<equiv> h_Max (e_handlers e ! i)"
  assumes wf: "wf_db db"
    and claim: "claim_tasks (we_locked env) fails (e_ownerID e) tIDs1 bnd db = Inr (accepted, db1)"
    and bnd: "bnd \<le> Headroom (e_counters e) m" "bnd \<le> capacity"
    and cap: "AssertMachineHasCapacity (we_MaxHeadroom env) (we_HasCapacity env) e (e_handlers e ! i) = Inr capacity"
    and max: "\<not> AtMax (e_counters e) m"
    and tIDs2: "tIDs2 = (if length accepted \<noteq> length tIDs1 then accepted else tIDs1)"
    and e': "same_types e e'" "e_counters e' = MaxCounter_Add m (int (length (filter p tIDs2))) (e_counters e)"
    and db': "db' = set_owner (filter (\<lambda>t. \<not> p t) tIDs2) None db1 \<and> owned = filter p tIDs2 \<or>
      db' = db1 \<and> owned = tIDs2"
  shows "claim_outcome env i e db owned (filter p tIDs2) e' db'"
proof -
  note acc = claim_tasks_Inr [OF claim]
  have 2: "distinct tIDs2" "set tIDs2 = set accepted" "length tIDs2 = length accepted"
    using all_accepted [of accepted tIDs1] acc(2,3) tIDs2 by auto
  have db1: "db1 = set_owner tIDs2 (Some (e_ownerID e)) db"
    using acc(5) 2(2) by (simp add: set_owner_def)
  have cl: "\<forall>t\<in>set tIDs2. claimable (we_locked env) db t" using acc(4) 2(2) by simp
  have len: "int (length (filter p tIDs2)) \<le> bnd"
    using acc(1) 2(3) length_filter_le [of p tIDs2] by linarith
  have "db' = set_owner owned (Some (e_ownerID e)) db"
    using db' set_owner_give_back [OF wf cl] by (auto simp: db1)
  moreover have "set (filter p tIDs2) \<subseteq> set owned" "set owned \<subseteq> set tIDs2"
    using db' by auto
  moreover have "owned \<noteq> [] \<longrightarrow> registered (e_ownerID e) db"
    using acc(6) 2(2) calculation(3) by (cases accepted) auto
  ultimately show ?thesis
    using len bnd cap max e' 2(1) cl unfolding claim_outcome_def m_def by fastforce
qed

text \<open>Either the call changed nothing, or it went on to take work.\<close>

lemma considerWork_cases:
  assumes "considerWork env from i ids e db = (ok, started, e', db')"
  obtains (nothing) "started = []" "e' = e" "db' = db"
  | (work) capacity tIDs where
      "\<not> AtMax (e_counters e) (h_Max (e_handlers e ! i))"
      "AssertMachineHasCapacity (we_MaxHeadroom env) (we_HasCapacity env) e (e_handlers e ! i) = Inr capacity"
      "we_CanAccept env from ids = Inr tIDs"
      "take_work env from i capacity tIDs e db = (ok, started, e', db')"
  using assms unfolding considerWork_def Let_def
  by (simp split: if_splits sum.splits)

lemma start_work_result:
  assumes "start_work env i tIDs sf e db = (ok, started, e', db')"
  obtains p where "started = filter p tIDs" "same_types e e'"
    "e_counters e' = MaxCounter_Add (h_Max (e_handlers e ! i)) (int (length started)) (e_counters e)"
    "db' = set_owner (filter (\<lambda>t. \<not> p t) tIDs) None db \<or> db' = db"
proof (cases "td_Storage (e_handlers e ! i)")
  case False
  with assms that [of "\<lambda>_. True"] show ?thesis by (auto simp: start_work_def)
next
  case True
  obtain good failed sf' where c: "claim_storage (we_Claim env) (we_now env) tIDs sf = (good, failed, sf')"
    by (metis prod_cases3)
  note gf = claim_storage_result [OF c]
  have "started = good" "same_types e e'"
    "e_counters e' = MaxCounter_Add (h_Max (e_handlers e ! i)) (int (length started)) (e_counters e)"
    "db' = set_owner failed None db \<or> db' = db"
    using assms True by (auto simp: start_work_def c Let_def split: if_splits)
  with gf that [of "we_Claim env"] show ?thesis by blast
qed

lemma considerWork_claim:
  assumes cw: "considerWork env from i ids e db = (ok, started, e', db')"
    and from': "from \<noteq> WorkSourceRecover" and wf: "wf_db db"
  obtains owned where "claim_outcome env i e db owned started e' db'"
  using cw
proof (cases rule: considerWork_cases)
  case nothing
  then show ?thesis using claim_outcome_nothing that by blast
next
  case (work capacity tIDs)
  let ?h = "e_handlers e ! i"
  define bnd where "bnd = (if capacity > Headroom (e_counters e) (h_Max ?h)
    then Headroom (e_counters e) (h_Max ?h) else capacity)"
  obtain tIDs1 sf1 where f: "filter_storage_failures (we_now env) (h_storageFailures ?h) tIDs = (tIDs1, sf1)"
    by fastforce
  let ?e1 = "set_storageFailures i sf1 e"
  note tw = work(4) [unfolded take_work_def Let_def f, folded bnd_def, simplified from', simplified]
  show ?thesis
  proof (cases "claim_tasks (we_locked env) (we_claim_fails env) (e_ownerID e) tIDs1 bnd db")
    case (Inl err)
    then have "started = []" "db' = db" "e' = ?e1" using tw by auto
    then show ?thesis using claim_outcome_nothing that by blast
  next
    case (Inr r)
    obtain accepted db1 where r: "r = (accepted, db1)" by fastforce
    define tIDs2 where "tIDs2 = (if length accepted \<noteq> length tIDs1 then accepted else tIDs1)"
    show ?thesis
    proof (cases "accepted = []")
      case True
      then have "started = []" "db' = db" "e' = ?e1"
        using tw Inr r claim_tasks_Inr(5) [OF Inr [unfolded r]] by auto
      then show ?thesis using claim_outcome_nothing that by blast
    next
      case False
      have "start_work env i tIDs2 sf1 ?e1 db1 = (ok, started, e', db')"
        using tw Inr r False by (simp add: tIDs2_def)
      then obtain p where p: "started = filter p tIDs2" "same_types ?e1 e'"
        "e_counters e' = MaxCounter_Add (h_Max ?h) (int (length started)) (e_counters e)"
        "db' = set_owner (filter (\<lambda>t. \<not> p t) tIDs2) None db1 \<or> db' = db1"
        by (auto elim: start_work_result)
      have st: "same_types e e'" by (rule same_types_trans [OF same_types_set_storageFailures p(2)])
      have "bnd \<le> Headroom (e_counters e) (h_Max ?h)" "bnd \<le> capacity" by (simp_all add: bnd_def)
      note outcome = claim_outcome_claimed [OF wf Inr [unfolded r] this work(2,1) tIDs2_def st
          p(3) [unfolded p(1)]]
      from p(4) show ?thesis
      proof
        assume "db' = set_owner (filter (\<lambda>t. \<not> p t) tIDs2) None db1"
        with outcome [of db' "filter p tIDs2"] that show ?thesis by (simp add: p(1))
      next
        assume "db' = db1"
        with outcome [of db' tIDs2] that show ?thesis by (simp add: p(1))
      qed
    qed
  qed
qed

section \<open>Resources\<close>

lemma sum_list_of_int_mult:
  "(\<Sum>h\<leftarrow>hs. of_int (f h) * of_int (g h)) = (of_int (\<Sum>h\<leftarrow>hs. f h * g h) :: rat)"
  by (induction hs) simp_all

lemma sum_list_change_one:
  fixes F F' :: "'a \<Rightarrow> rat"
  assumes "i < length hs" "\<And>j. j < length hs \<Longrightarrow> j \<noteq> i \<Longrightarrow> F' (hs ! j) = F (hs ! j)"
  shows "(\<Sum>h\<leftarrow>hs. F' h) = (\<Sum>h\<leftarrow>hs. F h) + (F' (hs ! i) - F (hs ! i))"
proof -
  have "(\<Sum>h\<leftarrow>hs. G h) = G (hs ! i) + (\<Sum>j\<in>{0..<length hs} - {i}. G (hs ! j))" for G :: "'a \<Rightarrow> rat"
    using assms(1) by (simp add: sum_list_sum_nth sum.remove [of _ i])
  moreover have "(\<Sum>j\<in>{0..<length hs} - {i}. F' (hs ! j)) = (\<Sum>j\<in>{0..<length hs} - {i}. F (hs ! j))"
    by (rule sum.cong) (auto simp: assms(2))
  ultimately show ?thesis by simp
qed

lemma ram_used_exact:
  fixes R ram :: uint64
  assumes "0 \<le> c" "c * uint ram \<le> uint R"
  shows "uint (if word_of_int c * ram \<ge> R then 0 else R - word_of_int c * ram) = uint R - c * uint ram"
proof -
  have "c * uint ram < 2 ^ 64" using assms(2) uint_bounded [of R] by simp
  then have u: "uint (word_of_int c * ram) = c * uint ram"
    using assms(1) by (simp add: uint_word_ariths uint_word_of_int mod_mult_left_eq)
  show ?thesis
    using assms(2) by (auto simp: word_le_def u uint_sub_if')
qed

lemma ResourcesAvailable_fold:
  fixes hs :: "taskTypeHandler list" and ct :: "taskTypeHandler \<Rightarrow> int"
  defines "f \<equiv> \<lambda>t tmp. let c = ct t; ramUsed = word_of_int c * td_Ram t
        in tmp\<lparr>r_Cpu := r_Cpu tmp - c * td_Cpu t, r_Gpu := r_Gpu tmp - of_int c * td_Gpu t,
               r_Ram := (if ramUsed \<ge> r_Ram tmp then 0 else r_Ram tmp - ramUsed)\<rparr>"
  shows "r_Cpu (fold f hs r) = r_Cpu r - (\<Sum>h\<leftarrow>hs. ct h * td_Cpu h)"
    and "r_Gpu (fold f hs r) = r_Gpu r - (\<Sum>h\<leftarrow>hs. of_int (ct h) * td_Gpu h)"
    and "\<forall>h\<in>set hs. 0 \<le> ct h \<Longrightarrow> (\<Sum>h\<leftarrow>hs. ct h * uint (td_Ram h)) \<le> uint (r_Ram r) \<Longrightarrow>
      uint (r_Ram (fold f hs r)) = uint (r_Ram r) - (\<Sum>h\<leftarrow>hs. ct h * uint (td_Ram h))"
proof -
  show "r_Cpu (fold f hs r) = r_Cpu r - (\<Sum>h\<leftarrow>hs. ct h * td_Cpu h)"
    by (induction hs arbitrary: r) (simp_all add: f_def Let_def)
  show "r_Gpu (fold f hs r) = r_Gpu r - (\<Sum>h\<leftarrow>hs. of_int (ct h) * td_Gpu h)"
    by (induction hs arbitrary: r) (simp_all add: f_def Let_def)
  show "\<forall>h\<in>set hs. 0 \<le> ct h \<Longrightarrow> (\<Sum>h\<leftarrow>hs. ct h * uint (td_Ram h)) \<le> uint (r_Ram r) \<Longrightarrow>
      uint (r_Ram (fold f hs r)) = uint (r_Ram r) - (\<Sum>h\<leftarrow>hs. ct h * uint (td_Ram h))"
  proof (induction hs arbitrary: r)
    case (Cons h hs)
    have "0 \<le> (\<Sum>h\<leftarrow>hs. ct h * uint (td_Ram h))"
      using Cons.prems(1) by (intro sum_list_nonneg) auto
    then have "ct h * uint (td_Ram h) \<le> uint (r_Ram r)" using Cons.prems(2) by simp
    then have "uint (r_Ram (f h r)) = uint (r_Ram r) - ct h * uint (td_Ram h)"
      using ram_used_exact [of "ct h" "td_Ram h" "r_Ram r"] Cons.prems(1)
      by (simp add: f_def Let_def)
    then show ?case using Cons.IH [of "f h r"] Cons.prems by simp
  qed simp
qed

text \<open>What is available is what the machine has less what the running tasks use.\<close>

lemma ResourcesAvailable_cpu_gpu:
  "of_int (r_Cpu (ResourcesAvailable e)) = of_int (r_Cpu (e_reg e)) - used cpu_cost e"
  "r_Gpu (ResourcesAvailable e) = r_Gpu (e_reg e) - used td_Gpu e"
  by (simp_all add: ResourcesAvailable_def ResourcesAvailable_fold(1,2) used_def sum_list_of_int_mult)

lemma ResourcesAvailable_ram:
  assumes "\<forall>h\<in>set (e_handlers e). 0 \<le> ActiveThis (e_counters e) (h_Max h)"
    and "used ram_cost e \<le> of_int (uint (r_Ram (e_reg e)))"
  shows "of_int (uint (r_Ram (ResourcesAvailable e))) = of_int (uint (r_Ram (e_reg e))) - used ram_cost e"
proof -
  let ?sum = "\<Sum>h\<leftarrow>e_handlers e. ActiveThis (e_counters e) (h_Max h) * uint (td_Ram h)"
  have u: "used ram_cost e = of_int ?sum" by (simp only: used_def sum_list_of_int_mult)
  then have "?sum \<le> uint (r_Ram (e_reg e))" using assms(2) by (simp only: of_int_le_iff)
  then have "uint (r_Ram (ResourcesAvailable e)) = uint (r_Ram (e_reg e)) - ?sum"
    unfolding ResourcesAvailable_def by (rule ResourcesAvailable_fold(3) [OF assms(1)])
  then show ?thesis by (simp only: u of_int_diff [symmetric] of_int_eq_iff)
qed

lemma int_div_mult_le: "0 < b \<Longrightarrow> a div b * b \<le> (a::int)"
  by (simp add: minus_mod_eq_div_mult [symmetric])

text \<open>The capacity reported is room for that many tasks in each of the resources.\<close>

lemma capacity_fits:
  assumes cap: "AssertMachineHasCapacity mh hc e h = Inr k"
    and h: "0 \<le> td_Cpu h" "0 \<le> td_Gpu h" and mh: "0 \<le> mh" "mh < 2 ^ 63"
  shows "k * td_Cpu h \<le> r_Cpu (ResourcesAvailable e)"
    "of_int k * td_Gpu h \<le> r_Gpu (ResourcesAvailable e)"
    "k * uint (td_Ram h) \<le> uint (r_Ram (ResourcesAvailable e))" "0 \<le> k" "k \<le> mh"
proof -
  let ?r = "ResourcesAvailable e"
  define k1 where "k1 = (if td_Cpu h > 0 \<and> r_Cpu ?r div td_Cpu h < mh then r_Cpu ?r div td_Cpu h else mh)"
  define k2 where "k2 = (if td_Ram h > 0 \<and> r_Ram ?r div td_Ram h < word_of_int k1
    then uint (r_Ram ?r div td_Ram h) else k1)"
  have cpu: "td_Cpu h \<le> r_Cpu ?r" and ram: "td_Ram h \<le> r_Ram ?r" and gpu: "td_Gpu h \<le> r_Gpu ?r"
    and k: "k = (if td_Gpu h > 0 \<and> r_Gpu ?r / td_Gpu h < of_int k2 then \<lfloor>r_Gpu ?r / td_Gpu h\<rfloor> else k2)"
    using cap [unfolded AssertMachineHasCapacity_def Let_def, folded k1_def, folded k2_def]
    by (auto simp: not_less split: if_split_asm)
  have k1: "0 \<le> k1" "k1 \<le> mh" "k1 * td_Cpu h \<le> r_Cpu ?r"
  proof -
    show "0 \<le> k1" "k1 \<le> mh" using mh cpu h by (auto simp: k1_def pos_imp_zdiv_nonneg_iff)
    show "k1 * td_Cpu h \<le> r_Cpu ?r"
    proof (cases "td_Cpu h > 0")
      case True
      then have "k1 \<le> r_Cpu ?r div td_Cpu h" by (simp add: k1_def)
      then have "k1 * td_Cpu h \<le> r_Cpu ?r div td_Cpu h * td_Cpu h" using h(1) by (rule mult_right_mono)
      also have "\<dots> \<le> r_Cpu ?r" using True by (rule int_div_mult_le)
      finally show ?thesis .
    qed (use h cpu in auto)
  qed
  have u1: "uint (word_of_int k1 :: uint64) = k1"
    using k1 mh by (simp add: uint_word_of_int)
  have k2: "0 \<le> k2" "k2 \<le> k1" "k2 * uint (td_Ram h) \<le> uint (r_Ram ?r)"
  proof -
    show "0 \<le> k2" "k2 \<le> k1" using k1 by (auto simp: k2_def word_less_def u1)
    show "k2 * uint (td_Ram h) \<le> uint (r_Ram ?r)"
    proof (cases "td_Ram h > 0")
      case True
      then have "k2 \<le> uint (r_Ram ?r) div uint (td_Ram h)"
        by (auto simp: k2_def word_less_def u1 uint_div)
      then have "k2 * uint (td_Ram h) \<le> uint (r_Ram ?r) div uint (td_Ram h) * uint (td_Ram h)"
        by (rule mult_right_mono) simp
      also have "\<dots> \<le> uint (r_Ram ?r)" using True by (intro int_div_mult_le) (simp add: word_less_def)
      finally show ?thesis .
    qed (simp add: word_gt_0)
  qed
  have k3: "0 \<le> k" "k \<le> k2" "of_int k * td_Gpu h \<le> r_Gpu ?r"
  proof -
    have "0 \<le> r_Gpu ?r / td_Gpu h" using h gpu by simp
    then show "0 \<le> k" using k2(1) by (auto simp: k)
    show "k \<le> k2" by (auto simp: k floor_le_iff)
    show "of_int k * td_Gpu h \<le> r_Gpu ?r"
    proof (cases "td_Gpu h > 0")
      case True
      then have "of_int k \<le> r_Gpu ?r / td_Gpu h" by (auto simp: k not_less)
      then show ?thesis using True by (simp add: pos_le_divide_eq)
    qed (use h gpu in auto)
  qed
  show "of_int k * td_Gpu h \<le> r_Gpu ?r" "0 \<le> k" "k \<le> mh" using k3 k2 k1 by simp_all
  show "k * td_Cpu h \<le> r_Cpu ?r"
    using k1(3) mult_right_mono [OF order_trans [OF k3(2) k2(2)] h(1)] by linarith
  show "k * uint (td_Ram h) \<le> uint (r_Ram ?r)"
    using k2(3) mult_right_mono [OF k3(2), of "uint (td_Ram h)"] by simp
qed

lemma wf_engine_counter:
  assumes "wf_engine e" "i < length (e_handlers e)"
  shows "wf_counter (h_Max (e_handlers e ! i))"
proof -
  have "e_handlers e ! i \<in> set (e_handlers e)" using assms(2) by simp
  with assms(1) show ?thesis unfolding wf_engine_def wf_counter_def by metis
qed

lemma used_after_claim:
  assumes wf: "wf_engine e" and i: "i < length (e_handlers e)" and st: "same_types e e'"
    and c: "e_counters e' = MaxCounter_Add (h_Max (e_handlers e ! i)) n (e_counters e)"
    and fits: "- (2 ^ 31) \<le> ActiveThis (e_counters e) (h_Max (e_handlers e ! i)) + n"
      "ActiveThis (e_counters e) (h_Max (e_handlers e ! i)) + n < 2 ^ 31"
    and cost: "\<And>h. cost (h\<lparr>h_storageFailures := Map.empty\<rparr>) = cost h"
  shows "used cost e' = used cost e + of_int n * cost (e_handlers e ! i)"
proof -
  let ?hs = "e_handlers e"
  let ?F = "\<lambda>c h. of_int (ActiveThis c (h_Max h)) * cost h"
  have "used cost e' = (\<Sum>h\<leftarrow>?hs. ?F (e_counters e') h)"
    unfolding used_def using same_types_map [OF st, of "?F (e_counters e')"] cost by simp
  also have "\<dots> = (\<Sum>h\<leftarrow>?hs. ?F (e_counters e) h) +
      (?F (e_counters e') (?hs ! i) - ?F (e_counters e) (?hs ! i))"
  proof (rule sum_list_change_one [OF i])
    fix j
    assume j: "j < length ?hs" "j \<noteq> i"
    have "currentThis (h_Max (?hs ! j)) \<noteq> currentThis (h_Max (?hs ! i))"
      using wf i j by (auto simp: wf_engine_def distinct_conv_nth)
    moreover have "currentThis (h_Max (?hs ! j)) \<noteq> current (h_Max (?hs ! i))"
      using wf i j by (simp add: wf_engine_def)
    ultimately show "?F (e_counters e') (?hs ! j) = ?F (e_counters e) (?hs ! j)"
      by (simp add: c ActiveThis_def Add_other)
  qed
  also have "ActiveThis (e_counters e') (h_Max (?hs ! i)) = ActiveThis (e_counters e) (h_Max (?hs ! i)) + n"
    unfolding c using wf_engine_counter [OF wf i] fits by (intro ActiveThis_Add)
  finally show ?thesis by (simp add: used_def algebra_simps)
qed

lemmas ex_defs = ex_task_def ex_machine_def ex_db_def ex_handler_def ex_engine_def ex_env_def

lemma ex_wf: "wf_db ex_db" "wf_engine ex_engine" "within_resources ex_engine"
  by (simp_all add: ex_defs wf_db_def registered_def wf_engine_def within_resources_def used_def
      ActiveThis_def)

lemma ex_start: "fst (snd (considerWork ex_env WorkSourcePoller 0 [12, 11, 10] ex_engine ex_db)) = [10]"
  by code_simp

lemma ex_poll:
  obtains e' db' where "considerWork ex_env WorkSourcePoller 0 [12, 11, 10] ex_engine ex_db = (True, [10], e', db')"
proof -
  have "fst (considerWork ex_env WorkSourcePoller 0 [12, 11, 10] ex_engine ex_db)" by code_simp
  then show ?thesis using ex_start that
    by (cases "considerWork ex_env WorkSourcePoller 0 [12, 11, 10] ex_engine ex_db") auto
qed

lemma poller_not_recover [simp]: "WorkSourcePoller \<noteq> WorkSourceRecover" "WorkSourceIAmBored \<noteq> WorkSourceRecover"
  by (simp_all add: WorkSourcePoller_def WorkSourceRecover_def WorkSourceIAmBored_def)

section \<open>Properties\<close>

text \<open>
  C2: outside of recovery, a call of \<open>considerWork\<close> changes a task row only by giving an
  unowned row, which no other transaction holds, to this machine; every task it starts is
  one of these, and no task is started twice.
\<close>

theorem considerWork_claims_unowned:
  assumes "considerWork env from i ids e db = (ok, started, e', db')"
    and "from \<noteq> WorkSourceRecover" and "wf_db db"
  shows "(\<forall>t. find_task t db' = find_task t db \<or> newly_claimed (we_locked env) (e_ownerID e) db db' t) \<and>
    (\<forall>t. t \<in> set started \<longrightarrow> newly_claimed (we_locked env) (e_ownerID e) db db' t) \<and> distinct started"
proof -
  obtain owned where o: "claim_outcome env i e db owned started e' db'"
    using considerWork_claim [OF assms] .
  have new: "newly_claimed (we_locked env) (e_ownerID e) db db' t" if "t \<in> set owned" for t
  proof -
    have "claimable (we_locked env) db t" using o that by (simp add: claim_outcome_def)
    then obtain r where r: "find_task t db = Some r" "t_owner_id r = None" "\<not> we_locked env t"
      by (auto simp: claimable_def split: option.splits)
    with that o find_task_Some [OF r(1)] show ?thesis
      by (simp add: newly_claimed_def claim_outcome_def find_task_set_owner)
  qed
  have "find_task t db' = find_task t db" if "t \<notin> set owned" for t
    using o that by (cases "find_task t db")
      (auto simp: claim_outcome_def find_task_set_owner dest: find_task_Some)
  with new o show ?thesis unfolding claim_outcome_def by blast
qed

theorem considerWork_claims_unowned_witness:
  "case considerWork ex_env WorkSourcePoller 0 [12, 11, 10] ex_engine ex_db of
     (ok, started, e', db') \<Rightarrow> started = [10] \<and> newly_claimed (we_locked ex_env) 1 ex_db db' 10"
proof -
  obtain e' db' where r: "considerWork ex_env WorkSourcePoller 0 [12, 11, 10] ex_engine ex_db = (True, [10], e', db')"
    by (rule ex_poll)
  from considerWork_claims_unowned [OF r poller_not_recover(1) ex_wf(1)]
  have "newly_claimed (we_locked ex_env) (e_ownerID ex_engine) ex_db db' 10" by simp
  moreover have "e_ownerID ex_engine = 1" by (simp add: ex_engine_def)
  ultimately show ?thesis by (simp add: r)
qed





end
