(* ===== verification/TaskLife.thy ===== *)
theory TaskLife
  imports EngineSafety
begin

text \<open>
  The life of a task: it is added in one transaction, completed or retried by
  \<open>recordCompletion\<close>, dropped after \<open>MaxFailures\<close> failures, and recovered or released when
  its machine restarts.
\<close>

section \<open>Vocabulary\<close>

text \<open>\<open>n\<close> failures of a task in a row, each recorded by a committed transaction.\<close>

fun fail_times :: "taskTypeHandler \<Rightarrow> TaskID \<Rightarrow> nat \<Rightarrow> harmony_db \<Rightarrow> db_error + harmony_db" where
  "fail_times h tID 0 db = Inr db"
| "fail_times h tID (Suc n) db =
     rbind (fail_times h tID n db)
       (recordCompletion_tx h ''host'' tID None 0 0 0 False (Some ''failed''))"

text \<open>The answer of \<open>CanAccept\<close> to a recovered task: an error, nothing, or that task.\<close>

definition recover_answer :: "work_env \<Rightarrow> TaskID \<Rightarrow> bool" where
  "recover_answer env t \<longleftrightarrow>
     (case we_CanAccept env WorkSourceRecover [t] of Inl _ \<Rightarrow> True | Inr ts \<Rightarrow> ts = [] \<or> ts = [t])"

definition no_failures :: "TaskID set \<Rightarrow> TaskEngine \<Rightarrow> bool" where
  "no_failures ts e \<longleftrightarrow> (\<forall>h\<in>set (e_handlers e). \<forall>t\<in>ts. h_storageFailures h t = None)"

section \<open>recordCompletion\<close>

lemma recordCompletion_tx_find:
  assumes "find_task tID db = Some row"
  obtains db' where
    "recordCompletion_tx h host tID sec ws we now don err db = Inr db'"
    "\<And>t. find_task t db' =
       (if t \<noteq> tID then find_task t db
        else if don \<or> (td_MaxFailures h > 0 \<and> t_retries row \<ge> td_MaxFailures h - 1) then None
        else Some (row\<lparr>t_owner_id := None, t_retries := t_retries row + 1, t_update_time := now\<rparr>))"
    "harmony_task_history db' = harmony_task_history db @
       [\<lparr>h_id = history_seq db, h_task_id = tID, h_name = td_Name h, h_posted = t_posted_time row,
         h_work_start = ws, h_work_end = we, h_result = don, h_completed_by = host,
         h_err = completion_result don err\<rparr>]"
    "wf_db db \<Longrightarrow> wf_db db'" "harmony_machines db' = harmony_machines db"
proof -
  let ?upd = "db\<lparr>harmony_task := update_where (\<lambda>r. t_id r = tID)
    (\<lambda>r. r\<lparr>t_owner_id := None, t_retries := t_retries row + 1, t_update_time := now\<rparr>) (harmony_task db)\<rparr>"
  let ?del = "don \<or> (td_MaxFailures h > 0 \<and> t_retries row \<ge> td_MaxFailures h - 1)"
  let ?db1 = "if ?del then delete_task tID db else ?upd"
  obtain db' where db': "recordCompletion_tx h host tID sec ws we now don err db = Inr db'"
    using assms by (auto simp: recordCompletion_tx_def Let_def)
  have tables: "harmony_task db' = harmony_task ?db1" "harmony_machines db' = harmony_machines db"
    "harmony_task_singletons db' = harmony_task_singletons ?db1" "task_seq db' = task_seq db"
    "machine_seq db' = machine_seq db"
    "harmony_task_history db' = harmony_task_history db @
       [\<lparr>h_id = history_seq db, h_task_id = tID, h_name = td_Name h, h_posted = t_posted_time row,
         h_work_start = ws, h_work_end = we, h_result = don, h_completed_by = host,
         h_err = completion_result don err\<rparr>]"
    using db' assms
    by (auto simp: recordCompletion_tx_def Let_def append_sector_pipeline_events_def delete_task_def
        split: option.splits prod.splits if_splits)
  have "find_task t db' = find_task t ?db1" for t
    by (simp add: find_task_def tables(1))
  moreover have "find_task t ?upd = (if t = tID
      then Some (row\<lparr>t_owner_id := None, t_retries := t_retries row + 1, t_update_time := now\<rparr>)
      else find_task t db)" for t
    using assms find_task_Some [OF assms]
    by (cases "find_task t db") (auto simp: find_task_def find_update_where_key dest: find_Some_set)
  ultimately have "find_task t db' =
       (if t \<noteq> tID then find_task t db else if ?del then None
        else Some (row\<lparr>t_owner_id := None, t_retries := t_retries row + 1, t_update_time := now\<rparr>))" for t
    by (simp add: find_task_delete)
  moreover have "wf_db db'" if wf: "wf_db db"
  proof -
    have ids: "map t_id (harmony_task ?upd) = map t_id (harmony_task db)"
      by (simp add: map_update_where_key)
    then have set_ids: "t_id ` set (harmony_task ?upd) = t_id ` set (harmony_task db)"
      by (metis list.set_map)
    have "wf_db ?upd"
    proof (rule wf_dbI)
      show "distinct (map t_id (harmony_task ?upd))" unfolding ids by (rule wf_dbD(1) [OF wf])
    qed (use wf_dbD(2-7) [OF wf] set_ids in \<open>auto simp: table_simps\<close>)
    then have "wf_db ?db1" using wf_delete_task [OF wf] by simp
    moreover have "harmony_machines ?db1 = harmony_machines db" "task_seq ?db1 = task_seq db"
      "machine_seq ?db1 = machine_seq db" by (simp_all add: delete_task_def)
    ultimately show ?thesis using wf_db_cong [of db' ?db1] tables by simp
  qed
  ultimately show ?thesis using db' tables that by blast
qed

text \<open>
  C24: the transaction of \<open>recordCompletion\<close> on a task that is there always commits. A done
  task is deleted, and so is one that failed for the last allowed time; any other failure
  leaves the row unowned with one more retry. Exactly one history row is written, with the
  outcome, and no other task changes.
\<close>

theorem recordCompletion_outcome:
  assumes "wf_db db" "find_task tID db = Some row"
  shows "\<exists>db'. recordCompletion_tx h host tID sec ws we now don err db = Inr db' \<and> wf_db db' \<and>
    (\<forall>t. find_task t db' =
       (if t \<noteq> tID then find_task t db
        else if don \<or> (td_MaxFailures h > 0 \<and> t_retries row \<ge> td_MaxFailures h - 1) then None
        else Some (row\<lparr>t_owner_id := None, t_retries := t_retries row + 1, t_update_time := now\<rparr>))) \<and>
    (\<exists>hrow. harmony_task_history db' = harmony_task_history db @ [hrow] \<and>
       h_task_id hrow = tID \<and> h_result hrow = don \<and> h_name hrow = td_Name h \<and> h_completed_by hrow = host)"
  by (rule recordCompletion_tx_find [OF assms(2), of h host sec ws we now don err])
    (use assms(1) in auto)

theorem recordCompletion_outcome_witness:
  "\<exists>db'. recordCompletion_tx ex_handler ''a:1'' 12 None 0 9 9 False None ex_db = Inr db' \<and>
     find_task 12 db' = None \<and> length (harmony_task_history db') = 1"
proof -
  have "find_task 12 ex_db = Some (ex_task 12 ''SDR'' None 2)"
    by (simp add: ex_db_def find_task_def ex_task_def)
  from recordCompletion_outcome [OF ex_wf(1) this, of ex_handler "''a:1''" None 0 9 9 False None]
  show ?thesis by (auto simp: ex_handler_def ex_task_def ex_db_def)
qed

lemma fail_times_row:
  assumes "find_task tID db = Some row" "t_retries row = 0"
    "n < td_MaxFailures h \<or> td_MaxFailures h = 0"
  shows "\<exists>db' r. fail_times h tID n db = Inr db' \<and> find_task tID db' = Some r \<and> t_retries r = n \<and>
    (n > 0 \<longrightarrow> t_owner_id r = None)"
  using assms(3)
proof (induction n)
  case (Suc n)
  then obtain db' r where IH: "fail_times h tID n db = Inr db'" "find_task tID db' = Some r" "t_retries r = n"
    by auto
  from IH(2) obtain db'' where
    "recordCompletion_tx h ''host'' tID None 0 0 0 False (Some ''failed'') db' = Inr db''"
    "find_task tID db'' = (if td_MaxFailures h > 0 \<and> t_retries r \<ge> td_MaxFailures h - 1 then None
       else Some (r\<lparr>t_owner_id := None, t_retries := t_retries r + 1, t_update_time := 0\<rparr>))"
    by (rule recordCompletion_tx_find [of tID db' r h "''host''" None 0 0 0 False "Some ''failed''"]) auto
  with IH Suc.prems show ?case by auto
qed (use assms in simp)

text \<open>
  C25: a fresh task survives fewer than \<open>MaxFailures\<close> failures, each counted and giving the
  task up for anyone to take, and the failure number \<open>MaxFailures\<close> deletes it. With
  \<open>MaxFailures\<close> zero no number of failures does.
\<close>

theorem task_dropped_after_MaxFailures:
  assumes "find_task tID db = Some row" "t_retries row = 0"
  shows "(n < td_MaxFailures h \<or> td_MaxFailures h = 0 \<longrightarrow>
      (\<exists>db' r. fail_times h tID n db = Inr db' \<and> find_task tID db' = Some r \<and> t_retries r = n \<and>
        (n > 0 \<longrightarrow> t_owner_id r = None))) \<and>
    (td_MaxFailures h > 0 \<longrightarrow>
      (\<exists>db'. fail_times h tID (td_MaxFailures h) db = Inr db' \<and> find_task tID db' = None))"
proof (intro conjI impI)
  assume pos: "td_MaxFailures h > 0"
  then obtain k where k: "td_MaxFailures h = Suc k" using gr0_implies_Suc by blast
  then obtain db' r where 1: "fail_times h tID k db = Inr db'" "find_task tID db' = Some r" "t_retries r = k"
    using fail_times_row [OF assms, of k h] by auto
  from 1(2) obtain db'' where
    "recordCompletion_tx h ''host'' tID None 0 0 0 False (Some ''failed'') db' = Inr db''"
    "find_task tID db'' = None"
    by (rule recordCompletion_tx_find [of tID db' r h "''host''" None 0 0 0 False "Some ''failed''"])
      (use 1 k in auto)
  with 1 k show "\<exists>db'. fail_times h tID (td_MaxFailures h) db = Inr db' \<and> find_task tID db' = None"
    by simp
qed (rule fail_times_row [OF assms])

theorem task_dropped_after_MaxFailures_witness:
  "\<exists>db'. fail_times ex_handler 10 (td_MaxFailures ex_handler) ex_db = Inr db' \<and> find_task 10 db' = None"
proof -
  have "find_task 10 ex_db = Some (ex_task 10 ''SDR'' None 0)" "t_retries (ex_task 10 ''SDR'' None 0) = 0"
    by (simp_all add: ex_db_def find_task_def ex_task_def)
  from task_dropped_after_MaxFailures [OF this, of _ ex_handler] show ?thesis
    by (simp add: ex_handler_def)
qed

text \<open>
  the retry loop around the transaction returns exactly when some attempt is not cut
  off and finds the row of the task. While the row is missing, because another node
  finished the task or a user removed it, every attempt fails and the loop goes on.
\<close>

theorem recordCompletion_returns_iff:
  "(\<exists>db'. recordCompletion h host tID sec ws we don err attempts = Some db') \<longleftrightarrow>
   (\<exists>(fails, now, db)\<in>set attempts. \<not> fails \<and> find_task tID db \<noteq> None)"
proof (induction attempts)
  case (Cons a attempts)
  obtain fails now db where a: "a = (fails, now, db)" by (cases a)
  have "(\<exists>db'. recordCompletion_tx h host tID sec ws we now don err db = Inr db') \<longleftrightarrow> find_task tID db \<noteq> None"
    by (auto simp: recordCompletion_tx_def Let_def split: option.splits)
  with Cons.IH show ?case
    by (cases "recordCompletion_tx h host tID sec ws we now don err db"; cases fails) (simp_all add: a)
qed simp

section \<open>AddTask\<close>

lemma AddTask_tx_result:
  assumes "AddTask_tx name owner now extra ce db = (res, db')"
  shows "(res = Inr True \<and> ce = None \<and> extra (task_seq db) (snd (insert_task name owner now db)) = (Inr True, db')) \<or>
    (res \<noteq> Inr True \<and> db' = db\<lparr>task_seq := task_seq db + 1\<rparr>)"
  using assms
  by (auto simp: AddTask_tx_def insert_task_def Let_def split: prod.splits sum.splits if_splits option.splits)

lemma AddTask_cases:
  "\<exists>k. case AddTask name owner now extra ces db of (res, db') \<Rightarrow>
     if res = Some (Inr True)
     then extra (task_seq db + int k)
            (snd (insert_task name owner now (db\<lparr>task_seq := task_seq db + int k\<rparr>))) = (Inr True, db')
     else db' = db\<lparr>task_seq := task_seq db + int k\<rparr>"
proof (induction ces arbitrary: db)
  case (Cons ce ces)
  obtain res db' where tx: "AddTask_tx name owner now extra ce db = (res, db')" by fastforce
  note cases = AddTask_tx_result [OF tx]
  show ?case
  proof (cases "res = Inl Serialization")
    case True
    with cases have "db' = db\<lparr>task_seq := task_seq db + 1\<rparr>" by auto
    then have seq: "task_seq db' = task_seq db + 1" "\<And>j. db'\<lparr>task_seq := j\<rparr> = db\<lparr>task_seq := j\<rparr>" by simp_all
    have step: "AddTask name owner now extra (ce # ces) db = AddTask name owner now extra ces db'"
      using tx True by simp
    obtain k where "case AddTask name owner now extra ces db' of (res, db'') \<Rightarrow>
       if res = Some (Inr True)
       then extra (task_seq db' + int k)
              (snd (insert_task name owner now (db'\<lparr>task_seq := task_seq db' + int k\<rparr>))) = (Inr True, db'')
       else db'' = db'\<lparr>task_seq := task_seq db' + int k\<rparr>"
      using Cons.IH [of db'] by (elim exE)
    moreover have "task_seq db + 1 + int k = task_seq db + int (Suc k)" by simp
    ultimately show ?thesis unfolding step seq by metis
  next
    case False
    then have "AddTask name owner now extra (ce # ces) db = (Some res, db')"
      using tx by (auto split: sum.splits db_error.splits)
    moreover have "db\<lparr>task_seq := task_seq db\<rparr> = db" by simp
    ultimately show ?thesis
      using cases by (cases "res = Inr True") (auto intro: exI [of _ 0] exI [of _ "Suc 0"])
  qed
qed (auto intro: exI [of _ 0])

text \<open>
  \<open>AddTask\<close> is all or nothing. Either it reports success, and the database is what
  \<open>extraInfo\<close> made of it after the insertion of one unowned row with an unused ID, or the
  only trace is the advanced sequence of task IDs. While it retries it has done nothing.
\<close>

theorem AddTask_atomic:
  "\<exists>k. case AddTask name owner now extra ces db of (res, db') \<Rightarrow>
     if res = Some (Inr True)
     then extra (task_seq db + int k)
            (snd (insert_task name owner now (db\<lparr>task_seq := task_seq db + int k\<rparr>))) = (Inr True, db')
     else db' = db\<lparr>task_seq := task_seq db + int k\<rparr>"
  by (rule AddTask_cases)

section \<open>Recovery\<close>

lemma no_failures_set:
  assumes "no_failures ts e" "\<And>t'. t' \<noteq> t \<Longrightarrow> t' \<in> ts \<Longrightarrow> sf t' = None"
  shows "no_failures (ts - {t}) (set_storageFailures i sf e)"
  using assms unfolding no_failures_def set_storageFailures_def
  by (fastforce dest!: set_update_subset_insert [THEN subsetD])

lemma start_work_one:
  assumes "start_work env i [t] sf e db = (ok, started, e', db')"
  shows "((ok \<and> started = [t] \<and> db' = db) \<or>
      (\<not> ok \<and> started = [] \<and> (db' = db \<or> db' = set_owner [t] None db))) \<and> same_types e e' \<and>
    (no_failures ts e \<and> (\<forall>t'\<in>ts. sf t' = None) \<longrightarrow> no_failures (ts - {t}) e')"
proof -
  have add: "no_failures ts' (add_active i n e'') = no_failures ts' e''" for ts' n e''
    by (simp add: no_failures_def add_active_def)
  have mono: "no_failures ts e'' \<Longrightarrow> no_failures (ts - {t}) e''" for e''
    by (simp add: no_failures_def)
  show ?thesis
    using assms no_failures_set [of ts e t sf i] no_failures_set [of ts e t "sf(t \<mapsto> we_now env)" i]
    by (auto simp: start_work_def Let_def add mono split: if_splits)
qed

lemma considerWork_recover_one:
  assumes cw: "considerWork env WorkSourceRecover i [t] e db = (ok, started, e', db')"
    and ans: "recover_answer env t" and sf: "no_failures ts e" "t \<in> ts" and i: "i < length (e_handlers e)"
  shows "((ok \<and> started = [t] \<and> db' = db) \<or>
      (\<not> ok \<and> started = [] \<and> (db' = db \<or> db' = set_owner [t] None db))) \<and> same_types e e' \<and>
    no_failures (ts - {t}) e'"
proof (cases "\<not> AtMax (e_counters e) (h_Max (e_handlers e ! i)) \<and>
    (\<exists>k. AssertMachineHasCapacity (we_MaxHeadroom env) (we_HasCapacity env) e (e_handlers e ! i) = Inr k) \<and>
    we_CanAccept env WorkSourceRecover [t] = Inr [t]")
  case False
  then have "\<not> ok \<and> started = [] \<and> db' = db \<and> e' = e"
    using cw ans by (auto simp: considerWork_def recover_answer_def Let_def split: if_splits sum.splits)
  with sf show ?thesis by (auto simp: no_failures_def)
next
  case True
  let ?sf = "h_storageFailures (e_handlers e ! i)"
  have none: "\<forall>t'\<in>ts. ?sf t' = None" using sf i by (simp add: no_failures_def)
  have "set_storageFailures i ?sf e = e" by (simp add: set_storageFailures_def)
  then have "start_work env i [t] ?sf e db = (ok, started, e', db')"
    using cw True none sf(2) by (auto simp: considerWork_def take_work_def Let_def)
  from start_work_one [OF this, of ts] none sf show ?thesis by blast
qed

lemma taskMap_length: "taskMap hs name = Some i \<Longrightarrow> i < length hs"
  by (induction hs arbitrary: i) (auto split: option.splits if_splits)

lemma release_own_set_owner:
  assumes "wf_db db" "find_task t db = Some r" "t_owner_id r = Some owner"
  shows "release_own t owner db = set_owner [t] None db"
proof -
  have "t_owner_id x = Some owner" if "x \<in> set (harmony_task db)" "t_id x = t" for x
    using find_task_wf [OF assms(1) that(1)] assms that by simp
  then show ?thesis by (auto simp: release_own_def set_owner_def update_where_def)
qed

lemma release_own_released: "release_own t owner (set_owner [t] None db) = set_owner [t] None db"
  by (auto simp: release_own_def set_owner_def update_where_def)

lemma wf_set_owner_None: "wf_db db \<Longrightarrow> wf_db (set_owner ts None db)"
proof (rule wf_dbI)
  assume wf: "wf_db db"
  have ids: "map t_id (harmony_task (set_owner ts None db)) = map t_id (harmony_task db)"
    by (simp add: set_owner_def map_update_where_key)
  then show "distinct (map t_id (harmony_task (set_owner ts None db)))" using wf_dbD(1) [OF wf] by simp
  fix s t
  assume "s \<in> set (harmony_task_singletons (set_owner ts None db))" "s_task_id s = Some t"
  then have "t \<in> set (map t_id (harmony_task db))" using wf_dbD(7) [OF wf] by (simp add: set_owner_def)
  then show "t \<in> t_id ` set (harmony_task (set_owner ts None db))" using ids by (metis list.set_map)
qed (auto simp: set_owner_def table_simps dest: wf_dbD)

lemma set_owner_Cons_None: "set_owner ts None (set_owner [t] None db) = set_owner (t # ts) None db"
  by (auto simp: set_owner_def update_where_def)

lemma resurrect_result:
  assumes "resurrect envs (\<lambda>_. False) ws e db = (started, e', db')"
    and "wf_db db" "distinct (map fst ws)" "no_failures (fst ` set ws) e"
    and "\<forall>t\<in>fst ` set ws. recover_answer (envs t) t"
    and "\<forall>t\<in>fst ` set ws. \<exists>r. find_task t db = Some r \<and> t_owner_id r = Some (e_ownerID e)"
  shows "set started \<subseteq> fst ` set ws \<and> distinct started \<and> same_types e e' \<and>
    db' = set_owner (filter (\<lambda>t. t \<notin> set started) (map fst ws)) None db"
  using assms
proof (induction ws arbitrary: e db started e' db')
  case (Cons w ws)
  obtain t name where w: "w = (t, name)" by fastforce
  obtain ok st e1 db1 where first: "(case taskMap (e_handlers e) name of None \<Rightarrow> (False, [], e, db)
      | Some i \<Rightarrow> considerWork (envs t) WorkSourceRecover i [t] e db) = (ok, st, e1, db1)"
    by (metis prod_cases4)
  define db2 where "db2 = (if ok then db1 else release_own t (e_ownerID e) db1)"
  obtain more e3 db3 where rest: "resurrect envs (\<lambda>_. False) ws e1 db2 = (more, e3, db3)"
    by (metis prod_cases3)
  have res: "started = st @ more" "e' = e3" "db' = db3"
    using Cons.prems(1) by (simp_all add: w first rest db2_def [symmetric])
  have one: "((ok \<and> st = [t] \<and> db1 = db) \<or> (\<not> ok \<and> st = [] \<and> (db1 = db \<or> db1 = set_owner [t] None db)))
      \<and> same_types e e1 \<and> no_failures (fst ` set ws) e1"
  proof (cases "taskMap (e_handlers e) name")
    case None
    with first Cons.prems(4) show ?thesis by (auto simp: no_failures_def w)
  next
    case (Some i)
    have "considerWork (envs t) WorkSourceRecover i [t] e db = (ok, st, e1, db1)"
      using first Some by simp
    note considerWork_recover_one [OF this _ Cons.prems(4) _ taskMap_length [OF Some]]
    moreover have "fst ` set (w # ws) - {t} = fst ` set ws" using Cons.prems(3) by (auto simp: w)
    ultimately show ?thesis using Cons.prems(5) by (simp add: w)
  qed
  obtain r where "find_task t db = Some r" "t_owner_id r = Some (e_ownerID e)"
    using Cons.prems(6) by (auto simp: w)
  note rel = release_own_set_owner [OF Cons.prems(2) this]
  have db2: "ok \<and> st = [t] \<and> db2 = db \<or> \<not> ok \<and> st = [] \<and> db2 = set_owner [t] None db"
    using one by (auto simp: db2_def rel release_own_released)
  have own: "\<forall>t'\<in>fst ` set ws. \<exists>r. find_task t' db2 = Some r \<and> t_owner_id r = Some (e_ownerID e1)"
  proof
    fix t' assume t': "t' \<in> fst ` set ws"
    then have "t' \<noteq> t" using Cons.prems(3) by (auto simp: w)
    moreover obtain r' where "find_task t' db = Some r'" "t_owner_id r' = Some (e_ownerID e)"
      using Cons.prems(6) t' by auto
    moreover have "e_ownerID e1 = e_ownerID e" using one by (auto simp: same_types_def)
    ultimately show "\<exists>r. find_task t' db2 = Some r \<and> t_owner_id r = Some (e_ownerID e1)"
      using db2 find_task_Some [of t' db r'] by (auto simp: find_task_set_owner)
  qed
  have "wf_db db2" using db2 Cons.prems(2) by (auto intro: wf_set_owner_None)
  with Cons.IH [OF rest] one own Cons.prems have IH: "set more \<subseteq> fst ` set ws" "distinct more"
    "same_types e1 e3" "db3 = set_owner (filter (\<lambda>t. t \<notin> set more) (map fst ws)) None db2"
    by (simp_all add: w)
  have notin: "t \<notin> fst ` set ws" "t \<notin> set more" using Cons.prems(3) IH(1) by (auto simp: w)
  then have "filter (\<lambda>t'. t' \<noteq> t \<and> t' \<notin> set more) (map fst ws) = filter (\<lambda>t. t \<notin> set more) (map fst ws)"
    by (intro filter_cong) auto
  with db2 IH notin one res show ?case
    by (auto simp: w set_owner_Cons_None same_types_trans intro: same_types_trans)
qed simp

lemma make_handlers_no_failures:
  "make_handlers Registry ds nxt c = Inr (hs, r) \<Longrightarrow> h \<in> set hs \<Longrightarrow> h_storageFailures h = Map.empty"
  by (induction ds arbitrary: nxt c hs r)
    (auto simp: Let_def rbind_Inr_iff make_handler_def TaskTypeDetails.defs split: prod.splits if_splits)

lemma New_result:
  assumes new: "New Registry impls host insp now False cf False envs (\<lambda>_. False) next c db = Inr (started, e, db')"
    and wf: "wf_db db" and ans: "\<And>t. recover_answer (envs t) t"
  obtains reg db1 released where "Register host insp now False cf db = Inr (reg, db1)" "wf_db db1"
    "db' = set_owner released None db1" "distinct started"
    "\<And>t r. t \<in> set released \<Longrightarrow> find_task t db1 = Some r \<Longrightarrow> t_owner_id r = Some (e_ownerID e)"
    "\<And>t. t \<in> set started \<longleftrightarrow> (\<exists>r. find_task t db' = Some r \<and> t_owner_id r = Some (e_ownerID e))"
proof -
  obtain reg db1 hs nxt c' where r: "Register host insp now False cf db = Inr (reg, db1)"
      "make_handlers Registry impls next c = Inr (hs, nxt, c')"
    using new by (auto simp: New_def rbind_Inr_iff split: sum.splits prod.splits)
  define e0 where "e0 = \<lparr>e_handlers = hs, e_reg = reg, e_ownerID = r_MachineID reg, e_hostAndPort = host,
    e_yieldBackground = False, e_lastFollowTime = 0, e_lastCleanup = now, e_counters = c'\<rparr>"
  define ws where "ws = map (\<lambda>r. (t_id r, t_name r)) (owned_by (e_ownerID e0) db1)"
  have res: "resurrect envs (\<lambda>_. False) ws e0 db1 = (started, e, db')"
    using new by (simp add: New_def r ws_def e0_def Let_def)
  have wf1: "wf_db db1" by (rule wf_Register [OF wf r(1)])
  have fst_ws: "fst ` set ws = t_id ` {x \<in> set (harmony_task db1). t_owner_id x = Some (e_ownerID e0)}"
    by (force simp: ws_def owned_by_def)
  have "distinct (map fst ws)"
    using wf_dbD(1) [OF wf1] by (simp add: ws_def owned_by_def o_def distinct_map_filter)
  moreover have "no_failures (fst ` set ws) e0"
    using make_handlers_no_failures [OF r(2)] by (simp add: no_failures_def e0_def)
  moreover have "\<forall>t\<in>fst ` set ws. \<exists>r. find_task t db1 = Some r \<and> t_owner_id r = Some (e_ownerID e0)"
    using find_task_wf [OF wf1] by (auto simp: fst_ws)
  ultimately have *: "set started \<subseteq> fst ` set ws" "distinct started" "e_ownerID e = e_ownerID e0"
    "db' = set_owner (filter (\<lambda>t. t \<notin> set started) (map fst ws)) None db1"
    using resurrect_result [OF res wf1] ans by (simp_all add: same_types_def)
  have "t \<in> set started \<longleftrightarrow> (\<exists>r. find_task t db' = Some r \<and> t_owner_id r = Some (e_ownerID e))" for t
  proof (cases "find_task t db1")
    case None
    then show ?thesis using *(1,4) find_task_wf [OF wf1] by (auto simp: find_task_set_owner fst_ws)
  next
    case (Some r)
    note row = find_task_Some [OF Some]
    have "t \<in> fst ` set ws \<longleftrightarrow> t_owner_id r = Some (e_ownerID e0)"
      using row distinct_key_eq [OF wf_dbD(1) [OF wf1]] unfolding fst_ws by blast
    with row *(1,3,4) Some show ?thesis by (auto simp: find_task_set_owner)
  qed
  moreover have "t_owner_id r = Some (e_ownerID e)"
    if "t \<in> set (filter (\<lambda>t. t \<notin> set started) (map fst ws))" "find_task t db1 = Some r" for t r
    using that * find_task_wf [OF wf1] by (auto simp: fst_ws)
  ultimately show ?thesis using that [OF r(1) wf1 *(4,2)] by blast
qed



end
