(* ===== verification/Cluster.thy ===== *)
theory Cluster
  imports TaskLife
begin

text \<open>
  Several nodes on one database. A state of the cluster is the database and the tasks that
  goroutines work on, as pairs of machine and task; a step is one operation of one node, as
  the other theories define it, or the crash of a node.

  Nodes are assumed to be timely: a machine is only declared dead, by any node's cleanup,
  when nothing runs on it. The engine cannot enforce this (a node that lost the database
  for ten minutes goes on working), which is why \<open>Do\<close> is given \<open>stillOwned\<close>.
\<close>

section \<open>Steps\<close>

record cluster =
  cl_db :: harmony_db
  cl_run :: "(int \<times> TaskID) list"

definition runs_on :: "int \<Rightarrow> cluster \<Rightarrow> TaskID list" where
  "runs_on m s = map snd (filter (\<lambda>(m', t). m' = m) (cl_run s))"

text \<open>The machines that a change of the database removed had no work.\<close>

definition timely :: "cluster \<Rightarrow> harmony_db \<Rightarrow> bool" where
  "timely s db \<longleftrightarrow> (\<forall>(m, t)\<in>set (cl_run s). registered m db)"

inductive cstep :: "cluster \<Rightarrow> cluster \<Rightarrow> bool" where
  add_task:
    "AddTask_tx name owner now (\<lambda>_ db. (Inr True, db)) ce (cl_db s) = (res, db') \<Longrightarrow>
     cstep s (s\<lparr>cl_db := db'\<rparr>)"
| claim:
    "considerWork env from i ids e (cl_db s) = (ok, started, e', db') \<Longrightarrow> from \<noteq> WorkSourceRecover \<Longrightarrow>
     cstep s \<lparr>cl_db = db', cl_run = cl_run s @ map (Pair (e_ownerID e)) started\<rparr>"
| finish:
    "(m, t) \<in> set (cl_run s) \<Longrightarrow>
     recordCompletion_tx h host t sec ws we now don err (cl_db s) = Inr db' \<Longrightarrow>
     cstep s \<lparr>cl_db = db', cl_run = remove1 (m, t) (cl_run s)\<rparr>"
| crash: "cstep s (s\<lparr>cl_run := filter (\<lambda>(m', t). m' \<noteq> m) (cl_run s)\<rparr>)"
| restart:
    "New Registry impls host insp now False cf False envs (\<lambda>_. False) next c (cl_db s) = Inr (started, e, db') \<Longrightarrow>
     (\<And>t. recover_answer (envs t) t) \<Longrightarrow> runs_on (e_ownerID e) s = [] \<Longrightarrow> timely s db' \<Longrightarrow>
     cstep s \<lparr>cl_db = db', cl_run = cl_run s @ map (Pair (e_ownerID e)) started\<rparr>"
| cleanup:
    "db' = snd (CleanupMachines now fail (cl_db s)) \<Longrightarrow> timely s db' \<Longrightarrow> cstep s (s\<lparr>cl_db := db'\<rparr>)"
| heartbeat: "cstep s (s\<lparr>cl_db := keepalive shut m now fail (cl_db s)\<rparr>)"

inductive reachable :: "cluster \<Rightarrow> bool" where
  init: "wf_db db \<Longrightarrow> reachable \<lparr>cl_db = db, cl_run = []\<rparr>"
| step: "reachable s \<Longrightarrow> cstep s s' \<Longrightarrow> reachable s'"

section \<open>Invariant\<close>

text \<open>Every running task is in the database, owned by the machine that runs it, once.\<close>

definition owns :: "harmony_db \<Rightarrow> int \<Rightarrow> TaskID \<Rightarrow> bool" where
  "owns db m t \<longleftrightarrow> (case find_task t db of None \<Rightarrow> False | Some r \<Rightarrow> t_owner_id r = Some m)"

definition cluster_inv :: "cluster \<Rightarrow> bool" where
  "cluster_inv s \<longleftrightarrow>
     wf_db (cl_db s) \<and> distinct (map snd (cl_run s)) \<and> (\<forall>(m, t)\<in>set (cl_run s). owns (cl_db s) m t)"

lemma owns_unique: "owns db m t \<Longrightarrow> owns db m' t \<Longrightarrow> m = m'"
  by (auto simp: owns_def split: option.splits)

lemma cluster_invI:
  assumes "wf_db db" "distinct (map snd run)" "\<And>m t. (m, t) \<in> set run \<Longrightarrow> owns db m t"
  shows "cluster_inv \<lparr>cl_db = db, cl_run = run\<rparr>"
  using assms by (auto simp: cluster_inv_def)

text \<open>The work a machine takes up was nobody's, so the pairs stay unique.\<close>

lemma cluster_inv_take:
  assumes "cluster_inv s" "wf_db db'" "distinct started"
    "\<And>m t. (m, t) \<in> set (cl_run s) \<Longrightarrow> owns db' m t"
    "\<And>t. t \<in> set started \<Longrightarrow> owns db' m t"
    "\<And>t. t \<in> set started \<Longrightarrow> t \<notin> snd ` set (cl_run s)"
  shows "cluster_inv \<lparr>cl_db = db', cl_run = cl_run s @ map (Pair m) started\<rparr>"
proof (rule cluster_invI [OF assms(2)])
  show "distinct (map snd (cl_run s @ map (Pair m) started))"
    using assms(1,3,6) by (auto simp: cluster_inv_def o_def)
qed (use assms(4,5) in auto)

lemma wf_set_owner_registered:
  assumes "wf_db db" "registered m db"
  shows "wf_db (set_owner ts (Some m) db)"
proof (rule wf_dbI)
  have ids: "map t_id (harmony_task (set_owner ts (Some m) db)) = map t_id (harmony_task db)"
    by (simp add: set_owner_def map_update_where_key)
  then show "distinct (map t_id (harmony_task (set_owner ts (Some m) db)))" using wf_dbD(1) [OF assms(1)] by simp
  fix s t
  assume "s \<in> set (harmony_task_singletons (set_owner ts (Some m) db))" "s_task_id s = Some t"
  then have "t \<in> set (map t_id (harmony_task db))" using wf_dbD(7) [OF assms(1)] by (simp add: set_owner_def)
  then show "t \<in> t_id ` set (harmony_task (set_owner ts (Some m) db))" using ids by (metis list.set_map)
qed (use assms wf_dbD [OF assms(1)] in \<open>auto simp: set_owner_def table_simps registered_def\<close>)

lemma considerWork_wf:
  assumes "considerWork env from i ids e db = (ok, started, e', db')" "from \<noteq> WorkSourceRecover" "wf_db db"
  shows "wf_db db'"
proof -
  obtain owned where "claim_outcome env i e db owned started e' db'"
    using considerWork_claim [OF assms] .
  then show ?thesis using wf_set_owner_registered [OF assms(3)] assms(3)
    by (cases "owned = []") (auto simp: claim_outcome_def)
qed

lemma owns_same: "find_task t db' = find_task t db \<Longrightarrow> owns db m t \<Longrightarrow> owns db' m t"
  by (simp add: owns_def)

lemma owns_delete_machines:
  assumes "wf_db db" "registered m (delete_machines p db)" "owns db m t"
  shows "owns (delete_machines p db) m t"
proof -
  obtain x where "x \<in> set (harmony_machines db)" "m_id x = m" "\<not> p x"
    using assms(2) by (auto simp: registered_def delete_machines_def Let_def table_simps)
  then have "\<not> p y" if "y \<in> set (harmony_machines db)" "m_id y = m" for y
    using distinct_key_eq [OF wf_dbD(2) [OF assms(1)]] that by metis
  with assms(3) show ?thesis
    by (auto simp: owns_def find_task_delete_machines split: option.splits)
qed

lemma owns_CleanupMachines:
  assumes "wf_db db" "registered m (snd (CleanupMachines now fail db))" "owns db m t"
  shows "owns (snd (CleanupMachines now fail db)) m t"
  using assms owns_delete_machines [of db] by (simp add: CleanupMachines_def Let_def split: if_splits)

lemma owns_Register:
  assumes "wf_db db" "Register host insp now uf cf db = Inr (reg, db')" "registered m db'" "owns db m t"
  shows "owns db' m t"
proof -
  obtain res where res: "insp = Some res" "\<not> uf"
    using assms(2) by (auto simp: Register_def split: option.splits if_splits)
  let ?f = "\<lambda>m. m\<lparr>m_cpu := r_Cpu res, m_ram := r_Ram res, m_gpu := r_Gpu res, m_last_contact := now\<rparr>"
  let ?upd = "update_where (\<lambda>m. m_host_and_port m = host) ?f (harmony_machines db)"
  have 1: "wf_db (db\<lparr>harmony_machines := ?upd\<rparr>)" by (rule wf_machines_update [OF assms(1)]) simp
  have 2: "find_task t (db\<lparr>harmony_machines := ms\<rparr>) = find_task t db"
    "find_task t (db\<lparr>harmony_machines := ms, machine_seq := k\<rparr>) = find_task t db" for ms k
    by (simp_all add: find_task_def)
  note 3 = owns_same [OF 2(1) assms(4)] owns_same [OF 2(2) assms(4)]
  show ?thesis
    using assms(2,3) res owns_CleanupMachines [OF 1 _ 3(1)]
      owns_CleanupMachines [OF wf_machines_insert [OF 1] _ , of _ m now cf t] 3(2)
    by (auto simp: Register_def Let_def split: option.splits)
qed

lemma find_task_insert:
  assumes "wf_db db" "find_task t db = Some r"
  shows "find_task t (snd (insert_task name by now db)) = Some r"
proof -
  have "find p xs = Some r \<Longrightarrow> find p (xs @ ys) = Some r" for p and xs ys :: "task_row list"
    by (induction xs) (auto split: if_splits)
  with assms(2) show ?thesis by (simp add: find_task_def insert_task_def Let_def)
qed

lemma wf_task_seq: "wf_db db \<Longrightarrow> wf_db (db\<lparr>task_seq := task_seq db + 1\<rparr>)"
  by (rule wf_dbI) (auto dest: wf_dbD(3-7) intro: wf_dbD(1,2))

lemma inv_add_task:
  assumes "cluster_inv s" "AddTask_tx name owner now (\<lambda>_ db. (Inr True, db)) ce (cl_db s) = (res, db')"
  shows "cluster_inv (s\<lparr>cl_db := db'\<rparr>)"
proof -
  have wf: "wf_db (cl_db s)" using assms(1) by (simp add: cluster_inv_def)
  have "db' = snd (insert_task name owner now (cl_db s)) \<or> db' = (cl_db s)\<lparr>task_seq := task_seq (cl_db s) + 1\<rparr>"
    using AddTask_tx_result [OF assms(2)] by auto
  then have "wf_db db'" "\<And>t m. owns (cl_db s) m t \<Longrightarrow> owns db' m t"
    using wf_insert_task [OF wf] wf_task_seq [OF wf] find_task_insert [OF wf]
    by (auto simp: owns_def find_task_def split: option.splits)
  with assms(1) show ?thesis by (auto simp: cluster_inv_def)
qed

lemma inv_claim:
  assumes inv: "cluster_inv s"
    and cw: "considerWork env from i ids e (cl_db s) = (ok, started, e', db')" "from \<noteq> WorkSourceRecover"
  shows "cluster_inv \<lparr>cl_db = db', cl_run = cl_run s @ map (Pair (e_ownerID e)) started\<rparr>"
proof -
  have wf: "wf_db (cl_db s)" and own: "\<And>m t. (m, t) \<in> set (cl_run s) \<Longrightarrow> owns (cl_db s) m t"
    using inv by (auto simp: cluster_inv_def)
  obtain owned where o: "claim_outcome env i e (cl_db s) owned started e' db'"
    using considerWork_claim [OF cw wf] .
  note o' = o [unfolded claim_outcome_def]
  have free: "t \<notin> set owned" if "(m, t) \<in> set (cl_run s)" for m t
    using own [OF that] o' by (auto simp: owns_def claimable_def split: option.splits)
  show ?thesis
  proof (rule cluster_inv_take [OF inv considerWork_wf [OF cw wf]])
    fix m t assume run: "(m, t) \<in> set (cl_run s)"
    show "owns db' m t"
      using own [OF run] free [OF run] o'
      by (auto simp: owns_def find_task_set_owner dest: find_task_Some split: option.splits)
  next
    fix t assume "t \<in> set started"
    then have "t \<in> set owned" "claimable (we_locked env) (cl_db s) t" using o' by auto
    then show "owns db' (e_ownerID e) t"
      using o' by (auto simp: owns_def claimable_def find_task_set_owner dest: find_task_Some split: option.splits)
    show "t \<notin> snd ` set (cl_run s)" using free \<open>t \<in> set owned\<close> by auto
  qed (use o' in auto)
qed

lemma inv_finish:
  assumes "cluster_inv s" "(m, t) \<in> set (cl_run s)"
    "recordCompletion_tx h host t sec ws we now don err (cl_db s) = Inr db'"
  shows "cluster_inv \<lparr>cl_db = db', cl_run = remove1 (m, t) (cl_run s)\<rparr>"
proof -
  have wf: "wf_db (cl_db s)" and own: "\<And>m t. (m, t) \<in> set (cl_run s) \<Longrightarrow> owns (cl_db s) m t"
    and dist: "distinct (map snd (cl_run s))"
    using assms(1) by (auto simp: cluster_inv_def)
  obtain row where "find_task t (cl_db s) = Some row"
    using own [OF assms(2)] by (auto simp: owns_def split: option.splits)
  then obtain d where d: "recordCompletion_tx h host t sec ws we now don err (cl_db s) = Inr d"
    "wf_db d" "\<And>t'. t' \<noteq> t \<Longrightarrow> find_task t' d = find_task t' (cl_db s)"
    by (rule recordCompletion_tx_find [of t "cl_db s" row h host sec ws we now don err]) (use wf in auto)
  have 2: "distinct (cl_run s)" "set (remove1 (m, t) (cl_run s)) = set (cl_run s) - {(m, t)}"
    using dist by (auto simp: distinct_map)
  have "distinct (map snd (remove1 (m, t) (cl_run s)))"
    using dist 2 by (auto simp: distinct_map intro: inj_on_subset)
  moreover have "owns d m' t'" if "(m', t') \<in> set (remove1 (m, t) (cl_run s))" for m' t'
  proof -
    have "t' \<noteq> t" using that 2 dist assms(2) by (auto simp: distinct_map inj_on_def) force
    then show ?thesis using own [of m' t'] that 2 d(3) by (auto intro: owns_same)
  qed
  ultimately show ?thesis using d assms(3) by (auto intro: cluster_invI)
qed

lemma inv_restart:
  assumes inv: "cluster_inv s"
    and new: "New Registry impls host insp now False cf False envs (\<lambda>_. False) next c (cl_db s) = Inr (started, e, db')"
      "\<And>t. recover_answer (envs t) t"
    and idle: "runs_on (e_ownerID e) s = []" and timely: "timely s db'"
  shows "cluster_inv \<lparr>cl_db = db', cl_run = cl_run s @ map (Pair (e_ownerID e)) started\<rparr>"
proof -
  have wf: "wf_db (cl_db s)" and own: "\<And>m t. (m, t) \<in> set (cl_run s) \<Longrightarrow> owns (cl_db s) m t"
    using inv by (auto simp: cluster_inv_def)
  obtain reg db1 released where r: "Register host insp now False cf (cl_db s) = Inr (reg, db1)" "wf_db db1"
    "db' = set_owner released None db1" "distinct started"
    "\<And>t r. t \<in> set released \<Longrightarrow> find_task t db1 = Some r \<Longrightarrow> t_owner_id r = Some (e_ownerID e)"
    "\<And>t. t \<in> set started \<longleftrightarrow> (\<exists>r. find_task t db' = Some r \<and> t_owner_id r = Some (e_ownerID e))"
    using New_result [OF new(1) wf new(2)] by blast
  have keep: "owns db' m t \<and> m \<noteq> e_ownerID e" if run: "(m, t) \<in> set (cl_run s)" for m t
  proof -
    have "m \<noteq> e_ownerID e" using idle run by (auto simp: runs_on_def filter_empty_conv)
    moreover have "registered m db1" using timely run r(3) by (auto simp: timely_def registered_def set_owner_def)
    moreover obtain row where row: "find_task t db1 = Some row" "t_owner_id row = Some m" "t_id row = t"
      using owns_Register [OF wf r(1) \<open>registered m db1\<close> own [OF run]] find_task_Some [of t db1]
      by (auto simp: owns_def split: option.splits)
    ultimately have "t \<notin> set released" using r(5) by auto
    with row \<open>m \<noteq> e_ownerID e\<close> show ?thesis by (simp add: owns_def find_task_set_owner r(3))
  qed
  show ?thesis
  proof (rule cluster_inv_take [OF inv])
    fix t assume t: "t \<in> set started"
    then show "owns db' (e_ownerID e) t" using r(6) by (auto simp: owns_def)
    with keep owns_unique show "t \<notin> snd ` set (cl_run s)" by fastforce
  qed (use keep r wf_set_owner_None in auto)
qed

lemma find_task_keepalive [simp]: "find_task t (keepalive shut m now fail db) = find_task t db"
  by (simp add: keepalive_def find_task_def)

lemma cstep_inv:
  assumes "cstep s s'" "cluster_inv s"
  shows "cluster_inv s'"
  using assms
proof cases
  case (crash m)
  with assms(2) show ?thesis
    by (auto simp: cluster_inv_def distinct_map_filter split_def)
next
  case (cleanup db' now fail)
  with assms(2) show ?thesis
    using wf_CleanupMachines owns_CleanupMachines [of "cl_db s" _ now fail]
    by (fastforce simp: cluster_inv_def timely_def)
next
  case (heartbeat shut m now fail)
  with assms(2) show ?thesis
    by (auto simp: cluster_inv_def wf_keepalive owns_def find_task_keepalive)
qed (use assms(2) in \<open>auto intro: inv_add_task inv_claim inv_finish inv_restart\<close>)

lemma reachable_inv: "reachable s \<Longrightarrow> cluster_inv s"
proof (induction rule: reachable.induct)
  case (init db)
  then show ?case by (simp add: cluster_inv_def)
qed (rule cstep_inv)

section \<open>Properties\<close>



end
