(* ===== verification/Poller.thy ===== *)
theory Poller
  imports EngineSafety
begin

text \<open>
  What the poller offers to the handlers: tasks of the right type whose retry delay has
  passed, and on a cordoned machine only the types with an override.
\<close>

section \<open>Vocabulary\<close>

text \<open>\<open>CanAccept\<close> chooses among the tasks it is offered.\<close>

definition chooses :: "work_env \<Rightarrow> bool" where
  "chooses env \<longleftrightarrow>
     (\<forall>from ids ts. we_CanAccept env from ids = Inr ts \<longrightarrow> set ts \<subseteq> set ids)"

text \<open>A node on which only sector moves (\<open>MoveStorage\<close>) may be scheduled while cordoned.\<close>

definition ex_move :: taskTypeHandler where
  "ex_move = ex_handler\<lparr>td_Name := ''Move'', td_Storage := False, td_SchedulingOverrides := Some [''SDR''],
     td_RetryWait := Some (\<lambda>n. 10 * n), h_Max := \<lparr>N = 0, current = 2, currentThis = 3\<rparr>\<rparr>"

definition ex_poll_engine :: TaskEngine where
  "ex_poll_engine = ex_engine\<lparr>e_handlers := [ex_handler, ex_move], e_ownerID := 2, e_lastCleanup := 150\<rparr>"

definition ex_poll_db :: harmony_db where
  "ex_poll_db = ex_db\<lparr>harmony_task := harmony_task ex_db @ [ex_task 20 ''Move'' None 1], task_seq := 21\<rparr>"

definition ex_poll_env :: poll_env where
  "ex_poll_env = \<lparr>pe_now = 200, pe_cleanup_fails = False, pe_override_fails = (\<lambda>_ _. False),
     pe_select_fails = (\<lambda>_. False), pe_work = (\<lambda>_. ex_env), pe_bored_work = (\<lambda>_. ex_env),
     pe_bored_adds = (\<lambda>_. []), pe_bored_err = (\<lambda>_. False)\<rparr>"

section \<open>Lemmas\<close>

lemma take_work_same_types:
  assumes "take_work env from i capacity tIDs e db = (ok, started, e', db')"
  shows "same_types e e'"
proof -
  obtain tIDs1 sf1 where f: "filter_storage_failures (we_now env) (h_storageFailures (e_handlers e ! i)) tIDs = (tIDs1, sf1)"
    by fastforce
  have start: "same_types e e'" if "start_work env i ts sf1 (set_storageFailures i sf1 e) db1 = (ok, started, e', db')" for ts db1
    using that by (rule start_work_result) (rule same_types_trans [OF same_types_set_storageFailures])
  show ?thesis
    using assms start by (auto simp: take_work_def f Let_def split: if_splits sum.splits prod.splits)
qed

lemma considerWork_same_types:
  "considerWork env from i ids e db = (ok, started, e', db') \<Longrightarrow> same_types e e'"
  by (cases rule: considerWork_cases) (auto intro: take_work_same_types)

lemma try_handler_same_types:
  "try_handler pe sch i e db = (ok, started, e', db') \<Longrightarrow> same_types e e'"
  by (auto simp: try_handler_def Let_def split: if_splits sum.splits dest: considerWork_same_types)

lemma same_types_overrides:
  assumes "same_types e e'" "i < length (e_handlers e)"
  shows "td_SchedulingOverrides (e_handlers e' ! i) = td_SchedulingOverrides (e_handlers e ! i)"
proof -
  have "map td_SchedulingOverrides (e_handlers e') = map td_SchedulingOverrides (e_handlers e)"
    by (rule same_types_map [OF assms(1)]) simp
  with assms(2) show ?thesis by (metis length_map nth_map)
qed

lemma filter_storage_failures_subset:
  "filter_storage_failures now sf ts = (ts', sf') \<Longrightarrow> set ts' \<subseteq> set ts"
  by (induction ts arbitrary: sf ts' sf')
    (fastforce simp: Let_def split: option.splits prod.splits if_splits)+

lemma try_handler_cordoned:
  assumes "try_handler pe False i e db = (True, started, e', db')"
  shows "td_SchedulingOverrides (e_handlers e ! i) \<noteq> None"
  using assms by (cases "td_SchedulingOverrides (e_handlers e ! i)") (auto simp: try_handler_def Let_def)

lemma try_handlers_cordoned:
  assumes "try_handlers pe False is e db = (ok, ts, e', db')" "set is \<subseteq> {..<length (e_handlers e)}"
  shows "length ts \<le> 1 \<and>
    (\<forall>i started. (i, started) \<in> set ts \<longrightarrow> i \<in> set is \<and> td_SchedulingOverrides (e_handlers e ! i) \<noteq> None)"
  using assms
proof (induction "is" arbitrary: e db)
  case (Cons i "is")
  obtain ok1 st e1 db1 where t: "try_handler pe False i e db = (ok1, st, e1, db1)" by (metis prod_cases4)
  note same = try_handler_same_types [OF t]
  show ?case
  proof (cases ok1)
    case True
    then show ?thesis using Cons.prems t try_handler_cordoned [of pe i e db st e1 db1] by auto
  next
    case False
    have "length (e_handlers e1) = length (e_handlers e)"
      using same by (metis length_map same_types_def)
    then have "set is \<subseteq> {..<length (e_handlers e1)}" using Cons.prems(2) by auto
    moreover have "try_handlers pe False is e1 db1 = (ok, ts, e', db')"
      using Cons.prems(1) t False by simp
    ultimately have IH: "length ts \<le> 1" "\<And>j started. (j, started) \<in> set ts \<Longrightarrow>
        j \<in> set is \<and> td_SchedulingOverrides (e_handlers e1 ! j) \<noteq> None"
      using Cons.IH by blast+
    moreover have "td_SchedulingOverrides (e_handlers e1 ! j) = td_SchedulingOverrides (e_handlers e ! j)"
      if "j \<in> set is" for j
      using same_types_overrides [OF same] Cons.prems(2) that by auto
    ultimately show ?thesis by fastforce
  qed
qed simp

lemma try_handler_started:
  assumes "try_handler pe sch i e db = (ok, started, e', db')" "wf_db db" "t \<in> set started"
  shows "claimable (we_locked (pe_work pe i)) db t \<and>
    (\<exists>tIDs. we_CanAccept (pe_work pe i) WorkSourcePoller (unownedTasks (e_handlers e ! i) (pe_now pe) db) = Inr tIDs \<and>
       t \<in> set tIDs)"
proof -
  let ?env = "pe_work pe i" and ?ids = "unownedTasks (e_handlers e ! i) (pe_now pe) db"
  have cw: "considerWork ?env WorkSourcePoller i ?ids e db = (ok, started, e', db')"
    using assms(1,3) by (auto simp: try_handler_def Let_def split: if_splits sum.splits)
  then obtain owned where "claim_outcome ?env i e db owned started e' db'"
    using considerWork_claim poller_not_recover(1) assms(2) by blast
  then have "claimable (we_locked ?env) db t" using assms(3) by (auto simp: claim_outcome_def)
  moreover from cw have "\<exists>tIDs. we_CanAccept ?env WorkSourcePoller ?ids = Inr tIDs \<and> t \<in> set tIDs"
  proof (cases rule: considerWork_cases)
    case (work capacity tIDs)
    obtain tIDs1 sf1 where f: "filter_storage_failures (we_now ?env) (h_storageFailures (e_handlers e ! i)) tIDs = (tIDs1, sf1)"
      by fastforce
    have "t \<in> set tIDs1"
    proof -
      have started: "set started \<subseteq> set ts" if "start_work ?env i ts sf1 e1 db1 = (ok, started, e', db')" for ts e1 db1
        using that by (rule start_work_result) auto
      have "set accepted \<subseteq> set tIDs1"
        if "claim_tasks (we_locked ?env) (we_claim_fails ?env) (e_ownerID e) tIDs1 bnd db = Inr (accepted, db1)" for bnd accepted db1
        using claim_tasks_Inr(3) [OF that] .
      then show ?thesis
        using work(4) assms(3) started unfolding take_work_def Let_def f
        by (fastforce split: if_splits sum.splits)
    qed
    with filter_storage_failures_subset [OF f] work(3) show ?thesis by blast
  qed (use assms(3) in simp)
  ultimately show ?thesis by blast
qed

section \<open>Properties\<close>

text \<open>
  on a cordoned machine (\<open>unschedulable\<close>) a round of the poller starts tasks of at
  most one type, and only of a type that declares scheduling overrides; nothing is started
  out of boredom.
\<close>

theorem cordoned_starts_only_overrides:
  assumes "pollerTryAllWork pe False e db = (accepted, ts, e', db')"
  shows "length ts \<le> 1 \<and>
    (\<forall>i started. (i, started) \<in> set ts \<longrightarrow> td_SchedulingOverrides (e_handlers e ! i) \<noteq> None)"
proof -
  obtain e0 db0 where e0: "(if pe_now pe - e_lastCleanup e > CLEANUP_FREQUENCY
      then (e\<lparr>e_lastCleanup := pe_now pe\<rparr>, snd (CleanupMachines (pe_now pe) (pe_cleanup_fails pe) db))
      else (e, db)) = (e0, db0)" by fastforce
  then have hs: "e_handlers e0 = e_handlers e" by (auto split: if_splits)
  obtain ok where "try_handlers pe False [0..<length (e_handlers e)] e0 db0 = (ok, ts, e', db')"
    using assms unfolding pollerTryAllWork_def Let_def e0 by (auto split: prod.splits bool.splits)
  from try_handlers_cordoned [OF this] hs show ?thesis by (auto simp: atLeast0LessThan)
qed

theorem cordoned_starts_only_overrides_witness:
  "case pollerTryAllWork ex_poll_env False ex_poll_engine ex_poll_db of
     (accepted, ts, e', db') \<Rightarrow> ts = [(1, [20])] \<and> td_SchedulingOverrides (e_handlers ex_poll_engine ! 1) \<noteq> None"
proof -
  have "fst (snd (pollerTryAllWork ex_poll_env False ex_poll_engine ex_poll_db)) = [(1, [20])]" by code_simp
  then obtain acc e' db' where r: "pollerTryAllWork ex_poll_env False ex_poll_engine ex_poll_db = (acc, [(1, [20])], e', db')"
    by (cases "pollerTryAllWork ex_poll_env False ex_poll_engine ex_poll_db") auto
  from cordoned_starts_only_overrides [OF r] show ?thesis by (simp add: r)
qed

text \<open>
  a task the poller starts for a handler was unowned, has the handler's name, and
  either never failed, or the handler has no retry delay, or its delay for that number of
  retries has passed since the row last changed.
\<close>

theorem poller_respects_RetryWait:
  assumes "try_handler pe sch i e db = (ok, started, e', db')" "wf_db db" "chooses (pe_work pe i)"
    and "t \<in> set started"
  shows "\<exists>r. find_task t db = Some r \<and> t_owner_id r = None \<and> t_name r = td_Name (e_handlers e ! i) \<and>
    (t_retries r = 0 \<or> td_RetryWait (e_handlers e ! i) = None \<or>
     pe_now pe - t_update_time r > the (td_RetryWait (e_handlers e ! i)) (int (t_retries r)))"
proof -
  have "t \<in> set (unownedTasks (e_handlers e ! i) (pe_now pe) db)"
    using try_handler_started [OF assms(1,2,4)] assms(3) by (auto simp: chooses_def)
  then obtain r where r: "r \<in> set (allUnownedTasks (td_Name (e_handlers e ! i)) db)" "t_id r = t"
      "retry_ready (td_RetryWait (e_handlers e ! i)) (pe_now pe) r"
    by (auto simp: unownedTasks_def)
  then have "r \<in> set (harmony_task db)" "t_owner_id r = None" "t_name r = td_Name (e_handlers e ! i)"
    by (auto simp: allUnownedTasks_def dest!: in_set_takeD)
  with r find_task_wf [OF assms(2)] show ?thesis
    by (auto simp: retry_ready_def split: option.splits)
qed

theorem poller_respects_RetryWait_witness:
  "\<exists>started e' db' r. try_handler ex_poll_env True 1 ex_poll_engine ex_poll_db = (True, started, e', db') \<and>
     started = [20] \<and> find_task 20 ex_poll_db = Some r \<and> t_retries r = 1 \<and> 200 - t_update_time r > 10"
proof -
  have "(case try_handler ex_poll_env True 1 ex_poll_engine ex_poll_db of (ok, st, _) \<Rightarrow> ok \<and> st = [20])" by code_simp
  then obtain e' db' where r: "try_handler ex_poll_env True 1 ex_poll_engine ex_poll_db = (True, [20], e', db')"
    by (cases "try_handler ex_poll_env True 1 ex_poll_engine ex_poll_db") auto
  have wf: "wf_db ex_poll_db"
    by (simp add: ex_poll_db_def ex_defs wf_db_def registered_def)
  have ch: "chooses (pe_work ex_poll_env 1)" by (simp add: chooses_def ex_poll_env_def ex_env_def)
  have row: "find_task 20 ex_poll_db = Some (ex_task 20 ''Move'' None 1)"
    by (simp add: ex_poll_db_def ex_defs find_task_def)
  from poller_respects_RetryWait [OF r wf ch, of 20] r row show ?thesis
    by (auto simp: ex_task_def ex_poll_engine_def ex_move_def ex_poll_env_def)
qed

end
