(* ===== verification/Singleton.thy ===== *)
theory Singleton
  imports TaskLife
begin

text \<open>
  Singleton tasks (\<open>harmony/harmonytask/singleton_task.go\<close> and the run-now poller of
  \<open>harmonytask.go\<close>): a task type of which at most one task exists in the cluster, added
  again after an interval or on request.

  The flags of \<open>singletonRunNow\<close> are a map from the registered names to their value; the
  closure state of an adder is the time of its last call.
\<close>

section \<open>Run-now flags\<close>

type_synonym run_now_flags = "string \<rightharpoonup> bool"

definition registerSingletonRunNow :: "string \<Rightarrow> run_now_flags \<Rightarrow> run_now_flags" where
  "registerSingletonRunNow name flags =
     (case flags name of Some _ \<Rightarrow> flags | None \<Rightarrow> flags(name \<mapsto> False))"

definition singletonRunNowPoller_round :: "bool \<Rightarrow> harmony_db \<Rightarrow> run_now_flags \<Rightarrow> run_now_flags" where
  "singletonRunNowPoller_round fails db flags =
     (if fails then flags
      else fold (\<lambda>s fl. if fl (s_task_name s) \<noteq> None then fl(s_task_name s \<mapsto> True) else fl)
             (filter s_run_now_request (harmony_task_singletons db)) flags)"

section \<open>The adder\<close>

definition find_singleton :: "string \<Rightarrow> harmony_db \<Rightarrow> singleton_row option" where
  "find_singleton name db = find (\<lambda>s. s_task_name s = name) (harmony_task_singletons db)"

definition active_task :: "string \<Rightarrow> TaskID option \<Rightarrow> harmony_db \<Rightarrow> bool" where
  "active_task name tid db \<longleftrightarrow>
     (case tid of
        None \<Rightarrow> False
      | Some t \<Rightarrow> \<exists>r\<in>set (harmony_task db). t_id r = t \<and> t_name r = name)"

text \<open>
  The upsert: a row whose task is still active keeps its task, and the time of the last
  run changes when the task does. The condition reads the row as it was.
\<close>

definition upsert_singleton :: "string \<Rightarrow> TaskID \<Rightarrow> time \<Rightarrow> harmony_db \<Rightarrow> harmony_db" where
  "upsert_singleton name taskID now db =
     (case find_singleton name db of
        None \<Rightarrow> db\<lparr>harmony_task_singletons := harmony_task_singletons db @
                  [\<lparr>s_task_name = name, s_task_id = Some taskID, s_last_run_time = now,
                    s_run_now_request = False\<rparr>]\<rparr>
      | Some _ \<Rightarrow> db\<lparr>harmony_task_singletons :=
          update_where (\<lambda>s. s_task_name s = name)
            (\<lambda>s. s\<lparr>s_task_id := (if active_task name (s_task_id s) db then s_task_id s else Some taskID),
                   s_last_run_time := (if s_task_id s \<noteq> Some taskID then now else s_last_run_time s),
                   s_run_now_request := False\<rparr>)
            (harmony_task_singletons db)\<rparr>)"

definition shouldRun :: "duration \<Rightarrow> string \<Rightarrow> time \<Rightarrow> harmony_db \<Rightarrow> bool" where
  "shouldRun minInterval name now db \<longleftrightarrow>
     (case find_singleton name db of
        None \<Rightarrow> True
      | Some s \<Rightarrow> \<not> active_task name (s_task_id s) db \<and>
                  (s_run_now_request s \<or> s_last_run_time s + minInterval < now))"

text \<open>The function given to \<open>add\<close>; \<open>fails\<close> is a failure of one of its statements.\<close>

definition singleton_extra :: "duration \<Rightarrow> string \<Rightarrow> time \<Rightarrow> bool \<Rightarrow> extra_info" where
  "singleton_extra minInterval name now fails taskID db =
     (if fails then (Inl (OtherError ''query''), db)
      else if \<not> shouldRun minInterval name now db then (Inr False, db)
      else (Inr True, upsert_singleton name taskID now db))"

text \<open>
  One call of the closure: the flag is read and cleared, a call within the interval does
  nothing. The result is the new time of the last call, the flags and the database.
\<close>

definition SingletonTaskAdder ::
  "duration \<Rightarrow> string \<Rightarrow> int \<Rightarrow> time \<Rightarrow> bool \<Rightarrow> db_error option list \<Rightarrow> time \<Rightarrow> run_now_flags \<Rightarrow> harmony_db \<Rightarrow>
   time \<times> run_now_flags \<times> harmony_db" where
  "SingletonTaskAdder minInterval name owner now fails commits lastCall flags db =
     (let flags1 = registerSingletonRunNow name flags;
          runNowTriggered = (flags1 name = Some True);
          flags2 = flags1(name \<mapsto> False)
      in if \<not> runNowTriggered \<and> now - lastCall < minInterval then (lastCall, flags2, db)
         else (now, flags2,
               snd (AddTask name owner now (singleton_extra minInterval name now fails) commits db)))"

section \<open>Steps\<close>

text \<open>
  What happens to a singleton type: its adder is called on some node, its task completes
  or fails, and someone asks for a run.
\<close>

definition request_run_now :: "string \<Rightarrow> harmony_db \<Rightarrow> harmony_db" where
  "request_run_now name db = db\<lparr>harmony_task_singletons :=
     update_where (\<lambda>s. s_task_name s = name) (\<lambda>s. s\<lparr>s_run_now_request := True\<rparr>) (harmony_task_singletons db)\<rparr>"

inductive singleton_step :: "duration \<Rightarrow> string \<Rightarrow> harmony_db \<Rightarrow> harmony_db \<Rightarrow> bool" for minInterval name where
  added: "SingletonTaskAdder minInterval name owner now fails commits lastCall flags db = (lc, fl, db') \<Longrightarrow>
    singleton_step minInterval name db db'"
| completed: "recordCompletion_tx h host t sec ws we now don err db = Inr db' \<Longrightarrow>
    singleton_step minInterval name db db'"
| requested: "singleton_step minInterval name db (request_run_now n db)"

definition singleton_ok :: "string \<Rightarrow> harmony_db \<Rightarrow> bool" where
  "singleton_ok name db \<longleftrightarrow>
     wf_db db \<and>
     (\<forall>r\<in>set (harmony_task db). t_name r = name \<longrightarrow>
        (\<exists>s. find_singleton name db = Some s \<and> s_task_id s = Some (t_id r)))"

section \<open>Lemmas\<close>

lemma singleton_okD:
  "singleton_ok name db \<Longrightarrow> r \<in> set (harmony_task db) \<Longrightarrow> t_name r = name \<Longrightarrow>
   \<exists>s. find_singleton name db = Some s \<and> s_task_id s = Some (t_id r)"
  by (simp add: singleton_ok_def)

lemma singleton_ok_at_most_one:
  assumes "singleton_ok name db" "r \<in> set (harmony_task db)" "r' \<in> set (harmony_task db)"
    "t_name r = name" "t_name r' = name"
  shows "r = r'"
proof -
  have "t_id r = t_id r'" using singleton_okD [OF assms(1,2,4)] singleton_okD [OF assms(1,3,5)] by auto
  with assms show ?thesis using distinct_key_eq [OF wf_dbD(1), of db r r'] by (auto simp: singleton_ok_def)
qed

lemma find_singleton_upsert:
  "find_singleton name (upsert_singleton name t now db) =
   Some (case find_singleton name db of
     None \<Rightarrow> \<lparr>s_task_name = name, s_task_id = Some t, s_last_run_time = now, s_run_now_request = False\<rparr>
   | Some s \<Rightarrow> s\<lparr>s_task_id := (if active_task name (s_task_id s) db then s_task_id s else Some t),
                 s_last_run_time := (if s_task_id s \<noteq> Some t then now else s_last_run_time s),
                 s_run_now_request := False\<rparr>)"
proof (cases "find_singleton name db")
  case None
  have "find p (xs @ [x]) = (if find p xs = None then (if p x then Some x else None) else find p xs)"
    for p and xs :: "singleton_row list" and x
    by (induction xs) auto
  with None show ?thesis by (simp add: find_singleton_def upsert_singleton_def)
next
  case (Some s)
  then have "s_task_name s = name" unfolding find_singleton_def using find_Some_set by fastforce
  with Some show ?thesis
    by (simp add: find_singleton_def upsert_singleton_def find_update_where_key)
qed

lemma wf_upsert_singleton:
  assumes wf: "wf_db db" and t: "t \<in> t_id ` set (harmony_task db)"
  shows "wf_db (upsert_singleton name t now db)"
proof (cases "find_singleton name db")
  case None
  then have "name \<notin> s_task_name ` set (harmony_task_singletons db)"
    by (auto simp: find_singleton_def find_None_iff_set)
  with None t show ?thesis
    by (intro wf_dbI) (use wf_dbD [OF wf] in \<open>auto simp: upsert_singleton_def\<close>)
next
  case (Some s)
  have "s_task_id s' = Some k \<Longrightarrow> k \<in> t_id ` set (harmony_task db)"
    if "s' \<in> set (harmony_task_singletons db)" for s' k
    using wf_dbD(7) [OF wf that] .
  with Some t show ?thesis
    by (intro wf_dbI)
      (use wf_dbD [OF wf] in \<open>auto simp: upsert_singleton_def map_update_where_key table_simps split: if_splits\<close>)
qed

text \<open>The row inserted before \<open>extraInfo\<close> ran is the only one of its type afterwards.\<close>

lemma singleton_add_ok:
  assumes ok: "singleton_ok name db" and k: "task_seq db \<le> k"
    and extra: "singleton_extra minInterval name now fails k
        (snd (insert_task name owner now' (db\<lparr>task_seq := k\<rparr>))) = (Inr True, db')"
  shows "singleton_ok name db'"
proof -
  define d where "d = snd (insert_task name owner now' (db\<lparr>task_seq := k\<rparr>))"
  have wf: "wf_db db" using ok by (simp add: singleton_ok_def)
  then have "wf_db (db\<lparr>task_seq := k\<rparr>)"
    using k wf_dbD [OF wf] by (intro wf_dbI) (auto intro: less_le_trans)
  then have wfd: "wf_db d" unfolding d_def by (rule wf_insert_task)
  have tasks: "set (harmony_task d) = set (harmony_task db) \<union> {r. r = last (harmony_task d)}"
    "t_id (last (harmony_task d)) = k" "t_name (last (harmony_task d)) = name"
    "find_singleton name d = find_singleton name db"
    by (auto simp: d_def insert_task_def Let_def find_singleton_def)
  have run: "shouldRun minInterval name now d" and db': "db' = upsert_singleton name k now d"
    using extra by (auto simp: singleton_extra_def d_def split: if_splits)
  have idle: "\<not> active_task name (s_task_id s) d" if "find_singleton name d = Some s" for s
    using run that by (simp add: shouldRun_def)
  have none: "t_name r \<noteq> name" if row: "r \<in> set (harmony_task db)" for r
  proof
    assume n: "t_name r = name"
    then obtain s where "find_singleton name db = Some s" "s_task_id s = Some (t_id r)"
      using singleton_okD [OF ok row n] by auto
    with idle [of s] row n tasks show False by (auto simp: active_task_def)
  qed
  have "k \<in> t_id ` set (harmony_task d)" using tasks by force
  moreover have "harmony_task db' = harmony_task d"
    by (auto simp: db' upsert_singleton_def split: option.splits)
  moreover have "\<exists>s. find_singleton name db' = Some s \<and> s_task_id s = Some k"
    using idle by (auto simp: db' find_singleton_upsert split: option.splits)
  ultimately show ?thesis
    using wf_upsert_singleton [OF wfd] none tasks by (auto simp: singleton_ok_def db')
qed

lemma singleton_seq_ok:
  assumes "singleton_ok name db" "task_seq db \<le> k"
  shows "singleton_ok name (db\<lparr>task_seq := k\<rparr>)"
proof -
  have wf: "wf_db db" using assms by (simp add: singleton_ok_def)
  have "wf_db (db\<lparr>task_seq := k\<rparr>)"
    using assms wf_dbD [OF wf] by (intro wf_dbI) (auto intro: less_le_trans)
  with assms show ?thesis by (auto simp: singleton_ok_def find_singleton_def)
qed

lemma singleton_adder_ok:
  assumes ok: "singleton_ok name db"
    and call: "SingletonTaskAdder minInterval name owner now fails commits lastCall flags db = (lc, fl, db')"
  shows "singleton_ok name db'"
proof (cases "db' = db")
  case False
  define ex where "ex = singleton_extra minInterval name now fails"
  have "db' = snd (AddTask name owner now ex commits db)"
    using call False by (auto simp: SingletonTaskAdder_def Let_def ex_def split: if_splits)
  then obtain res where add: "AddTask name owner now ex commits db = (res, db')" by (metis prod.collapse)
  obtain k where k: "if res = Some (Inr True)
      then ex (task_seq db + int k)
             (snd (insert_task name owner now (db\<lparr>task_seq := task_seq db + int k\<rparr>))) = (Inr True, db')
      else db' = db\<lparr>task_seq := task_seq db + int k\<rparr>"
    using AddTask_cases [where name = name and owner = owner and now = now and extra = ex and ces = commits and db = db]
    by (auto simp: add)
  show ?thesis
  proof (cases "res = Some (Inr True)")
    case True
    with k show ?thesis
      by (intro singleton_add_ok [OF ok, of "task_seq db + int k"]) (auto simp: ex_def)
  next
    case False
    with k have "db' = db\<lparr>task_seq := task_seq db + int k\<rparr>" by simp
    with singleton_seq_ok [OF ok, of "task_seq db + int k"] show ?thesis by simp
  qed
qed (use ok in simp)

lemma find_singleton_delete_task:
  "find_singleton name (delete_task t db) =
   map_option (\<lambda>s. if s_task_id s = Some t then s\<lparr>s_task_id := None\<rparr> else s) (find_singleton name db)"
  by (simp add: find_singleton_def delete_task_def find_update_where_key)

lemma singleton_completed_ok:
  assumes ok: "singleton_ok name db"
    and tx: "recordCompletion_tx h host t sec ws we now don err db = Inr db'"
  shows "singleton_ok name db'"
proof -
  obtain row where row: "find_task t db = Some row"
    using tx by (cases "find_task t db") (auto simp: recordCompletion_tx_def)
  have wf: "wf_db db" using ok by (simp add: singleton_ok_def)
  obtain d where "recordCompletion_tx h host t sec ws we now don err db = Inr d" "wf_db d"
    by (rule recordCompletion_tx_find [OF row, of h host sec ws we now don err]) (use wf in auto)
  then have wf': "wf_db db'" using tx by simp
  let ?f = "\<lambda>r. r\<lparr>t_owner_id := None, t_retries := t_retries row + 1, t_update_time := now\<rparr>"
  let ?del = "don \<or> (td_MaxFailures h > 0 \<and> t_retries row \<ge> td_MaxFailures h - 1)"
  let ?db1 = "if ?del then delete_task t db
    else db\<lparr>harmony_task := update_where (\<lambda>r. t_id r = t) ?f (harmony_task db)\<rparr>"
  have "harmony_task db' = harmony_task ?db1" "harmony_task_singletons db' = harmony_task_singletons ?db1"
    using tx row
    by (auto simp: recordCompletion_tx_def Let_def append_sector_pipeline_events_def
        split: option.splits prod.splits if_splits)
  then have "harmony_task db' = harmony_task (delete_task t db) \<and> find_singleton name db' = find_singleton name (delete_task t db) \<or>
    harmony_task db' = update_where (\<lambda>r. t_id r = t) ?f (harmony_task db) \<and> find_singleton name db' = find_singleton name db"
    unfolding find_singleton_def by (cases ?del) simp_all
  then show ?thesis
  proof
    assume d: "harmony_task db' = harmony_task (delete_task t db) \<and>
      find_singleton name db' = find_singleton name (delete_task t db)"
    then have "r \<in> set (harmony_task db) \<and> t_id r \<noteq> t" if "r \<in> set (harmony_task db')" for r
      using that by (auto simp: delete_task_def table_simps)
    with d wf' singleton_okD [OF ok] show ?thesis
      by (fastforce simp: singleton_ok_def find_singleton_delete_task)
  next
    assume "harmony_task db' = update_where (\<lambda>r. t_id r = t) ?f (harmony_task db) \<and>
      find_singleton name db' = find_singleton name db"
    then show ?thesis using wf' singleton_okD [OF ok] by (auto simp: singleton_ok_def table_simps)
  qed
qed

lemma request_run_now_ok: "singleton_ok name db \<Longrightarrow> singleton_ok name (request_run_now n db)"
proof -
  assume ok: "singleton_ok name db"
  then have wf: "wf_db db" by (simp add: singleton_ok_def)
  have "wf_db (request_run_now n db)"
    by (rule wf_dbI) (use wf_dbD [OF wf] in
        \<open>auto simp: request_run_now_def map_update_where_key table_simps split: if_splits\<close>)
  moreover have "find_singleton name (request_run_now n db) =
      map_option (\<lambda>s. if s_task_name s = n then s\<lparr>s_run_now_request := True\<rparr> else s) (find_singleton name db)"
    by (simp add: find_singleton_def request_run_now_def find_update_where_key)
  moreover have "harmony_task (request_run_now n db) = harmony_task db" by (simp add: request_run_now_def)
  moreover have "\<exists>s. find_singleton name (request_run_now n db) = Some s \<and> s_task_id s = Some (t_id r)"
    if r: "r \<in> set (harmony_task db)" "t_name r = name" for r
  proof -
    obtain s where "find_singleton name db = Some s" "s_task_id s = Some (t_id r)"
      using singleton_okD [OF ok r] by blast
    with calculation(2) show ?thesis by simp
  qed
  ultimately show "singleton_ok name (request_run_now n db)" by (simp add: singleton_ok_def)
qed

lemma singleton_steps_ok:
  "(singleton_step minInterval name)\<^sup>*\<^sup>* db db' \<Longrightarrow> singleton_ok name db \<Longrightarrow> singleton_ok name db'"
proof (induction rule: rtranclp_induct)
  case (step y z)
  from step.hyps(2) step.IH [OF step.prems] show ?case
    by cases (auto intro: singleton_adder_ok singleton_completed_ok request_run_now_ok)
qed

section \<open>Properties\<close>

text \<open>
  C27: however the nodes interleave calls of the singleton adder, completions and run-now
  requests, starting from a database without a task of the type, there is never more than
  one task of that type.
\<close>

theorem singleton_at_most_one_task:
  assumes "(singleton_step minInterval name)\<^sup>*\<^sup>* db db'" "wf_db db"
    and "\<forall>r\<in>set (harmony_task db). t_name r \<noteq> name"
  shows "count_where (\<lambda>r. t_name r = name) (harmony_task db') \<le> 1"
proof -
  have "singleton_ok name db" using assms(2,3) by (auto simp: singleton_ok_def)
  from singleton_steps_ok [OF assms(1) this] have ok: "singleton_ok name db'" .
  let ?f = "filter (\<lambda>r. t_name r = name) (harmony_task db')"
  have "distinct (harmony_task db')" using ok wf_dbD(1) by (auto simp: singleton_ok_def distinct_map)
  then have "length ?f = card (set ?f)" by (metis distinct_card distinct_filter)
  also have "\<dots> \<le> 1" using singleton_ok_at_most_one [OF ok] 
    by (simp add: card_le_Suc0_iff_eq)
  finally show ?thesis by (simp add: count_where_def)
qed

theorem singleton_at_most_one_task_witness:
  "\<exists>db'. (singleton_step 60 ''Clean'')\<^sup>*\<^sup>* ex_db db' \<and>
     count_where (\<lambda>r. t_name r = ''Clean'') (harmony_task db') = 1"
proof -
  obtain lc fl db' where c: "SingletonTaskAdder 60 ''Clean'' 1 200 False [None] 0 Map.empty ex_db = (lc, fl, db')"
    by (metis prod_cases3)
  then have step: "(singleton_step 60 ''Clean'')\<^sup>*\<^sup>* ex_db db'" by (intro r_into_rtranclp) (rule singleton_step.added)
  have "count_where (\<lambda>r. t_name r = ''Clean'') (harmony_task db') \<ge> 1"
  proof -
    have "count_where (\<lambda>r. t_name r = ''Clean'') (harmony_task (snd (snd
        (SingletonTaskAdder 60 ''Clean'' 1 200 False [None] 0 Map.empty ex_db)))) = 1" by code_simp
    then show ?thesis by (simp add: c)
  qed
  moreover have "count_where (\<lambda>r. t_name r = ''Clean'') (harmony_task db') \<le> 1"
    by (rule singleton_at_most_one_task [OF step ex_wf(1)]) (simp add: ex_db_def ex_task_def)
  ultimately show ?thesis using step by (intro exI [of _ db']) simp
qed

text \<open>
  when a transaction of the adder commits, the type had no active task, and there was
  no record of it, or a run was requested, or the interval since the last run has passed.
  Afterwards the record names the new task, has the new time, and the request is cleared.
\<close>

theorem singleton_run_when_due:
  assumes "singleton_extra minInterval name now fails k db = (Inr True, db')"
    and "\<forall>s. find_singleton name db = Some s \<longrightarrow> s_task_id s \<noteq> Some k"
  shows "(case find_singleton name db of
      None \<Rightarrow> True
    | Some s \<Rightarrow> \<not> active_task name (s_task_id s) db \<and> (s_run_now_request s \<or> s_last_run_time s + minInterval < now)) \<and>
    (\<exists>s. find_singleton name db' = Some s \<and> s_task_id s = Some k \<and> s_last_run_time s = now \<and> \<not> s_run_now_request s)"
  using assms
  by (auto simp: singleton_extra_def shouldRun_def find_singleton_upsert split: if_splits option.splits)

theorem singleton_run_when_due_witness:
  "\<exists>s. find_singleton ''Clean'' (snd (singleton_extra 60 ''Clean'' 200 False 13 ex_db)) = Some s \<and> s_last_run_time s = 200"
proof -
  have none: "find_singleton ''Clean'' ex_db = None" by (simp add: ex_db_def find_singleton_def)
  then have "singleton_extra 60 ''Clean'' 200 False 13 ex_db = (Inr True, upsert_singleton ''Clean'' 13 200 ex_db)"
    by (simp add: singleton_extra_def shouldRun_def)
  from singleton_run_when_due [OF this] this none show ?thesis by auto
qed

end
