(* ===== verification/SealBatch.thy ===== *)
theory SealBatch
  imports Prelude "HOL-Library.Product_Lexorder" "HOL-Library.Sublist"
begin

text \<open>
  Batching of precommit and commit messages (\<open>tasks/seal/batch_timeout.go\<close>): when a batch
  fires, how candidate rows are numbered by the SQL queries and grouped into batches.

  The reason of a decision is a datatype instead of the formatted text. Float arithmetic
  in \<open>SlackEpochs\<close> is rational; a block delay of zero is not considered.
\<close>

section \<open>When a batch fires\<close>

datatype batch_reason = FULL int int | SLACK int | TIMEOUT time | NONE

record BatchEvalResult =
  ShouldFire :: bool
  Reason :: batch_reason

definition EvalBatchTimeout ::
  "time \<Rightarrow> duration \<Rightarrow> int \<Rightarrow> int \<Rightarrow> int \<Rightarrow> time \<Rightarrow> int \<Rightarrow> int \<Rightarrow> BatchEvalResult" where
  "EvalBatchTimeout earliestReady timeout minStartEpoch slackEpochs currentHeight now batchSize maxBatch =
     (if maxBatch > 0 \<and> batchSize \<ge> maxBatch
      then \<lparr>ShouldFire = True, Reason = FULL batchSize maxBatch\<rparr>
      else
        let condSlack = (minStartEpoch - slackEpochs \<le> currentHeight);
            condTimeout = (\<not> now < earliestReady + timeout)
        in if condSlack then \<lparr>ShouldFire = True, Reason = SLACK minStartEpoch\<rparr>
           else if condTimeout then \<lparr>ShouldFire = True, Reason = TIMEOUT earliestReady\<rparr>
           else \<lparr>ShouldFire = False, Reason = NONE\<rparr>)"

definition SlackEpochs :: "duration \<Rightarrow> nat \<Rightarrow> int" where
  "SlackEpochs slack blockDelaySecs =
     \<lceil>(of_int slack / 1000000000) / (of_nat blockDelaySecs) :: rat\<rceil>"

definition ClampMaxBatch :: "int \<Rightarrow> int \<Rightarrow> int" where
  "ClampMaxBatch configured protocolMax =
     (if configured > 0 \<and> configured < protocolMax then configured else protocolMax)"

section \<open>Grouping\<close>

record BatchRow =
  br_SpID :: int
  br_SectorNumber :: int
  br_StartEpoch :: int
  br_ReadyAt :: time
  br_RegSealProof :: int
  br_BatchIndex :: int

record BatchCandidate =
  bc_SpID :: int
  bc_RegSealProof :: int
  bc_SectorNums :: "int list"
  bc_MinStartEpoch :: int
  bc_EarliestReady :: time

definition new_candidate :: "BatchRow \<Rightarrow> BatchCandidate" where
  "new_candidate r = \<lparr>bc_SpID = br_SpID r, bc_RegSealProof = br_RegSealProof r, bc_SectorNums = [],
     bc_MinStartEpoch = br_StartEpoch r, bc_EarliestReady = br_ReadyAt r\<rparr>"

definition sameGroup :: "BatchRow \<Rightarrow> BatchCandidate \<Rightarrow> int \<Rightarrow> bool" where
  "sameGroup r cur curIdx \<longleftrightarrow>
     br_SpID r = bc_SpID cur \<and> br_RegSealProof r = bc_RegSealProof cur \<and> br_BatchIndex r = curIdx"

definition add_row :: "BatchRow \<Rightarrow> BatchCandidate \<Rightarrow> BatchCandidate" where
  "add_row r cur = cur
     \<lparr>bc_SectorNums := bc_SectorNums cur @ [br_SectorNumber r],
      bc_MinStartEpoch := (if br_StartEpoch r < bc_MinStartEpoch cur then br_StartEpoch r else bc_MinStartEpoch cur),
      bc_EarliestReady := (if br_ReadyAt r < bc_EarliestReady cur then br_ReadyAt r else bc_EarliestReady cur)\<rparr>"

fun GroupBatchRows_loop ::
  "BatchRow list \<Rightarrow> BatchCandidate list \<Rightarrow> BatchCandidate \<Rightarrow> int \<Rightarrow> BatchCandidate list" where
  "GroupBatchRows_loop [] batches cur curIdx = batches @ [cur]"
| "GroupBatchRows_loop (r # rs) batches cur curIdx =
     (if sameGroup r cur curIdx
      then GroupBatchRows_loop rs batches (add_row r cur) curIdx
      else GroupBatchRows_loop rs (batches @ [cur]) (add_row r (new_candidate r)) (br_BatchIndex r))"

definition GroupBatchRows :: "BatchRow list \<Rightarrow> BatchCandidate list" where
  "GroupBatchRows rows =
     (case rows of
        [] \<Rightarrow> []
      | r # _ \<Rightarrow> GroupBatchRows_loop rows [] (new_candidate r) (br_BatchIndex r))"

section \<open>Numbering of the candidates\<close>

text \<open>
  \<open>ROW_NUMBER() OVER (PARTITION BY part ORDER BY k)\<close>: rows in the order of \<open>k\<close>, each with
  its position among the rows of its partition, from 1.
\<close>

fun number_from :: "('r \<Rightarrow> 'p) \<Rightarrow> 'p list \<Rightarrow> 'r list \<Rightarrow> ('r \<times> nat) list" where
  "number_from part seen [] = []"
| "number_from part seen (r # rs) =
     (r, Suc (count_list seen (part r))) # number_from part (part r # seen) rs"

definition row_number :: "('r \<Rightarrow> 'p) \<Rightarrow> ('r \<Rightarrow> 'k::linorder) \<Rightarrow> 'r list \<Rightarrow> ('r \<times> nat) list" where
  "row_number part k rows = number_from part [] (sort_key k rows)"

text \<open>
  The common end of both queries: partition by provider and proof type, number in the
  order of \<open>k\<close>, divide into batches of \<open>maxBatch\<close>, sort.
\<close>

definition batch_part :: "BatchRow \<Rightarrow> int \<times> int" where
  "batch_part r = (br_SpID r, br_RegSealProof r)"

definition number_batches :: "(BatchRow \<Rightarrow> int) \<Rightarrow> int \<Rightarrow> BatchRow list \<Rightarrow> BatchRow list" where
  "number_batches k maxBatch rows =
     sort_key (\<lambda>r. (br_SpID r, br_RegSealProof r, br_BatchIndex r, k r))
       (map (\<lambda>(r, rn). r\<lparr>br_BatchIndex := (int rn - 1) div maxBatch\<rparr>) (row_number batch_part k rows))"

section \<open>Specification\<close>

text \<open>The maximal runs of rows with the same key, and the summary of a run.\<close>

definition group_key :: "BatchRow \<Rightarrow> int \<times> int \<times> int" where
  "group_key r = (br_SpID r, br_RegSealProof r, br_BatchIndex r)"

function runs :: "('r \<Rightarrow> 'k) \<Rightarrow> 'r list \<Rightarrow> 'r list list" where
  "runs key [] = []"
| "runs key (r # rs) =
     (r # takeWhile (\<lambda>x. key x = key r) rs) # runs key (dropWhile (\<lambda>x. key x = key r) rs)"
  by pat_completeness auto
termination by (relation "measure (\<lambda>(key, xs). length xs)") (auto simp: le_imp_less_Suc length_dropWhile_le)

definition summary :: "BatchRow list \<Rightarrow> BatchCandidate" where
  "summary rs = \<lparr>bc_SpID = br_SpID (hd rs), bc_RegSealProof = br_RegSealProof (hd rs),
     bc_SectorNums = map br_SectorNumber rs,
     bc_MinStartEpoch = Min (br_StartEpoch ` set rs),
     bc_EarliestReady = Min (br_ReadyAt ` set rs)\<rparr>"

definition ex_rows :: "BatchRow list" where
  "ex_rows = map (\<lambda>(sp, n, epoch, proof). \<lparr>br_SpID = sp, br_SectorNumber = n, br_StartEpoch = epoch,
     br_ReadyAt = 1000 + n, br_RegSealProof = proof, br_BatchIndex = 0\<rparr>)
     [(1001, 7, 50, 8), (1000, 3, 40, 8), (1000, 5, 30, 8), (1000, 4, 60, 8), (1000, 9, 20, 9)]"

section \<open>Lemmas\<close>

lemma concat_runs: "concat (runs key rs) = rs"
  by (induction key rs rule: runs.induct) simp_all

lemma runs_nonempty: "g \<in> set (runs key rs) \<Longrightarrow> g \<noteq> []"
  by (induction key rs rule: runs.induct) auto

lemma runs_same_key: "g \<in> set (runs key rs) \<Longrightarrow> x \<in> set g \<Longrightarrow> key x = key (hd g)"
  by (induction key rs rule: runs.induct) (auto dest: set_takeWhileD)

lemma runs_sublist: "g \<in> set (runs key rs) \<Longrightarrow> sublist g rs"
proof (induction key rs rule: runs.induct)
  case (2 key r rs)
  have "sublist (dropWhile (\<lambda>x. key x = key r) rs) (r # rs)"
    by (metis sublist_Cons_right suffix_dropWhile suffix_imp_sublist)
  moreover have "sublist (r # takeWhile (\<lambda>x. key x = key r) rs) (r # rs)"
    by (simp add: takeWhile_is_prefix)
  ultimately show ?case using 2 by (auto intro: sublist_order.order_trans)
qed simp

lemma runs_length:
  assumes "g \<in> set (runs key rs)"
  shows "length g \<le> length (filter (\<lambda>x. key x = key (hd g)) rs)"
proof -
  obtain us vs where rs: "rs = us @ g @ vs" using runs_sublist [OF assms] by (auto simp: sublist_def)
  have "filter (\<lambda>x. key x = key (hd g)) g = g"
    using runs_same_key [OF assms] by (simp add: filter_id_conv)
  then show ?thesis by (simp add: rs)
qed

lemma if_less_min: "(if a < b then a else b) = min a (b :: 'a::linorder)"
  by (auto simp: min_def)

text \<open>The loop, with the current batch already holding the rows \<open>done\<close> of its run.\<close>

lemma GroupBatchRows_loop_runs:
  assumes "don \<noteq> []" "\<forall>x\<in>set don. group_key x = group_key (hd don)"
  shows "GroupBatchRows_loop rs batches (summary don) (br_BatchIndex (hd don)) =
    batches @ summary (don @ takeWhile (\<lambda>x. group_key x = group_key (hd don)) rs) #
      map summary (runs group_key (dropWhile (\<lambda>x. group_key x = group_key (hd don)) rs))"
  using assms
proof (induction rs arbitrary: don batches)
  case (Cons r rs)
  have add: "add_row r (summary don) = summary (don @ [r])"
    using Cons.prems(1) unfolding add_row_def summary_def if_less_min by simp
  have new: "add_row r (new_candidate r) = summary [r]"
    by (simp add: add_row_def new_candidate_def summary_def)
  have same: "sameGroup r (summary don) (br_BatchIndex (hd don)) \<longleftrightarrow> group_key r = group_key (hd don)"
    by (auto simp: sameGroup_def summary_def group_key_def)
  show ?case
  proof (cases "group_key r = group_key (hd don)")
    case True
    have hd: "hd (don @ [r]) = hd don" using Cons.prems(1) by simp
    have "\<forall>x\<in>set (don @ [r]). group_key x = group_key (hd (don @ [r]))"
      unfolding hd set_append list.set using Cons.prems(2) True by blast
    note IH = Cons.IH [OF _ this, of batches, unfolded hd]
    show ?thesis
      using IH by (simp only: same add True GroupBatchRows_loop.simps takeWhile.simps dropWhile.simps
          if_True append_assoc append.simps) simp
  next
    case False
    with Cons.IH [of "[r]" "batches @ [summary don]"] show ?thesis by (simp add: same new)
  qed
next
  case Nil
  show ?case by simp
qed

lemma GroupBatchRows_runs: "GroupBatchRows rows = map summary (runs group_key rows)"
proof (cases rows)
  case (Cons r rs)
  have "sameGroup r (new_candidate r) (br_BatchIndex r)" by (simp add: sameGroup_def new_candidate_def)
  moreover have "add_row r (new_candidate r) = summary [r]"
    by (simp add: add_row_def new_candidate_def summary_def)
  ultimately show ?thesis
    using Cons GroupBatchRows_loop_runs [of "[r]" rs "[]"] by (simp add: GroupBatchRows_def)
qed (simp add: GroupBatchRows_def)

lemma fst_number_from [simp]: "map fst (number_from part seen rs) = rs"
  by (induction rs arbitrary: seen) simp_all

lemma number_from_bound:
  "(r, n) \<in> set (number_from part seen rs) \<Longrightarrow> n > count_list seen (part r)"
  by (induction rs arbitrary: seen) (fastforce split: if_splits)+

lemma number_from_distinct:
  "distinct (map (\<lambda>(r, n). (part r, n)) (number_from part seen rs))"
proof (induction rs arbitrary: seen)
  case (Cons r rs)
  have "(part r, Suc (count_list seen (part r))) \<notin> (\<lambda>(r, n). (part r, n)) ` set (number_from part (part r # seen) rs)"
    using number_from_bound [of _ _ part "part r # seen" rs] by fastforce
  with Cons.IH show ?case by simp
qed simp

lemma number_from_positive: "(r, n) \<in> set (number_from part seen rs) \<Longrightarrow> 0 < n"
  using number_from_bound by fastforce

text \<open>At most \<open>maxBatch\<close> numbers of one partition fall into one batch.\<close>

lemma batch_numbers_bound:
  fixes k :: int
  assumes "0 < k" "distinct ns" "\<forall>n\<in>set ns. (int n - 1) div k = idx"
  shows "int (length ns) \<le> k"
proof -
  have "int n \<in> {idx * k + 1..idx * k + k}" if "n \<in> set ns" for n
  proof -
    have "(int n - 1) div k = idx" using assms(3) that by blast
    then have "int n - 1 = idx * k + (int n - 1) mod k" by (metis div_mult_mod_eq)
    moreover have "0 \<le> (int n - 1) mod k" "(int n - 1) mod k < k" using assms(1) by simp_all
    ultimately show ?thesis unfolding atLeastAtMost_iff by linarith
  qed
  then have "int ` set ns \<subseteq> {idx * k + 1..idx * k + k}" by auto
  then have "card (int ` set ns) \<le> card {idx * k + 1..idx * k + k}" by (intro card_mono) simp_all
  moreover have "card (int ` set ns) = length ns"
    using assms(2) by (simp add: card_image distinct_card inj_on_def)
  ultimately show ?thesis using assms(1) by simp
qed

lemma distinct_snd:
  "distinct (map (\<lambda>(r, n). (f r, n)) xs) \<Longrightarrow> (\<And>r n. (r, n) \<in> set xs \<Longrightarrow> f r = c) \<Longrightarrow> distinct (map snd xs)"
proof (induction xs)
  case (Cons x xs)
  obtain r n where x: "x = (r, n)" by fastforce
  have "n \<notin> snd ` set xs"
  proof
    assume "n \<in> snd ` set xs"
    then obtain r' where r': "(r', n) \<in> set xs" by auto
    then have "f r' = c" "f r = c" using Cons.prems(2) [of r' n] Cons.prems(2) [of r n] by (simp_all add: x)
    then have "f r' = f r" by simp
    with r' have "(f r, n) \<in> (\<lambda>(r, n). (f r, n)) ` set xs" by force
    with Cons.prems(1) show False by (simp add: x)
  qed
  moreover have "distinct (map snd xs)" using Cons.prems by (intro Cons.IH) (auto simp: x)
  ultimately show ?case by (simp add: x)
qed simp

lemma set_number_batches_key:
  assumes "0 < maxBatch"
  shows "int (length (filter (\<lambda>r. group_key r = key) (number_batches k maxBatch rows))) \<le> maxBatch"
proof -
  let ?num = "row_number batch_part k rows"
  let ?f = "\<lambda>(r, rn). r\<lparr>br_BatchIndex := (int rn - 1) div maxBatch\<rparr>"
  let ?sel = "filter (\<lambda>(r, rn). group_key (?f (r, rn)) = key) ?num"
  have "mset (number_batches k maxBatch rows) = mset (map ?f ?num)"
    by (simp add: number_batches_def)
  then have "length (filter (\<lambda>r. group_key r = key) (number_batches k maxBatch rows)) =
      length (filter (\<lambda>r. group_key r = key) (map ?f ?num))"
    by (metis mset_filter size_mset)
  also have "\<dots> = length ?sel" by (simp add: filter_map o_def split_def)
  finally have len: "length (filter (\<lambda>r. group_key r = key) (number_batches k maxBatch rows)) = length (map snd ?sel)"
    by simp
  have "distinct (map snd ?sel)"
  proof -
    have "distinct (map (\<lambda>(r, n). (batch_part r, n)) ?num)"
      by (simp add: row_number_def number_from_distinct)
    then have "distinct (map (\<lambda>(r, n). (batch_part r, n)) ?sel)" by (rule distinct_map_filter)
    then show ?thesis
      by (rule distinct_snd [where c = "(fst key, fst (snd key))"]) (auto simp: group_key_def batch_part_def)
  qed
  moreover have "\<forall>n\<in>set (map snd ?sel). (int n - 1) div maxBatch = snd (snd key)"
    by (auto simp: group_key_def)
  ultimately show ?thesis using batch_numbers_bound [OF assms] len by metis
qed

lemma number_batches_rows:
  "r \<in> set (number_batches k maxBatch rows) \<Longrightarrow> \<exists>r0\<in>set rows. \<exists>idx. r = r0\<lparr>br_BatchIndex := idx\<rparr>"
proof -
  assume "r \<in> set (number_batches k maxBatch rows)"
  then obtain r0 n where "(r0, n) \<in> set (row_number batch_part k rows)"
    "r = r0\<lparr>br_BatchIndex := (int n - 1) div maxBatch\<rparr>" by (auto simp: number_batches_def)
  moreover have "map fst (row_number batch_part k rows) = sort_key k rows" by (simp add: row_number_def)
  ultimately show ?thesis by (metis fst_conv in_set_conv_decomp list.set_map rev_image_eqI set_sort)
qed

lemma candidate_rows:
  assumes "b \<in> set (GroupBatchRows rows)"
  obtains g where "g \<in> set (runs group_key rows)" "b = summary g" "g \<noteq> []" "set g \<subseteq> set rows"
proof -
  obtain g where g: "g \<in> set (runs group_key rows)" "b = summary g"
    using assms by (auto simp: GroupBatchRows_runs)
  moreover have "set g \<subseteq> set rows" using runs_sublist [OF g(1)] by (rule set_mono_sublist)
  ultimately show ?thesis using that runs_nonempty [OF g(1)] by blast
qed

lemma candidate_size:
  assumes "b \<in> set (GroupBatchRows (number_batches k maxBatch rows))" "0 < maxBatch"
  shows "0 < length (bc_SectorNums b) \<and> int (length (bc_SectorNums b)) \<le> maxBatch"
proof -
  obtain g where g: "g \<in> set (runs group_key (number_batches k maxBatch rows))" "b = summary g" "g \<noteq> []"
    using assms(1) by (rule candidate_rows)
  have "int (length g) \<le> maxBatch"
    using runs_length [OF g(1)] set_number_batches_key [OF assms(2), of "group_key (hd g)" k rows] by linarith
  with g show ?thesis by (simp add: summary_def)
qed

section \<open>Properties\<close>

text \<open>
  C37: \<open>GroupBatchRows\<close> cuts the rows into their maximal runs of equal provider, proof type
  and batch index, loses no row and keeps the order; each batch has the smallest start
  epoch and the earliest ready time of its rows.
\<close>

theorem GroupBatchRows_correct:
  "GroupBatchRows rows = map summary (runs group_key rows) \<and>
   concat (map bc_SectorNums (GroupBatchRows rows)) = map br_SectorNumber rows"
proof -
  have "concat (map bc_SectorNums (map summary gs)) = map br_SectorNumber (concat gs)" for gs
    by (induction gs) (simp_all add: summary_def)
  then show ?thesis by (simp add: GroupBatchRows_runs concat_runs)
qed

text \<open>
  the batches made from numbered candidates are not empty and have at most
  \<open>maxBatch\<close> sectors, all of one provider and one proof type.
\<close>

theorem batches_bounded:
  assumes "0 < maxBatch" "b \<in> set (GroupBatchRows (number_batches k maxBatch rows))"
  shows "0 < length (bc_SectorNums b) \<and> int (length (bc_SectorNums b)) \<le> maxBatch \<and>
    (\<forall>n. n \<in> set (bc_SectorNums b) \<longrightarrow> (\<exists>r. r \<in> set rows \<and> br_SectorNumber r = n \<and>
       br_SpID r = bc_SpID b \<and> br_RegSealProof r = bc_RegSealProof b))"
proof -
  obtain g where g: "g \<in> set (runs group_key (number_batches k maxBatch rows))" "b = summary g" "g \<noteq> []"
      "set g \<subseteq> set (number_batches k maxBatch rows)"
    using assms(2) by (rule candidate_rows)
  have "\<exists>r. r \<in> set rows \<and> br_SectorNumber r = n \<and> br_SpID r = bc_SpID b \<and> br_RegSealProof r = bc_RegSealProof b"
    if n: "n \<in> set (bc_SectorNums b)" for n
  proof -
    obtain x where x: "x \<in> set g" "br_SectorNumber x = n" using n g(2) by (auto simp: summary_def)
    then obtain r idx where r: "r \<in> set rows" "x = r\<lparr>br_BatchIndex := idx\<rparr>"
      using g(4) number_batches_rows by (metis subsetD)
    have "group_key x = group_key (hd g)" by (rule runs_same_key [OF g(1) x(1)])
    with r x g(2) show ?thesis by (auto simp: group_key_def summary_def)
  qed
  then show ?thesis using candidate_size [OF assms(2,1)] by blast
qed

theorem batches_bounded_witness:
  "map bc_SectorNums (GroupBatchRows (number_batches br_StartEpoch 2 ex_rows)) = [[5, 3], [4], [9], [7]] \<and>
   int (length (bc_SectorNums (hd (GroupBatchRows (number_batches br_StartEpoch 2 ex_rows))))) \<le> 2"
proof -
  have e: "map bc_SectorNums (GroupBatchRows (number_batches br_StartEpoch 2 ex_rows)) = [[5, 3], [4], [9], [7]]"
    by code_simp
  then have "GroupBatchRows (number_batches br_StartEpoch 2 ex_rows) \<noteq> []" by auto
  then have "hd (GroupBatchRows (number_batches br_StartEpoch 2 ex_rows)) \<in>
      set (GroupBatchRows (number_batches br_StartEpoch 2 ex_rows))" by simp
  from batches_bounded [OF _ this] e show ?thesis by simp
qed

text \<open>
  C38: no sector waits in a batch beyond its time. A batch of \<open>GroupBatchRows\<close> fires exactly
  when it is full or one of its own rows is due, because its start epoch is within the
  slack or because it has been ready for the timeout.
\<close>

theorem batch_fires_iff_sector_due:
  assumes "g \<in> set (runs group_key rows)"
  shows "summary g \<in> set (GroupBatchRows rows) \<and>
    (ShouldFire (EvalBatchTimeout (bc_EarliestReady (summary g)) timeout (bc_MinStartEpoch (summary g))
       slack height now (int (length (bc_SectorNums (summary g)))) maxB) \<longleftrightarrow>
     (0 < maxB \<and> maxB \<le> int (length g)) \<or>
     (\<exists>r\<in>set g. br_StartEpoch r - slack \<le> height \<or> br_ReadyAt r + timeout \<le> now))"
proof -
  have ne: "set g \<noteq> {}" using runs_nonempty [OF assms] by simp
  have "Min (br_StartEpoch ` set g) \<le> slack + height \<longleftrightarrow> (\<exists>r\<in>set g. br_StartEpoch r \<le> slack + height)"
    using ne by (subst Min_le_iff) auto
  moreover have "Min (br_ReadyAt ` set g) \<le> now - timeout \<longleftrightarrow> (\<exists>r\<in>set g. br_ReadyAt r \<le> now - timeout)"
    using ne by (subst Min_le_iff) auto
  moreover have "ShouldFire (EvalBatchTimeout (bc_EarliestReady (summary g)) timeout (bc_MinStartEpoch (summary g))
       slack height now (int (length (bc_SectorNums (summary g)))) maxB) \<longleftrightarrow>
     (0 < maxB \<and> maxB \<le> int (length g)) \<or> Min (br_StartEpoch ` set g) \<le> slack + height \<or>
     Min (br_ReadyAt ` set g) \<le> now - timeout"
    unfolding EvalBatchTimeout_def Let_def summary_def
    by (simp add: le_diff_eq diff_le_eq not_less add.commute del: Min_le_iff)
  moreover have "summary g \<in> set (GroupBatchRows rows)" using assms by (simp add: GroupBatchRows_runs)
  ultimately show ?thesis by (auto simp: le_diff_eq diff_le_eq add.commute)
qed

theorem batch_fires_iff_sector_due_witness:
  "ShouldFire (EvalBatchTimeout 1003 60 30 5 25 900 2 100) \<and>
   summary (hd (runs group_key (number_batches br_StartEpoch 2 ex_rows))) \<in>
     set (GroupBatchRows (number_batches br_StartEpoch 2 ex_rows))"
proof -
  let ?rows = "number_batches br_StartEpoch 2 ex_rows"
  let ?g = "hd (runs group_key ?rows)"
  have "map (map br_SectorNumber) (runs group_key ?rows) = [[5, 3], [4], [9], [7]]" by code_simp
  then have "runs group_key ?rows \<noteq> []" by auto
  then have g: "?g \<in> set (runs group_key ?rows)" by simp
  have s: "bc_EarliestReady (summary ?g) = 1003" "bc_MinStartEpoch (summary ?g) = 30"
    "int (length (bc_SectorNums (summary ?g))) = 2" "\<exists>r\<in>set ?g. br_StartEpoch r - 5 \<le> 25"
    by code_simp+
  from batch_fires_iff_sector_due [OF g, of 60 5 25 900 100] s show ?thesis by auto
qed

lemma ClampMaxBatch_bounds:
  "0 < protocolMax \<Longrightarrow> 0 < ClampMaxBatch configured protocolMax \<and> ClampMaxBatch configured protocolMax \<le> protocolMax"
  by (simp add: ClampMaxBatch_def)

end
