(* ===== verification/SealPipeline.thy ===== *)
theory SealPipeline
  imports HarmonyDB SealBatch
begin

text \<open>
  The sealing pipeline (\<open>tasks/seal/poller.go\<close>, \<open>poller_precommit_msg.go\<close>,
  \<open>poller_commit_msg.go\<close>): the poller reads the sectors of \<open>sectors_sdr_pipeline\<close> and, for
  each one, starts the next stage by adding a task and storing its ID in the row, in one
  transaction.

  A snapshot (\<open>pollTask\<close>) has the columns of the row it was read from, so it is a
  \<open>pipeline_row\<close> too. Answers of the chain node, the classification of exit codes, the
  policy constants of the network and failures of transactions are fields of \<open>seal_env\<close>.
\<close>

section \<open>Tables\<close>

record pipeline_row =
  p_sp_id :: int
  p_sector_number :: int
  p_reg_seal_proof :: int
  p_user_duration :: "int option"
  p_ticket_epoch :: "int option"
  p_ticket_value :: "string option"
  p_task_sdr :: "TaskID option"
  p_after_sdr :: bool
  p_task_tree_d :: "TaskID option"
  p_after_tree_d :: bool
  p_tree_d_cid :: "string option"
  p_task_tree_c :: "TaskID option"
  p_after_tree_c :: bool
  p_task_tree_r :: "TaskID option"
  p_after_tree_r :: bool
  p_tree_r_cid :: "string option"
  p_task_synth :: "TaskID option"
  p_after_synth :: bool
  p_precommit_ready_at :: "time option"
  p_task_precommit_msg :: "TaskID option"
  p_after_precommit_msg :: bool
  p_precommit_msg_cid :: "string option"
  p_precommit_msg_tsk :: "string option"
  p_after_precommit_msg_success :: bool
  p_seed_epoch :: "int option"
  p_seed_value :: "string option"
  p_task_porep :: "TaskID option"
  p_porep_proof :: "string option"
  p_after_porep :: bool
  p_task_finalize :: "TaskID option"
  p_after_finalize :: bool
  p_task_move_storage :: "TaskID option"
  p_after_move_storage :: bool
  p_commit_ready_at :: "time option"
  p_start_epoch :: "int option"
  p_task_commit_msg :: "TaskID option"
  p_after_commit_msg :: bool
  p_commit_msg_cid :: "string option"
  p_commit_msg_tsk :: "string option"
  p_after_commit_msg_success :: bool
  p_failed :: bool
  p_failed_reason :: string

type_synonym pollTask = pipeline_row

record piece_row =
  pc_sp_id :: int
  pc_sector_number :: int
  pc_f05_deal_start_epoch :: "int option"
  pc_f05_deal_end_epoch :: "int option"
  pc_direct_start_epoch :: "int option"
  pc_direct_end_epoch :: "int option"
  pc_data_delete_on_finalize :: bool
  pc_data_url :: string

record wait_row =
  w_signed_message_cid :: string
  w_executed_tsk_cid :: string
  w_executed_tsk_epoch :: "int option"
  w_executed_rcpt_exitcode :: int

record deal_row =
  d_sp_id :: int
  d_sector :: "int option"
  d_sealed :: bool
  d_indexing_created_at :: "time option"

record pipeline_db =
  pd_harmony :: harmony_db
  sectors_sdr_pipeline :: "pipeline_row list"
  sectors_sdr_initial_pieces :: "piece_row list"
  message_waits :: "wait_row list"
  market_mk12_deal_pipeline :: "deal_row list"
  market_mk20_pipeline :: "deal_row list"

section \<open>Configuration and surroundings\<close>

datatype poller_id = pollerSDR | pollerTreeD | pollerTreeRC | pollerSyntheticProofs | pollerPrecommitMsg
  | pollerPoRep | pollerCommitMsg | pollerFinalize | pollerMoveStorage

definition seedEpochConfidence :: int where "seedEpochConfidence = 3"

record preCommitBatchingConfig =
  pcc_MaxPreCommitBatch :: int
  pcc_Slack :: duration
  pcc_Timeout :: duration

record commitBatchingConfig =
  cc_MinCommitBatch :: int
  cc_MaxCommitBatch :: int
  cc_Slack :: duration
  cc_Timeout :: duration

record pollerConfig =
  preCommit :: preCommitBatchingConfig
  commit :: commitBatchingConfig

text \<open>The exit codes the pollers distinguish.\<close>

datatype exit_code = ExitOk | SysErrInsufficientFunds | ErrInsufficientFunds | SysErrOutOfGas | ErrNotFound | OtherExit

text \<open>
  The head of the chain (\<open>None\<close> when the call fails), the precommit epoch of a sector on
  chain (\<open>Inl\<close> a failed call, \<open>Inr None\<close> no precommit), whether the sector is on chain,
  and the maximal prove-commit duration of a proof type under the current network
  version (\<open>None\<close> when any of the calls fails).
\<close>

record seal_env =
  se_IsSet :: "poller_id \<Rightarrow> bool"
  se_name :: "poller_id \<Rightarrow> string"
  se_owner :: int
  se_now :: time
  se_tx_fails :: "poller_id \<Rightarrow> bool"
  se_select_fails :: bool
  se_exec_fails :: bool
  se_head :: "int option"
  se_exitcode :: "int \<Rightarrow> exit_code"
  se_precommit_info :: "int \<Rightarrow> int \<Rightarrow> unit + int option"
  se_sector_info :: "int \<Rightarrow> int \<Rightarrow> unit + bool"
  se_max_prove_commit :: "int \<Rightarrow> int option"
  se_challenge_delay :: int
  se_lookback :: int
  se_block_delay :: nat
  se_cfg :: pollerConfig

text \<open>\<open>NewPoller\<close>: the configured batch sizes are clamped to the limits of the protocol.\<close>

definition NewPoller_cfg ::
  "int \<Rightarrow> int \<Rightarrow> int \<Rightarrow> duration \<Rightarrow> duration \<Rightarrow> int \<Rightarrow> duration \<Rightarrow> duration \<Rightarrow> pollerConfig" where
  "NewPoller_cfg PreCommitSectorBatchMaxSize MinAggregatedSectors
       pcMaxBatch pcSlack pcTimeout cMaxBatch cSlack cTimeout =
     \<lparr>preCommit = \<lparr>pcc_MaxPreCommitBatch = ClampMaxBatch pcMaxBatch PreCommitSectorBatchMaxSize,
                   pcc_Slack = pcSlack, pcc_Timeout = pcTimeout\<rparr>,
      commit = \<lparr>cc_MinCommitBatch = MinAggregatedSectors, cc_MaxCommitBatch = ClampMaxBatch cMaxBatch 256,
                cc_Slack = cSlack, cc_Timeout = cTimeout\<rparr>\<rparr>"

section \<open>Adding a task for a stage\<close>

text \<open>
  One transaction of an \<open>AddTaskFunc\<close>: the task row is inserted, the closure runs, and both
  are kept or both are undone.
\<close>

definition add_stage_task ::
  "seal_env \<Rightarrow> poller_id \<Rightarrow> (TaskID \<Rightarrow> pipeline_db \<Rightarrow> (db_error + bool) \<times> pipeline_db) \<Rightarrow> pipeline_db \<Rightarrow> pipeline_db" where
  "add_stage_task env s extra db =
     (let (tid, h) = insert_task (se_name env s) (se_owner env) (se_now env) (pd_harmony db);
          (res, db') = extra tid (db\<lparr>pd_harmony := h\<rparr>)
      in if res = Inr True \<and> \<not> se_tx_fails env s then db'
         else db\<lparr>pd_harmony := (pd_harmony db)\<lparr>task_seq := tid + 1\<rparr>\<rparr>)"

definition same_sector :: "pollTask \<Rightarrow> pipeline_row \<Rightarrow> bool" where
  "same_sector task r \<longleftrightarrow> p_sp_id r = p_sp_id task \<and> p_sector_number r = p_sector_number task"

definition update_pipeline :: "(pipeline_row \<Rightarrow> bool) \<Rightarrow> (pipeline_row \<Rightarrow> pipeline_row) \<Rightarrow> pipeline_db \<Rightarrow> pipeline_db" where
  "update_pipeline p f db = db\<lparr>sectors_sdr_pipeline := update_where p f (sectors_sdr_pipeline db)\<rparr>"

text \<open>The closure of the single-sector stages: the update has to hit exactly one row.\<close>

definition assign_one ::
  "(pipeline_row \<Rightarrow> bool) \<Rightarrow> (TaskID \<Rightarrow> pipeline_row \<Rightarrow> pipeline_row) \<Rightarrow> TaskID \<Rightarrow> pipeline_db \<Rightarrow>
   (db_error + bool) \<times> pipeline_db" where
  "assign_one p f tid db =
     (if count_where p (sectors_sdr_pipeline db) \<noteq> 1
      then (Inl (OtherError ''expected to update 1 row''), update_pipeline p (f tid) db)
      else (Inr True, update_pipeline p (f tid) db))"

section \<open>Stages\<close>

definition afterSDR :: "pollTask \<Rightarrow> bool" where "afterSDR t \<longleftrightarrow> p_after_sdr t"
definition afterTreeD :: "pollTask \<Rightarrow> bool" where "afterTreeD t \<longleftrightarrow> p_after_tree_d t \<and> afterSDR t"
definition afterTreeRC :: "pollTask \<Rightarrow> bool" where
  "afterTreeRC t \<longleftrightarrow> p_after_tree_c t \<and> p_after_tree_r t \<and> afterTreeD t"
definition afterSynth :: "pollTask \<Rightarrow> bool" where "afterSynth t \<longleftrightarrow> p_after_synth t \<and> afterTreeRC t"
definition afterPrecommitMsg :: "pollTask \<Rightarrow> bool" where
  "afterPrecommitMsg t \<longleftrightarrow> p_after_precommit_msg t \<and> afterSynth t"
definition afterPrecommitMsgSuccess :: "pollTask \<Rightarrow> bool" where
  "afterPrecommitMsgSuccess t \<longleftrightarrow> p_after_precommit_msg_success t \<and> afterPrecommitMsg t"
definition afterPoRep :: "pollTask \<Rightarrow> bool" where
  "afterPoRep t \<longleftrightarrow> p_after_porep t \<and> afterPrecommitMsgSuccess t"
definition afterFinalize :: "pollTask \<Rightarrow> bool" where
  "afterFinalize t \<longleftrightarrow> p_after_finalize t \<and> afterPoRep t"

definition pollStartSDR :: "seal_env \<Rightarrow> pollTask \<Rightarrow> pipeline_db \<Rightarrow> pipeline_db" where
  "pollStartSDR env t db =
     (if \<not> p_after_sdr t \<and> p_task_sdr t = None \<and> se_IsSet env pollerSDR
      then add_stage_task env pollerSDR
             (assign_one (\<lambda>r. same_sector t r \<and> p_task_sdr r = None)
                (\<lambda>tid r. r\<lparr>p_task_sdr := Some tid\<rparr>)) db
      else db)"

definition pollStartSDRTreeD :: "seal_env \<Rightarrow> pollTask \<Rightarrow> pipeline_db \<Rightarrow> pipeline_db" where
  "pollStartSDRTreeD env t db =
     (if \<not> p_after_tree_d t \<and> p_task_tree_d t = None \<and> se_IsSet env pollerTreeD \<and> afterSDR t
      then add_stage_task env pollerTreeD
             (assign_one (\<lambda>r. same_sector t r \<and> p_after_sdr r \<and> p_task_tree_d r = None)
                (\<lambda>tid r. r\<lparr>p_task_tree_d := Some tid\<rparr>)) db
      else db)"

definition pollStartSDRTreeRC :: "seal_env \<Rightarrow> pollTask \<Rightarrow> pipeline_db \<Rightarrow> pipeline_db" where
  "pollStartSDRTreeRC env t db =
     (if \<not> p_after_tree_c t \<and> \<not> p_after_tree_r t \<and> p_task_tree_c t = None \<and> p_task_tree_r t = None \<and>
         se_IsSet env pollerTreeRC \<and> afterTreeD t
      then add_stage_task env pollerTreeRC
             (assign_one (\<lambda>r. same_sector t r \<and> p_after_tree_d r \<and> p_task_tree_c r = None \<and> p_task_tree_r r = None)
                (\<lambda>tid r. r\<lparr>p_task_tree_c := Some tid, p_task_tree_r := Some tid\<rparr>)) db
      else db)"

definition pollStartSynth :: "seal_env \<Rightarrow> pollTask \<Rightarrow> pipeline_db \<Rightarrow> pipeline_db" where
  "pollStartSynth env t db =
     (if \<not> p_after_synth t \<and> p_task_synth t = None \<and> se_IsSet env pollerSyntheticProofs \<and>
         p_after_tree_r t \<and> afterTreeRC t
      then add_stage_task env pollerSyntheticProofs
             (assign_one (\<lambda>r. same_sector t r \<and> p_task_synth r = None)
                (\<lambda>tid r. r\<lparr>p_task_synth := Some tid\<rparr>)) db
      else db)"

definition pollStartPoRep :: "seal_env \<Rightarrow> int \<Rightarrow> pollTask \<Rightarrow> pipeline_db \<Rightarrow> pipeline_db" where
  "pollStartPoRep env height t db =
     (if se_IsSet env pollerPoRep \<and> afterPrecommitMsgSuccess t \<and> p_task_porep t = None \<and> \<not> p_after_porep t \<and>
         (case p_seed_epoch t of None \<Rightarrow> False | Some seed \<Rightarrow> height \<ge> seed + seedEpochConfidence)
      then add_stage_task env pollerPoRep
             (assign_one (\<lambda>r. same_sector t r \<and> p_task_porep r = None)
                (\<lambda>tid r. r\<lparr>p_task_porep := Some tid\<rparr>)) db
      else db)"

definition pollStartFinalize :: "seal_env \<Rightarrow> pollTask \<Rightarrow> pipeline_db \<Rightarrow> pipeline_db" where
  "pollStartFinalize env t db =
     (if se_IsSet env pollerFinalize \<and> afterPoRep t \<and> \<not> p_after_finalize t \<and> p_task_finalize t = None
      then add_stage_task env pollerFinalize
             (assign_one (\<lambda>r. same_sector t r \<and> p_task_finalize r = None)
                (\<lambda>tid r. r\<lparr>p_task_finalize := Some tid\<rparr>)) db
      else db)"

definition pollStartMoveStorage :: "seal_env \<Rightarrow> pollTask \<Rightarrow> pipeline_db \<Rightarrow> pipeline_db" where
  "pollStartMoveStorage env t db =
     (if se_IsSet env pollerMoveStorage \<and> afterFinalize t \<and> \<not> p_after_move_storage t \<and> p_task_move_storage t = None
      then add_stage_task env pollerMoveStorage
             (assign_one (\<lambda>r. same_sector t r \<and> p_task_move_storage r = None)
                (\<lambda>tid r. r\<lparr>p_task_move_storage := Some tid\<rparr>)) db
      else db)"

section \<open>Messages\<close>

text \<open>
  \<open>dbExecResult\<close> of a sector: the executed messages the row's CID joins with, with the
  two CIDs of the row.
\<close>

record dbExecResult =
  er_PrecommitMsgCID :: "string option"
  er_CommitMsgCID :: "string option"
  er_ExecutedTskCID :: string
  er_ExecutedRcptExitCode :: int

definition exec_results ::
  "(pipeline_row \<Rightarrow> string option) \<Rightarrow> pollTask \<Rightarrow> pipeline_db \<Rightarrow> dbExecResult list" where
  "exec_results cid t db =
     [\<lparr>er_PrecommitMsgCID = p_precommit_msg_cid r, er_CommitMsgCID = p_commit_msg_cid r,
       er_ExecutedTskCID = w_executed_tsk_cid w, er_ExecutedRcptExitCode = w_executed_rcpt_exitcode w\<rparr>.
      r \<leftarrow> filter (same_sector t) (sectors_sdr_pipeline db),
      w \<leftarrow> filter (\<lambda>w. cid r = Some (w_signed_message_cid w) \<and> w_executed_tsk_epoch w \<noteq> None) (message_waits db)]"

definition pollRetryPrecommitMsgSend ::
  "seal_env \<Rightarrow> pollTask \<Rightarrow> dbExecResult \<Rightarrow> pipeline_db \<Rightarrow> string option \<times> pipeline_db" where
  "pollRetryPrecommitMsgSend env t er db =
     (case er_PrecommitMsgCID er of
        None \<Rightarrow> (Some ''precommit msg cid was nil'', db)
      | Some cid \<Rightarrow>
          if se_exec_fails env then (Some ''update'', db)
          else (None, update_pipeline
                  (\<lambda>r. p_precommit_msg_cid r = Some cid \<and> same_sector t r \<and> \<not> p_after_precommit_msg_success r)
                  (\<lambda>r. r\<lparr>p_precommit_msg_cid := None, p_task_precommit_msg := None, p_after_precommit_msg := False\<rparr>)
                  db))"

definition pollPrecommitMsgFail ::
  "seal_env \<Rightarrow> pollTask \<Rightarrow> dbExecResult \<Rightarrow> pipeline_db \<Rightarrow> string option \<times> pipeline_db" where
  "pollPrecommitMsgFail env t er db =
     (case se_exitcode env (er_ExecutedRcptExitCode er) of
        SysErrInsufficientFunds \<Rightarrow> pollRetryPrecommitMsgSend env t er db
      | ErrInsufficientFunds \<Rightarrow> pollRetryPrecommitMsgSend env t er db
      | SysErrOutOfGas \<Rightarrow> pollRetryPrecommitMsgSend env t er db
      | _ \<Rightarrow> (Some ''precommit message failed'', db))"

text \<open>A failed query is logged and leaves no results, so nothing happens then.\<close>

definition pollPrecommitMsgLanded ::
  "seal_env \<Rightarrow> pollTask \<Rightarrow> pipeline_db \<Rightarrow> string option \<times> pipeline_db" where
  "pollPrecommitMsgLanded env t db =
     (if p_after_precommit_msg t \<and> \<not> p_after_precommit_msg_success t then
        (case (if se_select_fails env then [] else exec_results p_precommit_msg_cid t db) of
           [] \<Rightarrow> (None, db)
         | er # _ \<Rightarrow>
             if se_exitcode env (er_ExecutedRcptExitCode er) \<noteq> ExitOk then pollPrecommitMsgFail env t er db
             else (case se_precommit_info env (p_sp_id t) (p_sector_number t) of
                     Inl _ \<Rightarrow> (Some ''get precommit info'', db)
                   | Inr None \<Rightarrow> (None, db)
                   | Inr (Some PreCommitEpoch) \<Rightarrow>
                       if se_exec_fails env then (Some ''update'', db)
                       else (None, update_pipeline (\<lambda>r. same_sector t r \<and> p_seed_epoch r = None)
                               (\<lambda>r. r\<lparr>p_seed_epoch := Some (PreCommitEpoch + se_challenge_delay env),
                                      p_precommit_msg_tsk := Some (er_ExecutedTskCID er),
                                      p_after_precommit_msg_success := True\<rparr>) db)))
      else (None, db))"

definition pollerAddStartEpoch ::
  "seal_env \<Rightarrow> pollTask \<Rightarrow> pipeline_db \<Rightarrow> string option \<times> pipeline_db" where
  "pollerAddStartEpoch env t db =
     (if p_after_precommit_msg_success t \<and> p_start_epoch t = None then
        (case se_head env of
           None \<Rightarrow> (Some ''chain head'', db)
         | Some _ \<Rightarrow>
             (case se_precommit_info env (p_sp_id t) (p_sector_number t) of
                Inl _ \<Rightarrow> (Some ''precommit info'', db)
              | Inr None \<Rightarrow> (Some ''precommit info not found'', db)
              | Inr (Some PreCommitEpoch) \<Rightarrow>
                  (case se_max_prove_commit env (p_reg_seal_proof t) of
                     None \<Rightarrow> (Some ''max prove commit duration'', db)
                   | Some mpcd \<Rightarrow>
                       if se_exec_fails env then (Some ''update'', db)
                       else (None, update_pipeline
                               (\<lambda>r. same_sector t r \<and> p_after_precommit_msg_success r \<and>
                                    \<not> p_after_commit_msg r \<and> p_start_epoch r = None)
                               (\<lambda>r. r\<lparr>p_start_epoch := Some (PreCommitEpoch + mpcd)\<rparr>) db))))
      else (None, db))"

definition pollRetryCommitMsgSend ::
  "seal_env \<Rightarrow> pollTask \<Rightarrow> dbExecResult \<Rightarrow> pipeline_db \<Rightarrow> string option \<times> pipeline_db" where
  "pollRetryCommitMsgSend env t er db =
     (case er_CommitMsgCID er of
        None \<Rightarrow> (Some ''commit msg cid was nil'', db)
      | Some cid \<Rightarrow>
          if se_exec_fails env then (Some ''update'', db)
          else (None, update_pipeline
                  (\<lambda>r. p_commit_msg_cid r = Some cid \<and> same_sector t r \<and> \<not> p_after_commit_msg_success r)
                  (\<lambda>r. r\<lparr>p_commit_msg_cid := None, p_task_commit_msg := None, p_after_commit_msg := False\<rparr>)
                  db))"

definition pollCommitMsgFail ::
  "seal_env \<Rightarrow> pollTask \<Rightarrow> dbExecResult \<Rightarrow> pipeline_db \<Rightarrow> string option \<times> pipeline_db" where
  "pollCommitMsgFail env t er db =
     (case se_exitcode env (er_ExecutedRcptExitCode er) of
        SysErrInsufficientFunds \<Rightarrow> pollRetryCommitMsgSend env t er db
      | ErrInsufficientFunds \<Rightarrow> pollRetryCommitMsgSend env t er db
      | SysErrOutOfGas \<Rightarrow> pollRetryCommitMsgSend env t er db
      | ErrNotFound \<Rightarrow>
          (case se_sector_info env (p_sp_id t) (p_sector_number t) of
             Inl _ \<Rightarrow> (Some ''get sector info'', db)
           | Inr found \<Rightarrow> if found then (None, db) else (Some ''sector not found after'', db))
      | _ \<Rightarrow> (Some ''commit message failed'', db))"

definition mark_sealed :: "pollTask \<Rightarrow> deal_row list \<Rightarrow> deal_row list" where
  "mark_sealed t = update_where
     (\<lambda>d. d_sp_id d = p_sp_id t \<and> d_sector d = Some (p_sector_number t) \<and> \<not> d_sealed d)
     (\<lambda>d. d\<lparr>d_sealed := True\<rparr>)"

text \<open>
  The handling of a failed message runs outside of the transaction, so a reset for a retry
  stays when the transaction is given up.
\<close>

definition pollCommitMsgLanded ::
  "seal_env \<Rightarrow> pollTask \<Rightarrow> pipeline_db \<Rightarrow> string option \<times> pipeline_db" where
  "pollCommitMsgLanded env t db =
     (if p_after_commit_msg t \<and> \<not> p_after_commit_msg_success t \<and> se_IsSet env pollerCommitMsg then
        if se_select_fails env then (Some ''failed to query message_waits'', db)
        else (case exec_results p_commit_msg_cid t db of
           [] \<Rightarrow> (None, db)
         | er # _ \<Rightarrow>
             let (err, db1) =
                   (if se_exitcode env (er_ExecutedRcptExitCode er) \<noteq> ExitOk
                    then pollCommitMsgFail env t er db else (None, db))
             in if err \<noteq> None then (err, db1)
                else (case se_sector_info env (p_sp_id t) (p_sector_number t) of
                        Inl _ \<Rightarrow> (Some ''get sector info'', db1)
                      | Inr False \<Rightarrow> (Some ''todo handle missing sector info'', db1)
                      | Inr True \<Rightarrow>
                          if se_tx_fails env pollerCommitMsg then (Some ''failed to commit transaction'', db1)
                          else (None,
                            (update_pipeline (\<lambda>r. same_sector t r \<and> \<not> p_after_commit_msg_success r)
                               (\<lambda>r. r\<lparr>p_after_commit_msg_success := True,
                                      p_commit_msg_tsk := Some (er_ExecutedTskCID er)\<rparr>) db1)
                            \<lparr>market_mk12_deal_pipeline := mark_sealed t (market_mk12_deal_pipeline db1),
                             market_mk20_pipeline := mark_sealed t (market_mk20_pipeline db1)\<rparr>)))
      else (None, db))"

section \<open>Batches\<close>

text \<open>\<open>LEAST\<close> and \<open>MIN\<close> ignore \<open>NULL\<close>; without any value they are \<open>NULL\<close>.\<close>

definition least_epoch :: "int option \<Rightarrow> int option \<Rightarrow> int option" where
  "least_epoch a b = (case (a, b) of
     (None, _) \<Rightarrow> b | (_, None) \<Rightarrow> a | (Some x, Some y) \<Rightarrow> Some (min x y))"

definition sector_start_epoch :: "int \<Rightarrow> pipeline_db \<Rightarrow> pipeline_row \<Rightarrow> int option" where
  "sector_start_epoch lookback db r =
     (case fold (\<lambda>s acc. least_epoch acc (least_epoch (pc_f05_deal_start_epoch s) (pc_direct_start_epoch s)))
             (filter (\<lambda>s. pc_sp_id s = p_sp_id r \<and> pc_sector_number s = p_sector_number r)
                (sectors_sdr_initial_pieces db)) None of
        Some e \<Rightarrow> Some e
      | None \<Rightarrow> map_option (\<lambda>e. e + lookback) (p_ticket_epoch r))"

definition ready_time :: "time option \<Rightarrow> time" where
  "ready_time t = (case t of None \<Rightarrow> 0 | Some x \<Rightarrow> x)"

definition batch_row :: "pipeline_row \<Rightarrow> int \<Rightarrow> time option \<Rightarrow> BatchRow" where
  "batch_row r epoch ready = \<lparr>br_SpID = p_sp_id r, br_SectorNumber = p_sector_number r, br_StartEpoch = epoch,
     br_ReadyAt = ready_time ready, br_RegSealProof = p_reg_seal_proof r, br_BatchIndex = 0\<rparr>"

definition precommit_eligible :: "pipeline_row \<Rightarrow> bool" where
  "precommit_eligible r \<longleftrightarrow> p_after_synth r \<and> p_task_precommit_msg r = None \<and> \<not> p_after_precommit_msg r"

definition commit_eligible :: "pipeline_row \<Rightarrow> bool" where
  "commit_eligible r \<longleftrightarrow> p_after_porep r \<and> p_porep_proof r \<noteq> None \<and> p_task_commit_msg r = None \<and>
     \<not> p_after_commit_msg r \<and> p_start_epoch r \<noteq> None"

text \<open>
  The two candidate queries. A start epoch that is \<open>NULL\<close> cannot be read into \<open>int64\<close>,
  and a batch size of zero is a division by zero: both are errors of the query.
\<close>

definition precommit_candidates :: "int \<Rightarrow> int \<Rightarrow> pipeline_db \<Rightarrow> BatchRow list option" where
  "precommit_candidates lookback maxBatch db =
     (let rows = filter precommit_eligible (sectors_sdr_pipeline db);
          epochs = map (sector_start_epoch lookback db) rows
      in if None \<in> set epochs \<or> (maxBatch = 0 \<and> rows \<noteq> []) then None
         else Some (number_batches br_StartEpoch maxBatch
                (map (\<lambda>r. batch_row r (the (sector_start_epoch lookback db r)) (p_precommit_ready_at r)) rows)))"

definition commit_candidates :: "int \<Rightarrow> pipeline_db \<Rightarrow> BatchRow list option" where
  "commit_candidates maxBatch db =
     (let rows = filter commit_eligible (sectors_sdr_pipeline db)
      in if maxBatch = 0 \<and> rows \<noteq> [] then None
         else Some (number_batches br_ReadyAt maxBatch
                (map (\<lambda>r. batch_row r (the (p_start_epoch r)) (p_commit_ready_at r)) rows)))"

text \<open>The loop over the batches: the first one that fires and hits a row is assigned.\<close>

definition in_batch :: "BatchCandidate \<Rightarrow> pipeline_row \<Rightarrow> bool" where
  "in_batch b r \<longleftrightarrow> p_sp_id r = bc_SpID b \<and> p_reg_seal_proof r = bc_RegSealProof b \<and>
     p_sector_number r \<in> set (bc_SectorNums b)"

fun assign_batch ::
  "(BatchCandidate \<Rightarrow> bool) \<Rightarrow> (pipeline_row \<Rightarrow> bool) \<Rightarrow> (pipeline_row \<Rightarrow> pipeline_row) \<Rightarrow> BatchCandidate list \<Rightarrow>
   pipeline_db \<Rightarrow> (db_error + bool) \<times> pipeline_db" where
  "assign_batch fires free f [] db = (Inr False, db)"
| "assign_batch fires free f (b # bs) db =
     (if \<not> fires b then assign_batch fires free f bs db
      else if count_where (\<lambda>r. in_batch b r \<and> free r) (sectors_sdr_pipeline db) > 0
           then (Inr True, update_pipeline (\<lambda>r. in_batch b r \<and> free r) f db)
           else assign_batch fires free f bs db)"

definition batch_fires :: "duration \<Rightarrow> int \<Rightarrow> int \<Rightarrow> time \<Rightarrow> int \<Rightarrow> BatchCandidate \<Rightarrow> bool" where
  "batch_fires timeout slackEpochs currentHeight now maxBatch b \<longleftrightarrow>
     ShouldFire (EvalBatchTimeout (bc_EarliestReady b) timeout (bc_MinStartEpoch b) slackEpochs currentHeight now
       (int (length (bc_SectorNums b))) maxBatch)"

definition pollStartBatchPrecommitMsg :: "seal_env \<Rightarrow> pipeline_db \<Rightarrow> pipeline_db" where
  "pollStartBatchPrecommitMsg env db =
     (if \<not> se_IsSet env pollerPrecommitMsg then db
      else case se_head env of
        None \<Rightarrow> db
      | Some currentHeight \<Rightarrow>
          let cfg = preCommit (se_cfg env);
              slackEpochs = SlackEpochs (pcc_Slack cfg) (se_block_delay env);
              maxBatch = pcc_MaxPreCommitBatch cfg
          in add_stage_task env pollerPrecommitMsg
               (\<lambda>tid db1.
                  case (if se_select_fails env then None else precommit_candidates (se_lookback env) maxBatch db1) of
                    None \<Rightarrow> (Inl (OtherError ''getting precommit batch candidates''), db1)
                  | Some rows \<Rightarrow>
                      if rows = [] then (Inr False, db1)
                      else assign_batch (batch_fires (pcc_Timeout cfg) slackEpochs currentHeight (se_now env) maxBatch)
                             (\<lambda>r. p_after_synth r \<and> p_task_precommit_msg r = None \<and> \<not> p_after_precommit_msg r)
                             (\<lambda>r. r\<lparr>p_task_precommit_msg := Some tid\<rparr>)
                             (GroupBatchRows rows) db1) db)"

definition pollStartBatchCommitMsg :: "seal_env \<Rightarrow> pipeline_db \<Rightarrow> pipeline_db" where
  "pollStartBatchCommitMsg env db =
     (if \<not> se_IsSet env pollerCommitMsg then db
      else case se_head env of
        None \<Rightarrow> db
      | Some currentHeight \<Rightarrow>
          let cfg = commit (se_cfg env);
              slackEpochs = SlackEpochs (cc_Slack cfg) (se_block_delay env);
              maxBatch = cc_MaxCommitBatch cfg
          in add_stage_task env pollerCommitMsg
               (\<lambda>tid db1.
                  case (if se_select_fails env then None else commit_candidates maxBatch db1) of
                    None \<Rightarrow> (Inl (OtherError ''getting commit batch candidates''), db1)
                  | Some rows \<Rightarrow>
                      if rows = [] then (Inr False, db1)
                      else assign_batch (batch_fires (cc_Timeout cfg) slackEpochs currentHeight (se_now env) maxBatch)
                             (\<lambda>r. p_after_porep r \<and> p_task_commit_msg r = None \<and> \<not> p_after_commit_msg r)
                             (\<lambda>r. r\<lparr>p_task_commit_msg := Some tid\<rparr>)
                             (GroupBatchRows rows) db1) db)"

section \<open>One round\<close>

definition poll_sector :: "seal_env \<Rightarrow> int \<Rightarrow> pollTask \<Rightarrow> pipeline_db \<Rightarrow> pipeline_db" where
  "poll_sector env height t db =
     (let db1 = pollStartSDR env t db;
          db2 = pollStartSDRTreeD env t db1;
          db3 = pollStartSDRTreeRC env t db2;
          db4 = pollStartSynth env t db3;
          db5 = snd (pollPrecommitMsgLanded env t db4);
          db6 = pollStartPoRep env height t db5;
          db7 = snd (pollerAddStartEpoch env t db6);
          db8 = pollStartFinalize env t db7;
          db9 = pollStartMoveStorage env t db8
      in snd (pollCommitMsgLanded env t db9))"

definition poll_tasks :: "pipeline_db \<Rightarrow> pollTask list" where
  "poll_tasks db =
     filter (\<lambda>t. \<not> p_failed t)
       (filter (\<lambda>r. \<not> p_after_commit_msg_success r \<or> \<not> p_after_move_storage r) (sectors_sdr_pipeline db))"

definition poll :: "seal_env \<Rightarrow> pipeline_db \<Rightarrow> string option \<times> pipeline_db" where
  "poll env db =
     (if se_select_fails env then (Some ''select'', db)
      else case se_head env of
        None \<Rightarrow> (Some ''getting chain head'', db)
      | Some height \<Rightarrow>
          let db1 = fold (poll_sector env height) (poll_tasks db) db;
              db2 = pollStartBatchPrecommitMsg env db1
          in (None, pollStartBatchCommitMsg env db2))"

end
