(* ===== verification/PipelineSafety.thy ===== *)
theory PipelineSafety
  imports SealPipeline
begin

text \<open>
  What a round of the sealing poller keeps: stages start in order and only after what they
  need, no progress is lost, a stage and its task appear together, batches stay within
  their bounds.
\<close>

section \<open>Vocabulary\<close>

text \<open>
  \<open>r'\<close> is a later version of the row \<open>r\<close>: the same sector, with at least the progress. The
  two flags of a message sent but not yet successful may be taken back for a retry.
\<close>

definition advances :: "pipeline_row \<Rightarrow> pipeline_row \<Rightarrow> bool" where
  "advances r r' \<longleftrightarrow>
     p_sp_id r' = p_sp_id r \<and> p_sector_number r' = p_sector_number r \<and>
     p_reg_seal_proof r' = p_reg_seal_proof r \<and> (p_failed r \<longrightarrow> p_failed r') \<and>
     (p_after_sdr r \<longrightarrow> p_after_sdr r') \<and> (p_after_tree_d r \<longrightarrow> p_after_tree_d r') \<and>
     (p_after_tree_c r \<longrightarrow> p_after_tree_c r') \<and> (p_after_tree_r r \<longrightarrow> p_after_tree_r r') \<and>
     (p_after_synth r \<longrightarrow> p_after_synth r') \<and>
     (p_after_precommit_msg_success r \<longrightarrow> p_after_precommit_msg_success r') \<and>
     (p_after_porep r \<longrightarrow> p_after_porep r') \<and> (p_after_finalize r \<longrightarrow> p_after_finalize r') \<and>
     (p_after_move_storage r \<longrightarrow> p_after_move_storage r') \<and>
     (p_after_commit_msg_success r \<longrightarrow> p_after_commit_msg_success r') \<and>
     (p_seed_epoch r \<noteq> None \<longrightarrow> p_seed_epoch r' = p_seed_epoch r) \<and>
     (p_start_epoch r \<noteq> None \<longrightarrow> p_start_epoch r' = p_start_epoch r)"

text \<open>
  A stage that has a task or is finished has what it depends on. A message flag is not
  listed as a dependency, because it may be taken back for a retry.
\<close>

definition flags_ok :: "pipeline_row \<Rightarrow> bool" where
  "flags_ok r \<longleftrightarrow>
     (p_after_tree_d r \<longrightarrow> p_after_sdr r) \<and>
     (p_after_tree_c r \<or> p_after_tree_r r \<longrightarrow> p_after_tree_d r) \<and>
     (p_after_tree_c r \<longleftrightarrow> p_after_tree_r r) \<and>
     (p_after_synth r \<longrightarrow> p_after_tree_c r \<and> p_after_tree_r r) \<and>
     (p_after_precommit_msg r \<longrightarrow> p_after_synth r) \<and>
     (p_after_precommit_msg_success r \<longrightarrow> p_after_synth r \<and> p_seed_epoch r \<noteq> None) \<and>
     (p_after_porep r \<longrightarrow> p_after_precommit_msg_success r) \<and>
     (p_after_finalize r \<longrightarrow> p_after_porep r) \<and>
     (p_after_move_storage r \<longrightarrow> p_after_finalize r) \<and>
     (p_after_commit_msg r \<longrightarrow> p_after_porep r) \<and>
     (p_after_commit_msg_success r \<longrightarrow> p_after_porep r)"

definition tasks_ok :: "pipeline_row \<Rightarrow> bool" where
  "tasks_ok r \<longleftrightarrow>
     (p_task_tree_d r \<noteq> None \<longrightarrow> p_after_sdr r) \<and>
     (p_task_tree_c r \<noteq> None \<or> p_task_tree_r r \<noteq> None \<longrightarrow> p_after_tree_d r) \<and>
     (p_task_synth r \<noteq> None \<longrightarrow> p_after_tree_c r \<and> p_after_tree_r r) \<and>
     (p_task_precommit_msg r \<noteq> None \<longrightarrow> p_after_synth r) \<and>
     (p_task_porep r \<noteq> None \<longrightarrow> p_after_precommit_msg_success r) \<and>
     (p_task_finalize r \<noteq> None \<longrightarrow> p_after_porep r) \<and>
     (p_task_move_storage r \<noteq> None \<longrightarrow> p_after_finalize r) \<and>
     (p_task_commit_msg r \<noteq> None \<longrightarrow> p_after_porep r)"

definition row_ok :: "pipeline_row \<Rightarrow> bool" where
  "row_ok r \<longleftrightarrow> flags_ok r \<and> tasks_ok r"

lemmas row_ok_defs = row_ok_def flags_ok_def tasks_ok_def

definition pipeline_ok :: "pipeline_db \<Rightarrow> bool" where
  "pipeline_ok db \<longleftrightarrow> (\<forall>r\<in>set (sectors_sdr_pipeline db). row_ok r)"

definition sector_key :: "pipeline_row \<Rightarrow> int \<times> int" where
  "sector_key r = (p_sp_id r, p_sector_number r)"

definition keys_ok :: "pipeline_db \<Rightarrow> bool" where
  "keys_ok db \<longleftrightarrow> distinct (map sector_key (sectors_sdr_pipeline db))"

text \<open>\<open>t\<close> was read from a pipeline in order, earlier than the state of \<open>db\<close>.\<close>

definition snapshot :: "pollTask \<Rightarrow> pipeline_db \<Rightarrow> bool" where
  "snapshot t db \<longleftrightarrow> row_ok t \<and> (\<forall>r\<in>set (sectors_sdr_pipeline db). same_sector t r \<longrightarrow> advances t r)"

definition task_columns :: "pipeline_row \<Rightarrow> TaskID option list" where
  "task_columns r = [p_task_sdr r, p_task_tree_d r, p_task_tree_c r, p_task_tree_r r, p_task_synth r,
     p_task_precommit_msg r, p_task_porep r, p_task_finalize r, p_task_move_storage r, p_task_commit_msg r]"

text \<open>Nothing happened but a used-up ID, or a task was added together with a row that names it.\<close>

definition linked :: "pipeline_db \<Rightarrow> pipeline_db \<Rightarrow> bool" where
  "linked db db' \<longleftrightarrow>
     (harmony_task (pd_harmony db') = harmony_task (pd_harmony db) \<and>
      sectors_sdr_pipeline db' = sectors_sdr_pipeline db) \<or>
     (\<exists>n. harmony_task (pd_harmony db') = harmony_task (pd_harmony db) @ [n] \<and>
        t_id n = task_seq (pd_harmony db) \<and> t_owner_id n = None \<and>
        (\<exists>r\<in>set (sectors_sdr_pipeline db'). Some (t_id n) \<in> set (task_columns r)))"

section \<open>A concrete pipeline\<close>

definition ex_sector :: "int \<Rightarrow> pipeline_row" where
  "ex_sector n = \<lparr>p_sp_id = 1000, p_sector_number = n, p_reg_seal_proof = 8, p_user_duration = None,
     p_ticket_epoch = Some 100, p_ticket_value = None,
     p_task_sdr = None, p_after_sdr = False, p_task_tree_d = None, p_after_tree_d = False, p_tree_d_cid = None,
     p_task_tree_c = None, p_after_tree_c = False, p_task_tree_r = None, p_after_tree_r = False, p_tree_r_cid = None,
     p_task_synth = None, p_after_synth = False, p_precommit_ready_at = None,
     p_task_precommit_msg = None, p_after_precommit_msg = False, p_precommit_msg_cid = None,
     p_precommit_msg_tsk = None, p_after_precommit_msg_success = False, p_seed_epoch = None, p_seed_value = None,
     p_task_porep = None, p_porep_proof = None, p_after_porep = False, p_task_finalize = None,
     p_after_finalize = False, p_task_move_storage = None, p_after_move_storage = False,
     p_commit_ready_at = None, p_start_epoch = None, p_task_commit_msg = None, p_after_commit_msg = False,
     p_commit_msg_cid = None, p_commit_msg_tsk = None, p_after_commit_msg_success = False,
     p_failed = False, p_failed_reason = []\<rparr>"

definition ex_sealed :: "int \<Rightarrow> pipeline_row" where
  "ex_sealed n = (ex_sector n)\<lparr>p_after_sdr := True, p_after_tree_d := True, p_after_tree_c := True,
     p_after_tree_r := True, p_after_synth := True\<rparr>"

definition ex_pipeline :: "pipeline_row list \<Rightarrow> pipeline_db" where
  "ex_pipeline rows = \<lparr>pd_harmony = \<lparr>harmony_task = [], harmony_task_history = [], harmony_machines = [],
       harmony_task_singletons = [], sectors_pipeline_events = [], task_seq = 1, history_seq = 1, machine_seq = 1\<rparr>,
     sectors_sdr_pipeline = rows, sectors_sdr_initial_pieces = [], message_waits = [],
     market_mk12_deal_pipeline = [], market_mk20_pipeline = []\<rparr>"

definition ex_seal_env :: seal_env where
  "ex_seal_env = \<lparr>se_IsSet = (\<lambda>_. True), se_name = (\<lambda>_. ''stage''), se_owner = 1, se_now = 5000,
     se_tx_fails = (\<lambda>_. False), se_select_fails = False, se_exec_fails = False, se_head = Some 400,
     se_exitcode = (\<lambda>c. if c = 0 then ExitOk else OtherExit), se_precommit_info = (\<lambda>_ _. Inr None),
     se_sector_info = (\<lambda>_ _. Inr False), se_max_prove_commit = (\<lambda>_. None), se_challenge_delay = 150,
     se_lookback = 200, se_block_delay = 30,
     se_cfg = NewPoller_cfg 256 4 2 0 1000 2 0 1000\<rparr>"

section \<open>Lemmas\<close>

lemma advances_refl [simp]: "advances r r"
  by (simp add: advances_def)

lemma advances_trans: "advances a b \<Longrightarrow> advances b c \<Longrightarrow> advances a c"
  unfolding advances_def by simp

lemma advances_sector: "advances r r' \<Longrightarrow> same_sector t r' = same_sector t r"
  by (simp add: advances_def same_sector_def)

text \<open>An operation on one sector of the pipeline, given by what it does to the table.\<close>

definition sector_update :: "pollTask \<Rightarrow> pipeline_row list \<Rightarrow> pipeline_row list \<Rightarrow> bool" where
  "sector_update t rows rows' \<longleftrightarrow>
     rows' = rows \<or>
     (\<exists>p f. rows' = update_where p f rows \<and>
        (\<forall>r. p r \<longrightarrow> same_sector t r \<and> advances r (f r)) \<and>
        (\<forall>r. p r \<longrightarrow> advances t r \<longrightarrow> row_ok t \<longrightarrow> row_ok r \<longrightarrow> row_ok (f r)))"

lemma sector_updateI:
  assumes "rows' = update_where p f rows"
    "\<And>r. p r \<Longrightarrow> same_sector t r" "\<And>r. p r \<Longrightarrow> advances r (f r)"
    "\<And>r. p r \<Longrightarrow> advances t r \<Longrightarrow> row_ok t \<Longrightarrow> row_ok r \<Longrightarrow> row_ok (f r)"
  shows "sector_update t rows rows'"
  using assms unfolding sector_update_def by blast

locale sector_op =
  fixes op :: "seal_env \<Rightarrow> pollTask \<Rightarrow> pipeline_db \<Rightarrow> pipeline_db"
  assumes op_update: "sector_update t (sectors_sdr_pipeline db) (sectors_sdr_pipeline (op env t db))"
begin

lemma op_row:
  assumes "r' \<in> set (sectors_sdr_pipeline (op env t db))"
  obtains r where "r \<in> set (sectors_sdr_pipeline db)" "advances r r'" "r' = r \<or> same_sector t r"
    "row_ok r \<Longrightarrow> row_ok t \<Longrightarrow> (same_sector t r \<Longrightarrow> advances t r) \<Longrightarrow> row_ok r'"
  using op_update [of t db env] unfolding sector_update_def
proof
  assume "sectors_sdr_pipeline (op env t db) = sectors_sdr_pipeline db"
  with assms that show thesis by auto
next
  assume "\<exists>p f. sectors_sdr_pipeline (op env t db) = update_where p f (sectors_sdr_pipeline db) \<and>
      (\<forall>r. p r \<longrightarrow> same_sector t r \<and> advances r (f r)) \<and>
      (\<forall>r. p r \<longrightarrow> advances t r \<longrightarrow> row_ok t \<longrightarrow> row_ok r \<longrightarrow> row_ok (f r))"
  then obtain p f where u: "sectors_sdr_pipeline (op env t db) = update_where p f (sectors_sdr_pipeline db)"
    "\<And>r. p r \<Longrightarrow> same_sector t r" "\<And>r. p r \<Longrightarrow> advances r (f r)"
    "\<And>r. p r \<Longrightarrow> advances t r \<Longrightarrow> row_ok t \<Longrightarrow> row_ok r \<Longrightarrow> row_ok (f r)" by blast
  from assms obtain r where "r \<in> set (sectors_sdr_pipeline db)" "r' = (if p r then f r else r)"
    unfolding u(1) update_where_def by auto
  with u(2-4) that show thesis by (cases "p r") auto
qed

lemma op_advances: "list_all2 advances (sectors_sdr_pipeline db) (sectors_sdr_pipeline (op env t db))"
  using op_update [of t db env] unfolding sector_update_def
  by (auto simp: update_where_def list_all2_map2 list.rel_refl intro!: list_all2_all_nthI)

lemma op_ok: "snapshot t db \<Longrightarrow> pipeline_ok db \<Longrightarrow> pipeline_ok (op env t db)"
  unfolding pipeline_ok_def snapshot_def by (metis op_row)

lemma op_snapshot: "snapshot t' db \<Longrightarrow> snapshot t' (op env t db)"
  unfolding snapshot_def by (metis op_row advances_sector advances_trans)

lemma op_other_sectors:
  assumes "i < length (sectors_sdr_pipeline db)" "\<not> same_sector t (sectors_sdr_pipeline db ! i)"
  shows "sectors_sdr_pipeline (op env t db) ! i = sectors_sdr_pipeline db ! i"
  using op_update [of t db env] assms unfolding sector_update_def by (auto simp: nth_update_where)

end

subsection \<open>The stages\<close>

lemma add_stage_task_cases:
  fixes env :: seal_env and s :: poller_id and db :: pipeline_db
  defines "h \<equiv> snd (insert_task (se_name env s) (se_owner env) (se_now env) (pd_harmony db))"
  shows "add_stage_task env s extra db = db\<lparr>pd_harmony := (pd_harmony db)\<lparr>task_seq := task_seq (pd_harmony db) + 1\<rparr>\<rparr> \<or>
    extra (task_seq (pd_harmony db)) (db\<lparr>pd_harmony := h\<rparr>) = (Inr True, add_stage_task env s extra db)"
  by (auto simp: add_stage_task_def h_def insert_task_def Let_def split: prod.splits)

lemma assign_one_True:
  "assign_one p f tid db = (Inr True, db') \<Longrightarrow>
   db' = update_pipeline p (f tid) db \<and> count_where p (sectors_sdr_pipeline db) = 1"
  by (auto simp: assign_one_def split: if_splits)

lemma stage_update:
  assumes "\<And>r. p r \<Longrightarrow> same_sector t r" "\<And>tid r. p r \<Longrightarrow> advances r (f tid r)"
    "\<And>tid r. p r \<Longrightarrow> advances t r \<Longrightarrow> row_ok t \<Longrightarrow> row_ok r \<Longrightarrow> row_ok (f tid r)"
  shows "sector_update t (sectors_sdr_pipeline db) (sectors_sdr_pipeline (add_stage_task env s (assign_one p f) db))"
  using add_stage_task_cases [of env s "assign_one p f" db]
proof
  assume "assign_one p f (task_seq (pd_harmony db)) (db\<lparr>pd_harmony :=
      snd (insert_task (se_name env s) (se_owner env) (se_now env) (pd_harmony db))\<rparr>) =
    (Inr True, add_stage_task env s (assign_one p f) db)"
  from assign_one_True [OF this]
  have "sectors_sdr_pipeline (add_stage_task env s (assign_one p f) db) =
      update_where p (f (task_seq (pd_harmony db))) (sectors_sdr_pipeline db)"
    by (simp add: update_pipeline_def)
  then show ?thesis by (rule sector_updateI) (use assms in blast)+
qed (simp add: sector_update_def)

lemma sector_update_refl [simp]: "sector_update t rows rows"
  by (simp add: sector_update_def)

lemma row_ok_advances:
  "advances t r \<Longrightarrow> afterSDR t \<Longrightarrow> p_after_sdr r"
  "advances t r \<Longrightarrow> afterTreeD t \<Longrightarrow> p_after_sdr r \<and> p_after_tree_d r"
  "advances t r \<Longrightarrow> afterTreeRC t \<Longrightarrow> p_after_tree_c r \<and> p_after_tree_r r \<and> p_after_tree_d r"
  "advances t r \<Longrightarrow> afterPrecommitMsgSuccess t \<Longrightarrow> p_after_precommit_msg_success r"
  "advances t r \<Longrightarrow> afterPoRep t \<Longrightarrow> p_after_porep r"
  "advances t r \<Longrightarrow> afterFinalize t \<Longrightarrow> p_after_finalize r"
  unfolding advances_def afterSDR_def afterTreeD_def afterTreeRC_def afterPrecommitMsgSuccess_def
    afterPoRep_def afterFinalize_def
  by blast+

text \<open>Assigning a task keeps the flags, and the order when the dependency is there.\<close>

lemma advances_task [simp]:
  "advances r (r\<lparr>p_task_sdr := x\<rparr>)" "advances r (r\<lparr>p_task_tree_d := x\<rparr>)"
  "advances r (r\<lparr>p_task_tree_c := x, p_task_tree_r := y\<rparr>)" "advances r (r\<lparr>p_task_synth := x\<rparr>)"
  "advances r (r\<lparr>p_task_precommit_msg := x\<rparr>)" "advances r (r\<lparr>p_task_porep := x\<rparr>)"
  "advances r (r\<lparr>p_task_finalize := x\<rparr>)" "advances r (r\<lparr>p_task_move_storage := x\<rparr>)"
  "advances r (r\<lparr>p_task_commit_msg := x\<rparr>)"
  by (simp_all add: advances_def)

lemma row_ok_task:
  "row_ok r \<Longrightarrow> row_ok (r\<lparr>p_task_sdr := x\<rparr>)"
  "row_ok r \<Longrightarrow> p_after_sdr r \<Longrightarrow> row_ok (r\<lparr>p_task_tree_d := x\<rparr>)"
  "row_ok r \<Longrightarrow> p_after_tree_d r \<Longrightarrow> row_ok (r\<lparr>p_task_tree_c := x, p_task_tree_r := y\<rparr>)"
  "row_ok r \<Longrightarrow> p_after_tree_c r \<and> p_after_tree_r r \<Longrightarrow> row_ok (r\<lparr>p_task_synth := x\<rparr>)"
  "row_ok r \<Longrightarrow> p_after_synth r \<Longrightarrow> row_ok (r\<lparr>p_task_precommit_msg := x\<rparr>)"
  "row_ok r \<Longrightarrow> p_after_precommit_msg_success r \<Longrightarrow> row_ok (r\<lparr>p_task_porep := x\<rparr>)"
  "row_ok r \<Longrightarrow> p_after_porep r \<Longrightarrow> row_ok (r\<lparr>p_task_finalize := x\<rparr>)"
  "row_ok r \<Longrightarrow> p_after_finalize r \<Longrightarrow> row_ok (r\<lparr>p_task_move_storage := x\<rparr>)"
  "row_ok r \<Longrightarrow> p_after_porep r \<Longrightarrow> row_ok (r\<lparr>p_task_commit_msg := x\<rparr>)"
  by (simp_all add: row_ok_defs)

interpretation sdr: sector_op pollStartSDR
  by unfold_locales (auto simp: pollStartSDR_def intro!: stage_update row_ok_task)

interpretation treeD: sector_op pollStartSDRTreeD
  by unfold_locales (auto simp: pollStartSDRTreeD_def intro!: stage_update row_ok_task)

interpretation treeRC: sector_op pollStartSDRTreeRC
  by unfold_locales (auto simp: pollStartSDRTreeRC_def intro!: stage_update row_ok_task)

interpretation synth: sector_op pollStartSynth
  by unfold_locales (auto simp: pollStartSynth_def intro!: stage_update row_ok_task dest: row_ok_advances(3))

interpretation porep: sector_op "\<lambda>env. pollStartPoRep env height" for height
  by unfold_locales (auto simp: pollStartPoRep_def intro!: stage_update row_ok_task dest: row_ok_advances(4))

interpretation finalize: sector_op pollStartFinalize
  by unfold_locales (auto simp: pollStartFinalize_def intro!: stage_update row_ok_task dest: row_ok_advances(5))

interpretation move: sector_op pollStartMoveStorage
  by unfold_locales (auto simp: pollStartMoveStorage_def intro!: stage_update row_ok_task dest: row_ok_advances(6))

subsection \<open>Messages\<close>

lemma sector_update_map:
  "sector_update t rows rows' \<longleftrightarrow>
   (\<exists>h. rows' = map h rows \<and> (\<forall>r. advances r (h r)) \<and> (\<forall>r. \<not> same_sector t r \<longrightarrow> h r = r) \<and>
      (\<forall>r. same_sector t r \<longrightarrow> advances t r \<longrightarrow> row_ok t \<longrightarrow> row_ok r \<longrightarrow> row_ok (h r)))"
proof
  assume "sector_update t rows rows'"
  then consider "rows' = rows" | p f where "rows' = update_where p f rows" "\<And>r. p r \<Longrightarrow> same_sector t r"
    "\<And>r. p r \<Longrightarrow> advances r (f r)" "\<And>r. p r \<Longrightarrow> advances t r \<Longrightarrow> row_ok t \<Longrightarrow> row_ok r \<Longrightarrow> row_ok (f r)"
    unfolding sector_update_def by blast
  then show "\<exists>h. rows' = map h rows \<and> (\<forall>r. advances r (h r)) \<and> (\<forall>r. \<not> same_sector t r \<longrightarrow> h r = r) \<and>
      (\<forall>r. same_sector t r \<longrightarrow> advances t r \<longrightarrow> row_ok t \<longrightarrow> row_ok r \<longrightarrow> row_ok (h r))"
  proof cases
    case 1
    then show ?thesis by (intro exI [of _ "\<lambda>r. r"]) simp
  next
    case (2 p f)
    then show ?thesis by (intro exI [of _ "\<lambda>r. if p r then f r else r"]) (auto simp: update_where_def)
  qed
next
  assume "\<exists>h. rows' = map h rows \<and> (\<forall>r. advances r (h r)) \<and> (\<forall>r. \<not> same_sector t r \<longrightarrow> h r = r) \<and>
      (\<forall>r. same_sector t r \<longrightarrow> advances t r \<longrightarrow> row_ok t \<longrightarrow> row_ok r \<longrightarrow> row_ok (h r))"
  then obtain h where h: "rows' = map h rows" "\<And>r. advances r (h r)" "\<And>r. \<not> same_sector t r \<Longrightarrow> h r = r"
    "\<And>r. same_sector t r \<Longrightarrow> advances t r \<Longrightarrow> row_ok t \<Longrightarrow> row_ok r \<Longrightarrow> row_ok (h r)" by blast
  then have "rows' = update_where (same_sector t) h rows" by (simp add: update_where_def)
  then show "sector_update t rows rows'" by (rule sector_updateI) (use h in auto)
qed

lemma sector_update_trans:
  assumes "sector_update t a b" "sector_update t b c"
  shows "sector_update t a c"
proof -
  obtain h where h: "b = map h a" "\<And>r. advances r (h r)" "\<And>r. \<not> same_sector t r \<Longrightarrow> h r = r"
    "\<And>r. same_sector t r \<Longrightarrow> advances t r \<Longrightarrow> row_ok t \<Longrightarrow> row_ok r \<Longrightarrow> row_ok (h r)"
    using assms(1) unfolding sector_update_map by blast
  obtain k where k: "c = map k b" "\<And>r. advances r (k r)" "\<And>r. \<not> same_sector t r \<Longrightarrow> k r = r"
    "\<And>r. same_sector t r \<Longrightarrow> advances t r \<Longrightarrow> row_ok t \<Longrightarrow> row_ok r \<Longrightarrow> row_ok (k r)"
    using assms(2) unfolding sector_update_map by blast
  have "advances r (k (h r))" for r using advances_trans [OF h(2) k(2)] .
  moreover have "k (h r) = r" if "\<not> same_sector t r" for r using h(3) k(3) that by simp
  moreover have "row_ok (k (h r))" if r: "same_sector t r" "advances t r" "row_ok t" "row_ok r" for r
  proof (rule k(4))
    show "same_sector t (h r)" using r(1) advances_sector [OF h(2)] by simp
    show "advances t (h r)" using advances_trans [OF r(2) h(2)] .
    show "row_ok t" by (rule r(3))
    show "row_ok (h r)" using h(4) r by simp
  qed
  ultimately show ?thesis unfolding sector_update_map using h(1) k(1)
    by (intro exI [of _ "\<lambda>r. k (h r)"]) simp
qed

lemma update_pipeline_sector:
  assumes "\<And>r. p r \<Longrightarrow> same_sector t r" "\<And>r. p r \<Longrightarrow> advances r (f r)"
    "\<And>r. p r \<Longrightarrow> advances t r \<Longrightarrow> row_ok t \<Longrightarrow> row_ok r \<Longrightarrow> row_ok (f r)"
  shows "sector_update t (sectors_sdr_pipeline db) (sectors_sdr_pipeline (update_pipeline p f db))"
  by (rule sector_updateI [where p = p and f = f]) (use assms in \<open>auto simp: update_pipeline_def\<close>)

lemma advances_msg:
  "advances r (r\<lparr>p_precommit_msg_cid := a, p_task_precommit_msg := b, p_after_precommit_msg := c\<rparr>)"
  "advances r (r\<lparr>p_commit_msg_cid := a, p_task_commit_msg := b, p_after_commit_msg := c\<rparr>)"
  "p_seed_epoch r = None \<Longrightarrow>
   advances r (r\<lparr>p_seed_epoch := d, p_precommit_msg_tsk := a, p_after_precommit_msg_success := True\<rparr>)"
  "p_start_epoch r = None \<Longrightarrow> advances r (r\<lparr>p_start_epoch := d\<rparr>)"
  "advances r (r\<lparr>p_after_commit_msg_success := True, p_commit_msg_tsk := a\<rparr>)"
  by (simp_all add: advances_def)

lemma row_ok_msg:
  "row_ok r \<Longrightarrow> row_ok (r\<lparr>p_precommit_msg_cid := a, p_task_precommit_msg := None, p_after_precommit_msg := False\<rparr>)"
  "row_ok r \<Longrightarrow> row_ok (r\<lparr>p_commit_msg_cid := a, p_task_commit_msg := None, p_after_commit_msg := False\<rparr>)"
  "row_ok r \<Longrightarrow> p_after_synth r \<Longrightarrow>
   row_ok (r\<lparr>p_seed_epoch := Some e, p_precommit_msg_tsk := a, p_after_precommit_msg_success := True\<rparr>)"
  "row_ok r \<Longrightarrow> row_ok (r\<lparr>p_start_epoch := d\<rparr>)"
  "row_ok r \<Longrightarrow> p_after_porep r \<Longrightarrow> row_ok (r\<lparr>p_after_commit_msg_success := True, p_commit_msg_tsk := a\<rparr>)"
  by (simp_all add: row_ok_defs)

lemma row_ok_sent:
  "row_ok t \<Longrightarrow> advances t r \<Longrightarrow> p_after_precommit_msg t \<Longrightarrow> p_after_synth r"
  "row_ok t \<Longrightarrow> advances t r \<Longrightarrow> p_after_commit_msg t \<Longrightarrow> p_after_porep r"
  unfolding row_ok_def flags_ok_def advances_def by blast+

lemma retry_precommit_update:
  "sector_update t (sectors_sdr_pipeline db) (sectors_sdr_pipeline (snd (pollRetryPrecommitMsgSend env t er db)))"
  by (auto simp: pollRetryPrecommitMsgSend_def split: option.splits
      intro!: update_pipeline_sector advances_msg row_ok_msg)

lemma retry_commit_update:
  "sector_update t (sectors_sdr_pipeline db) (sectors_sdr_pipeline (snd (pollRetryCommitMsgSend env t er db)))"
  by (auto simp: pollRetryCommitMsgSend_def split: option.splits
      intro!: update_pipeline_sector advances_msg row_ok_msg)

lemma commit_fail_update:
  "sector_update t (sectors_sdr_pipeline db) (sectors_sdr_pipeline (snd (pollCommitMsgFail env t er db)))"
  by (simp add: pollCommitMsgFail_def retry_commit_update split: exit_code.splits sum.splits)

interpretation precommit_landed: sector_op "\<lambda>env t db. snd (pollPrecommitMsgLanded env t db)"
proof
  fix t env db
  have upd: "sector_update t (sectors_sdr_pipeline db) (sectors_sdr_pipeline (update_pipeline
      (\<lambda>r. same_sector t r \<and> p_seed_epoch r = None)
      (\<lambda>r. r\<lparr>p_seed_epoch := Some e, p_precommit_msg_tsk := Some c, p_after_precommit_msg_success := True\<rparr>) db))"
    if "p_after_precommit_msg t" for e c
    by (rule update_pipeline_sector) (auto intro: advances_msg row_ok_msg row_ok_sent(1) that)
  have "sector_update t (sectors_sdr_pipeline db) (sectors_sdr_pipeline (snd (pollPrecommitMsgFail env t er db)))" for er
    by (simp add: pollPrecommitMsgFail_def retry_precommit_update split: exit_code.splits)
  with upd show "sector_update t (sectors_sdr_pipeline db) (sectors_sdr_pipeline (snd (pollPrecommitMsgLanded env t db)))"
    by (simp add: pollPrecommitMsgLanded_def split: list.splits sum.splits option.splits)
qed

interpretation start_epoch: sector_op "\<lambda>env t db. snd (pollerAddStartEpoch env t db)"
proof
  fix t env db
  have "sector_update t (sectors_sdr_pipeline db) (sectors_sdr_pipeline (update_pipeline
      (\<lambda>r. same_sector t r \<and> p_after_precommit_msg_success r \<and> \<not> p_after_commit_msg r \<and> p_start_epoch r = None)
      (\<lambda>r. r\<lparr>p_start_epoch := Some e\<rparr>) db))" for e
    by (rule update_pipeline_sector) (auto intro: advances_msg row_ok_msg)
  then show "sector_update t (sectors_sdr_pipeline db) (sectors_sdr_pipeline (snd (pollerAddStartEpoch env t db)))"
    by (simp add: pollerAddStartEpoch_def split: list.splits sum.splits option.splits)
qed

interpretation commit_landed: sector_op "\<lambda>env t db. snd (pollCommitMsgLanded env t db)"
proof
  fix t env and db :: pipeline_db
  have upd: "sector_update t (sectors_sdr_pipeline d) (update_where (\<lambda>r. same_sector t r \<and> \<not> p_after_commit_msg_success r)
      (\<lambda>r. r\<lparr>p_after_commit_msg_success := True, p_commit_msg_tsk := Some c\<rparr>) (sectors_sdr_pipeline d))"
    if "p_after_commit_msg t" for c d
    by (rule sector_updateI [OF refl]) (auto intro: advances_msg row_ok_msg row_ok_sent(2) that)
  have "sector_update t (sectors_sdr_pipeline db) (update_where (\<lambda>r. same_sector t r \<and> \<not> p_after_commit_msg_success r)
      (\<lambda>r. r\<lparr>p_after_commit_msg_success := True, p_commit_msg_tsk := Some c\<rparr>) (sectors_sdr_pipeline d))"
    if sent: "p_after_commit_msg t" and d: "d = db \<or> d = snd (pollCommitMsgFail env t er db)" for c d er
  proof -
    have "sector_update t (sectors_sdr_pipeline db) (sectors_sdr_pipeline d)"
      using d by (auto simp: commit_fail_update)
    then show ?thesis by (rule sector_update_trans [OF _ upd [OF sent]])
  qed
  then show "sector_update t (sectors_sdr_pipeline db) (sectors_sdr_pipeline (snd (pollCommitMsgLanded env t db)))"
    using commit_fail_update [of t db env]
    by (auto simp: pollCommitMsgLanded_def update_pipeline_def Let_def
        split: list.splits sum.splits option.splits bool.splits prod.splits) (metis snd_conv)+
qed

subsection \<open>One sector\<close>

interpretation sector: sector_op "\<lambda>env. poll_sector env height" for height
proof
  fix t db env
  note ops = sdr.op_update treeD.op_update treeRC.op_update synth.op_update precommit_landed.op_update
    porep.op_update start_epoch.op_update finalize.op_update move.op_update commit_landed.op_update
  show "sector_update t (sectors_sdr_pipeline db) (sectors_sdr_pipeline (poll_sector env height t db))"
    unfolding poll_sector_def Let_def by (intro sector_update_trans [OF _ ops(10)] sector_update_trans [OF _ ops(9)]
      sector_update_trans [OF _ ops(8)] sector_update_trans [OF _ ops(7)] sector_update_trans [OF _ ops(6)]
      sector_update_trans [OF _ ops(5)] sector_update_trans [OF _ ops(4)] sector_update_trans [OF _ ops(3)]
      sector_update_trans [OF _ ops(2)] ops(1))
qed

lemma fold_sectors_ok:
  assumes "pipeline_ok db" "\<forall>t\<in>set ts. snapshot t db"
  shows "pipeline_ok (fold (poll_sector env height) ts db)"
  using assms
proof (induction ts arbitrary: db)
  case (Cons t ts)
  then have "pipeline_ok (poll_sector env height t db)" using sector.op_ok by simp
  moreover have "\<forall>t'\<in>set ts. snapshot t' (poll_sector env height t db)"
    using Cons.prems sector.op_snapshot by simp
  ultimately show ?case using Cons.IH by simp
qed simp

lemma list_all2_advances_trans:
  "list_all2 advances a b \<Longrightarrow> list_all2 advances b c \<Longrightarrow> list_all2 advances a c"
  by (rule list_all2_trans [where ?P1.0 = advances and ?P2.0 = advances]) (auto intro: advances_trans)

lemma fold_sectors_advances:
  "list_all2 advances (sectors_sdr_pipeline db) (sectors_sdr_pipeline (fold (poll_sector env height) ts db))"
proof (induction ts arbitrary: db)
  case (Cons t ts)
  then show ?case using sector.op_advances list_all2_advances_trans by (metis fold_simps(2))
qed (simp add: list.rel_refl)

lemma fold_sectors_other:
  assumes "i < length (sectors_sdr_pipeline db)" "\<forall>t\<in>set ts. \<not> same_sector t (sectors_sdr_pipeline db ! i)"
  shows "sectors_sdr_pipeline (fold (poll_sector env height) ts db) ! i = sectors_sdr_pipeline db ! i"
  using assms
proof (induction ts arbitrary: db)
  case (Cons t ts)
  have same: "sectors_sdr_pipeline (poll_sector env height t db) ! i = sectors_sdr_pipeline db ! i"
    using Cons.prems sector.op_other_sectors by simp
  moreover have "i < length (sectors_sdr_pipeline (poll_sector env height t db))"
    using sector.op_advances Cons.prems(1) by (metis list_all2_lengthD)
  ultimately show ?case using Cons by simp
qed simp

lemma snapshot_current:
  assumes "keys_ok db" "t \<in> set (sectors_sdr_pipeline db)" "pipeline_ok db"
  shows "snapshot t db"
  unfolding snapshot_def
proof (intro conjI ballI impI)
  show "row_ok t" using assms(2,3) by (simp add: pipeline_ok_def)
next
  fix r assume "r \<in> set (sectors_sdr_pipeline db)" "same_sector t r"
  then have "r = t" using assms distinct_key_eq [of sector_key "sectors_sdr_pipeline db" r t]
    by (simp add: keys_ok_def same_sector_def sector_key_def)
  then show "advances t r" by simp
qed

subsection \<open>Batches\<close>

lemma assign_batch_True:
  assumes "assign_batch fires free f bs db = (Inr True, db')"
  obtains b where "b \<in> set bs" "fires b" "db' = update_pipeline (\<lambda>r. in_batch b r \<and> free r) f db"
    "count_where (\<lambda>r. in_batch b r \<and> free r) (sectors_sdr_pipeline db) > 0"
  using assms by (induction bs) (auto split: if_splits)

text \<open>What a batch poller did to the table: nothing, or one batch got the new task.\<close>

definition batch_outcome ::
  "(pipeline_row \<Rightarrow> bool) \<Rightarrow> (TaskID \<Rightarrow> pipeline_row \<Rightarrow> pipeline_row) \<Rightarrow> (BatchCandidate \<Rightarrow> bool) \<Rightarrow>
   (pipeline_db \<Rightarrow> BatchRow list option) \<Rightarrow> pipeline_db \<Rightarrow> pipeline_db \<Rightarrow> bool" where
  "batch_outcome free f fires cands db db' \<longleftrightarrow>
     db' = db \<or> db' = db\<lparr>pd_harmony := (pd_harmony db)\<lparr>task_seq := task_seq (pd_harmony db) + 1\<rparr>\<rparr> \<or>
     (\<exists>h rows b. h = pd_harmony db' \<and> (\<exists>n. harmony_task h = harmony_task (pd_harmony db) @ [n] \<and>
          t_id n = task_seq (pd_harmony db) \<and> t_owner_id n = None) \<and>
        cands (db\<lparr>pd_harmony := h\<rparr>) = Some rows \<and> b \<in> set (GroupBatchRows rows) \<and> fires b \<and>
        count_where (\<lambda>r. in_batch b r \<and> free r) (sectors_sdr_pipeline db) > 0 \<and>
        sectors_sdr_pipeline db' = update_where (\<lambda>r. in_batch b r \<and> free r) (f (task_seq (pd_harmony db)))
          (sectors_sdr_pipeline db))"

lemma add_stage_batch:
  "batch_outcome free f fires cands db (add_stage_task env s
     (\<lambda>tid db1. case (if se_select_fails env then None else cands db1) of
        None \<Rightarrow> (Inl err, db1)
      | Some rows \<Rightarrow> if rows = [] then (Inr False, db1)
                      else assign_batch fires free (f tid) (GroupBatchRows rows) db1) db)"
  (is "batch_outcome free f fires cands db (add_stage_task env s ?extra db)")
  using add_stage_task_cases [of env s ?extra db]
proof
  let ?h = "snd (insert_task (se_name env s) (se_owner env) (se_now env) (pd_harmony db))"
  assume e: "?extra (task_seq (pd_harmony db)) (db\<lparr>pd_harmony := ?h\<rparr>) = (Inr True, add_stage_task env s ?extra db)"
  then obtain rows where rows: "cands (db\<lparr>pd_harmony := ?h\<rparr>) = Some rows"
    and a: "assign_batch fires free (f (task_seq (pd_harmony db))) (GroupBatchRows rows) (db\<lparr>pd_harmony := ?h\<rparr>) =
      (Inr True, add_stage_task env s ?extra db)"
    by (auto split: option.splits if_splits)
  from a obtain b where b: "b \<in> set (GroupBatchRows rows)" "fires b"
    "add_stage_task env s ?extra db = update_pipeline (\<lambda>r. in_batch b r \<and> free r) (f (task_seq (pd_harmony db)))
       (db\<lparr>pd_harmony := ?h\<rparr>)"
    "count_where (\<lambda>r. in_batch b r \<and> free r) (sectors_sdr_pipeline (db\<lparr>pd_harmony := ?h\<rparr>)) > 0"
    by (rule assign_batch_True)
  have h: "pd_harmony (add_stage_task env s ?extra db) = ?h"
    "sectors_sdr_pipeline (add_stage_task env s ?extra db) =
      update_where (\<lambda>r. in_batch b r \<and> free r) (f (task_seq (pd_harmony db))) (sectors_sdr_pipeline db)"
    unfolding b(3) by (simp_all add: update_pipeline_def)
  have n: "\<exists>n. harmony_task ?h = harmony_task (pd_harmony db) @ [n] \<and> t_id n = task_seq (pd_harmony db) \<and> t_owner_id n = None"
    by (simp add: insert_task_def Let_def)
  show ?thesis unfolding batch_outcome_def h
    by (intro disjI2) (use n rows b(1,2,4) in \<open>auto\<close>)
qed (simp add: batch_outcome_def)

lemma batch_precommit_outcome:
  obtains fires where "batch_outcome precommit_eligible (\<lambda>tid r. r\<lparr>p_task_precommit_msg := Some tid\<rparr>) fires
      (precommit_candidates (se_lookback env) (pcc_MaxPreCommitBatch (preCommit (se_cfg env)))) db
      (pollStartBatchPrecommitMsg env db)"
proof (cases "se_IsSet env pollerPrecommitMsg \<and> se_head env \<noteq> None")
  case False
  then show ?thesis using that by (auto simp: pollStartBatchPrecommitMsg_def batch_outcome_def)
next
  case True
  then obtain height where h: "se_IsSet env pollerPrecommitMsg" "se_head env = Some height" by auto
  have eq: "precommit_eligible = (\<lambda>r. p_after_synth r \<and> p_task_precommit_msg r = None \<and> \<not> p_after_precommit_msg r)"
    by (rule ext) (simp add: precommit_eligible_def)
  show ?thesis
    by (intro that, simp add: pollStartBatchPrecommitMsg_def h Let_def eq) (rule add_stage_batch)
qed

lemma batch_commit_outcome:
  obtains fires where "batch_outcome (\<lambda>r. p_after_porep r \<and> p_task_commit_msg r = None \<and> \<not> p_after_commit_msg r)
      (\<lambda>tid r. r\<lparr>p_task_commit_msg := Some tid\<rparr>) fires
      (commit_candidates (cc_MaxCommitBatch (commit (se_cfg env)))) db (pollStartBatchCommitMsg env db)"
proof (cases "se_IsSet env pollerCommitMsg \<and> se_head env \<noteq> None")
  case False
  then show ?thesis using that by (auto simp: pollStartBatchCommitMsg_def batch_outcome_def)
next
  case True
  then obtain height where h: "se_IsSet env pollerCommitMsg" "se_head env = Some height" by auto
  show ?thesis
    by (intro that, simp add: pollStartBatchCommitMsg_def h Let_def) (rule add_stage_batch)
qed

lemma batch_outcome_cases:
  assumes "batch_outcome free f fires cands db db'"
  obtains "sectors_sdr_pipeline db' = sectors_sdr_pipeline db" "harmony_task (pd_harmony db') = harmony_task (pd_harmony db)"
  | rows b n where "cands (db\<lparr>pd_harmony := pd_harmony db'\<rparr>) = Some rows" "b \<in> set (GroupBatchRows rows)" "fires b"
      "count_where (\<lambda>r. in_batch b r \<and> free r) (sectors_sdr_pipeline db) > 0"
      "sectors_sdr_pipeline db' = update_where (\<lambda>r. in_batch b r \<and> free r) (f (task_seq (pd_harmony db)))
         (sectors_sdr_pipeline db)"
      "harmony_task (pd_harmony db') = harmony_task (pd_harmony db) @ [n]"
      "t_id n = task_seq (pd_harmony db)" "t_owner_id n = None"
  using assms unfolding batch_outcome_def by auto

lemma batch_outcome_rows:
  assumes "batch_outcome free f fires cands db db'"
    and "\<And>tid r. free r \<Longrightarrow> advances r (f tid r)" "\<And>tid r. free r \<Longrightarrow> row_ok r \<Longrightarrow> row_ok (f tid r)"
  shows "list_all2 advances (sectors_sdr_pipeline db) (sectors_sdr_pipeline db')"
    and "pipeline_ok db \<Longrightarrow> pipeline_ok db'"
  using assms(1)
  by (cases rule: batch_outcome_cases,
      use assms(2,3) in \<open>auto simp: pipeline_ok_def update_where_def list_all2_map2 list.rel_refl intro!: list_all2_all_nthI\<close>)+

lemma batch_precommit_rows:
  "list_all2 advances (sectors_sdr_pipeline db) (sectors_sdr_pipeline (pollStartBatchPrecommitMsg env db))"
  "pipeline_ok db \<Longrightarrow> pipeline_ok (pollStartBatchPrecommitMsg env db)"
  by (rule batch_precommit_outcome [of env db], erule batch_outcome_rows,
      auto simp: advances_def row_ok_defs precommit_eligible_def)+

lemma batch_commit_rows:
  "list_all2 advances (sectors_sdr_pipeline db) (sectors_sdr_pipeline (pollStartBatchCommitMsg env db))"
  "pipeline_ok db \<Longrightarrow> pipeline_ok (pollStartBatchCommitMsg env db)"
  by (rule batch_commit_outcome [of env db], erule batch_outcome_rows,
      auto simp: advances_def row_ok_defs)+

text \<open>The rows of a batch are at most as many as its sectors, because sectors are unique.\<close>

lemma in_batch_count:
  assumes "keys_ok db"
  shows "count_where (\<lambda>r. in_batch b r \<and> free r) (sectors_sdr_pipeline db) \<le> length (bc_SectorNums b)"
proof -
  let ?rows = "filter (\<lambda>r. in_batch b r \<and> free r) (sectors_sdr_pipeline db)"
  have "distinct (map sector_key ?rows)"
    using assms by (simp add: keys_ok_def distinct_map_filter)
  moreover have "inj_on snd (set (map sector_key ?rows))"
    by (auto simp: inj_on_def sector_key_def in_batch_def)
  ultimately have "distinct (map snd (map sector_key ?rows))" by (simp only: distinct_map [of snd])
  then have "length ?rows = card (set (map snd (map sector_key ?rows)))"
    by (metis distinct_card length_map)
  also have "\<dots> \<le> card (set (bc_SectorNums b))"
    by (intro card_mono) (auto simp: sector_key_def in_batch_def)
  also have "\<dots> \<le> length (bc_SectorNums b)" by (rule card_length)
  finally show ?thesis by (simp add: count_where_def)
qed

subsection \<open>A stage and its task\<close>

lemma count_where_pos: "count_where p rows > 0 \<Longrightarrow> \<exists>r\<in>set rows. p r"
  by (auto simp: count_where_def filter_empty_conv)

lemma linked_refl [simp]: "linked db db"
  by (simp add: linked_def)

lemma stage_linked:
  assumes "\<And>tid r. Some tid \<in> set (task_columns (f tid r))"
  shows "linked db (add_stage_task env s (assign_one p f) db)"
  using add_stage_task_cases [of env s "assign_one p f" db]
proof
  let ?h = "snd (insert_task (se_name env s) (se_owner env) (se_now env) (pd_harmony db))"
  assume e: "assign_one p f (task_seq (pd_harmony db)) (db\<lparr>pd_harmony := ?h\<rparr>) =
    (Inr True, add_stage_task env s (assign_one p f) db)"
  note a = assign_one_True [OF e]
  then have "count_where p (sectors_sdr_pipeline db) > 0" by simp
  then obtain r where "r \<in> set (sectors_sdr_pipeline db)" "p r" using count_where_pos by blast
  then have "f (task_seq (pd_harmony db)) r \<in> set (sectors_sdr_pipeline (add_stage_task env s (assign_one p f) db))"
    using a by (simp add: update_pipeline_def table_simps)
  moreover have "pd_harmony (add_stage_task env s (assign_one p f) db) = ?h" using a by (simp add: update_pipeline_def)
  moreover have "\<exists>n. harmony_task ?h = harmony_task (pd_harmony db) @ [n] \<and> t_id n = task_seq (pd_harmony db) \<and>
      t_owner_id n = None" by (simp add: insert_task_def Let_def)
  ultimately show ?thesis
    unfolding linked_def using assms [of "task_seq (pd_harmony db)" r] by metis
qed (simp add: linked_def)

lemma batch_linked:
  assumes "batch_outcome free f fires cands db db'" "\<And>tid r. Some tid \<in> set (task_columns (f tid r))"
  shows "linked db db'"
  using assms(1)
proof (cases rule: batch_outcome_cases)
  case (2 rows b n)
  obtain r where "r \<in> set (sectors_sdr_pipeline db)" "in_batch b r" "free r" using count_where_pos [OF 2(4)] by blast
  then have "f (task_seq (pd_harmony db)) r \<in> set (sectors_sdr_pipeline db')" by (simp add: 2(5) table_simps)
  with 2(6-8) assms(2) [of "task_seq (pd_harmony db)" r] show ?thesis unfolding linked_def by metis
qed (simp add: linked_def)

section \<open>Properties\<close>

text \<open>
  a round of the poller keeps the order of the stages. If every stage that has a task
  has what it depends on (the data tree the replica, the column and replica trees the data
  tree, the synthetic proofs the trees, the messages and the PoRep the stages before them,
  moving the finalized sector), this is so after the round, whatever fails during it.
\<close>

theorem poll_keeps_stage_order:
  assumes "pipeline_ok db" "keys_ok db"
  shows "pipeline_ok (snd (poll env db))"
proof -
  have "\<forall>t\<in>set (poll_tasks db). snapshot t db"
    using snapshot_current [OF assms(2) _ assms(1)] by (simp add: poll_tasks_def)
  with assms show ?thesis
    by (simp add: poll_def fold_sectors_ok batch_precommit_rows(2) batch_commit_rows(2) split: option.splits)
qed

theorem poll_keeps_stage_order_witness:
  "pipeline_ok (snd (poll ex_seal_env (ex_pipeline [ex_sector 1, ex_sealed 2])))"
  by (rule poll_keeps_stage_order)
    (simp_all add: ex_pipeline_def ex_sealed_def ex_sector_def pipeline_ok_def row_ok_defs keys_ok_def sector_key_def)

text \<open>
  a round of the poller loses no progress. Every row stays in its place and keeps its
  sector, its finished stages and the chain epochs once they are set; no sector is removed
  or marked failed.
\<close>

theorem poll_keeps_progress:
  "list_all2 advances (sectors_sdr_pipeline db) (sectors_sdr_pipeline (snd (poll env db)))"
proof (cases "se_select_fails env \<or> se_head env = None")
  case True
  then show ?thesis by (auto simp: poll_def list.rel_refl)
next
  case False
  then obtain height where "\<not> se_select_fails env" "se_head env = Some height" by auto
  then show ?thesis
    using list_all2_advances_trans [OF list_all2_advances_trans [OF fold_sectors_advances
        batch_precommit_rows(1)] batch_commit_rows(1)]
    by (simp add: poll_def)
qed

text \<open>
  a stage and its task appear together. Each of the nine operations that start a stage
  either leaves the tasks and the pipeline as they were, or adds exactly one unowned task
  and stores its ID in a pipeline row in the same transaction.
\<close>

theorem stage_starts_with_task:
  "linked db (pollStartSDR env t db) \<and> linked db (pollStartSDRTreeD env t db) \<and>
   linked db (pollStartSDRTreeRC env t db) \<and> linked db (pollStartSynth env t db) \<and>
   linked db (pollStartPoRep env height t db) \<and> linked db (pollStartFinalize env t db) \<and>
   linked db (pollStartMoveStorage env t db) \<and>
   linked db (pollStartBatchPrecommitMsg env db) \<and> linked db (pollStartBatchCommitMsg env db)"
proof (intro conjI)
  show "linked db (pollStartBatchPrecommitMsg env db)"
    by (rule batch_precommit_outcome [of env db], erule batch_linked) (simp add: task_columns_def)
  show "linked db (pollStartBatchCommitMsg env db)"
    by (rule batch_commit_outcome [of env db], erule batch_linked) (simp add: task_columns_def)
qed (simp_all add: pollStartSDR_def pollStartSDRTreeD_def pollStartSDRTreeRC_def pollStartSynth_def
    pollStartPoRep_def pollStartFinalize_def pollStartMoveStorage_def stage_linked task_columns_def)

text \<open>
  C30: precommit batches. When the batch size is positive, a call assigns its task to at
  most that many sectors, all of one provider and one proof type, each with its synthetic
  proofs done and no precommit message under way; no other row changes.
\<close>

theorem precommit_batch_bounded:
  assumes "keys_ok db" "0 < pcc_MaxPreCommitBatch (preCommit (se_cfg env))"
  shows "\<exists>p. sectors_sdr_pipeline (pollStartBatchPrecommitMsg env db) =
      update_where p (\<lambda>r. r\<lparr>p_task_precommit_msg := Some (task_seq (pd_harmony db))\<rparr>) (sectors_sdr_pipeline db) \<and>
    int (count_where p (sectors_sdr_pipeline db)) \<le> pcc_MaxPreCommitBatch (preCommit (se_cfg env)) \<and>
    (\<forall>r r'. p r \<and> p r' \<longrightarrow> p_sp_id r = p_sp_id r' \<and> p_reg_seal_proof r = p_reg_seal_proof r') \<and>
    (\<forall>r. p r \<longrightarrow> precommit_eligible r)"
proof -
  obtain fires where "batch_outcome precommit_eligible (\<lambda>tid r. r\<lparr>p_task_precommit_msg := Some tid\<rparr>) fires
      (precommit_candidates (se_lookback env) (pcc_MaxPreCommitBatch (preCommit (se_cfg env)))) db
      (pollStartBatchPrecommitMsg env db)" by (rule batch_precommit_outcome)
  then show ?thesis
  proof (cases rule: batch_outcome_cases)
    case 1
    then show ?thesis using assms(2)
      by (intro exI [of _ "\<lambda>_. False"]) (simp add: update_where_def count_where_def)
  next
    case (2 rows b n)
    then obtain k xs where "rows = number_batches k (pcc_MaxPreCommitBatch (preCommit (se_cfg env))) xs"
      by (auto simp: precommit_candidates_def Let_def split: if_splits)
    with candidate_size 2(2) assms(2)
    have "int (length (bc_SectorNums b)) \<le> pcc_MaxPreCommitBatch (preCommit (se_cfg env))" by blast
    with in_batch_count [OF assms(1), of b precommit_eligible] 2(5) show ?thesis
      by (intro exI [of _ "\<lambda>r. in_batch b r \<and> precommit_eligible r"]) (auto simp: in_batch_def)
  qed
qed

theorem precommit_batch_bounded_witness:
  "\<exists>p. int (count_where p (sectors_sdr_pipeline (ex_pipeline [ex_sealed 1, ex_sealed 2, ex_sealed 3]))) \<le> 2 \<and>
     map p_task_precommit_msg (sectors_sdr_pipeline
       (pollStartBatchPrecommitMsg ex_seal_env (ex_pipeline [ex_sealed 1, ex_sealed 2, ex_sealed 3]))) =
     [Some 1, Some 1, None] \<and> p (ex_sealed 1)"
proof -
  let ?db = "ex_pipeline [ex_sealed 1, ex_sealed 2, ex_sealed 3]"
  have k: "keys_ok ?db"
    by (simp add: ex_pipeline_def ex_sealed_def ex_sector_def keys_ok_def sector_key_def)
  have m: "pcc_MaxPreCommitBatch (preCommit (se_cfg ex_seal_env)) = 2" by code_simp
  have e: "map p_task_precommit_msg (sectors_sdr_pipeline (pollStartBatchPrecommitMsg ex_seal_env ?db)) =
     [Some 1, Some 1, None]" by code_simp
  obtain p where p: "sectors_sdr_pipeline (pollStartBatchPrecommitMsg ex_seal_env ?db) =
      update_where p (\<lambda>r. r\<lparr>p_task_precommit_msg := Some (task_seq (pd_harmony ?db))\<rparr>) (sectors_sdr_pipeline ?db)"
    "int (count_where p (sectors_sdr_pipeline ?db)) \<le> 2"
    using precommit_batch_bounded [OF k, of ex_seal_env] unfolding m by auto
  have rows: "sectors_sdr_pipeline ?db = [ex_sealed 1, ex_sealed 2, ex_sealed 3]" by (simp add: ex_pipeline_def)
  have free: "p_task_precommit_msg (ex_sealed 1) = None" by (simp add: ex_sealed_def ex_sector_def)
  have "p (ex_sealed 1)"
  proof (rule ccontr)
    assume "\<not> p (ex_sealed 1)"
    then have "hd (map p_task_precommit_msg (sectors_sdr_pipeline (pollStartBatchPrecommitMsg ex_seal_env ?db))) = None"
      unfolding p(1) rows update_where_def by (simp add: free)
    with e show False by simp
  qed
  then show ?thesis by (intro exI [of _ p] conjI p(2) e)
qed

text \<open>
  commit batches. When the batch size is positive, a call assigns its task to at most
  that many sectors, all of one provider and one proof type, each with its PoRep done and
  no commit message under way; no other row changes.
\<close>

theorem commit_batch_bounded:
  assumes "keys_ok db" "0 < cc_MaxCommitBatch (commit (se_cfg env))"
  shows "\<exists>p. sectors_sdr_pipeline (pollStartBatchCommitMsg env db) =
      update_where p (\<lambda>r. r\<lparr>p_task_commit_msg := Some (task_seq (pd_harmony db))\<rparr>) (sectors_sdr_pipeline db) \<and>
    int (count_where p (sectors_sdr_pipeline db)) \<le> cc_MaxCommitBatch (commit (se_cfg env)) \<and>
    (\<forall>r r'. p r \<and> p r' \<longrightarrow> p_sp_id r = p_sp_id r' \<and> p_reg_seal_proof r = p_reg_seal_proof r') \<and>
    (\<forall>r. p r \<longrightarrow> p_after_porep r \<and> p_task_commit_msg r = None \<and> \<not> p_after_commit_msg r)"
proof -
  let ?free = "\<lambda>r. p_after_porep r \<and> p_task_commit_msg r = None \<and> \<not> p_after_commit_msg r"
  obtain fires where "batch_outcome ?free (\<lambda>tid r. r\<lparr>p_task_commit_msg := Some tid\<rparr>) fires
      (commit_candidates (cc_MaxCommitBatch (commit (se_cfg env)))) db (pollStartBatchCommitMsg env db)"
    by (rule batch_commit_outcome)
  then show ?thesis
  proof (cases rule: batch_outcome_cases)
    case 1
    then show ?thesis using assms(2)
      by (intro exI [of _ "\<lambda>_. False"]) (simp add: update_where_def count_where_def)
  next
    case (2 rows b n)
    then obtain k xs where "rows = number_batches k (cc_MaxCommitBatch (commit (se_cfg env))) xs"
      by (auto simp: commit_candidates_def Let_def split: if_splits)
    with candidate_size 2(2) assms(2)
    have "int (length (bc_SectorNums b)) \<le> cc_MaxCommitBatch (commit (se_cfg env))" by blast
    with in_batch_count [OF assms(1), of b ?free] 2(5) show ?thesis
      by (intro exI [of _ "\<lambda>r. in_batch b r \<and> ?free r"]) (auto simp: in_batch_def)
  qed
qed

theorem commit_batch_bounded_witness:
  "\<exists>p. int (count_where p (sectors_sdr_pipeline (ex_pipeline [ex_sealed 1]))) \<le> 2 \<and>
     (\<forall>r. p r \<longrightarrow> p_after_porep r)"
proof -
  have k: "keys_ok (ex_pipeline [ex_sealed 1])" by (simp add: ex_pipeline_def keys_ok_def)
  have m: "cc_MaxCommitBatch (commit (se_cfg ex_seal_env)) = 2" by code_simp
  show ?thesis using commit_batch_bounded [OF k, of ex_seal_env] unfolding m by auto
qed

text \<open>
  the per-sector part of a round does not touch a failed sector.
\<close>

theorem failed_sector_not_polled:
  assumes "keys_ok db" "i < length (sectors_sdr_pipeline db)" "p_failed (sectors_sdr_pipeline db ! i)"
  shows "sectors_sdr_pipeline (fold (poll_sector env height) (poll_tasks db) db) ! i = sectors_sdr_pipeline db ! i"
proof (rule fold_sectors_other [OF assms(2)], rule ballI, rule notI)
  fix t assume t: "t \<in> set (poll_tasks db)" "same_sector t (sectors_sdr_pipeline db ! i)"
  then have "t \<in> set (sectors_sdr_pipeline db)" "\<not> p_failed t" by (auto simp: poll_tasks_def)
  moreover have "sector_key t = sector_key (sectors_sdr_pipeline db ! i)"
    using t(2) by (simp add: same_sector_def sector_key_def)
  ultimately show False
    using assms distinct_key_eq [of sector_key "sectors_sdr_pipeline db" t "sectors_sdr_pipeline db ! i"]
    by (simp add: keys_ok_def)
qed

theorem failed_sector_not_polled_witness:
  "sectors_sdr_pipeline (fold (poll_sector ex_seal_env 400)
     (poll_tasks (ex_pipeline [(ex_sector 1)\<lparr>p_failed := True\<rparr>, ex_sector 2])) (ex_pipeline [(ex_sector 1)\<lparr>p_failed := True\<rparr>, ex_sector 2])) ! 0 =
   (ex_sector 1)\<lparr>p_failed := True\<rparr>"
  using failed_sector_not_polled [of "ex_pipeline [(ex_sector 1)\<lparr>p_failed := True\<rparr>, ex_sector 2]" 0 ex_seal_env 400]
  by (simp add: ex_pipeline_def ex_sector_def keys_ok_def sector_key_def)

text \<open>
  the batch queries do not look at the failed flag. A sector that the precommit task
  gave up (marked failed, with the task column cleared) is put into a precommit batch
  again by the next round.
\<close>

theorem failed_sector_batched_again:
  "\<exists>env db. let r = hd (sectors_sdr_pipeline db); r' = hd (sectors_sdr_pipeline (snd (poll env db))) in
     p_failed r \<and> p_task_precommit_msg r = None \<and> p_failed r' \<and> p_task_precommit_msg r' \<noteq> None"
proof -
  let ?db = "ex_pipeline [(ex_sealed 1)\<lparr>p_failed := True\<rparr>]"
  have "let r = hd (sectors_sdr_pipeline ?db); r' = hd (sectors_sdr_pipeline (snd (poll ex_seal_env ?db))) in
     p_failed r \<and> p_task_precommit_msg r = None \<and> p_failed r' \<and> p_task_precommit_msg r' = Some 1"
    by code_simp
  then show ?thesis by (intro exI [of _ ex_seal_env] exI [of _ ?db]) (simp add: Let_def)
qed

text \<open>
  a stage can be started again after it finished. The update of the first stage does
  not look at the stage's own flag, so a round that read the row before the stage finished
  gives the finished sector a new task.
\<close>

theorem stale_snapshot_restarts_SDR:
  "\<exists>env t db. snapshot t db \<and> keys_ok db \<and>
     (let r = hd (sectors_sdr_pipeline db); r' = hd (sectors_sdr_pipeline (pollStartSDR env t db)) in
      p_after_sdr r \<and> p_task_sdr r = None \<and> p_after_sdr r' \<and> p_task_sdr r' \<noteq> None)"
proof -
  let ?t = "ex_sector 1" and ?db = "ex_pipeline [ex_sealed 1]"
  have "let r = hd (sectors_sdr_pipeline ?db); r' = hd (sectors_sdr_pipeline (pollStartSDR ex_seal_env ?t ?db)) in
     p_after_sdr r \<and> p_task_sdr r = None \<and> p_after_sdr r' \<and> p_task_sdr r' = Some 1"
    by code_simp
  moreover have "snapshot ?t ?db" "keys_ok ?db"
    by (simp_all add: snapshot_def row_ok_defs keys_ok_def ex_pipeline_def advances_def ex_sealed_def ex_sector_def)
  ultimately show ?thesis by (intro exI [of _ ex_seal_env] exI [of _ ?t] exI [of _ ?db]) (simp add: Let_def)
qed

end
