(* ===== verification/FileTypes.thy ===== *)
theory FileTypes
  imports Prelude "HOL-Library.Char_ord"
begin

unbundle bit_operations_syntax

text \<open>
  Sector file types (\<open>lib/storiface/filetype.go\<close>): a bit set of kinds of files, the rules
  that allow or deny kinds on a storage path, the space they use, the paths of a sector
  and its name.

  A Go \<open>int\<close> used as a bit set is a 64-bit word. A panic is \<open>None\<close>.
\<close>

section \<open>The types\<close>

type_synonym SectorFileType = "64 word"

definition FTUnsealed :: SectorFileType where "FTUnsealed = 1"
definition FTSealed :: SectorFileType where "FTSealed = 2"
definition FTCache :: SectorFileType where "FTCache = 4"
definition FTUpdate :: SectorFileType where "FTUpdate = 8"
definition FTUpdateCache :: SectorFileType where "FTUpdateCache = 16"
definition FTPiece :: SectorFileType where "FTPiece = 32"
definition FTKey :: SectorFileType where "FTKey = 64"
definition FileTypes_count :: nat where "FileTypes_count = 7"

definition PathTypes :: "SectorFileType list" where
  "PathTypes = [FTUnsealed, FTSealed, FTCache, FTUpdate, FTUpdateCache, FTPiece, FTKey]"

definition FTNone :: SectorFileType where "FTNone = 0"
definition FTAll :: SectorFileType where "FTAll = fold (\<lambda>pathType out. out OR pathType) PathTypes 0"

definition FSOverheadDen :: uint64 where "FSOverheadDen = 10"

definition FSOverheadSeal :: "SectorFileType \<rightharpoonup> uint64" where
  "FSOverheadSeal = map_of [(FTUnsealed, FSOverheadDen), (FTSealed, FSOverheadDen), (FTUpdate, FSOverheadDen),
     (FTUpdateCache, FSOverheadDen * 2 + 1), (FTCache, 141), (FTPiece, FSOverheadDen), (FTKey, FSOverheadDen * 11 + 1)]"

definition FsOverheadFinalized :: "SectorFileType \<rightharpoonup> uint64" where
  "FsOverheadFinalized = map_of [(FTUnsealed, FSOverheadDen), (FTSealed, FSOverheadDen), (FTUpdate, FSOverheadDen),
     (FTUpdateCache, 1), (FTCache, 1), (FTPiece, FSOverheadDen), (FTKey, FSOverheadDen)]"

definition TypeFromString :: "string \<Rightarrow> SectorFileType option" where
  "TypeFromString = map_of [(''unsealed'', FTUnsealed), (''sealed'', FTSealed), (''cache'', FTCache),
     (''update'', FTUpdate), (''update-cache'', FTUpdateCache), (''piece'', FTPiece), (''key'', FTKey)]"

text \<open>The name of a single type; any other set prints as an unknown type, here \<open>None\<close>.\<close>

definition TypeString :: "SectorFileType \<Rightarrow> string option" where
  "TypeString = map_of [(FTUnsealed, ''unsealed''), (FTSealed, ''sealed''), (FTCache, ''cache''),
     (FTUpdate, ''update''), (FTUpdateCache, ''update-cache''), (FTPiece, ''piece''), (FTKey, ''key'')]"

section \<open>Queries\<close>

definition AllSet :: "SectorFileType \<Rightarrow> SectorFileType list" where
  "AllSet t = filter (\<lambda>fileType. fileType AND t \<noteq> 0) PathTypes"

definition Strings :: "SectorFileType \<Rightarrow> string option list" where
  "Strings t = map TypeString (filter (\<lambda>fileType. fileType AND t \<noteq> 0) PathTypes)"

definition Has :: "SectorFileType \<Rightarrow> SectorFileType \<Rightarrow> bool" where
  "Has t singleType \<longleftrightarrow> t AND singleType = singleType"

definition Unset :: "SectorFileType \<Rightarrow> SectorFileType \<Rightarrow> SectorFileType" where
  "Unset t toUnset = t AND NOT toUnset"

definition All :: "SectorFileType \<Rightarrow> bool list" where
  "All t = map (\<lambda>i. t AND push_bit i 1 \<noteq> 0) [0..<FileTypes_count]"

definition IsNone :: "SectorFileType \<Rightarrow> bool" where
  "IsNone t \<longleftrightarrow> t = 0"

definition allow_mask :: "string list \<Rightarrow> SectorFileType \<Rightarrow> SectorFileType" where
  "allow_mask allowTypes = fold (\<lambda>s mask. case TypeFromString s of None \<Rightarrow> mask | Some pt \<Rightarrow> mask AND NOT pt) allowTypes"

definition deny_mask :: "string list \<Rightarrow> SectorFileType \<Rightarrow> SectorFileType" where
  "deny_mask denyTypes = fold (\<lambda>s mask. case TypeFromString s of None \<Rightarrow> mask | Some pt \<Rightarrow> mask OR pt) denyTypes"

definition SubAllowed :: "SectorFileType \<Rightarrow> string list \<Rightarrow> string list \<Rightarrow> SectorFileType" where
  "SubAllowed t allowTypes denyTypes =
     (let denyMask = 0;
          denyMask1 = (if length allowTypes > 0 then allow_mask allowTypes (NOT denyMask) else denyMask)
      in t AND deny_mask denyTypes denyMask1)"

definition AnyAllowed :: "SectorFileType \<Rightarrow> string list \<Rightarrow> string list \<Rightarrow> bool" where
  "AnyAllowed t allowTypes denyTypes \<longleftrightarrow> SubAllowed t allowTypes denyTypes \<noteq> t"

definition Allowed :: "SectorFileType \<Rightarrow> string list \<Rightarrow> string list \<Rightarrow> bool" where
  "Allowed t allowTypes denyTypes \<longleftrightarrow> SubAllowed t allowTypes denyTypes = 0"

section \<open>Space\<close>

datatype space_error = NoOverhead SectorFileType

fun space_use ::
  "(SectorFileType \<rightharpoonup> uint64) \<Rightarrow> SectorFileType \<Rightarrow> uint64 \<Rightarrow> SectorFileType list \<Rightarrow> uint64 \<Rightarrow> space_error + uint64" where
  "space_use overhead t ssize [] need = Inr need"
| "space_use overhead t ssize (pathType # ps) need =
     (if \<not> Has t pathType then space_use overhead t ssize ps need
      else case overhead pathType of
        None \<Rightarrow> Inl (NoOverhead pathType)
      | Some oh \<Rightarrow> space_use overhead t ssize ps (need + oh * ssize div FSOverheadDen))"

definition SealSpaceUse :: "SectorFileType \<Rightarrow> uint64 \<Rightarrow> space_error + uint64" where
  "SealSpaceUse t ssize = space_use FSOverheadSeal t ssize PathTypes 0"

definition StoreSpaceUse :: "SectorFileType \<Rightarrow> uint64 \<Rightarrow> space_error + uint64" where
  "StoreSpaceUse t ssize = space_use FsOverheadFinalized t ssize PathTypes 0"

section \<open>Paths\<close>

record SectorID =
  sid_Miner :: uint64
  sid_Number :: uint64

record SectorPaths =
  sp_ID :: SectorID
  sp_Unsealed :: string
  sp_Sealed :: string
  sp_Cache :: string
  sp_Update :: string
  sp_UpdateCache :: string
  sp_Piece :: string
  sp_Key :: string

definition PathByType :: "SectorPaths \<Rightarrow> SectorFileType \<Rightarrow> string option" where
  "PathByType sps fileType =
     (if fileType = FTUnsealed then Some (sp_Unsealed sps)
      else if fileType = FTSealed then Some (sp_Sealed sps)
      else if fileType = FTCache then Some (sp_Cache sps)
      else if fileType = FTUpdate then Some (sp_Update sps)
      else if fileType = FTUpdateCache then Some (sp_UpdateCache sps)
      else if fileType = FTPiece then Some (sp_Piece sps)
      else if fileType = FTKey then Some (sp_Key sps)
      else None)"

definition SetPathByType :: "SectorFileType \<Rightarrow> string \<Rightarrow> SectorPaths \<Rightarrow> SectorPaths" where
  "SetPathByType fileType p sps =
     (if fileType = FTUnsealed then sps\<lparr>sp_Unsealed := p\<rparr>
      else if fileType = FTSealed then sps\<lparr>sp_Sealed := p\<rparr>
      else if fileType = FTCache then sps\<lparr>sp_Cache := p\<rparr>
      else if fileType = FTUpdate then sps\<lparr>sp_Update := p\<rparr>
      else if fileType = FTUpdateCache then sps\<lparr>sp_UpdateCache := p\<rparr>
      else if fileType = FTPiece then sps\<lparr>sp_Piece := p\<rparr>
      else if fileType = FTKey then sps\<lparr>sp_Key := p\<rparr>
      else sps)"

definition HasAllSet :: "SectorPaths \<Rightarrow> SectorFileType \<Rightarrow> bool" where
  "HasAllSet sp ft \<longleftrightarrow> list_all (\<lambda>fileType. PathByType sp fileType \<noteq> Some '''') (AllSet ft)"

definition zero_paths :: SectorPaths where
  "zero_paths = \<lparr>sp_ID = \<lparr>sid_Miner = 0, sid_Number = 0\<rparr>, sp_Unsealed = '''', sp_Sealed = '''', sp_Cache = '''',
     sp_Update = '''', sp_UpdateCache = '''', sp_Piece = '''', sp_Key = ''''\<rparr>"

definition Subset :: "SectorPaths \<Rightarrow> SectorFileType \<Rightarrow> SectorPaths" where
  "Subset sp fltr =
     (fold (\<lambda>fileType out. case PathByType sp fileType of None \<Rightarrow> out | Some p \<Rightarrow> SetPathByType fileType p out)
        (AllSet fltr) zero_paths)\<lparr>sp_ID := sp_ID sp\<rparr>"

section \<open>Names\<close>

text \<open>
  The verb \<open>%d\<close> of \<open>Sprintf\<close> writes decimal digits. In \<open>Sscanf\<close> it skips blanks, reads the
  longest run of digits, which must not be empty, and rejects what does not fit the type;
  the other characters of the format have to be there; what follows is ignored.
\<close>

definition digit :: "nat \<Rightarrow> char" where "digit d = char_of (48 + d)"

fun print_dec :: "nat \<Rightarrow> string" where
  "print_dec n = (if n < 10 then [digit n] else print_dec (n div 10) @ [digit (n mod 10)])"

declare print_dec.simps [simp del]

definition is_digit :: "char \<Rightarrow> bool" where
  "is_digit c \<longleftrightarrow> 48 \<le> (of_char c :: nat) \<and> (of_char c :: nat) \<le> 57"

definition is_blank :: "char \<Rightarrow> bool" where
  "is_blank c \<longleftrightarrow> (of_char c :: nat) \<in> {9, 11, 12, 13, 32}"

definition dec_value :: "string \<Rightarrow> nat" where
  "dec_value ds = foldl (\<lambda>acc c. 10 * acc + ((of_char c :: nat) - 48)) 0 ds"

definition scan_uint64 :: "string \<Rightarrow> (uint64 \<times> string) option" where
  "scan_uint64 s =
     (let s1 = dropWhile is_blank s; ds = takeWhile is_digit s1
      in if ds = [] \<or> dec_value ds \<ge> 2 ^ 64 then None
         else Some (of_nat (dec_value ds), dropWhile is_digit s1))"

fun scan_literal :: "string \<Rightarrow> string \<Rightarrow> string option" where
  "scan_literal [] s = Some s"
| "scan_literal (c # cs) [] = None"
| "scan_literal (c # cs) (d # ds) = (if c = d then scan_literal cs ds else None)"

definition ParseSectorID :: "string \<Rightarrow> SectorID option" where
  "ParseSectorID baseName =
     Option.bind (scan_literal ''s-t0'' baseName) (\<lambda>s1.
     Option.bind (scan_uint64 s1) (\<lambda>(mid, s2).
     Option.bind (scan_literal ''-'' s2) (\<lambda>s3.
     Option.bind (scan_uint64 s3) (\<lambda>(n, _).
     Some \<lparr>sid_Miner = mid, sid_Number = n\<rparr>))))"

definition SectorName :: "SectorID \<Rightarrow> string" where
  "SectorName sid = ''s-t0'' @ print_dec (unat (sid_Miner sid)) @ ''-'' @ print_dec (unat (sid_Number sid))"

section \<open>Specification\<close>

text \<open>A type may be stored under the rules: allowed by name when a list is given, and not denied.\<close>

definition permitted :: "string list \<Rightarrow> string list \<Rightarrow> SectorFileType \<Rightarrow> bool" where
  "permitted allowTypes denyTypes ft \<longleftrightarrow>
     (allowTypes = [] \<or> (\<exists>s\<in>set allowTypes. TypeFromString s = Some ft)) \<and>
     (\<forall>s\<in>set denyTypes. TypeFromString s \<noteq> Some ft)"

section \<open>Lemmas\<close>

lemmas type_defs = FTUnsealed_def FTSealed_def FTCache_def FTUpdate_def FTUpdateCache_def FTPiece_def FTKey_def

lemma PathTypes_powers: "PathTypes = map (\<lambda>k. 2 ^ k) [0..<7]"
  by (simp add: PathTypes_def type_defs upt_rec)

lemma set_PathTypes: "ft \<in> set PathTypes \<longleftrightarrow> (\<exists>k<7. ft = 2 ^ k)"
  by (auto simp: PathTypes_powers)

lemma bit_power: "k < 64 \<Longrightarrow> bit (2 ^ k :: SectorFileType) n \<longleftrightarrow> n = k"
  by (auto simp: bit_exp_iff)

lemma TypeFromString_range: "TypeFromString s = Some ft \<Longrightarrow> ft \<in> set PathTypes"
  unfolding TypeFromString_def by (drule map_of_SomeD) (auto simp: PathTypes_def)

lemma bit_named: "TypeFromString s = Some ft \<Longrightarrow> bit ft n \<longleftrightarrow> ft = 2 ^ n \<and> n < 7"
proof -
  assume "TypeFromString s = Some ft"
  then obtain k where "k < 7" "ft = 2 ^ k" using TypeFromString_range set_PathTypes by blast
  moreover have "n = k" if "(2 :: SectorFileType) ^ k = 2 ^ n" "n < 7"
    using arg_cong [OF that(1), of "\<lambda>w. bit w n"] bit_power [of k n] bit_power [of n n] that(2) \<open>k < 7\<close> by auto
  ultimately show ?thesis using bit_power [of k n] by auto
qed

lemma set_AllSet: "ft \<in> set (AllSet t) \<longleftrightarrow> (\<exists>k<7. ft = 2 ^ k \<and> bit t k)"
proof -
  have "(2 ^ k AND t \<noteq> 0) = bit t k" for k by (metis and.commute and_exp_eq_0_iff_not_bit)
  then show ?thesis by (auto simp: AllSet_def set_PathTypes)
qed

lemma FTAll_bits: "bit FTAll n \<longleftrightarrow> n < 7"
proof -
  have "FTAll = (mask 7 :: SectorFileType)" by code_simp
  then show ?thesis unfolding \<open>FTAll = mask 7\<close> by (auto simp: bit_mask_iff)
qed

lemma bit_allow_mask:
  "bit (allow_mask ss m) n \<longleftrightarrow> bit m n \<and> (\<forall>s\<in>set ss. \<forall>pt. TypeFromString s = Some pt \<longrightarrow> \<not> bit pt n)"
proof (induction ss arbitrary: m)
  case (Cons s ss)
  have "bit m n \<Longrightarrow> n < 64" using bit_imp_le_length [of m n] by simp
  with Cons.IH show ?case
    by (auto simp: allow_mask_def bit_and_iff bit_not_iff split: option.splits)
qed (simp add: allow_mask_def)

lemma bit_deny_mask:
  "bit (deny_mask ss m) n \<longleftrightarrow> bit m n \<or> (\<exists>s\<in>set ss. \<exists>pt. TypeFromString s = Some pt \<and> bit pt n)"
proof (induction ss arbitrary: m)
  case (Cons s ss)
  then show ?case by (auto simp: deny_mask_def bit_or_iff split: option.splits)
qed (simp add: deny_mask_def)

lemma bit_SubAllowed:
  assumes "n < 7"
  shows "bit (SubAllowed t allow deny) n \<longleftrightarrow> bit t n \<and> \<not> permitted allow deny (2 ^ n)"
proof -
  have named: "(TypeFromString s = Some pt \<and> bit pt n) \<longleftrightarrow> TypeFromString s = Some (2 ^ n) \<and> pt = 2 ^ n" for s pt
    using bit_named [of s pt n] assms by auto
  then have ex: "(\<exists>pt. TypeFromString s = Some pt \<and> bit pt n) \<longleftrightarrow> TypeFromString s = Some (2 ^ n)" for s by blast
  have all: "(\<forall>pt. TypeFromString s = Some pt \<longrightarrow> \<not> bit pt n) \<longleftrightarrow> TypeFromString s \<noteq> Some (2 ^ n)" for s
    using ex by blast
  show ?thesis
    using assms unfolding SubAllowed_def Let_def permitted_def bit_and_iff bit_deny_mask ex
    by (cases "allow = []") (auto simp: bit_allow_mask all bit_not_iff)
qed

lemma SubAllowed_known:
  assumes "t AND FTAll = t" "bit (SubAllowed t allow deny) n"
  shows "n < 7"
proof -
  have "bit t n" using assms(2) by (simp add: SubAllowed_def Let_def bit_and_iff)
  then show ?thesis using assms(1) FTAll_bits by (metis bit_and_iff)
qed

subsection \<open>Space\<close>

lemma Has_AllSet: "filter (Has t) PathTypes = AllSet t"
proof -
  have "Has t (2 ^ k) \<longleftrightarrow> 2 ^ k AND t \<noteq> 0" if "k < 7" for k
  proof -
    have "t AND 2 ^ k = 2 ^ k \<longleftrightarrow> bit t k"
    proof
      assume "t AND 2 ^ k = 2 ^ k"
      then have "bit (t AND 2 ^ k) k = bit (2 ^ k :: SectorFileType) k" by simp
      then show "bit t k" using that bit_power [of k k] by (simp add: bit_and_iff)
    next
      assume "bit t k"
      then show "t AND 2 ^ k = 2 ^ k" using that by (intro bit_word_eqI) (auto simp: bit_and_iff bit_power)
    qed
    then show ?thesis by (metis Has_def and.commute and_exp_eq_0_iff_not_bit)
  qed
  then show ?thesis unfolding AllSet_def by (intro filter_cong) (auto simp: set_PathTypes)
qed

lemma space_use_sum:
  assumes "\<forall>ft\<in>set ps. overhead ft \<noteq> None"
  shows "space_use overhead t ssize ps need =
    Inr (need + (\<Sum>ft\<leftarrow>filter (Has t) ps. the (overhead ft) * ssize div FSOverheadDen))"
  using assms by (induction ps arbitrary: need) (auto simp: add.assoc)

lemma overhead_seal: "ft \<in> set PathTypes \<Longrightarrow> \<exists>oh. FSOverheadSeal ft = Some oh \<and> uint oh \<le> 141"
  by (auto simp: PathTypes_def FSOverheadSeal_def type_defs FSOverheadDen_def)

lemma uint_sum_list_bounded:
  fixes f :: "'a \<Rightarrow> uint64"
  assumes "\<forall>x\<in>set xs. uint (f x) \<le> b" "int (length xs) * b < 2 ^ 64"
  shows "uint (\<Sum>x\<leftarrow>xs. f x) = (\<Sum>x\<leftarrow>xs. uint (f x)) \<and> (\<Sum>x\<leftarrow>xs. uint (f x)) \<le> int (length xs) * b"
  using assms
proof (induction xs)
  case (Cons x xs)
  have b: "0 \<le> b" using Cons.prems(1) uint_nonnegative [of "f x"] by (auto intro: order_trans)
  then have "int (length xs) * b < 2 ^ 64" using Cons.prems(2) by (simp add: algebra_simps)
  with Cons have IH: "uint (\<Sum>x\<leftarrow>xs. f x) = (\<Sum>x\<leftarrow>xs. uint (f x))" "(\<Sum>x\<leftarrow>xs. uint (f x)) \<le> int (length xs) * b"
    by simp_all
  have "uint (f x) + (\<Sum>x\<leftarrow>xs. uint (f x)) \<le> int (length (x # xs)) * b"
    using IH(2) Cons.prems(1) by (simp add: algebra_simps)
  moreover have "uint (f x + (\<Sum>x\<leftarrow>xs. f x)) = uint (f x) + uint (\<Sum>x\<leftarrow>xs. f x)"
    using calculation Cons.prems(2) IH(1) by (intro uint_add_lem [THEN iffD1]) (simp add: word_size)
  ultimately show ?case using IH by simp
qed simp

subsection \<open>Names\<close>

lemma of_char_digit: "d < 10 \<Longrightarrow> (of_char (digit d) :: nat) = 48 + d"
  by (simp add: digit_def of_char_of)

lemma print_dec_digits: "\<forall>c\<in>set (print_dec n). is_digit c"
proof (induction n rule: print_dec.induct)
  case (1 n)
  have "is_digit (digit d)" if "d < 10" for d using of_char_digit [OF that] that by (simp add: is_digit_def)
  with 1 show ?case by (subst print_dec.simps) auto
qed

lemma print_dec_nonempty [simp]: "print_dec n \<noteq> []"
  by (subst print_dec.simps) simp

lemma dec_value_print: "dec_value (print_dec n) = n"
proof (induction n rule: print_dec.induct)
  case (1 n)
  show ?case
  proof (cases "n < 10")
    case True
    then show ?thesis by (subst print_dec.simps) (simp add: dec_value_def of_char_digit)
  next
    case False
    with 1 have "dec_value (print_dec (n div 10)) = n div 10" by simp
    with False show ?thesis by (subst print_dec.simps) (simp add: dec_value_def of_char_digit)
  qed
qed

lemma scan_print:
  assumes "s = [] \<or> \<not> is_digit (hd s)"
  shows "scan_uint64 (print_dec (unat w) @ s) = Some (w, s)"
proof -
  have blank: "\<not> is_blank c" if "is_digit c" for c using that by (auto simp: is_digit_def is_blank_def)
  have d: "\<forall>c\<in>set (print_dec (unat w)). is_digit c" by (rule print_dec_digits)
  have "dropWhile is_blank (print_dec (unat w) @ s) = print_dec (unat w) @ s"
  proof -
    obtain c cs where c: "print_dec (unat w) = c # cs" by (cases "print_dec (unat w)") auto
    with d blank have "\<not> is_blank c" by simp
    then show ?thesis by (simp add: c)
  qed
  moreover have "takeWhile is_digit (print_dec (unat w) @ s) = print_dec (unat w)"
    "dropWhile is_digit (print_dec (unat w) @ s) = s"
    using d assms by (cases s; simp)+
  moreover have "dec_value (print_dec (unat w)) < 2 ^ 64"
    using unsigned_less [of w] by (simp add: dec_value_print)
  ultimately show ?thesis by (simp add: scan_uint64_def dec_value_print)
qed

lemma scan_literal_append [simp]: "scan_literal l (l @ s) = Some s"
  by (induction l) simp_all

section \<open>Properties\<close>

text \<open>
  the rules of a storage path. For a set of known types, \<open>Allowed\<close> says that every type
  in it is allowed by name, when there is a list, and not denied; \<open>AnyAllowed\<close> says that at
  least one is. \<open>SubAllowed\<close> returns the types that are not.
\<close>

theorem Allowed_iff_permitted:
  assumes "t AND FTAll = t"
  shows "(Allowed t allow deny \<longleftrightarrow> (\<forall>ft. ft \<in> set (AllSet t) \<longrightarrow> permitted allow deny ft)) \<and>
    (AnyAllowed t allow deny \<longleftrightarrow> (\<exists>ft. ft \<in> set (AllSet t) \<and> permitted allow deny ft)) \<and>
    set (AllSet (SubAllowed t allow deny)) = {ft. ft \<in> set (AllSet t) \<and> \<not> permitted allow deny ft}"
proof -
  let ?s = "SubAllowed t allow deny"
  have known: "n < 7" if "bit t n" for n using that assms FTAll_bits by (metis bit_and_iff)
  have "?s = 0 \<longleftrightarrow> (\<forall>n. \<not> bit ?s n)" by (auto intro: bit_eqI)
  also have "\<dots> \<longleftrightarrow> (\<forall>n<7. bit t n \<longrightarrow> permitted allow deny (2 ^ n))"
    using SubAllowed_known [OF assms] bit_SubAllowed by blast
  finally have 1: "Allowed t allow deny \<longleftrightarrow> (\<forall>n<7. bit t n \<longrightarrow> permitted allow deny (2 ^ n))"
    by (simp add: Allowed_def)
  have "?s = t \<longleftrightarrow> (\<forall>n. bit ?s n = bit t n)" by (auto intro: bit_eqI)
  also have "\<dots> \<longleftrightarrow> (\<forall>n<7. bit t n \<longrightarrow> \<not> permitted allow deny (2 ^ n))"
    using SubAllowed_known [OF assms] bit_SubAllowed known by blast
  finally have 2: "AnyAllowed t allow deny \<longleftrightarrow> (\<exists>n<7. bit t n \<and> permitted allow deny (2 ^ n))"
    by (auto simp: AnyAllowed_def)
  have 3: "set (AllSet ?s) = {ft. ft \<in> set (AllSet t) \<and> \<not> permitted allow deny ft}"
    using bit_SubAllowed unfolding set_eq_iff set_AllSet mem_Collect_eq by blast
  show ?thesis unfolding 1 2 3 set_AllSet by blast
qed

theorem Allowed_iff_permitted_witness:
  "\<not> Allowed (FTSealed OR FTCache) [''sealed'', ''unsealed''] [] \<and>
   AnyAllowed (FTSealed OR FTCache) [''sealed'', ''unsealed''] []"
proof -
  have k: "(FTSealed OR FTCache) AND FTAll = FTSealed OR FTCache" by code_simp
  have m: "FTSealed \<in> set (AllSet (FTSealed OR FTCache))" "FTCache \<in> set (AllSet (FTSealed OR FTCache))"
    "permitted [''sealed'', ''unsealed''] [] FTSealed" "\<not> permitted [''sealed'', ''unsealed''] [] FTCache"
    by code_simp+
  with Allowed_iff_permitted [OF k, of "[''sealed'', ''unsealed'']" "[]"] show ?thesis by blast
qed

text \<open>
  the space for sealing is always known, and for sectors of at most 64 GiB it is the
  sum over the types of the set of their overhead in tenths of the sector size, without
  wrap-around.
\<close>

theorem SealSpaceUse_exact:
  assumes "ssize \<le> 2 ^ 36"
  shows "\<exists>need. SealSpaceUse t ssize = Inr need \<and>
    uint need = (\<Sum>ft\<leftarrow>AllSet t. uint (the (FSOverheadSeal ft)) * uint ssize div 10)"
proof -
  let ?f = "\<lambda>ft. the (FSOverheadSeal ft) * ssize div FSOverheadDen"
  have ss: "uint ssize \<le> 2 ^ 36" using assms by (simp add: word_le_def)
  have each: "uint (?f ft) = uint (the (FSOverheadSeal ft)) * uint ssize div 10 \<and> uint (?f ft) \<le> 141 * 2 ^ 36"
    if ft: "ft \<in> set (AllSet t)" for ft
  proof -
    obtain oh where oh: "FSOverheadSeal ft = Some oh" "uint oh \<le> 141"
      using overhead_seal [of ft] ft by (auto simp: AllSet_def)
    have "uint oh * uint ssize \<le> 141 * 2 ^ 36" using oh(2) ss by (intro mult_mono) simp_all
    then have "uint (oh * ssize) = uint oh * uint ssize"
      by (intro uint_mult_lem [THEN iffD1]) (simp add: word_size)
    then have "uint (?f ft) = uint oh * uint ssize div 10"
      by (simp add: oh(1) FSOverheadDen_def uint_div)
    moreover have "uint oh * uint ssize div 10 \<le> uint oh * uint ssize"
    proof -
      have "x div 10 \<le> x" if "0 \<le> x" for x :: int using that by presburger
      then show ?thesis by simp
    qed
    ultimately show ?thesis using \<open>uint oh * uint ssize \<le> 141 * 2 ^ 36\<close> oh(1) by simp
  qed
  have "length PathTypes = 7" by (simp add: PathTypes_def)
  then have "length (AllSet t) \<le> 7" unfolding AllSet_def using length_filter_le [of _ PathTypes] by simp
  then have "int (length (AllSet t)) * (141 * 2 ^ 36) < 2 ^ 64" by simp
  with each have "uint (\<Sum>ft\<leftarrow>AllSet t. ?f ft) = (\<Sum>ft\<leftarrow>AllSet t. uint (?f ft))"
    using uint_sum_list_bounded [of "AllSet t" ?f "141 * 2 ^ 36"] by blast
  also have "\<dots> = (\<Sum>ft\<leftarrow>AllSet t. uint (the (FSOverheadSeal ft)) * uint ssize div 10)"
    using each by (simp cong: map_cong)
  finally show ?thesis
    using space_use_sum [of PathTypes FSOverheadSeal t ssize 0] overhead_seal
    by (auto simp: SealSpaceUse_def Has_AllSet)
qed

theorem SealSpaceUse_exact_witness:
  "\<exists>need. SealSpaceUse (FTSealed OR FTCache) (32 * 2 ^ 30) = Inr need \<and> uint need = 518832049356"
proof -
  have "(32 * 2 ^ 30 :: uint64) \<le> 2 ^ 36" by code_simp
  from SealSpaceUse_exact [OF this, of "FTSealed OR FTCache"] obtain need where
    need: "SealSpaceUse (FTSealed OR FTCache) (32 * 2 ^ 30) = Inr need"
    "uint need = (\<Sum>ft\<leftarrow>AllSet (FTSealed OR FTCache). uint (the (FSOverheadSeal ft)) * uint (32 * 2 ^ 30 :: uint64) div 10)"
    by blast
  have "(\<Sum>ft\<leftarrow>AllSet (FTSealed OR FTCache). uint (the (FSOverheadSeal ft)) * uint (32 * 2 ^ 30 :: uint64) div 10) = 518832049356"
    by code_simp
  with need show ?thesis by simp
qed

text \<open>
  the name of a sector is parsed back to the same sector.
\<close>

theorem ParseSectorID_SectorName: "ParseSectorID (SectorName sid) = Some sid"
proof -
  have "\<not> is_digit CHR ''-''" by code_simp
  then have "scan_uint64 (print_dec (unat (sid_Miner sid)) @ ''-'' @ print_dec (unat (sid_Number sid))) =
      Some (sid_Miner sid, ''-'' @ print_dec (unat (sid_Number sid)))"
    by (intro scan_print) simp
  moreover have "scan_uint64 (print_dec (unat (sid_Number sid))) = Some (sid_Number sid, [])"
    using scan_print [of "[]" "sid_Number sid"] by simp
  ultimately show ?thesis
    unfolding ParseSectorID_def SectorName_def scan_literal_append by simp
qed

end
