(* ===== verification/SlotMgr.thy ===== *)
theory SlotMgr
  imports FileTypes
begin

text \<open>
  Slots of the batch sealer (\<open>lib/slotmgr/slotmgr.go\<close>). A slot is a region of the NVMe
  devices that holds the layers of one batch of sectors. It is taken by \<open>Get\<close>, kept
  after the work is done until every sector of the batch is finalized, and its use is
  recorded in the table \<open>batch_sector_refs\<close>, from which a restarted process loads it.

  The mutex makes the operations atomic. Waiting in \<open>Get\<close> is the result \<open>Waits\<close>. Metrics
  are left out.
\<close>

section \<open>Slots\<close>

record slot =
  st_slotOffset :: uint64
  st_sectors :: "SectorID set"
  st_work :: bool

record SlotMgr =
  sm_machine :: string
  sm_slots :: "slot list"

text \<open>The table \<open>batch_sector_refs\<close>; its primary key is the whole row.\<close>

record batch_ref =
  br_sector :: SectorID
  br_machine :: string
  br_slot :: uint64

datatype slot_error = SlotNotFound uint64 | DbError

text \<open>\<open>lo.Find\<close> with the update of the slot it returns.\<close>

fun update_slot :: "uint64 \<Rightarrow> (slot \<Rightarrow> slot) \<Rightarrow> slot list \<Rightarrow> slot list option" where
  "update_slot off f [] = None"
| "update_slot off f (st # sts) =
     (if st_slotOffset st = off then Some (f st # sts)
      else map_option (Cons st) (update_slot off f sts))"

fun load_refs :: "batch_ref list \<Rightarrow> slot list \<Rightarrow> slot_error + slot list" where
  "load_refs [] sts = Inr sts"
| "load_refs (r # rs) sts =
     (case update_slot (br_slot r) (\<lambda>st. st\<lparr>st_sectors := insert (br_sector r) (st_sectors st)\<rparr>) sts of
        None \<Rightarrow> Inl (SlotNotFound (br_slot r))
      | Some sts' \<Rightarrow> load_refs rs sts')"

definition NewSlotMgr :: "batch_ref list \<Rightarrow> string \<Rightarrow> uint64 list \<Rightarrow> slot_error + SlotMgr" where
  "NewSlotMgr db machine slotOffs =
     (case load_refs (filter (\<lambda>r. br_machine r = machine) db)
             (map (\<lambda>off. \<lparr>st_slotOffset = off, st_sectors = {}, st_work = False\<rparr>) slotOffs) of
        Inl e \<Rightarrow> Inl e
      | Inr sts \<Rightarrow> Inr \<lparr>sm_machine = machine, sm_slots = sts\<rparr>)"

definition slot_refs :: "batch_ref list \<Rightarrow> string \<Rightarrow> uint64 \<Rightarrow> SectorID set" where
  "slot_refs db machine off = set (map br_sector (filter (\<lambda>r. br_slot r = off \<and> br_machine r = machine) db))"

text \<open>
  \<open>db_ok\<close> says for which slots the query succeeds. The first failure ends the loop; the
  slots before it keep their changes.
\<close>

fun watch_slots :: "batch_ref list \<Rightarrow> string \<Rightarrow> (uint64 \<Rightarrow> bool) \<Rightarrow> slot list \<Rightarrow> slot_error option \<times> slot list" where
  "watch_slots db machine db_ok [] = (None, [])"
| "watch_slots db machine db_ok (slt # slts) =
     (if st_work slt \<or> st_sectors slt = {} then
        (let (e, r) = watch_slots db machine db_ok slts in (e, slt # r))
      else if \<not> db_ok (st_slotOffset slt) then (Some DbError, slt # slts)
      else
        (let slt' = slt\<lparr>st_sectors := st_sectors slt \<inter> slot_refs db machine (st_slotOffset slt)\<rparr>;
             (e, r) = watch_slots db machine db_ok slts
         in (e, slt' # r)))"

definition watchSingle :: "batch_ref list \<Rightarrow> (uint64 \<Rightarrow> bool) \<Rightarrow> SlotMgr \<Rightarrow> slot_error option \<times> SlotMgr" where
  "watchSingle db db_ok s =
     (let (e, sts) = watch_slots db (sm_machine s) db_ok (sm_slots s) in (e, s\<lparr>sm_slots := sts\<rparr>))"

datatype get_result = NoIds | Waits | Got uint64 "slot list"

fun get_slot :: "SectorID list \<Rightarrow> slot list \<Rightarrow> get_result" where
  "get_slot ids [] = Waits"
| "get_slot ids (slt # slts) =
     (if st_sectors slt = {} then
        Got (st_slotOffset slt) (slt\<lparr>st_sectors := set ids, st_work := True\<rparr> # slts)
      else
        (case get_slot ids slts of
           Got off slts' \<Rightarrow> Got off (slt # slts')
         | r \<Rightarrow> r))"

definition Get :: "SectorID list \<Rightarrow> SlotMgr \<Rightarrow> get_result" where
  "Get ids s = (if ids = [] then NoIds else get_slot ids (sm_slots s))"

definition with_slot :: "uint64 \<Rightarrow> (slot \<Rightarrow> slot) \<Rightarrow> SlotMgr \<Rightarrow> slot_error + SlotMgr" where
  "with_slot off f s =
     (case update_slot off f (sm_slots s) of
        None \<Rightarrow> Inl (SlotNotFound off)
      | Some sts \<Rightarrow> Inr (s\<lparr>sm_slots := sts\<rparr>))"

definition MarkWorkDone :: "uint64 \<Rightarrow> SlotMgr \<Rightarrow> slot_error + SlotMgr" where
  "MarkWorkDone slotOff = with_slot slotOff (\<lambda>sl. sl\<lparr>st_work := False\<rparr>)"

definition AbortSlot :: "uint64 \<Rightarrow> SlotMgr \<Rightarrow> slot_error + SlotMgr" where
  "AbortSlot slotOff = with_slot slotOff (\<lambda>sl. sl\<lparr>st_sectors := {}, st_work := False\<rparr>)"

text \<open>The rows are deleted first, also when the slot is not found.\<close>

definition delete_refs :: "SectorID \<Rightarrow> batch_ref list \<Rightarrow> batch_ref list" where
  "delete_refs sid db = filter (\<lambda>r. br_sector r \<noteq> sid) db"

definition SectorDone ::
  "bool \<Rightarrow> uint64 \<Rightarrow> SectorID \<Rightarrow> batch_ref list \<Rightarrow> SlotMgr \<Rightarrow> (slot_error + SlotMgr) \<times> batch_ref list" where
  "SectorDone db_ok slotOff sid db s =
     (if \<not> db_ok then (Inl DbError, db)
      else (with_slot slotOff (\<lambda>sl. sl\<lparr>st_sectors := st_sectors sl - {sid}\<rparr>) s, delete_refs sid db))"

definition Available :: "SlotMgr \<Rightarrow> nat" where
  "Available s = length (filter (\<lambda>slt. st_sectors slt = {}) (sm_slots s))"

section \<open>Batches\<close>

text \<open>
  How the batch sealing task uses a slot (\<open>tasks/sealsupra/task_supraseal.go\<close>, \<open>Do\<close>): it
  takes one, then either gives it back or, after a transaction that adds a reference for
  each sector, marks the work as done. Finalization of a sector (\<open>tasks/seal/task_finalize.go\<close>)
  calls \<open>SectorDone\<close>; it comes after the batch of the sector is done. References may also be
  deleted from outside, and the process may restart, which ends the batches in work. A batch
  is its slot, its sectors and whether its references are persisted.
\<close>

record slot_state =
  ss_mgr :: SlotMgr
  ss_refs :: "batch_ref list"
  ss_batches :: "(uint64 \<times> SectorID list \<times> bool) list"

definition insert_refs :: "string \<Rightarrow> uint64 \<Rightarrow> SectorID list \<Rightarrow> batch_ref list \<Rightarrow> batch_ref list" where
  "insert_refs machine off ids db =
     fold (\<lambda>sid db. List.insert \<lparr>br_sector = sid, br_machine = machine, br_slot = off\<rparr> db) ids db"

inductive slot_step :: "slot_state \<Rightarrow> slot_state \<Rightarrow> bool" where
  get:
    "Get ids (ss_mgr s) = Got off sts \<Longrightarrow>
     slot_step s (s\<lparr>ss_mgr := (ss_mgr s)\<lparr>sm_slots := sts\<rparr>, ss_batches := (off, ids, False) # ss_batches s\<rparr>)"
| abort:
    "(off, ids, False) \<in> set (ss_batches s) \<Longrightarrow> AbortSlot off (ss_mgr s) = Inr mgr \<Longrightarrow>
     slot_step s (s\<lparr>ss_mgr := mgr, ss_batches := remove1 (off, ids, False) (ss_batches s)\<rparr>)"
| persist:
    "(off, ids, False) \<in> set (ss_batches s) \<Longrightarrow>
     slot_step s (s\<lparr>ss_refs := insert_refs (sm_machine (ss_mgr s)) off ids (ss_refs s),
                    ss_batches := (off, ids, True) # remove1 (off, ids, False) (ss_batches s)\<rparr>)"
| mark:
    "(off, ids, True) \<in> set (ss_batches s) \<Longrightarrow> MarkWorkDone off (ss_mgr s) = Inr mgr \<Longrightarrow>
     slot_step s (s\<lparr>ss_mgr := mgr, ss_batches := remove1 (off, ids, True) (ss_batches s)\<rparr>)"
| sector_done:
    "\<forall>(off', ids, p)\<in>set (ss_batches s). sid \<notin> set ids \<Longrightarrow>
     SectorDone True off sid (ss_refs s) (ss_mgr s) = (Inr mgr, refs) \<Longrightarrow>
     slot_step s (s\<lparr>ss_mgr := mgr, ss_refs := refs\<rparr>)"
| watch:
    "watchSingle (ss_refs s) db_ok (ss_mgr s) = (e, mgr) \<Longrightarrow> slot_step s (s\<lparr>ss_mgr := mgr\<rparr>)"
| unref:
    "slot_step s (s\<lparr>ss_refs := delete_refs sid (ss_refs s)\<rparr>)"
| restart:
    "NewSlotMgr (ss_refs s) (sm_machine (ss_mgr s)) (map st_slotOffset (sm_slots (ss_mgr s))) = Inr mgr \<Longrightarrow>
     slot_step s (s\<lparr>ss_mgr := mgr, ss_batches := []\<rparr>)"

inductive slots_reachable :: "string \<Rightarrow> uint64 list \<Rightarrow> slot_state \<Rightarrow> bool" for machine offs where
  "NewSlotMgr refs machine offs = Inr mgr \<Longrightarrow>
   slots_reachable machine offs \<lparr>ss_mgr = mgr, ss_refs = refs, ss_batches = []\<rparr>"
| "slots_reachable machine offs s \<Longrightarrow> slot_step s s' \<Longrightarrow> slots_reachable machine offs s'"

section \<open>Operations as updates of the slots\<close>

lemma map_if_key_absent: "k \<notin> key ` set xs \<Longrightarrow> map (\<lambda>y. if key y = k then f y else y) xs = xs"
  by (intro map_idI) auto

lemma update_slot_map:
  assumes "update_slot off f sts = Some sts'" "distinct (map st_slotOffset sts)"
  shows "sts' = map (\<lambda>st. if st_slotOffset st = off then f st else st) sts"
  using assms
proof (induction sts arbitrary: sts')
  case (Cons st sts)
  then show ?case by (cases "st_slotOffset st = off") (auto simp: map_if_key_absent)
qed simp

lemma update_slot_None: "update_slot off f sts = None \<longleftrightarrow> off \<notin> st_slotOffset ` set sts"
  by (induction sts) auto

lemma with_slot_slots:
  assumes "with_slot off f s = Inr s'" "distinct (map st_slotOffset (sm_slots s))"
  shows "s' = s\<lparr>sm_slots := map (\<lambda>st. if st_slotOffset st = off then f st else st) (sm_slots s)\<rparr>"
  using assms update_slot_map [of off f "sm_slots s"] by (auto simp: with_slot_def split: option.splits)

lemma get_slot_Got:
  assumes "get_slot ids sts = Got off sts'" "distinct (map st_slotOffset sts)"
  shows "sts' = map (\<lambda>st. if st_slotOffset st = off then st\<lparr>st_sectors := set ids, st_work := True\<rparr> else st) sts"
    "\<exists>st\<in>set sts. st_slotOffset st = off \<and> st_sectors st = {}"
proof -
  have "sts' = map (\<lambda>st. if st_slotOffset st = off then st\<lparr>st_sectors := set ids, st_work := True\<rparr> else st) sts \<and>
    (\<exists>st\<in>set sts. st_slotOffset st = off \<and> st_sectors st = {})"
    using assms
  proof (induction sts arbitrary: sts')
    case (Cons st sts)
    show ?case
    proof (cases "st_sectors st = {}")
      case True
      then show ?thesis using Cons.prems by (auto simp: map_if_key_absent)
    next
      case False
      then obtain sts2 where "get_slot ids sts = Got off sts2" "sts' = st # sts2"
        using Cons.prems(1) by (auto split: get_result.splits)
      then show ?thesis using Cons.IH [of sts2] Cons.prems(2) by auto
    qed
  qed simp
  then show "sts' = map (\<lambda>st. if st_slotOffset st = off then st\<lparr>st_sectors := set ids, st_work := True\<rparr> else st) sts"
    "\<exists>st\<in>set sts. st_slotOffset st = off \<and> st_sectors st = {}" by auto
qed

lemma watch_slots_all2:
  "list_all2 (\<lambda>a b. b = a \<or> \<not> st_work a \<and> b = a\<lparr>st_sectors := st_sectors a \<inter> slot_refs db machine (st_slotOffset a)\<rparr>)
     sts (snd (watch_slots db machine db_ok sts))"
  by (induction sts) (auto simp: Let_def split: prod.splits intro: list.rel_refl)

lemma load_refs_slots:
  assumes "load_refs rs sts = Inr sts'" "distinct (map st_slotOffset sts)"
  shows "sts' = map (\<lambda>st. st\<lparr>st_sectors := st_sectors st \<union> br_sector ` {r \<in> set rs. br_slot r = st_slotOffset st}\<rparr>) sts"
    "br_slot ` set rs \<subseteq> st_slotOffset ` set sts"
proof -
  have "sts' = map (\<lambda>st. st\<lparr>st_sectors := st_sectors st \<union> br_sector ` {r \<in> set rs. br_slot r = st_slotOffset st}\<rparr>) sts \<and>
      br_slot ` set rs \<subseteq> st_slotOffset ` set sts"
    using assms
  proof (induction rs arbitrary: sts)
    case (Cons r rs)
    let ?f = "\<lambda>st. st\<lparr>st_sectors := insert (br_sector r) (st_sectors st)\<rparr>"
    obtain sts1 where u: "update_slot (br_slot r) ?f sts = Some sts1" and l: "load_refs rs sts1 = Inr sts'"
      using Cons.prems(1) by (auto split: option.splits)
    have s1: "sts1 = map (\<lambda>st. if st_slotOffset st = br_slot r then ?f st else st) sts"
      using update_slot_map [OF u Cons.prems(2)] .
    have offs: "map st_slotOffset sts1 = map st_slotOffset sts" by (simp add: s1 cong: if_cong)
    have known: "br_slot r \<in> st_slotOffset ` set sts" using u update_slot_None [of "br_slot r" ?f sts] by fastforce
    have "distinct (map st_slotOffset sts1)" using offs Cons.prems(2) by simp
    note ih = Cons.IH [OF l this]
    have "st_slotOffset ` set sts1 = st_slotOffset ` set sts" using offs by (metis list.set_map)
    moreover have "sts' = map (\<lambda>st. st\<lparr>st_sectors := st_sectors st \<union> br_sector ` {q \<in> set (r # rs). br_slot q = st_slotOffset st}\<rparr>) sts"
      using ih by (auto simp: s1 intro!: arg_cong [of _ _ "\<lambda>x. _\<lparr>st_sectors := x\<rparr>"])
    ultimately show ?case using ih known by auto
  qed simp
  then show "sts' = map (\<lambda>st. st\<lparr>st_sectors := st_sectors st \<union> br_sector ` {r \<in> set rs. br_slot r = st_slotOffset st}\<rparr>) sts"
    "br_slot ` set rs \<subseteq> st_slotOffset ` set sts" by auto
qed

lemma NewSlotMgr_slots:
  assumes "NewSlotMgr db machine offs = Inr mgr" "distinct offs"
  shows "mgr = \<lparr>sm_machine = machine, sm_slots =
      map (\<lambda>off. \<lparr>st_slotOffset = off, st_sectors = slot_refs db machine off, st_work = False\<rparr>) offs\<rparr>"
    "\<forall>r\<in>set db. br_machine r = machine \<longrightarrow> br_slot r \<in> set offs"
proof -
  let ?sts = "map (\<lambda>off. \<lparr>st_slotOffset = off, st_sectors = {}, st_work = False\<rparr>) offs"
  obtain sts where l: "load_refs (filter (\<lambda>r. br_machine r = machine) db) ?sts = Inr sts"
    and mgr: "mgr = \<lparr>sm_machine = machine, sm_slots = sts\<rparr>"
    using assms(1) by (auto simp: NewSlotMgr_def split: sum.splits)
  have d: "distinct (map st_slotOffset ?sts)" using assms(2) by (simp add: comp_def)
  show "mgr = \<lparr>sm_machine = machine, sm_slots =
      map (\<lambda>off. \<lparr>st_slotOffset = off, st_sectors = slot_refs db machine off, st_work = False\<rparr>) offs\<rparr>"
    using load_refs_slots(1) [OF l d] by (auto simp: mgr slot_refs_def)
  show "\<forall>r\<in>set db. br_machine r = machine \<longrightarrow> br_slot r \<in> set offs"
    using load_refs_slots(2) [OF l d] by (auto simp: image_iff subset_iff)
qed

section \<open>The table and the slots agree\<close>

definition slot_inv :: "string \<Rightarrow> batch_ref list \<Rightarrow> (uint64 \<times> SectorID list \<times> bool) list \<Rightarrow> slot \<Rightarrow> bool" where
  "slot_inv machine refs batches st \<longleftrightarrow>
     slot_refs refs machine (st_slotOffset st) \<subseteq> st_sectors st \<and>
     (\<forall>ids p. (st_slotOffset st, ids, p) \<in> set batches \<longrightarrow>
        ids \<noteq> [] \<and> set ids \<subseteq> st_sectors st \<and> st_work st \<and>
        (p \<or> slot_refs refs machine (st_slotOffset st) = {}))"

definition slots_ok :: "string \<Rightarrow> uint64 list \<Rightarrow> slot_state \<Rightarrow> bool" where
  "slots_ok machine offs s \<longleftrightarrow>
     sm_machine (ss_mgr s) = machine \<and>
     map st_slotOffset (sm_slots (ss_mgr s)) = offs \<and>
     (\<forall>r\<in>set (ss_refs s). br_machine r = machine \<longrightarrow> br_slot r \<in> set offs) \<and>
     fst ` set (ss_batches s) \<subseteq> set offs \<and> distinct (map fst (ss_batches s)) \<and>
     (\<forall>st\<in>set (sm_slots (ss_mgr s)). slot_inv machine (ss_refs s) (ss_batches s) st)"

lemma in_slot_refs:
  "sid \<in> slot_refs refs machine off \<longleftrightarrow> \<lparr>br_sector = sid, br_machine = machine, br_slot = off\<rparr> \<in> set refs"
proof
  assume "sid \<in> slot_refs refs machine off"
  then obtain r where r: "r \<in> set refs" "br_slot r = off" "br_machine r = machine" "br_sector r = sid"
    by (auto simp: slot_refs_def)
  have "\<lparr>br_sector = sid, br_machine = machine, br_slot = off\<rparr> = r" using r(2-4) by (cases r) simp
  with r(1) show "\<lparr>br_sector = sid, br_machine = machine, br_slot = off\<rparr> \<in> set refs" by simp
next
  assume "\<lparr>br_sector = sid, br_machine = machine, br_slot = off\<rparr> \<in> set refs"
  then show "sid \<in> slot_refs refs machine off" by (force simp: slot_refs_def)
qed

lemma slot_refs_delete [simp]: "slot_refs (delete_refs sid refs) machine off = slot_refs refs machine off - {sid}"
  by (rule set_eqI) (auto simp: in_slot_refs delete_refs_def)

lemma delete_refs_subset: "r \<in> set (delete_refs sid refs) \<Longrightarrow> r \<in> set refs"
  by (simp add: delete_refs_def)

lemma set_insert_refs: "set (insert_refs machine off ids db) =
    set db \<union> (\<lambda>sid. \<lparr>br_sector = sid, br_machine = machine, br_slot = off\<rparr>) ` set ids"
  by (induction ids arbitrary: db) (auto simp: insert_refs_def)

lemma slot_refs_insert:
  "slot_refs (insert_refs machine off ids refs) machine off' =
   (if off' = off then slot_refs refs machine off \<union> set ids else slot_refs refs machine off')"
  by (rule set_eqI) (auto simp: in_slot_refs set_insert_refs)

lemma distinct_remove1_key:
  assumes "distinct (map fst xs)" "x \<in> set xs"
  shows "fst x \<notin> fst ` set (remove1 x xs)" "distinct (map fst (remove1 x xs))"
    "set (remove1 x xs) = set xs - {x}"
proof -
  have d: "distinct xs" "inj_on fst (set xs)" using assms(1) by (auto simp: distinct_map)
  show s: "set (remove1 x xs) = set xs - {x}" using d(1) by (rule set_remove1_eq)
  show "fst x \<notin> fst ` set (remove1 x xs)" using d(2) assms(2) by (auto simp: s inj_on_def)
  show "distinct (map fst (remove1 x xs))"
    using d by (auto simp: distinct_map s intro: inj_on_subset)
qed

lemma slots_okI:
  assumes "sm_machine (ss_mgr s) = machine" "map st_slotOffset (sm_slots (ss_mgr s)) = offs"
    and "\<And>r. r \<in> set (ss_refs s) \<Longrightarrow> br_machine r = machine \<Longrightarrow> br_slot r \<in> set offs"
    and "fst ` set (ss_batches s) \<subseteq> set offs" "distinct (map fst (ss_batches s))"
    and "\<And>st. st \<in> set (sm_slots (ss_mgr s)) \<Longrightarrow> slot_inv machine (ss_refs s) (ss_batches s) st"
  shows "slots_ok machine offs s"
  using assms by (simp add: slots_ok_def)

lemma slot_inv_other:
  assumes "slot_inv machine refs bs st" "slot_refs refs' machine (st_slotOffset st) = slot_refs refs machine (st_slotOffset st)"
    and "\<And>b. b \<in> set bs' \<Longrightarrow> fst b = st_slotOffset st \<Longrightarrow> b \<in> set bs"
  shows "slot_inv machine refs' bs' st"
  using assms(1,2) assms(3) [of "(st_slotOffset st, ids, p)" for ids p] unfolding slot_inv_def by simp blast

lemma slot_inv_delete:
  assumes "slot_inv machine refs bs st"
  shows "slot_inv machine (delete_refs sid refs) bs st"
  using assms unfolding slot_inv_def by simp blast

lemma slot_inv_drop:
  assumes "slot_inv machine refs bs st" "\<forall>(off', ids, p)\<in>set bs. sid \<notin> set ids"
  shows "slot_inv machine (delete_refs sid refs) bs (st\<lparr>st_sectors := st_sectors st - {sid}\<rparr>)"
proof -
  have "set ids \<subseteq> st_sectors st - {sid}" if "(st_slotOffset st, ids, p) \<in> set bs" for ids p
    using assms that by (fastforce simp: slot_inv_def)
  then show ?thesis using slot_inv_delete [OF assms(1), of sid] by (auto simp: slot_inv_def)
qed

lemma slots_ok_get:
  assumes ok: "slots_ok machine offs s" "distinct offs" and got: "Get ids (ss_mgr s) = Got off sts"
  shows "off \<in> set offs" "slot_refs (ss_refs s) machine off = {}" "off \<notin> fst ` set (ss_batches s)"
    "slots_ok machine offs (s\<lparr>ss_mgr := (ss_mgr s)\<lparr>sm_slots := sts\<rparr>, ss_batches := (off, ids, False) # ss_batches s\<rparr>)"
proof -
  let ?f = "\<lambda>st. st\<lparr>st_sectors := set ids, st_work := True\<rparr>"
  have g: "get_slot ids (sm_slots (ss_mgr s)) = Got off sts" and ids: "ids \<noteq> []"
    using got by (auto simp: Get_def split: if_splits)
  have d: "distinct (map st_slotOffset (sm_slots (ss_mgr s)))" using ok by (simp add: slots_ok_def)
  have sts: "sts = map (\<lambda>st. if st_slotOffset st = off then ?f st else st) (sm_slots (ss_mgr s))"
    using get_slot_Got(1) [OF g d] .
  obtain st where st: "st \<in> set (sm_slots (ss_mgr s))" "st_slotOffset st = off" "st_sectors st = {}"
    using get_slot_Got(2) [OF g d] by auto
  have inv: "slot_inv machine (ss_refs s) (ss_batches s) q" if "q \<in> set (sm_slots (ss_mgr s))" for q
    using ok(1) that by (simp add: slots_ok_def)
  show off: "off \<in> set offs" using ok(1) st by (auto simp: slots_ok_def)
  show refs: "slot_refs (ss_refs s) machine off = {}" using inv [OF st(1)] st(2,3) by (simp add: slot_inv_def)
  show fresh: "off \<notin> fst ` set (ss_batches s)" using inv [OF st(1)] st(2,3) by (force simp: slot_inv_def)
  show "slots_ok machine offs (s\<lparr>ss_mgr := (ss_mgr s)\<lparr>sm_slots := sts\<rparr>, ss_batches := (off, ids, False) # ss_batches s\<rparr>)"
  proof (rule slots_okI, goal_cases)
    case (6 q)
    then obtain q0 where q0: "q0 \<in> set (sm_slots (ss_mgr s))" "q = (if st_slotOffset q0 = off then ?f q0 else q0)"
      by (auto simp: sts)
    show ?case
    proof (cases "st_slotOffset q0 = off")
      case True
      then show ?thesis using q0 refs fresh ids by (force simp: slot_inv_def)
    next
      case False
      then show ?thesis using q0 inv [OF q0(1)] by (simp add: slot_inv_def)
    qed
  qed (use ok fresh off in \<open>auto simp: slots_ok_def sts cong: if_cong\<close>)
qed

text \<open>
  An operation that maps the slots keeps the invariant when it keeps the offsets and
  what holds of each slot.
\<close>

lemma slots_ok_map:
  assumes ok: "slots_ok machine offs s"
    and f: "\<And>st. st_slotOffset (f st) = st_slotOffset st"
    and refs: "\<And>r. r \<in> set refs \<Longrightarrow> br_machine r = machine \<Longrightarrow> br_slot r \<in> set offs"
    and bs: "fst ` set bs \<subseteq> set offs" "distinct (map fst bs)"
    and inv: "\<And>st. st \<in> set (sm_slots (ss_mgr s)) \<Longrightarrow> slot_inv machine (ss_refs s) (ss_batches s) st \<Longrightarrow> slot_inv machine refs bs (f st)"
  shows "slots_ok machine offs \<lparr>ss_mgr = (ss_mgr s)\<lparr>sm_slots := map f (sm_slots (ss_mgr s))\<rparr>, ss_refs = refs, ss_batches = bs\<rparr>"
proof (rule slots_okI, goal_cases)
  case (6 st)
  then show ?case using inv ok by (auto simp: slots_ok_def)
qed (use ok f refs bs in \<open>simp_all add: slots_ok_def comp_def\<close>)

lemma batches_remove1:
  assumes "slots_ok machine offs s" "b \<in> set (ss_batches s)"
  shows "fst ` set (remove1 b (ss_batches s)) \<subseteq> set offs" "distinct (map fst (remove1 b (ss_batches s)))"
    "fst b \<notin> fst ` set (remove1 b (ss_batches s))"
proof -
  have "distinct (map fst (ss_batches s))" "fst ` set (ss_batches s) \<subseteq> set offs"
    using assms(1) by (simp_all add: slots_ok_def)
  then show "fst ` set (remove1 b (ss_batches s)) \<subseteq> set offs" "distinct (map fst (remove1 b (ss_batches s)))"
    "fst b \<notin> fst ` set (remove1 b (ss_batches s))"
    using distinct_remove1_key [OF _ assms(2)] by auto
qed

lemma slots_ok_abort:
  assumes ok: "slots_ok machine offs s" "distinct offs" and b: "(off, ids, False) \<in> set (ss_batches s)"
    and a: "AbortSlot off (ss_mgr s) = Inr mgr"
  shows "slots_ok machine offs (s\<lparr>ss_mgr := mgr, ss_batches := remove1 (off, ids, False) (ss_batches s)\<rparr>)"
proof -
  let ?f = "\<lambda>st. if st_slotOffset st = off then st\<lparr>st_sectors := {}, st_work := False\<rparr> else st"
  note rm = batches_remove1 [OF ok(1) b]
  have mgr: "mgr = (ss_mgr s)\<lparr>sm_slots := map ?f (sm_slots (ss_mgr s))\<rparr>"
    using ok with_slot_slots [OF a [unfolded AbortSlot_def]] by (simp add: slots_ok_def)
  have "slots_ok machine offs \<lparr>ss_mgr = (ss_mgr s)\<lparr>sm_slots := map ?f (sm_slots (ss_mgr s))\<rparr>, ss_refs = ss_refs s,
      ss_batches = remove1 (off, ids, False) (ss_batches s)\<rparr>"
  proof (rule slots_ok_map [OF ok(1)])
    fix st
    assume st: "slot_inv machine (ss_refs s) (ss_batches s) st"
    show "slot_inv machine (ss_refs s) (remove1 (off, ids, False) (ss_batches s)) (?f st)"
    proof (cases "st_slotOffset st = off")
      case True
      then show ?thesis using st b rm(3) by (force simp: slot_inv_def)
    next
      case False
      then show ?thesis using st by (auto intro: slot_inv_other dest: notin_set_remove1)
    qed
  qed (use ok(1) rm in \<open>auto simp: slots_ok_def\<close>)
  then show ?thesis by (cases s) (simp add: mgr)
qed

lemma slots_ok_persist:
  assumes ok: "slots_ok machine offs s" and b: "(off, ids, False) \<in> set (ss_batches s)"
  shows "slots_ok machine offs (s\<lparr>ss_refs := insert_refs machine off ids (ss_refs s),
    ss_batches := (off, ids, True) # remove1 (off, ids, False) (ss_batches s)\<rparr>)"
proof -
  note rm = batches_remove1 [OF ok b]
  have off: "off \<in> set offs" using ok b by (force simp: slots_ok_def)
  have "slots_ok machine offs \<lparr>ss_mgr = (ss_mgr s)\<lparr>sm_slots := map (\<lambda>st. st) (sm_slots (ss_mgr s))\<rparr>,
      ss_refs = insert_refs machine off ids (ss_refs s),
      ss_batches = (off, ids, True) # remove1 (off, ids, False) (ss_batches s)\<rparr>"
  proof (rule slots_ok_map [OF ok])
    fix r
    assume r: "r \<in> set (insert_refs machine off ids (ss_refs s))" "br_machine r = machine"
    from r(1) have "r \<in> set (ss_refs s) \<or> br_slot r = off" by (auto simp: set_insert_refs)
    then show "br_slot r \<in> set offs" using ok off r(2) by (auto simp: slots_ok_def)
  next
    fix st
    assume st: "slot_inv machine (ss_refs s) (ss_batches s) st"
    show "slot_inv machine (insert_refs machine off ids (ss_refs s)) ((off, ids, True) # remove1 (off, ids, False) (ss_batches s)) st"
    proof (cases "st_slotOffset st = off")
      case True
      then show ?thesis using st b rm(3) by (force simp: slot_inv_def slot_refs_insert)
    next
      case False
      then show ?thesis by (intro slot_inv_other [OF st]) (auto simp: slot_refs_insert dest: notin_set_remove1)
    qed
  qed (use rm off in auto)
  then show ?thesis by (cases s) simp
qed

lemma slots_ok_mark:
  assumes ok: "slots_ok machine offs s" "distinct offs" and b: "(off, ids, True) \<in> set (ss_batches s)"
    and a: "MarkWorkDone off (ss_mgr s) = Inr mgr"
  shows "slots_ok machine offs (s\<lparr>ss_mgr := mgr, ss_batches := remove1 (off, ids, True) (ss_batches s)\<rparr>)"
proof -
  let ?f = "\<lambda>st. if st_slotOffset st = off then st\<lparr>st_work := False\<rparr> else st"
  note rm = batches_remove1 [OF ok(1) b]
  have mgr: "mgr = (ss_mgr s)\<lparr>sm_slots := map ?f (sm_slots (ss_mgr s))\<rparr>"
    using ok with_slot_slots [OF a [unfolded MarkWorkDone_def]] by (simp add: slots_ok_def)
  have "slots_ok machine offs \<lparr>ss_mgr = (ss_mgr s)\<lparr>sm_slots := map ?f (sm_slots (ss_mgr s))\<rparr>, ss_refs = ss_refs s,
      ss_batches = remove1 (off, ids, True) (ss_batches s)\<rparr>"
  proof (rule slots_ok_map [OF ok(1)])
    fix st
    assume st: "slot_inv machine (ss_refs s) (ss_batches s) st"
    show "slot_inv machine (ss_refs s) (remove1 (off, ids, True) (ss_batches s)) (?f st)"
    proof (cases "st_slotOffset st = off")
      case True
      then show ?thesis using st rm(3) by (force simp: slot_inv_def)
    next
      case False
      then show ?thesis using st by (auto intro: slot_inv_other dest: notin_set_remove1)
    qed
  qed (use ok(1) rm in \<open>auto simp: slots_ok_def\<close>)
  then show ?thesis by (cases s) (simp add: mgr)
qed

lemma slots_ok_sector_done:
  assumes ok: "slots_ok machine offs s" "distinct offs"
    and free: "\<forall>(off', ids, p)\<in>set (ss_batches s). sid \<notin> set ids"
    and d: "SectorDone True off sid (ss_refs s) (ss_mgr s) = (Inr mgr, refs)"
  shows "slots_ok machine offs (s\<lparr>ss_mgr := mgr, ss_refs := refs\<rparr>)"
proof -
  let ?f = "\<lambda>st. if st_slotOffset st = off then st\<lparr>st_sectors := st_sectors st - {sid}\<rparr> else st"
  have refs: "refs = delete_refs sid (ss_refs s)" using d by (simp add: SectorDone_def)
  have mgr: "mgr = (ss_mgr s)\<lparr>sm_slots := map ?f (sm_slots (ss_mgr s))\<rparr>"
    using ok with_slot_slots [of off "\<lambda>sl. sl\<lparr>st_sectors := st_sectors sl - {sid}\<rparr>" "ss_mgr s" mgr] d
    by (simp add: slots_ok_def SectorDone_def)
  have "slots_ok machine offs \<lparr>ss_mgr = (ss_mgr s)\<lparr>sm_slots := map ?f (sm_slots (ss_mgr s))\<rparr>,
      ss_refs = delete_refs sid (ss_refs s), ss_batches = ss_batches s\<rparr>"
    by (intro slots_ok_map [OF ok(1)])
      (use ok(1) free in \<open>auto simp: slots_ok_def dest: delete_refs_subset intro: slot_inv_delete slot_inv_drop\<close>)
  then show ?thesis by (cases s) (simp add: mgr refs)
qed

lemma slots_ok_unref:
  assumes "slots_ok machine offs s"
  shows "slots_ok machine offs (s\<lparr>ss_refs := delete_refs sid (ss_refs s)\<rparr>)"
proof -
  have "slots_ok machine offs \<lparr>ss_mgr = (ss_mgr s)\<lparr>sm_slots := map (\<lambda>st. st) (sm_slots (ss_mgr s))\<rparr>,
      ss_refs = delete_refs sid (ss_refs s), ss_batches = ss_batches s\<rparr>"
    by (intro slots_ok_map [OF assms])
      (use assms in \<open>auto simp: slots_ok_def dest: delete_refs_subset intro: slot_inv_delete\<close>)
  then show ?thesis by (cases s) simp
qed

lemma slots_ok_restart:
  assumes "slots_ok machine offs s" "distinct offs" "NewSlotMgr (ss_refs s) machine offs = Inr mgr"
  shows "slots_ok machine offs (s\<lparr>ss_mgr := mgr, ss_batches := []\<rparr>)"
  using NewSlotMgr_slots [OF assms(3,2)] by (simp add: slots_ok_def slot_inv_def comp_def)

lemma slots_ok_watch:
  assumes ok: "slots_ok machine offs s" and w: "watchSingle (ss_refs s) db_ok (ss_mgr s) = (e, mgr)"
  shows "slots_ok machine offs (s\<lparr>ss_mgr := mgr\<rparr>)"
proof -
  let ?R = "\<lambda>a b. b = a \<or> \<not> st_work a \<and>
    b = a\<lparr>st_sectors := st_sectors a \<inter> slot_refs (ss_refs s) machine (st_slotOffset a)\<rparr>"
  obtain sts where mgr: "mgr = (ss_mgr s)\<lparr>sm_slots := sts\<rparr>" and rel: "list_all2 ?R (sm_slots (ss_mgr s)) sts"
    using w ok watch_slots_all2 [of "ss_refs s" machine "sm_slots (ss_mgr s)" db_ok]
    by (auto simp: watchSingle_def slots_ok_def split: prod.splits)
  have "map st_slotOffset sts = map st_slotOffset (sm_slots (ss_mgr s))"
    using rel by (induction rule: list_all2_induct) auto
  moreover have "slot_inv machine (ss_refs s) (ss_batches s) b" if b: "b \<in> set sts" for b
  proof -
    obtain i where i: "i < length sts" "b = sts ! i" using b by (auto simp: in_set_conv_nth)
    define a where "a = sm_slots (ss_mgr s) ! i"
    have "?R a b" using list_all2_nthD2 [OF rel i(1)] by (simp add: i(2) a_def)
    moreover have "a \<in> set (sm_slots (ss_mgr s))" using i(1) list_all2_lengthD [OF rel] by (simp add: a_def)
    moreover from this have "slot_inv machine (ss_refs s) (ss_batches s) a" using ok by (simp add: slots_ok_def)
    ultimately show ?thesis by (auto simp: slot_inv_def)
  qed
  ultimately show ?thesis using ok by (simp add: slots_ok_def mgr)
qed

lemma slots_reachable_ok:
  assumes "slots_reachable machine offs s" "distinct offs"
  shows "slots_ok machine offs s"
  using assms
proof (induction rule: slots_reachable.induct)
  case (1 refs mgr)
  then show ?case using NewSlotMgr_slots [OF 1] by (simp add: slots_ok_def slot_inv_def comp_def)
next
  case (2 s s')
  then have ok: "slots_ok machine offs s" and d: "distinct offs" by simp_all
  then have mach: "sm_machine (ss_mgr s) = machine" "map st_slotOffset (sm_slots (ss_mgr s)) = offs"
    by (simp_all add: slots_ok_def)
  from 2(2) show ?case
  proof cases
    case (get ids off sts)
    then show ?thesis using slots_ok_get(4) [OF ok d] by simp
  next
    case (restart mgr)
    then show ?thesis using slots_ok_restart [OF ok d] mach by simp
  next
    case (abort off ids mgr)
    then show ?thesis using slots_ok_abort [OF ok d] by simp
  next
    case (persist off ids)
    then show ?thesis using slots_ok_persist [OF ok] mach by simp
  next
    case (mark off ids mgr)
    then show ?thesis using slots_ok_mark [OF ok d] by simp
  next
    case (sector_done sid off mgr refs)
    then show ?thesis using slots_ok_sector_done [OF ok d] by simp
  next
    case (watch db_ok e mgr)
    then show ?thesis using slots_ok_watch [OF ok] by simp
  next
    case (unref sid)
    then show ?thesis using slots_ok_unref [OF ok] by simp
  qed
qed

section \<open>Properties\<close>

definition ex_sid :: SectorID where
  "ex_sid = \<lparr>sid_Miner = 1000, sid_Number = 4\<rparr>"

definition ex_slots :: slot_state where
  "ex_slots = \<lparr>ss_mgr = \<lparr>sm_machine = ''m'', sm_slots =
       [\<lparr>st_slotOffset = 0, st_sectors = {ex_sid}, st_work = False\<rparr>,
        \<lparr>st_slotOffset = 10, st_sectors = {}, st_work = False\<rparr>]\<rparr>,
     ss_refs = [\<lparr>br_sector = ex_sid, br_machine = ''m'', br_slot = 0\<rparr>], ss_batches = []\<rparr>"

lemma ex_slots_reachable: "slots_reachable ''m'' [0, 10] ex_slots"
  unfolding ex_slots_def by (rule slots_reachable.intros(1)) (simp add: NewSlotMgr_def)

text \<open>
  C22: A slot handed out by \<open>Get\<close> holds nothing that is still needed: the table has no
  reference to it for this machine and no batch is worked on in it. So two batches never
  share a region of the devices, also across restarts.
\<close>

theorem Get_slot_unused:
  assumes "slots_reachable machine offs s" "distinct offs" "Get ids (ss_mgr s) = Got off sts"
  shows "off \<in> set offs \<and> slot_refs (ss_refs s) machine off = {} \<and> off \<notin> fst ` set (ss_batches s)"
  using slots_ok_get(1-3) [OF slots_reachable_ok [OF assms(1,2)] assms(2,3)] by simp

theorem Get_slot_unused_witness:
  "Get [ex_sid] (ss_mgr ex_slots) = Got 10
     [\<lparr>st_slotOffset = 0, st_sectors = {ex_sid}, st_work = False\<rparr>,
      \<lparr>st_slotOffset = 10, st_sectors = {ex_sid}, st_work = True\<rparr>] \<and>
   slot_refs (ss_refs ex_slots) ''m'' 10 = {}"
proof -
  have got: "Get [ex_sid] (ss_mgr ex_slots) = Got 10
     [\<lparr>st_slotOffset = 0, st_sectors = {ex_sid}, st_work = False\<rparr>,
      \<lparr>st_slotOffset = 10, st_sectors = {ex_sid}, st_work = True\<rparr>]"
    by (simp add: Get_def ex_slots_def)
  then show ?thesis using Get_slot_unused [OF ex_slots_reachable _ got] by simp
qed

text \<open>
  \<open>Get\<close> waits exactly when no slot is available, and taking a slot makes one less
  available.
\<close>

theorem Get_Available:
  assumes "ids \<noteq> []"
  shows "case Get ids s of
      NoIds \<Rightarrow> False
    | Waits \<Rightarrow> Available s = 0
    | Got off sts \<Rightarrow> Available s = Suc (Available (s\<lparr>sm_slots := sts\<rparr>))"
proof -
  have "case get_slot ids sts of NoIds \<Rightarrow> False | Waits \<Rightarrow> filter (\<lambda>slt. st_sectors slt = {}) sts = []
    | Got off sts' \<Rightarrow> length (filter (\<lambda>slt. st_sectors slt = {}) sts) =
        Suc (length (filter (\<lambda>slt. st_sectors slt = {}) sts'))" for sts
    using assms by (induction sts) (auto split: get_result.splits)
  from this [of "sm_slots s"] assms show ?thesis
    by (auto simp: Get_def Available_def split: get_result.splits)
qed

theorem Get_Available_witness: "Available (ss_mgr ex_slots) = 1"
  using Get_Available [of "[ex_sid]" "ss_mgr ex_slots"] by (simp add: ex_slots_def Get_def Available_def)

end
