(* ===== verification/SealTasks.thy ===== *)
theory SealTasks
  imports PipelineSafety SlotMgr
begin

text \<open>
  The tasks of the sealing pipeline (\<open>tasks/seal/task_sdr.go\<close>, \<open>task_treed.go\<close>,
  \<open>task_treerc.go\<close>, \<open>task_synth_proofs.go\<close>, \<open>task_porep.go\<close>, \<open>task_finalize.go\<close>,
  \<open>task_movestorage.go\<close>, \<open>task_submit_precommit.go\<close>): each reads the sectors that name the
  task, does its work outside of the database and stores the result in their rows.

  A handler returns whether the task is done and an error. What the work needs from outside,
  the node, the proof code, the file store, the parsing of CIDs, and which statements fail,
  is a \<open>seal_calls\<close> record. Where other code can run between the reading and the storing the
  handler is composed of a reading and a storing part, so that both can be used apart.
\<close>

section \<open>Surroundings\<close>

type_synonym do_result = "bool \<times> string option"

record seal_calls =
  sc_select_fails :: bool
  sc_exec_fails :: bool
  sc_head :: "int option"
  sc_SealRandomnessLookback :: int
  sc_randomness_tickets :: "int \<Rightarrow> int \<Rightarrow> string + string"
  sc_randomness_beacon :: "int \<Rightarrow> int \<Rightarrow> string + string"
  sc_DealData :: "int \<Rightarrow> int \<Rightarrow> string + string"
  sc_ParseCid :: "string \<Rightarrow> string + string"
  sc_GenerateSDR :: "int \<Rightarrow> int \<Rightarrow> string \<Rightarrow> string \<Rightarrow> string option"
  sc_TreeD :: "int \<Rightarrow> int \<Rightarrow> string \<Rightarrow> string option"
  sc_TreeRC :: "int \<Rightarrow> int \<Rightarrow> string \<Rightarrow> string option \<Rightarrow> string + string \<times> string"
  sc_Synthetic :: "int \<Rightarrow> bool"
  sc_SyntheticProofs :: "int \<Rightarrow> int \<Rightarrow> string \<Rightarrow> string \<Rightarrow> string option \<Rightarrow> bool \<Rightarrow> string option"
  sc_PoRepSnark :: "int \<Rightarrow> int \<Rightarrow> string \<Rightarrow> string \<Rightarrow> string option \<Rightarrow> string \<Rightarrow> string + string"
  sc_FinalizeSector :: "int \<Rightarrow> int \<Rightarrow> bool \<Rightarrow> string option"
  sc_pieceref :: "string \<Rightarrow> int option"
  sc_MoveStorage :: "int \<Rightarrow> int \<Rightarrow> string option"
  sc_now :: time

text \<open>Selects the sector that names the task; it has to be exactly one.\<close>

definition select_one :: "seal_calls \<Rightarrow> (pipeline_row \<Rightarrow> bool) \<Rightarrow> pipeline_db \<Rightarrow> string + pipeline_row" where
  "select_one sc p db =
     (if sc_select_fails sc then Inl ''getting sector params''
      else case filter p (sectors_sdr_pipeline db) of
        [r] \<Rightarrow> Inr r
      | _ \<Rightarrow> Inl ''expected 1 sector params'')"

text \<open>A column that is \<open>NULL\<close> cannot be read into a Go value that has no null.\<close>

definition column :: "'a option \<Rightarrow> string + 'a" where
  "column c = (case c of None \<Rightarrow> Inl ''getting sector params'' | Some x \<Rightarrow> Inr x)"

definition no_error :: "string option \<Rightarrow> string + unit" where
  "no_error e = (case e of None \<Rightarrow> Inr () | Some msg \<Rightarrow> Inl msg)"

text \<open>The update by sector; it is not undone when it hits another number of rows than one.\<close>

definition store_success ::
  "seal_calls \<Rightarrow> pipeline_row \<Rightarrow> (pipeline_row \<Rightarrow> pipeline_row) \<Rightarrow> pipeline_db \<Rightarrow> do_result \<times> pipeline_db" where
  "store_success sc t f db =
     (if sc_exec_fails sc then ((False, Some ''updating pipeline''), db)
      else if count_where (same_sector t) (sectors_sdr_pipeline db) \<noteq> 1
           then ((False, Some ''updated rows''), update_pipeline (same_sector t) f db)
           else ((True, None), update_pipeline (same_sector t) f db))"

definition strings_Contains :: "string \<Rightarrow> string \<Rightarrow> bool" where
  "strings_Contains s sub \<longleftrightarrow> (\<exists>i\<in>set [0..<Suc (length s)]. take (length sub) (drop i s) = sub)"

section \<open>SDR\<close>

definition GetTicket :: "seal_calls \<Rightarrow> int \<Rightarrow> string + string \<times> int" where
  "GetTicket sc maddr =
     (case sc_head sc of
        None \<Rightarrow> Inl ''getting chain head''
      | Some height \<Rightarrow>
          let ticketEpoch = height - sc_SealRandomnessLookback sc
          in rbind (sc_randomness_tickets sc maddr ticketEpoch) (\<lambda>rand. Inr (rand, ticketEpoch)))"

definition SDR_work :: "seal_calls \<Rightarrow> pipeline_row \<Rightarrow> string + string \<times> int" where
  "SDR_work sc r =
     rbind (sc_DealData sc (p_sp_id r) (p_sector_number r)) (\<lambda>commD.
     rbind (GetTicket sc (p_sp_id r)) (\<lambda>(ticket, ticketEpoch).
     rbind (no_error (sc_GenerateSDR sc (p_sp_id r) (p_sector_number r) ticket commD)) (\<lambda>_.
     Inr (ticket, ticketEpoch))))"

definition SDR_store :: "seal_calls \<Rightarrow> pipeline_row \<Rightarrow> string \<times> int \<Rightarrow> pipeline_db \<Rightarrow> do_result \<times> pipeline_db" where
  "SDR_store sc r = (\<lambda>(ticket, ticketEpoch). store_success sc r
     (\<lambda>r. r\<lparr>p_after_sdr := True, p_ticket_epoch := Some ticketEpoch, p_ticket_value := Some ticket, p_task_sdr := None\<rparr>))"

definition SDR_Do :: "seal_calls \<Rightarrow> TaskID \<Rightarrow> pipeline_db \<Rightarrow> do_result \<times> pipeline_db" where
  "SDR_Do sc taskID db =
     (case rbind (select_one sc (\<lambda>r. p_task_sdr r = Some taskID) db) (\<lambda>r. map_sum id (Pair r) (SDR_work sc r)) of
        Inl e \<Rightarrow> ((False, Some e), db)
      | Inr (r, a) \<Rightarrow> SDR_store sc r a db)"

text \<open>\<open>CanAccept\<close> of the SDR task: nothing below the configured minimum.\<close>

definition SDR_CanAccept :: "int \<Rightarrow> TaskID list \<Rightarrow> TaskID list" where
  "SDR_CanAccept min_tasks ids = (if min_tasks > int (length ids) then [] else ids)"

section \<open>Trees\<close>

definition TreeD_work :: "seal_calls \<Rightarrow> pipeline_row \<Rightarrow> string + string" where
  "TreeD_work sc r =
     rbind (sc_DealData sc (p_sp_id r) (p_sector_number r)) (\<lambda>commD.
     rbind (no_error (sc_TreeD sc (p_sp_id r) (p_sector_number r) commD)) (\<lambda>_. Inr commD))"

definition TreeD_store :: "seal_calls \<Rightarrow> pipeline_row \<Rightarrow> string \<Rightarrow> pipeline_db \<Rightarrow> do_result \<times> pipeline_db" where
  "TreeD_store sc r commD = store_success sc r
     (\<lambda>r. r\<lparr>p_after_tree_d := True, p_tree_d_cid := Some commD, p_task_tree_d := None\<rparr>)"

definition TreeD_Do :: "seal_calls \<Rightarrow> TaskID \<Rightarrow> pipeline_db \<Rightarrow> do_result \<times> pipeline_db" where
  "TreeD_Do sc taskID db =
     (case rbind (select_one sc (\<lambda>r. p_task_tree_d r = Some taskID) db) (\<lambda>r. map_sum id (Pair r) (TreeD_work sc r)) of
        Inl e \<Rightarrow> ((False, Some e), db)
      | Inr (r, a) \<Rightarrow> TreeD_store sc r a db)"

text \<open>
  A failure of the check of the sealed replica sends the sector back to the tree stages;
  every error is returned, so the caller of \<open>resetSectorSealingState\<close> never goes on.
\<close>

definition reset_columns :: "pipeline_row \<Rightarrow> pipeline_row" where
  "reset_columns r = r\<lparr>p_after_tree_d := False, p_tree_d_cid := None, p_after_tree_r := False, p_after_tree_c := False,
     p_task_tree_r := None, p_task_tree_c := None, p_after_synth := False, p_task_synth := None\<rparr>"

definition resetSectorSealingState ::
  "seal_calls \<Rightarrow> pipeline_row \<Rightarrow> string option \<Rightarrow> pipeline_db \<Rightarrow> string option \<times> pipeline_db" where
  "resetSectorSealingState sc r err db =
     (case err of
        None \<Rightarrow> (None, db)
      | Some e \<Rightarrow>
          if strings_Contains e ''checking PreCommit'' then
            (case store_success sc r reset_columns db of
               ((_, Some e'), db') \<Rightarrow> (Some (e @ e'), db')
             | ((_, None), db') \<Rightarrow> (Some e, db'))
          else (Some e, db))"

definition TreeRC_store ::
  "seal_calls \<Rightarrow> pipeline_row \<Rightarrow> string \<Rightarrow> string + string \<times> string \<Rightarrow> pipeline_db \<Rightarrow> do_result \<times> pipeline_db" where
  "TreeRC_store sc r commd computed db =
     (case computed of
        Inl e \<Rightarrow>
          (case resetSectorSealingState sc r (Some e) db of
             (serr, db') \<Rightarrow> ((False, if serr = None then Some ''commd does not match'' else Some e), db'))
      | Inr (sealed, unsealed) \<Rightarrow>
          if unsealed \<noteq> commd then ((False, Some ''commd does not match''), db)
          else store_success sc r
                 (\<lambda>r. r\<lparr>p_after_tree_r := True, p_after_tree_c := True, p_tree_r_cid := Some sealed,
                        p_task_tree_r := None, p_task_tree_c := None\<rparr>) db)"

definition TreeRC_Do :: "seal_calls \<Rightarrow> TaskID \<Rightarrow> pipeline_db \<Rightarrow> do_result \<times> pipeline_db" where
  "TreeRC_Do sc taskID db =
     (case rbind (select_one sc (\<lambda>r. p_task_tree_c r = Some taskID \<and> p_task_tree_r r = Some taskID) db) (\<lambda>r.
           rbind (column (p_tree_d_cid r)) (\<lambda>d. rbind (sc_ParseCid sc d) (\<lambda>commd.
           rbind (sc_DealData sc (p_sp_id r) (p_sector_number r)) (\<lambda>_. Inr (r, commd))))) of
        Inl e \<Rightarrow> ((False, Some e), db)
      | Inr (r, commd) \<Rightarrow>
          TreeRC_store sc r commd (sc_TreeRC sc (p_sp_id r) (p_sector_number r) commd (p_ticket_value r)) db)"

section \<open>Synthetic proofs\<close>

definition markFinished :: "seal_calls \<Rightarrow> pipeline_row \<Rightarrow> pipeline_db \<Rightarrow> do_result \<times> pipeline_db" where
  "markFinished sc r = store_success sc r (\<lambda>r. r\<lparr>p_after_synth := True, p_task_synth := None\<rparr>)"

text \<open>\<open>COALESCE(BOOL_OR(NOT data_delete_on_finalize), FALSE)\<close>\<close>

definition keepUnsealed :: "pipeline_row \<Rightarrow> pipeline_db \<Rightarrow> bool" where
  "keepUnsealed r db \<longleftrightarrow> (\<exists>s\<in>set (sectors_sdr_initial_pieces db).
     pc_sp_id s = p_sp_id r \<and> pc_sector_number s = p_sector_number r \<and> \<not> pc_data_delete_on_finalize s)"

definition Synth_store :: "seal_calls \<Rightarrow> pipeline_row \<Rightarrow> string option \<Rightarrow> pipeline_db \<Rightarrow> do_result \<times> pipeline_db" where
  "Synth_store sc r err db =
     (case err of
        None \<Rightarrow> markFinished sc r db
      | Some e \<Rightarrow> (case resetSectorSealingState sc r (Some e) db of
                       (None, db') \<Rightarrow> markFinished sc r db'
                     | (Some _, db') \<Rightarrow> ((False, Some e), db')))"

definition Synth_Do :: "seal_calls \<Rightarrow> TaskID \<Rightarrow> pipeline_db \<Rightarrow> do_result \<times> pipeline_db" where
  "Synth_Do sc taskID db =
     (case rbind (select_one sc (\<lambda>r. p_task_synth r = Some taskID) db) (\<lambda>r.
           rbind (column (p_tree_r_cid r)) (\<lambda>sealed. rbind (column (p_tree_d_cid r)) (\<lambda>unsealed. Inr (r, sealed, unsealed)))) of
        Inl e \<Rightarrow> ((False, Some e), db)
      | Inr (r, sealed, unsealed) \<Rightarrow>
          if \<not> sc_Synthetic sc (p_reg_seal_proof r) then markFinished sc r db
          else (case rbind (sc_ParseCid sc sealed) (\<lambda>s. rbind (sc_ParseCid sc unsealed) (\<lambda>u.
                      rbind (sc_DealData sc (p_sp_id r) (p_sector_number r)) (\<lambda>_. Inr (s, u)))) of
                  Inl e \<Rightarrow> ((False, Some e), db)
                | Inr (s, u) \<Rightarrow>
                    Synth_store sc r (sc_SyntheticProofs sc (p_sp_id r) (p_sector_number r) s u (p_ticket_value r)
                      (keepUnsealed r db)) db))"

section \<open>PoRep\<close>

definition PoRep_work :: "seal_calls \<Rightarrow> pipeline_row \<Rightarrow> string + string \<times> string" where
  "PoRep_work sc r =
     rbind (column (p_ticket_epoch r)) (\<lambda>_.
     rbind (column (p_seed_epoch r)) (\<lambda>seedEpoch.
     rbind (column (p_tree_r_cid r)) (\<lambda>r_cid. rbind (column (p_tree_d_cid r)) (\<lambda>d_cid.
     rbind (sc_ParseCid sc r_cid) (\<lambda>sealed. rbind (sc_ParseCid sc d_cid) (\<lambda>unsealed.
     rbind (column (sc_head sc)) (\<lambda>_.
     rbind (sc_randomness_beacon sc (p_sp_id r) seedEpoch) (\<lambda>rand.
     rbind (sc_PoRepSnark sc (p_sp_id r) (p_sector_number r) sealed unsealed (p_ticket_value r) rand) (\<lambda>prf.
     Inr (rand, prf))))))))))"

definition PoRep_store :: "seal_calls \<Rightarrow> pipeline_row \<Rightarrow> string \<times> string \<Rightarrow> pipeline_db \<Rightarrow> do_result \<times> pipeline_db" where
  "PoRep_store sc r = (\<lambda>(rand, prf). store_success sc r
     (\<lambda>r. r\<lparr>p_after_porep := True, p_seed_value := Some rand, p_porep_proof := Some prf, p_task_porep := None\<rparr>))"

definition PoRep_Do :: "seal_calls \<Rightarrow> TaskID \<Rightarrow> pipeline_db \<Rightarrow> do_result \<times> pipeline_db" where
  "PoRep_Do sc taskID db =
     (case rbind (select_one sc (\<lambda>r. p_task_porep r = Some taskID) db) (\<lambda>r. map_sum id (Pair r) (PoRep_work sc r)) of
        Inl e \<Rightarrow> ((False, Some e), db)
      | Inr (r, a) \<Rightarrow> PoRep_store sc r a db)"

section \<open>Finalization\<close>

text \<open>
  Finalization also ends the use of a batch slot and of the parked pieces of the sector. The
  tables of these are kept beside the pipeline: the references of slots, and the references
  of parked pieces with their long term flag. \<open>sc_pieceref\<close> is the reference ID of a
  \<open>pieceref\<close> URL.
\<close>

record finalize_state =
  f_db :: pipeline_db
  f_refs :: "batch_ref list"
  f_slots :: "SlotMgr option"
  f_parked :: "(int \<times> bool) list"

definition DropSectorPieceRefs :: "seal_calls \<Rightarrow> pipeline_row \<Rightarrow> finalize_state \<Rightarrow> finalize_state" where
  "DropSectorPieceRefs sc r s =
     (let urls = [pc_data_url p. p \<leftarrow> sectors_sdr_initial_pieces (f_db s),
                   pc_sp_id p = p_sp_id r \<and> pc_sector_number p = p_sector_number r]
      in fold (\<lambda>url s. case sc_pieceref sc url of
                 None \<Rightarrow> s
               | Some refID \<Rightarrow> s\<lparr>f_parked := delete_where (\<lambda>(i, long_term). i = refID \<and> \<not> long_term) (f_parked s)\<rparr>)
           urls s)"

definition sector_id :: "pipeline_row \<Rightarrow> SectorID" where
  "sector_id r = \<lparr>sid_Miner = word_of_int (p_sp_id r), sid_Number = word_of_int (p_sector_number r)\<rparr>"

text \<open>
  Part 1 of the batch handling: the slot the sector has on the machine that owns the task,
  \<open>None\<close> when there is none; more than one is an error.
\<close>

definition finalize_slot :: "TaskID \<Rightarrow> pipeline_row \<Rightarrow> finalize_state \<Rightarrow> string + uint64 option" where
  "finalize_slot taskID r s =
     (case f_slots s of
        None \<Rightarrow> Inr None
      | Some _ \<Rightarrow>
          (case [m_host_and_port m. t \<leftarrow> harmony_task (pd_harmony (f_db s)), t_id t = taskID,
                   m \<leftarrow> harmony_machines (pd_harmony (f_db s)), t_owner_id t = Some (m_id m)] of
             [host] \<Rightarrow>
               (case filter (\<lambda>b. br_sector b = sector_id r \<and> br_machine b = host) (f_refs s) of
                  [] \<Rightarrow> Inr None
                | [b] \<Rightarrow> Inr (Some (br_slot b))
                | _ \<Rightarrow> Inl ''expected one batch ref'')
           | _ \<Rightarrow> Inl ''expected one machine''))"

text \<open>Part 2: the sector is taken out of its slot.\<close>

definition finalize_slot_done :: "seal_calls \<Rightarrow> pipeline_row \<Rightarrow> uint64 option \<Rightarrow> finalize_state \<Rightarrow> string option \<times> finalize_state" where
  "finalize_slot_done sc r found s =
     (case (found, f_slots s) of
        (Some off, Some mgr) \<Rightarrow>
          (case SectorDone (\<not> sc_exec_fails sc) off (sector_id r) (f_refs s) mgr of
             (Inl _, refs) \<Rightarrow> (Some ''mark batch ref done'', s\<lparr>f_refs := refs\<rparr>)
           | (Inr mgr', refs) \<Rightarrow> (None, s\<lparr>f_refs := refs, f_slots := Some mgr'\<rparr>))
      | _ \<Rightarrow> (None, s))"

definition Finalize_store :: "seal_calls \<Rightarrow> TaskID \<Rightarrow> pipeline_db \<Rightarrow> do_result \<times> pipeline_db" where
  "Finalize_store sc taskID db =
     (if sc_exec_fails sc then ((False, Some ''updating task''), db)
      else ((True, None), update_pipeline (\<lambda>r. p_task_finalize r = Some taskID)
              (\<lambda>r. r\<lparr>p_after_finalize := True, p_task_finalize := None\<rparr>) db))"

definition Finalize_Do :: "seal_calls \<Rightarrow> TaskID \<Rightarrow> finalize_state \<Rightarrow> do_result \<times> finalize_state" where
  "Finalize_Do sc taskID s =
     (case rbind (select_one sc (\<lambda>r. p_task_finalize r = Some taskID) (f_db s)) (\<lambda>r.
           rbind (finalize_slot taskID r s) (\<lambda>found.
           rbind (no_error (sc_FinalizeSector sc (p_sp_id r) (p_sector_number r) (keepUnsealed r (f_db s)))) (\<lambda>_.
           Inr (r, found)))) of
        Inl e \<Rightarrow> ((False, Some e), s)
      | Inr (r, found) \<Rightarrow>
          (case finalize_slot_done sc r found (DropSectorPieceRefs sc r s) of
             (Some e, s') \<Rightarrow> ((False, Some e), s')
           | (None, s') \<Rightarrow> (case Finalize_store sc taskID (f_db s') of (res, db') \<Rightarrow> (res, s'\<lparr>f_db := db'\<rparr>))))"

section \<open>Moving to long term storage\<close>

definition allow_indexing :: "time \<Rightarrow> pipeline_row \<Rightarrow> deal_row list \<Rightarrow> deal_row list" where
  "allow_indexing now r = update_where (\<lambda>d. d_sp_id d = p_sp_id r \<and> d_sector d = Some (p_sector_number r))
     (\<lambda>d. d\<lparr>d_indexing_created_at := Some now\<rparr>)"

definition MoveStorage_store :: "seal_calls \<Rightarrow> TaskID \<Rightarrow> pipeline_row \<Rightarrow> pipeline_db \<Rightarrow> do_result \<times> pipeline_db" where
  "MoveStorage_store sc taskID r db =
     (if sc_exec_fails sc then ((False, Some ''committing transaction''), db)
      else ((True, None),
        (update_pipeline (\<lambda>r. p_task_move_storage r = Some taskID)
           (\<lambda>r. r\<lparr>p_after_move_storage := True, p_task_move_storage := None\<rparr>) db)
        \<lparr>market_mk20_pipeline := allow_indexing (sc_now sc) r (market_mk20_pipeline db),
         market_mk12_deal_pipeline := allow_indexing (sc_now sc) r (market_mk12_deal_pipeline db)\<rparr>))"

definition MoveStorage_Do :: "seal_calls \<Rightarrow> TaskID \<Rightarrow> pipeline_db \<Rightarrow> do_result \<times> pipeline_db" where
  "MoveStorage_Do sc taskID db =
     (case rbind (select_one sc (\<lambda>r. p_task_move_storage r = Some taskID) db) (\<lambda>r.
           rbind (no_error (sc_MoveStorage sc (p_sp_id r) (p_sector_number r))) (\<lambda>_. Inr r)) of
        Inl e \<Rightarrow> ((False, Some e), db)
      | Inr r \<Rightarrow> MoveStorage_store sc taskID r db)"

end
