(* ===== verification/PrecommitTask.thy ===== *)
theory PrecommitTask
  imports SealTasks
begin

text \<open>
  The task that sends the precommit message of a batch (\<open>tasks/seal/task_submit_precommit.go\<close>):
  it gives up sectors whose ticket expired, computes the expiration of the others, and sends
  one message for them. The node, the sender, the policy of the network and the fee
  configuration are fields of \<open>precommit_calls\<close>.
\<close>

section \<open>Surroundings\<close>

record SectorPreCommitInfo =
  pi_SealedCID :: string
  pi_SealProof :: int
  pi_SectorNumber :: int
  pi_SealRandEpoch :: int
  pi_UnsealedCid :: "string option"
  pi_Expiration :: int

record precommit_msg =
  pm_To :: int
  pm_From :: string
  pm_Sectors :: "SectorPreCommitInfo list"
  pm_Value :: int
  pm_MaxFee :: int

record precommit_calls =
  pc_base :: seal_calls
  pc_MaxProveCommitDuration :: "int \<Rightarrow> string + int"
  pc_MaxPreCommitRandomnessLookback :: int
  pc_MaxSectorExpirationExtension :: int
  pc_MinSectorExpiration :: int
  pc_PreCommitDeposit :: "SectorPreCommitInfo \<Rightarrow> string + int"
  pc_MinerInfo :: "string + unit"
  pc_FeeForSectors :: "nat \<Rightarrow> int"
  pc_AggregateNetworkFee :: "nat \<Rightarrow> string + int"
  pc_CollateralFromMinerBalance :: bool
  pc_DisableCollateralFallback :: bool
  pc_AvailableBalance :: "string + int"
  pc_AddressFor :: "int \<Rightarrow> int \<Rightarrow> string + string"
  pc_Send :: "precommit_msg \<Rightarrow> string + string"
  pc_mark_fails :: bool
  pc_insert_fails :: bool

section \<open>Expiration\<close>

text \<open>\<open>COALESCE(f05_deal_..., direct_..., 0)\<close>\<close>

definition coalesce :: "int option \<Rightarrow> int option \<Rightarrow> int" where
  "coalesce a b = (case a of Some x \<Rightarrow> x | None \<Rightarrow> (case b of Some y \<Rightarrow> y | None \<Rightarrow> 0))"

definition DealStartEpoch :: "piece_row \<Rightarrow> int" where
  "DealStartEpoch p = coalesce (pc_f05_deal_start_epoch p) (pc_direct_start_epoch p)"

definition DealEndEpoch :: "piece_row \<Rightarrow> int" where
  "DealEndEpoch p = coalesce (pc_f05_deal_end_epoch p) (pc_direct_end_epoch p)"

text \<open>The latest end of the deals, or \<open>None\<close> when one of them should have started already.\<close>

fun scan_deals :: "int \<Rightarrow> piece_row list \<Rightarrow> int \<Rightarrow> int option" where
  "scan_deals height [] endEpoch = Some endEpoch"
| "scan_deals height (p # ps) endEpoch =
     (if DealStartEpoch p > 0 \<and> DealStartEpoch p < height then None
      else scan_deals height ps (if DealEndEpoch p > 0 \<and> DealEndEpoch p > endEpoch then DealEndEpoch p else endEpoch))"

definition precommit_expiration ::
  "precommit_calls \<Rightarrow> int \<Rightarrow> int \<Rightarrow> int option \<Rightarrow> piece_row list \<Rightarrow> int \<Rightarrow> int" where
  "precommit_expiration pc msd ticketEpoch userDuration pieces endEpoch =
     (let expiration0 = (case userDuration of
                           None \<Rightarrow> ticketEpoch + pc_MaxSectorExpirationExtension pc
                         | Some d \<Rightarrow> ticketEpoch + d);
          expiration = (if pieces \<noteq> [] then endEpoch else expiration0);
          minExpiration = ticketEpoch + pc_MaxPreCommitRandomnessLookback pc + msd + pc_MinSectorExpiration pc
      in if expiration < minExpiration then minExpiration else expiration)"

definition sector_pieces :: "pipeline_row \<Rightarrow> pipeline_db \<Rightarrow> piece_row list" where
  "sector_pieces r db =
     filter (\<lambda>p. pc_sp_id p = p_sp_id r \<and> pc_sector_number p = p_sector_number r) (sectors_sdr_initial_pieces db)"

section \<open>The sectors of the message\<close>

definition precommit_give_up :: "TaskID \<Rightarrow> (pipeline_row \<Rightarrow> bool) \<Rightarrow> string \<Rightarrow> pipeline_db \<Rightarrow> pipeline_db" where
  "precommit_give_up taskID p reason = update_pipeline (\<lambda>r. p_task_precommit_msg r = Some taskID \<and> p r)
     (\<lambda>r. r\<lparr>p_failed := True, p_failed_reason := reason, p_task_precommit_msg := None\<rparr>)"

datatype precommit_outcome = Stop do_result | Sectors "SectorPreCommitInfo list" int

text \<open>
  The loop over the sectors: they are of one miner and one proof type; a sector with an
  expired ticket is given up and skipped; a deal that should have started gives up all
  sectors of the task and ends it.
\<close>

fun precommit_loop ::
  "precommit_calls \<Rightarrow> TaskID \<Rightarrow> int \<Rightarrow> int \<Rightarrow> int \<Rightarrow> int \<Rightarrow> pipeline_row list \<Rightarrow> SectorPreCommitInfo list \<Rightarrow> int \<Rightarrow>
   pipeline_db \<Rightarrow> precommit_outcome \<times> pipeline_db" where
  "precommit_loop pc taskID height maddr spt msd [] params collateral db = (Sectors params collateral, db)"
| "precommit_loop pc taskID height maddr spt msd (r # rs) params collateral db =
     (let ticketEpoch = the (p_ticket_epoch r) in
      if p_sp_id r \<noteq> maddr then (Stop (False, Some ''expected miner IDs to be same''), db)
      else if p_reg_seal_proof r \<noteq> spt then (Stop (False, Some ''expected proofs type to be same''), db)
      else if ticketEpoch < height - pc_MaxPreCommitRandomnessLookback pc then
        (if pc_mark_fails pc then (Stop (False, Some ''persisting precommit check error''), db)
         else precommit_loop pc taskID height maddr spt msd rs params collateral
                (precommit_give_up taskID (same_sector r) ''precommit-check'' db))
      else
        (case rbind (sc_ParseCid (pc_base pc) (the (p_tree_r_cid r))) (\<lambda>sealedCID.
              rbind (sc_ParseCid (pc_base pc) (the (p_tree_d_cid r))) (\<lambda>unsealedCID. Inr (sealedCID, unsealedCID))) of
           Inl e \<Rightarrow> (Stop (False, Some e), db)
         | Inr (sealedCID, unsealedCID) \<Rightarrow>
             let pieces = sector_pieces r db in
             (case scan_deals height pieces 0 of
                None \<Rightarrow>
                  if pc_mark_fails pc then (Stop (False, Some ''persisting precommit start epoch expiry''), db)
                  else (Stop (True, Some ''deal start epoch is in the past''),
                        precommit_give_up taskID (\<lambda>_. True) ''past-start-epoch'' db)
              | Some endEpoch \<Rightarrow>
                  let param = \<lparr>pi_SealedCID = sealedCID, pi_SealProof = p_reg_seal_proof r,
                        pi_SectorNumber = p_sector_number r, pi_SealRandEpoch = ticketEpoch,
                        pi_UnsealedCid = (if pieces \<noteq> [] then Some unsealedCID else None),
                        pi_Expiration = precommit_expiration pc msd ticketEpoch (p_user_duration r) pieces endEpoch\<rparr> in
                  (case pc_PreCommitDeposit pc param of
                     Inl e \<Rightarrow> (Stop (False, Some e), db)
                   | Inr deposit \<Rightarrow>
                       precommit_loop pc taskID height maddr spt msd rs (params @ [param]) (collateral + deposit) db))))"

section \<open>Funds\<close>

definition precommit_funds :: "precommit_calls \<Rightarrow> int \<Rightarrow> int \<Rightarrow> string + int" where
  "precommit_funds pc collateral aggFeeRaw =
     (let aggFee = aggFeeRaw * 110 div 100;
          needFunds = collateral + aggFee
      in if pc_CollateralFromMinerBalance pc then
           rbind (pc_AvailableBalance pc) (\<lambda>balance.
             let needFunds1 = (if pc_DisableCollateralFallback pc then 0 else needFunds) - balance
             in Inr (if needFunds1 < 0 then 0 else needFunds1))
         else Inr needFunds)"

definition precommit_message ::
  "precommit_calls \<Rightarrow> int \<Rightarrow> SectorPreCommitInfo list \<Rightarrow> int \<Rightarrow> string + precommit_msg" where
  "precommit_message pc maddr params collateral =
     rbind (pc_MinerInfo pc) (\<lambda>_.
     let maxFee = pc_FeeForSectors pc (length params) in
     rbind (pc_AggregateNetworkFee pc (length params)) (\<lambda>aggFeeRaw.
     rbind (precommit_funds pc collateral aggFeeRaw) (\<lambda>needFunds.
     let goodFunds = needFunds + maxFee div 10 in
     rbind (pc_AddressFor pc goodFunds collateral) (\<lambda>a.
     Inr \<lparr>pm_To = maddr, pm_From = a, pm_Sectors = params, pm_Value = needFunds, pm_MaxFee = maxFee\<rparr>))))"

section \<open>The task\<close>

definition precommit_store_cid :: "TaskID \<Rightarrow> string \<Rightarrow> pipeline_db \<Rightarrow> pipeline_db" where
  "precommit_store_cid taskID mcid = update_pipeline (\<lambda>r. p_task_precommit_msg r = Some taskID)
     (\<lambda>r. r\<lparr>p_precommit_msg_cid := Some mcid, p_after_precommit_msg := True, p_task_precommit_msg := None\<rparr>)"

definition insert_wait :: "string \<Rightarrow> pipeline_db \<Rightarrow> pipeline_db" where
  "insert_wait mcid db = db\<lparr>message_waits := message_waits db @
     [\<lparr>w_signed_message_cid = mcid, w_executed_tsk_cid = [], w_executed_tsk_epoch = None, w_executed_rcpt_exitcode = 0\<rparr>]\<rparr>"

definition precommit_send ::
  "precommit_calls \<Rightarrow> TaskID \<Rightarrow> precommit_msg \<Rightarrow> pipeline_db \<Rightarrow> do_result \<times> pipeline_db" where
  "precommit_send pc taskID msg db =
     (case pc_Send pc msg of
        Inl e \<Rightarrow> ((False, Some e), db)
      | Inr mcid \<Rightarrow>
          if sc_exec_fails (pc_base pc) then ((False, Some ''updating precommit_msg_cid''), db)
          else let db1 = precommit_store_cid taskID mcid db in
               if pc_insert_fails pc then ((False, Some ''inserting into message_waits''), db1)
               else ((True, None), insert_wait mcid db1))"

definition precommit_rows :: "TaskID \<Rightarrow> pipeline_db \<Rightarrow> pipeline_row list" where
  "precommit_rows taskID db =
     sort_key p_sector_number (filter (\<lambda>r. p_task_precommit_msg r = Some taskID) (sectors_sdr_pipeline db))"

text \<open>The handler up to the message, and the whole handler.\<close>

definition precommit_prepare :: "precommit_calls \<Rightarrow> TaskID \<Rightarrow> pipeline_db \<Rightarrow> (do_result + precommit_msg) \<times> pipeline_db" where
  "precommit_prepare pc taskID db =
     (let rows = precommit_rows taskID db in
      if sc_select_fails (pc_base pc) \<or>
         list_ex (\<lambda>r. p_ticket_epoch r = None \<or> p_tree_r_cid r = None \<or> p_tree_d_cid r = None) rows
      then (Inl (False, Some ''getting sector params''), db)
      else if rows = [] then (Inl (True, Some ''expected at least 1 sector params, got 0''), db)
      else
        (case sc_head (pc_base pc) of
           None \<Rightarrow> (Inl (False, Some ''getting chain head''), db)
         | Some height \<Rightarrow>
             (case pc_MaxProveCommitDuration pc (p_reg_seal_proof (hd rows)) of
                Inl e \<Rightarrow> (Inl (False, Some e), db)
              | Inr msd \<Rightarrow>
                  (case precommit_loop pc taskID height (p_sp_id (hd rows)) (p_reg_seal_proof (hd rows)) msd rows [] 0 db of
                     (Stop res, db1) \<Rightarrow> (Inl res, db1)
                   | (Sectors params collateral, db1) \<Rightarrow>
                       if params = [] then (Inl (True, None), db1)
                       else (case precommit_message pc (p_sp_id (hd rows)) params collateral of
                               Inl e \<Rightarrow> (Inl (False, Some e), db1)
                             | Inr msg \<Rightarrow> (Inr msg, db1))))))"

definition SubmitPrecommit_Do :: "precommit_calls \<Rightarrow> TaskID \<Rightarrow> pipeline_db \<Rightarrow> do_result \<times> pipeline_db" where
  "SubmitPrecommit_Do pc taskID db =
     (case precommit_prepare pc taskID db of
        (Inl res, db1) \<Rightarrow> (res, db1)
      | (Inr msg, db1) \<Rightarrow> precommit_send pc taskID msg db1)"

section \<open>The message is sound\<close>

text \<open>\<open>p\<close> is a right entry for the sector \<open>r\<close>, at height \<open>height\<close>.\<close>

definition sound_entry :: "precommit_calls \<Rightarrow> int \<Rightarrow> int \<Rightarrow> pipeline_db \<Rightarrow> pipeline_row \<Rightarrow> SectorPreCommitInfo \<Rightarrow> bool" where
  "sound_entry pc height msd db r p \<longleftrightarrow>
     pi_SectorNumber p = p_sector_number r \<and> pi_SealProof p = p_reg_seal_proof r \<and>
     p_ticket_epoch r = Some (pi_SealRandEpoch p) \<and>
     height - pc_MaxPreCommitRandomnessLookback pc \<le> pi_SealRandEpoch p \<and>
     pi_SealRandEpoch p + pc_MaxPreCommitRandomnessLookback pc + msd + pc_MinSectorExpiration pc \<le> pi_Expiration p \<and>
     (\<forall>d\<in>set (sector_pieces r db).
        DealEndEpoch d \<le> pi_Expiration p \<and> (0 < DealStartEpoch d \<longrightarrow> height \<le> DealStartEpoch d))"

definition fresh_ticket :: "precommit_calls \<Rightarrow> int \<Rightarrow> pipeline_row \<Rightarrow> bool" where
  "fresh_ticket pc height r \<longleftrightarrow> height - pc_MaxPreCommitRandomnessLookback pc \<le> the (p_ticket_epoch r)"

lemma scan_deals_Some:
  assumes "scan_deals height ps e = Some e'"
  shows "e \<le> e'" and "\<forall>d\<in>set ps. (0 < DealEndEpoch d \<longrightarrow> DealEndEpoch d \<le> e') \<and>
    (0 < DealStartEpoch d \<longrightarrow> height \<le> DealStartEpoch d)"
proof -
  have "e \<le> e' \<and> (\<forall>d\<in>set ps. (0 < DealEndEpoch d \<longrightarrow> DealEndEpoch d \<le> e') \<and>
    (0 < DealStartEpoch d \<longrightarrow> height \<le> DealStartEpoch d))"
    using assms
  proof (induction height ps e rule: scan_deals.induct)
    case (2 height p ps e)
    let ?e = "if DealEndEpoch p > 0 \<and> DealEndEpoch p > e then DealEndEpoch p else e"
    from 2(2) have p: "\<not> (DealStartEpoch p > 0 \<and> DealStartEpoch p < height)"
      and ps: "scan_deals height ps ?e = Some e'" by (auto split: if_splits)
    note IH = 2(1) [OF p ps]
    have "e \<le> ?e" "0 < DealEndEpoch p \<longrightarrow> DealEndEpoch p \<le> ?e" by auto
    moreover have "?e \<le> e'" using IH by blast
    ultimately show ?case using IH p by auto
  qed simp
  then show "e \<le> e'" "\<forall>d\<in>set ps. (0 < DealEndEpoch d \<longrightarrow> DealEndEpoch d \<le> e') \<and>
    (0 < DealStartEpoch d \<longrightarrow> height \<le> DealStartEpoch d)" by blast+
qed

lemma precommit_expiration_bounds:
  "ticketEpoch + pc_MaxPreCommitRandomnessLookback pc + msd + pc_MinSectorExpiration pc
     \<le> precommit_expiration pc msd ticketEpoch d pieces endEpoch"
  "pieces \<noteq> [] \<Longrightarrow> endEpoch \<le> precommit_expiration pc msd ticketEpoch d pieces endEpoch"
  by (simp_all add: precommit_expiration_def Let_def)

lemma give_up_pieces [simp]: "sector_pieces r (precommit_give_up taskID p reason db) = sector_pieces r db"
  by (simp add: sector_pieces_def precommit_give_up_def update_pipeline_def)

lemma sound_entry_param:
  assumes "scan_deals height (sector_pieces r db) 0 = Some endEpoch" "p_ticket_epoch r = Some e"
    "height - pc_MaxPreCommitRandomnessLookback pc \<le> e"
    "pi_SectorNumber p = p_sector_number r" "pi_SealProof p = p_reg_seal_proof r" "pi_SealRandEpoch p = e"
    "pi_Expiration p = precommit_expiration pc msd e (p_user_duration r) (sector_pieces r db) endEpoch"
  shows "sound_entry pc height msd db r p"
proof -
  have "DealEndEpoch d \<le> pi_Expiration p \<and> (0 < DealStartEpoch d \<longrightarrow> height \<le> DealStartEpoch d)"
    if d: "d \<in> set (sector_pieces r db)" for d
  proof -
    have "sector_pieces r db \<noteq> []" using d by auto
    from precommit_expiration_bounds(2) [OF this] have "endEpoch \<le> pi_Expiration p" by (simp add: assms(7))
    moreover have "DealEndEpoch d \<le> endEpoch" "0 < DealStartEpoch d \<longrightarrow> height \<le> DealStartEpoch d"
      using scan_deals_Some [OF assms(1)] d by fastforce+
    ultimately show ?thesis by linarith
  qed
  then show ?thesis using assms precommit_expiration_bounds(1) by (simp add: sound_entry_def)
qed

lemma precommit_loop_Sectors:
  assumes "precommit_loop pc taskID height maddr spt msd rows params collateral db = (Sectors ps c, db')"
    "\<forall>r\<in>set rows. p_ticket_epoch r \<noteq> None"
  shows "\<exists>qs. ps = params @ qs \<and> list_all2 (sound_entry pc height msd db) (filter (fresh_ticket pc height) rows) qs \<and>
    (\<forall>r\<in>set rows. p_sp_id r = maddr)"
  using assms
proof (induction pc taskID height maddr spt msd rows params collateral db rule: precommit_loop.induct)
  case (2 pc taskID height maddr spt msd r rs params collateral db)
  obtain e where e: "p_ticket_epoch r = Some e" using "2.prems"(2) by auto
  have sp: "p_sp_id r = maddr" and spt: "p_reg_seal_proof r = spt"
    using "2.prems"(1) by (auto simp: Let_def split: if_splits)
  show ?case
  proof (cases "e < height - pc_MaxPreCommitRandomnessLookback pc")
    case True
    then have loop: "precommit_loop pc taskID height maddr spt msd rs params collateral
        (precommit_give_up taskID (same_sector r) ''precommit-check'' db) = (Sectors ps c, db')" "\<not> pc_mark_fails pc"
      using "2.prems"(1) e sp spt by (auto simp: Let_def split: if_splits)
    have "sound_entry pc height msd (precommit_give_up taskID (same_sector r) ''precommit-check'' db) =
        sound_entry pc height msd db" by (intro ext) (simp add: sound_entry_def)
    then show ?thesis using "2.IH"(1) [OF refl _ _ _ loop(2) loop(1)] True "2.prems"(2) e sp spt
      by (simp add: fresh_ticket_def)
  next
    case False
    then obtain sealed unsealed endEpoch param deposit where
      scan: "scan_deals height (sector_pieces r db) 0 = Some endEpoch" and
      cids: "rbind (sc_ParseCid (pc_base pc) (the (p_tree_r_cid r))) (\<lambda>sealedCID.
          rbind (sc_ParseCid (pc_base pc) (the (p_tree_d_cid r))) (\<lambda>unsealedCID. Inr (sealedCID, unsealedCID))) =
        Inr (sealed, unsealed)" and
      param: "param = \<lparr>pi_SealedCID = sealed, pi_SealProof = p_reg_seal_proof r, pi_SectorNumber = p_sector_number r,
        pi_SealRandEpoch = e, pi_UnsealedCid = (if sector_pieces r db \<noteq> [] then Some unsealed else None),
        pi_Expiration = precommit_expiration pc msd e (p_user_duration r) (sector_pieces r db) endEpoch\<rparr>" and
      dep: "pc_PreCommitDeposit pc param = Inr deposit" and
      loop: "precommit_loop pc taskID height maddr spt msd rs (params @ [param]) (collateral + deposit) db = (Sectors ps c, db')"
      using "2.prems"(1) e sp spt by (auto simp: Let_def split: if_splits sum.splits option.splits prod.splits)
    have "sound_entry pc height msd db r param"
      using sound_entry_param [OF scan e] False by (simp add: param)
    moreover have "\<exists>qs. ps = (params @ [param]) @ qs \<and>
        list_all2 (sound_entry pc height msd db) (filter (fresh_ticket pc height) rs) qs \<and> (\<forall>r\<in>set rs. p_sp_id r = maddr)"
      using "2.IH"(2) [OF refl _ _ _ cids refl refl scan refl] loop dep False "2.prems"(2) e sp spt
      by (simp add: param)
    moreover have "fresh_ticket pc height r" using False e by (simp add: fresh_ticket_def)
    ultimately show ?thesis using sp by auto
  qed
qed simp

lemma precommit_message_fields:
  "precommit_message pc maddr params collateral = Inr msg \<Longrightarrow> pm_To msg = maddr \<and> pm_Sectors msg = params"
  by (auto simp: precommit_message_def rbind_Inr_iff Let_def)

lemma set_precommit_rows:
  "set (precommit_rows taskID db) = {r \<in> set (sectors_sdr_pipeline db). p_task_precommit_msg r = Some taskID}"
  by (auto simp: precommit_rows_def)

section \<open>Properties\<close>

definition ex_calls :: seal_calls where
  "ex_calls = \<lparr>sc_select_fails = False, sc_exec_fails = False, sc_head = Some 400, sc_SealRandomnessLookback = 300,
     sc_randomness_tickets = (\<lambda>_ _. Inr ''ticket''), sc_randomness_beacon = (\<lambda>_ _. Inr ''seed''),
     sc_DealData = (\<lambda>_ _. Inr ''d''), sc_ParseCid = Inr, sc_GenerateSDR = (\<lambda>_ _ _ _. None),
     sc_TreeD = (\<lambda>_ _ _. None), sc_TreeRC = (\<lambda>_ _ _ _. Inr (''r'', ''d'')), sc_Synthetic = (\<lambda>_. True),
     sc_SyntheticProofs = (\<lambda>_ _ _ _ _ _. None), sc_PoRepSnark = (\<lambda>_ _ _ _ _ _. Inr ''proof''),
     sc_FinalizeSector = (\<lambda>_ _ _. None), sc_pieceref = (\<lambda>_. None), sc_MoveStorage = (\<lambda>_ _. None), sc_now = 9\<rparr>"

definition ex_precommit_calls :: precommit_calls where
  "ex_precommit_calls = \<lparr>pc_base = ex_calls, pc_MaxProveCommitDuration = (\<lambda>_. Inr 30),
     pc_MaxPreCommitRandomnessLookback = 350, pc_MaxSectorExpirationExtension = 5000, pc_MinSectorExpiration = 1000,
     pc_PreCommitDeposit = (\<lambda>_. Inr 7), pc_MinerInfo = Inr (), pc_FeeForSectors = (\<lambda>n. 10 * int n),
     pc_AggregateNetworkFee = (\<lambda>_. Inr 10), pc_CollateralFromMinerBalance = False, pc_DisableCollateralFallback = False,
     pc_AvailableBalance = Inr 0, pc_AddressFor = (\<lambda>_ _. Inr ''worker''), pc_Send = (\<lambda>_. Inr ''msg''),
     pc_mark_fails = False, pc_insert_fails = False\<rparr>"

text \<open>Two sectors of one task; the ticket of the second is too old. The first holds a deal.\<close>

definition ex_precommit_db :: pipeline_db where
  "ex_precommit_db = (ex_pipeline
     [(ex_sealed 1)\<lparr>p_task_precommit_msg := Some 5, p_tree_r_cid := Some ''r'', p_tree_d_cid := Some ''d''\<rparr>,
      (ex_sealed 2)\<lparr>p_task_precommit_msg := Some 5, p_tree_r_cid := Some ''r'', p_tree_d_cid := Some ''d'',
        p_ticket_epoch := Some 40\<rparr>])
     \<lparr>sectors_sdr_initial_pieces := [\<lparr>pc_sp_id = 1000, pc_sector_number = 1, pc_f05_deal_start_epoch = Some 500,
        pc_f05_deal_end_epoch = Some 9000, pc_direct_start_epoch = None, pc_direct_end_epoch = None,
        pc_data_delete_on_finalize = True, pc_data_url = []\<rparr>]\<rparr>"

definition ex_precommit_msg :: precommit_msg where
  "ex_precommit_msg = \<lparr>pm_To = 1000, pm_From = ''worker'', pm_Sectors =
     [\<lparr>pi_SealedCID = ''r'', pi_SealProof = 8, pi_SectorNumber = 1, pi_SealRandEpoch = 100, pi_UnsealedCid = Some ''d'',
       pi_Expiration = 9000\<rparr>], pm_Value = 18, pm_MaxFee = 10\<rparr>"

text \<open>
  C20: The message a precommit task sends has, in order, exactly the sectors of the task whose
  ticket is not too old, all of the miner the message goes to. The expiration of each is late
  enough for the proof to be submitted and the minimal lifetime to pass, and covers every deal
  in the sector; no deal in the message should have started before.
\<close>

theorem precommit_message_sound:
  assumes "precommit_prepare pc taskID db = (Inr msg, db1)" "sc_head (pc_base pc) = Some height"
  shows "\<exists>msd. pc_MaxProveCommitDuration pc (p_reg_seal_proof (hd (precommit_rows taskID db))) = Inr msd \<and>
    pm_Sectors msg \<noteq> [] \<and>
    list_all2 (sound_entry pc height msd db) (filter (fresh_ticket pc height) (precommit_rows taskID db)) (pm_Sectors msg) \<and>
    (\<forall>r\<in>set (precommit_rows taskID db). p_sp_id r = pm_To msg)"
proof -
  let ?rows = "precommit_rows taskID db"
  obtain msd params collateral where
    msd: "pc_MaxProveCommitDuration pc (p_reg_seal_proof (hd ?rows)) = Inr msd" and
    loop: "precommit_loop pc taskID height (p_sp_id (hd ?rows)) (p_reg_seal_proof (hd ?rows)) msd ?rows [] 0 db =
      (Sectors params collateral, db1)" and
    msg: "params \<noteq> []" "precommit_message pc (p_sp_id (hd ?rows)) params collateral = Inr msg" and
    cols: "\<not> list_ex (\<lambda>r. p_ticket_epoch r = None \<or> p_tree_r_cid r = None \<or> p_tree_d_cid r = None) ?rows"
    using assms by (auto simp: precommit_prepare_def Let_def
        split: if_splits sum.splits option.splits prod.splits precommit_outcome.splits)
  have "\<forall>r\<in>set ?rows. p_ticket_epoch r \<noteq> None" using cols by (auto simp: list_ex_iff)
  from precommit_loop_Sectors [OF loop this] msd msg(1) precommit_message_fields [OF msg(2)] show ?thesis by auto
qed

theorem precommit_message_sound_witness:
  "precommit_prepare ex_precommit_calls 5 ex_precommit_db =
     (Inr ex_precommit_msg, precommit_give_up 5 (same_sector (ex_sector 2)) ''precommit-check'' ex_precommit_db) \<and>
   (\<exists>msd. list_all2 (sound_entry ex_precommit_calls 400 msd ex_precommit_db)
      (filter (fresh_ticket ex_precommit_calls 400) (precommit_rows 5 ex_precommit_db)) (pm_Sectors ex_precommit_msg))"
proof
  show prep: "precommit_prepare ex_precommit_calls 5 ex_precommit_db =
     (Inr ex_precommit_msg, precommit_give_up 5 (same_sector (ex_sector 2)) ''precommit-check'' ex_precommit_db)"
    by code_simp
  have "sc_head (pc_base ex_precommit_calls) = Some 400" by (simp add: ex_precommit_calls_def ex_calls_def)
  from precommit_message_sound [OF prep this]
  show "\<exists>msd. list_all2 (sound_entry ex_precommit_calls 400 msd ex_precommit_db)
      (filter (fresh_ticket ex_precommit_calls 400) (precommit_rows 5 ex_precommit_db)) (pm_Sectors ex_precommit_msg)"
    by blast
qed

end
