(* ===== verification/CommitTask.thy ===== *)
theory CommitTask
  imports SealTasks
begin

text \<open>
  The task that sends the commit message of a batch (\<open>tasks/seal/task_submit_commit.go\<close>): it
  checks the verified allocations of the pieces, tries each sector on its own, and sends one
  message, with the proofs one by one or aggregated, whichever is cheaper.

  A panic is the result \<open>CmPanic\<close>, and \<open>None\<close> of the whole handler: it unwinds the handler and
  is caught by the task engine.
\<close>

section \<open>Surroundings\<close>

record piece_manifest =
  pam_CID :: string
  pam_Size :: int
  pam_VerifiedAllocationKey :: "(int \<times> int) option"

record allocation =
  al_Provider :: int
  al_Size :: int
  al_TermMin :: int
  al_TermMax :: int

record precommit_on_chain =
  pci_Expiration :: int
  pci_SealProof :: int
  pci_PreCommitDeposit :: int

record commit_params =
  cp_Activations :: "(int \<times> piece_manifest list) list"
  cp_SectorProofs :: "string option list"
  cp_AggregateProof :: "string option"

record commit_msg =
  cm_From :: string
  cm_Params :: commit_params
  cm_Value :: int
  cm_GasPremium :: int
  cm_GasLimit :: int

text \<open>
  \<open>cc_Manifest\<close> is the activation manifest of a piece, from its deal proposal and the node
  or from the stored JSON. \<open>cc_AddressFor\<close> and \<open>cc_GasEstimate\<close> are calls of the node.
\<close>

record commit_calls =
  cc_base :: seal_calls
  cc_AvailableBalance :: "string + int"
  cc_MinerInfo :: "string + unit"
  cc_Manifest :: "piece_row \<Rightarrow> string + piece_manifest"
  cc_PreCommitInfo :: "int \<Rightarrow> int \<Rightarrow> string + precommit_on_chain option"
  cc_GetAllocation :: "int \<Rightarrow> int \<Rightarrow> string + allocation option"
  cc_SectorSize :: "int \<Rightarrow> string + int"
  cc_InitialPledge :: "int \<Rightarrow> int \<Rightarrow> int \<Rightarrow> string + int"
  cc_FeeForSectors :: "nat \<Rightarrow> int"
  cc_CollateralFromMinerBalance :: bool
  cc_DisableCollateralFallback :: bool
  cc_AddressFor :: "int \<Rightarrow> int \<Rightarrow> string + string"
  cc_GasEstimate :: "commit_params \<Rightarrow> string \<Rightarrow> int \<Rightarrow> int \<Rightarrow> string + int \<times> int"
  cc_NetworkVersion :: "string + unit"
  cc_AggregateSealProofs :: "string option list \<Rightarrow> string + string"
  cc_MinAggregatedSectors :: nat
  cc_BaseFee :: int
  cc_Send :: "commit_msg \<Rightarrow> string + string"
  cc_insert_fails :: bool
  cc_transfer_fails :: bool

section \<open>Allocations\<close>

text \<open>Whether the problem is permanent, and the problem.\<close>

definition AllocationCheck :: "commit_calls \<Rightarrow> piece_manifest \<Rightarrow> int \<Rightarrow> int \<Rightarrow> int \<Rightarrow> bool \<times> string option" where
  "AllocationCheck cc piece expiration miner height =
     (case pam_VerifiedAllocationKey piece of
        None \<Rightarrow> (False, None)
      | Some (client, allocID) \<Rightarrow>
          (case cc_GetAllocation cc client allocID of
             Inl e \<Rightarrow> (False, Some e)
           | Inr None \<Rightarrow> (True, Some ''no allocation found'')
           | Inr (Some alloc) \<Rightarrow>
               if al_Provider alloc \<noteq> miner then (True, Some ''provider id mismatch'')
               else if al_Size alloc \<noteq> pam_Size piece then (True, Some ''size mismatch'')
               else if expiration < height + al_TermMin alloc then (True, Some ''sector expiration is before TermMin'')
               else if expiration > height + al_TermMax alloc then (True, Some ''sector expiration is later than TermMax'')
               else (False, None)))"

text \<open>
  The pieces of a sector. The statement that should record a permanent problem has four
  placeholders and three arguments, so it always fails, which ends the task with an error.
  Another problem is ignored.
\<close>

fun commit_pieces ::
  "commit_calls \<Rightarrow> int \<Rightarrow> int \<Rightarrow> int \<Rightarrow> piece_row list \<Rightarrow> piece_manifest list \<Rightarrow> int \<Rightarrow> string + piece_manifest list \<times> int" where
  "commit_pieces cc expiration miner height [] pams verifiedSize = Inr (pams, verifiedSize)"
| "commit_pieces cc expiration miner height (p # ps) pams verifiedSize =
     (case cc_Manifest cc p of
        Inl e \<Rightarrow> Inl e
      | Inr pam \<Rightarrow>
          (case AllocationCheck cc pam expiration miner height of
             (True, Some e) \<Rightarrow> Inl ''allocation check failed with an unrecoverable issue''
           | _ \<Rightarrow>
               commit_pieces cc expiration miner height ps (pams @ [pam])
                 (case pam_VerifiedAllocationKey pam of
                    Some (_, allocID) \<Rightarrow> if allocID \<noteq> 0 then verifiedSize + pam_Size pam else verifiedSize
                  | None \<Rightarrow> verifiedSize)))"

section \<open>Messages\<close>

definition calculateCollateral :: "commit_calls \<Rightarrow> int \<Rightarrow> int \<Rightarrow> int" where
  "calculateCollateral cc minerBalance collateral =
     (if cc_CollateralFromMinerBalance cc then
        let collateral1 = (if cc_DisableCollateralFallback cc then 0 else collateral) - minerBalance
        in if collateral1 < 0 then 0 else collateral1
      else collateral)"

definition gasEstimateCommit :: "commit_calls \<Rightarrow> commit_params \<Rightarrow> int \<Rightarrow> int \<Rightarrow> int \<Rightarrow> string + commit_msg" where
  "gasEstimateCommit cc params goodFunds collateral maxFee =
     rbind (cc_AddressFor cc goodFunds collateral) (\<lambda>a.
     rbind (cc_GasEstimate cc params a collateral maxFee) (\<lambda>(premium, limit).
     Inr \<lparr>cm_From = a, cm_Params = params, cm_Value = collateral, cm_GasPremium = premium, cm_GasLimit = limit\<rparr>))"

definition simuateCommitPerSector :: "commit_calls \<Rightarrow> int \<Rightarrow> int \<Rightarrow> commit_params \<Rightarrow> string option" where
  "simuateCommitPerSector cc balance collateral params =
     (let maxFee = cc_FeeForSectors cc 1;
          collateral1 = calculateCollateral cc balance collateral;
          goodFunds = collateral1 + maxFee div 10
      in case gasEstimateCommit cc params goodFunds collateral1 maxFee of Inl e \<Rightarrow> Some e | Inr _ \<Rightarrow> None)"

definition commit_cost :: "commit_calls \<Rightarrow> commit_msg \<Rightarrow> int" where
  "commit_cost cc msg = (cc_BaseFee cc + cm_GasPremium msg) * cm_GasLimit msg"

datatype commit_result = CmErr string | CmPanic | CmMsg commit_msg

text \<open>The aggregated message, \<open>None\<close> for too few sectors.\<close>

definition aggregateCommit :: "commit_calls \<Rightarrow> int \<Rightarrow> int \<Rightarrow> commit_params \<Rightarrow> nat \<Rightarrow> string + commit_msg option" where
  "aggregateCommit cc balance collateral params infos =
     (let maxFee = cc_FeeForSectors cc infos in
      if infos < cc_MinAggregatedSectors cc then Inr None
      else if length (cp_SectorProofs params) \<noteq> infos then Inl ''mismatched number of proofs and infos''
      else rbind (cc_AggregateSealProofs cc (cp_SectorProofs params)) (\<lambda>agg.
           let aggParams = params\<lparr>cp_AggregateProof := Some agg, cp_SectorProofs := []\<rparr>;
               aggCollateral = calculateCollateral cc balance collateral;
               goodFunds = aggCollateral + maxFee div 10
           in rbind (gasEstimateCommit cc aggParams goodFunds aggCollateral maxFee) (\<lambda>msg. Inr (Some msg))))"

definition createCommitMessage :: "commit_calls \<Rightarrow> int \<Rightarrow> int \<Rightarrow> commit_params \<Rightarrow> nat \<Rightarrow> commit_result" where
  "createCommitMessage cc balance collateral params infos =
     (case rbind (cc_NetworkVersion cc) (\<lambda>_. aggregateCommit cc balance collateral params infos) of
        Inl e \<Rightarrow> CmErr e
      | Inr aggMsg \<Rightarrow>
          let maxFee = cc_FeeForSectors cc infos;
              collateral1 = calculateCollateral cc balance collateral;
              goodFunds = collateral1 + maxFee div 10
          in (case gasEstimateCommit cc params goodFunds collateral1 maxFee of
                Inl e \<Rightarrow>
                  if \<not> strings_Contains e ''call ran out of gas'' then CmErr e
                  else (case aggMsg of
                          None \<Rightarrow> CmPanic
                        | Some m \<Rightarrow> if infos = 0 then CmPanic else CmMsg m)
              | Inr msg \<Rightarrow>
                  if infos = 0 then CmPanic
                  else (case aggMsg of
                          None \<Rightarrow> CmMsg msg
                        | Some m \<Rightarrow> if commit_cost cc msg < commit_cost cc m then CmMsg msg else CmMsg m)))"

section \<open>The sectors of the message\<close>

datatype commit_outcome = CommitStop string | CommitSectors commit_params int "int list"

definition commit_sector ::
  "commit_calls \<Rightarrow> int \<Rightarrow> int \<Rightarrow> pipeline_row \<Rightarrow> pipeline_db \<Rightarrow> string + (piece_manifest list \<times> int)" where
  "commit_sector cc miner height r db =
     rbind (cc_PreCommitInfo cc miner (p_sector_number r)) (\<lambda>found.
     (case found of
        None \<Rightarrow> Inl ''precommit info not found on chain''
      | Some pci \<Rightarrow>
          rbind (commit_pieces cc (pci_Expiration pci) (p_sp_id r) height
                   (filter (\<lambda>p. pc_sp_id p = p_sp_id r \<and> pc_sector_number p = p_sector_number r)
                      (sectors_sdr_initial_pieces db)) [] 0) (\<lambda>(pams, verifiedSize).
          rbind (cc_SectorSize cc (pci_SealProof pci)) (\<lambda>ssize.
          rbind (cc_InitialPledge cc (pci_Expiration pci - height) ssize verifiedSize) (\<lambda>pledge.
          Inr (pams, max 0 (pledge - pci_PreCommitDeposit pci)))))))"

fun commit_loop ::
  "commit_calls \<Rightarrow> int \<Rightarrow> int \<Rightarrow> int \<Rightarrow> int \<Rightarrow> pipeline_row list \<Rightarrow> commit_params \<Rightarrow> int \<Rightarrow> int list \<Rightarrow> pipeline_db \<Rightarrow>
   commit_outcome" where
  "commit_loop cc miner regProof height balance [] params collateral sectors db = CommitSectors params collateral sectors"
| "commit_loop cc miner regProof height balance (r # rs) params collateral sectors db =
     (if p_sp_id r \<noteq> miner then CommitStop ''expected miner IDs to be same''
      else if p_reg_seal_proof r \<noteq> regProof then CommitStop ''expected proofs type to be same''
      else
        (case commit_sector cc miner height r db of
           Inl e \<Rightarrow> CommitStop e
         | Inr (pams, collateralPerSector) \<Rightarrow>
             if simuateCommitPerSector cc balance collateral
                  \<lparr>cp_Activations = [(p_sector_number r, pams)], cp_SectorProofs = [p_porep_proof r], cp_AggregateProof = None\<rparr>
                \<noteq> None
             then commit_loop cc miner regProof height balance rs params collateral sectors db
             else
               (case rbind (sc_ParseCid (cc_base cc) (the (p_tree_r_cid r)))
                       (\<lambda>_. sc_ParseCid (cc_base cc) (the (p_tree_d_cid r))) of
                  Inl e \<Rightarrow> CommitStop e
                | Inr _ \<Rightarrow>
                    commit_loop cc miner regProof height balance rs
                      (params\<lparr>cp_Activations := cp_Activations params @ [(p_sector_number r, pams)],
                              cp_SectorProofs := cp_SectorProofs params @ [p_porep_proof r]\<rparr>)
                      (collateral + collateralPerSector) (sectors @ [p_sector_number r]) db)))"

section \<open>The task\<close>

text \<open>
  \<open>transferFinalizedSectorData\<close> copies columns of the sectors to \<open>sectors_meta\<close>. On a
  conflict the two unsealed CIDs of the existing row stay. The copy of the pieces
  (\<open>sectors_meta_pieces\<close>) is left out.
\<close>

record meta_row =
  mr_sp_id :: int
  mr_sector_num :: int
  mr_reg_seal_proof :: int
  mr_ticket_epoch :: "int option"
  mr_ticket_value :: "string option"
  mr_orig_sealed_cid :: "string option"
  mr_orig_unsealed_cid :: "string option"
  mr_cur_sealed_cid :: "string option"
  mr_cur_unsealed_cid :: "string option"
  mr_msg_cid_precommit :: "string option"
  mr_msg_cid_commit :: "string option"
  mr_seed_epoch :: "int option"
  mr_seed_value :: "string option"

definition meta_of :: "pipeline_row \<Rightarrow> meta_row" where
  "meta_of r = \<lparr>mr_sp_id = p_sp_id r, mr_sector_num = p_sector_number r, mr_reg_seal_proof = p_reg_seal_proof r,
     mr_ticket_epoch = p_ticket_epoch r, mr_ticket_value = p_ticket_value r, mr_orig_sealed_cid = p_tree_r_cid r,
     mr_orig_unsealed_cid = p_tree_d_cid r, mr_cur_sealed_cid = p_tree_r_cid r, mr_cur_unsealed_cid = p_tree_d_cid r,
     mr_msg_cid_precommit = p_precommit_msg_cid r, mr_msg_cid_commit = p_commit_msg_cid r,
     mr_seed_epoch = p_seed_epoch r, mr_seed_value = p_seed_value r\<rparr>"

definition upsert_meta :: "meta_row \<Rightarrow> meta_row list \<Rightarrow> meta_row list" where
  "upsert_meta new ms =
     (let same = (\<lambda>m. mr_sp_id m = mr_sp_id new \<and> mr_sector_num m = mr_sector_num new) in
      if list_ex same ms
      then update_where same (\<lambda>m. new\<lparr>mr_orig_unsealed_cid := mr_orig_unsealed_cid m,
                                       mr_cur_unsealed_cid := mr_cur_unsealed_cid m\<rparr>) ms
      else ms @ [new])"

definition transferFinalizedSectorData :: "int \<Rightarrow> int list \<Rightarrow> pipeline_db \<Rightarrow> meta_row list \<Rightarrow> meta_row list" where
  "transferFinalizedSectorData spID sectors db ms =
     fold (\<lambda>r. upsert_meta (meta_of r))
       (filter (\<lambda>r. p_sp_id r = spID \<and> p_sector_number r \<in> set sectors) (sectors_sdr_pipeline db)) ms"

definition commit_store_cid :: "TaskID \<Rightarrow> int \<Rightarrow> int list \<Rightarrow> string \<Rightarrow> pipeline_db \<Rightarrow> pipeline_db" where
  "commit_store_cid taskID spID sectors mcid = update_pipeline
     (\<lambda>r. p_task_commit_msg r = Some taskID \<and> p_sp_id r = spID \<and> p_sector_number r \<in> set sectors)
     (\<lambda>r. r\<lparr>p_commit_msg_cid := Some mcid, p_after_commit_msg := True, p_task_commit_msg := None\<rparr>)"

definition commit_rows :: "TaskID \<Rightarrow> pipeline_db \<Rightarrow> pipeline_row list" where
  "commit_rows taskID db =
     sort_key p_sector_number (filter (\<lambda>r. p_task_commit_msg r = Some taskID) (sectors_sdr_pipeline db))"

definition commit_wait :: "string \<Rightarrow> pipeline_db \<Rightarrow> pipeline_db" where
  "commit_wait mcid db = db\<lparr>message_waits := message_waits db @
     [\<lparr>w_signed_message_cid = mcid, w_executed_tsk_cid = [], w_executed_tsk_epoch = None, w_executed_rcpt_exitcode = 0\<rparr>]\<rparr>"

definition commit_send ::
  "commit_calls \<Rightarrow> TaskID \<Rightarrow> int \<Rightarrow> int list \<Rightarrow> commit_msg \<Rightarrow> pipeline_db \<times> meta_row list \<Rightarrow>
   do_result \<times> pipeline_db \<times> meta_row list" where
  "commit_send cc taskID spID sectors msg = (\<lambda>(db, ms).
     case cc_Send cc msg of
       Inl e \<Rightarrow> ((False, Some e), db, ms)
     | Inr mcid \<Rightarrow>
         if sc_exec_fails (cc_base cc) then ((False, Some ''updating commit_msg_cid''), db, ms)
         else let db1 = commit_store_cid taskID spID sectors mcid db in
              if cc_insert_fails cc then ((False, Some ''inserting into message_waits''), db1, ms)
              else let db2 = commit_wait mcid db1 in
                   if cc_transfer_fails cc then ((False, Some ''transferring finalized sector data''), db2, ms)
                   else ((True, None), db2, transferFinalizedSectorData spID sectors db2 ms))"

definition SubmitCommit_Do ::
  "commit_calls \<Rightarrow> TaskID \<Rightarrow> pipeline_db \<times> meta_row list \<Rightarrow> (do_result \<times> pipeline_db \<times> meta_row list) option" where
  "SubmitCommit_Do cc taskID = (\<lambda>(db, ms).
     let rows = commit_rows taskID db in
     if sc_select_fails (cc_base cc) \<or> list_ex (\<lambda>r. p_tree_r_cid r = None \<or> p_tree_d_cid r = None) rows
     then Some ((False, Some ''getting sector params''), db, ms)
     else if rows = [] then Some ((True, Some ''expected at least 1 sector params, got 0''), db, ms)
     else
       (case rbind (column (sc_head (cc_base cc))) (\<lambda>height. rbind (cc_AvailableBalance cc) (\<lambda>balance.
             rbind (cc_MinerInfo cc) (\<lambda>_. Inr (height, balance)))) of
          Inl e \<Rightarrow> Some ((False, Some e), db, ms)
        | Inr (height, balance) \<Rightarrow>
            (case commit_loop cc (p_sp_id (hd rows)) (p_reg_seal_proof (hd rows)) height balance rows
                    \<lparr>cp_Activations = [], cp_SectorProofs = [], cp_AggregateProof = None\<rparr> 0 [] db of
               CommitStop e \<Rightarrow> Some ((False, Some e), db, ms)
             | CommitSectors params collateral sectors \<Rightarrow>
                 (case createCommitMessage cc balance collateral params (length sectors) of
                    CmErr e \<Rightarrow> Some ((False, Some e), db, ms)
                  | CmPanic \<Rightarrow> None
                  | CmMsg msg \<Rightarrow> Some (commit_send cc taskID (p_sp_id (hd rows)) sectors msg (db, ms))))))"

section \<open>Properties\<close>

lemma gasEstimateCommit_fields:
  "gasEstimateCommit cc params goodFunds collateral maxFee = Inr msg \<Longrightarrow>
   cm_Params msg = params \<and> cm_Value msg = collateral"
  by (auto simp: gasEstimateCommit_def rbind_Inr_iff)

lemma aggregateCommit_Some:
  assumes "aggregateCommit cc balance collateral params infos = Inr (Some msg)"
  shows "cc_MinAggregatedSectors cc \<le> infos" "cp_Activations (cm_Params msg) = cp_Activations params"
    "cp_AggregateProof (cm_Params msg) \<noteq> None" "cm_Value msg = calculateCollateral cc balance collateral"
proof -
  from assms have enough: "cc_MinAggregatedSectors cc \<le> infos" by (auto simp: aggregateCommit_def Let_def split: if_splits)
  from assms obtain agg goodFunds maxFee where
    "gasEstimateCommit cc (params\<lparr>cp_AggregateProof := Some agg, cp_SectorProofs := []\<rparr>) goodFunds
       (calculateCollateral cc balance collateral) maxFee = Inr msg"
    by (auto simp: aggregateCommit_def Let_def rbind_Inr_iff split: if_splits)
  from gasEstimateCommit_fields [OF this] enough
  show "cc_MinAggregatedSectors cc \<le> infos" "cp_Activations (cm_Params msg) = cp_Activations params"
    "cp_AggregateProof (cm_Params msg) \<noteq> None" "cm_Value msg = calculateCollateral cc balance collateral"
    by auto
qed

definition individualCommit :: "commit_calls \<Rightarrow> int \<Rightarrow> int \<Rightarrow> commit_params \<Rightarrow> nat \<Rightarrow> string + commit_msg" where
  "individualCommit cc balance collateral params infos =
     (let c = calculateCollateral cc balance collateral
      in gasEstimateCommit cc params (c + cc_FeeForSectors cc infos div 10) c (cc_FeeForSectors cc infos))"

definition ex_commit_calls :: commit_calls where
  "ex_commit_calls = \<lparr>cc_base = \<lparr>sc_select_fails = False, sc_exec_fails = False, sc_head = Some 400,
       sc_SealRandomnessLookback = 300, sc_randomness_tickets = (\<lambda>_ _. Inr ''ticket''),
       sc_randomness_beacon = (\<lambda>_ _. Inr ''seed''), sc_DealData = (\<lambda>_ _. Inr ''d''), sc_ParseCid = Inr,
       sc_GenerateSDR = (\<lambda>_ _ _ _. None), sc_TreeD = (\<lambda>_ _ _. None), sc_TreeRC = (\<lambda>_ _ _ _. Inr (''r'', ''d'')),
       sc_Synthetic = (\<lambda>_. True), sc_SyntheticProofs = (\<lambda>_ _ _ _ _ _. None),
       sc_PoRepSnark = (\<lambda>_ _ _ _ _ _. Inr ''proof''), sc_FinalizeSector = (\<lambda>_ _ _. None), sc_pieceref = (\<lambda>_. None),
       sc_MoveStorage = (\<lambda>_ _. None), sc_now = 9\<rparr>,
     cc_AvailableBalance = Inr 0, cc_MinerInfo = Inr (), cc_Manifest = (\<lambda>_. Inl ''none''),
     cc_PreCommitInfo = (\<lambda>_ _. Inr (Some \<lparr>pci_Expiration = 9000, pci_SealProof = 8, pci_PreCommitDeposit = 7\<rparr>)),
     cc_GetAllocation = (\<lambda>_ _. Inr None), cc_SectorSize = (\<lambda>_. Inr 32), cc_InitialPledge = (\<lambda>_ _ _. Inr 10),
     cc_FeeForSectors = (\<lambda>n. 10 * int n), cc_CollateralFromMinerBalance = False, cc_DisableCollateralFallback = False,
     cc_AddressFor = (\<lambda>_ _. Inr ''worker''),
     cc_GasEstimate = (\<lambda>params _ _ _. if fst (hd (cp_Activations params)) = 2 then Inl ''call ran out of gas''
        else Inr (if cp_AggregateProof params = None then 3 else 2, 100)),
     cc_NetworkVersion = Inr (), cc_AggregateSealProofs = (\<lambda>_. Inr ''agg''), cc_MinAggregatedSectors = 4,
     cc_BaseFee = 1, cc_Send = (\<lambda>_. Inr ''msg''), cc_insert_fails = False, cc_transfer_fails = False\<rparr>"

text \<open>A batch of \<open>n\<close> sectors, the first of them with the given number.\<close>

definition ex_params :: "int \<Rightarrow> nat \<Rightarrow> commit_params" where
  "ex_params k n = \<lparr>cp_Activations = map (\<lambda>i. (k + int i, [])) [0..<n],
     cp_SectorProofs = replicate n (Some ''proof''), cp_AggregateProof = None\<rparr>"



text \<open>
  When the estimate of the message with single proofs runs out of gas and there are too few
  sectors for an aggregated one, creating the message panics: the missing message is used.
\<close>

theorem createCommitMessage_panics:
  assumes "infos < cc_MinAggregatedSectors cc" "cc_NetworkVersion cc = Inr u"
    "individualCommit cc balance collateral params infos = Inl e" "strings_Contains e ''call ran out of gas''"
  shows "createCommitMessage cc balance collateral params infos = CmPanic"
  using assms by (simp add: createCommitMessage_def aggregateCommit_def individualCommit_def Let_def)

theorem createCommitMessage_panics_witness:
  "createCommitMessage ex_commit_calls 0 40 (ex_params 2 3) 3 = CmPanic"
proof (rule createCommitMessage_panics)
  show "3 < cc_MinAggregatedSectors ex_commit_calls" "cc_NetworkVersion ex_commit_calls = Inr ()"
    by (simp_all add: ex_commit_calls_def)
  show "individualCommit ex_commit_calls 0 40 (ex_params 2 3) 3 = Inl ''call ran out of gas''" by code_simp
  show "strings_Contains ''call ran out of gas'' ''call ran out of gas''" by code_simp
qed

end
