(* ===== verification/SealSystem.thy ===== *)
theory SealSystem
  imports PrecommitTask CommitTask
begin

text \<open>
  The sealing pipeline as a whole: the pollers and the tasks of all machines work on the same
  rows at the same time. A poller or a task reads a row, other steps happen, and then it acts
  on what it read. \<open>seal_step\<close> has one rule for each action on the pipeline table; what a
  reader holds is an element of \<open>sy_read\<close>.

  Two things that write the table are not steps: the reset of a sector whose replica fails its
  check (\<open>resetSectorSealingState\<close>), which takes back finished stages, and batch sealing
  (\<open>tasks/sealsupra\<close>), which runs several stages in one task.
\<close>

section \<open>Steps\<close>

record seal_sys =
  sy_db :: pipeline_db
  sy_read :: "pipeline_row list"

text \<open>A row as the deal ingestion inserts it.\<close>

definition new_sector :: "pipeline_row \<Rightarrow> bool" where
  "new_sector r \<longleftrightarrow> task_columns r = replicate 10 None \<and>
     \<not> p_after_sdr r \<and> \<not> p_after_tree_d r \<and> \<not> p_after_tree_c r \<and> \<not> p_after_tree_r r \<and> \<not> p_after_synth r \<and>
     \<not> p_after_precommit_msg r \<and> \<not> p_after_precommit_msg_success r \<and> \<not> p_after_porep r \<and> \<not> p_after_finalize r \<and>
     \<not> p_after_move_storage r \<and> \<not> p_after_commit_msg r \<and> \<not> p_after_commit_msg_success r"

text \<open>The operations of a poller round on one sector; a round runs them in this order.\<close>

definition poll_ops :: "seal_env \<Rightarrow> int \<Rightarrow> (pollTask \<Rightarrow> pipeline_db \<Rightarrow> pipeline_db) list" where
  "poll_ops env height = [pollStartSDR env, pollStartSDRTreeD env, pollStartSDRTreeRC env, pollStartSynth env,
     \<lambda>t db. snd (pollPrecommitMsgLanded env t db), pollStartPoRep env height, \<lambda>t db. snd (pollerAddStartEpoch env t db),
     pollStartFinalize env, pollStartMoveStorage env, \<lambda>t db. snd (pollCommitMsgLanded env t db)]"

inductive seal_step :: "seal_sys \<Rightarrow> seal_sys \<Rightarrow> bool" where
  insert: "new_sector r \<Longrightarrow> sector_key r \<notin> sector_key ` set (sectors_sdr_pipeline (sy_db s)) \<Longrightarrow>
    seal_step s (s\<lparr>sy_db := (sy_db s)\<lparr>sectors_sdr_pipeline := sectors_sdr_pipeline (sy_db s) @ [r]\<rparr>\<rparr>)"
| read: "r \<in> set (sectors_sdr_pipeline (sy_db s)) \<Longrightarrow> seal_step s (s\<lparr>sy_read := r # sy_read s\<rparr>)"
| poll_op: "t \<in> set (sy_read s) \<Longrightarrow> op \<in> set (poll_ops env height) \<Longrightarrow> seal_step s (s\<lparr>sy_db := op t (sy_db s)\<rparr>)"
| poll_precommits: "seal_step s (s\<lparr>sy_db := pollStartBatchPrecommitMsg env (sy_db s)\<rparr>)"
| poll_commits: "seal_step s (s\<lparr>sy_db := pollStartBatchCommitMsg env (sy_db s)\<rparr>)"
| sdr: "t \<in> set (sy_read s) \<Longrightarrow> p_task_sdr t \<noteq> None \<Longrightarrow> seal_step s (s\<lparr>sy_db := snd (SDR_store sc t a (sy_db s))\<rparr>)"
| treeD: "t \<in> set (sy_read s) \<Longrightarrow> p_task_tree_d t \<noteq> None \<Longrightarrow> seal_step s (s\<lparr>sy_db := snd (TreeD_store sc t d (sy_db s))\<rparr>)"
| treeRC: "t \<in> set (sy_read s) \<Longrightarrow> p_task_tree_c t \<noteq> None \<Longrightarrow>
    seal_step s (s\<lparr>sy_db := snd (TreeRC_store sc t d (Inr ru) (sy_db s))\<rparr>)"
| synth: "t \<in> set (sy_read s) \<Longrightarrow> p_task_synth t \<noteq> None \<Longrightarrow> seal_step s (s\<lparr>sy_db := snd (markFinished sc t (sy_db s))\<rparr>)"
| porep: "t \<in> set (sy_read s) \<Longrightarrow> p_task_porep t \<noteq> None \<Longrightarrow> seal_step s (s\<lparr>sy_db := snd (PoRep_store sc t a (sy_db s))\<rparr>)"
| finalize: "seal_step s (s\<lparr>sy_db := snd (Finalize_store sc tid (sy_db s))\<rparr>)"
| move: "t \<in> set (sy_read s) \<Longrightarrow> seal_step s (s\<lparr>sy_db := snd (MoveStorage_store sc tid t (sy_db s))\<rparr>)"
| give_up: "seal_step s (s\<lparr>sy_db := precommit_give_up tid p reason (sy_db s)\<rparr>)"
| precommitted: "seal_step s (s\<lparr>sy_db := precommit_store_cid tid cid (sy_db s)\<rparr>)"
| committed: "seal_step s (s\<lparr>sy_db := commit_store_cid tid sp sectors cid (sy_db s)\<rparr>)"
| other_tables: "sectors_sdr_pipeline db' = sectors_sdr_pipeline (sy_db s) \<Longrightarrow> seal_step s (s\<lparr>sy_db := db'\<rparr>)"

inductive seal_reachable :: "seal_sys \<Rightarrow> bool" where
  start: "sectors_sdr_pipeline db = [] \<Longrightarrow> seal_reachable \<lparr>sy_db = db, sy_read = []\<rparr>"
| step: "seal_reachable s \<Longrightarrow> seal_step s s' \<Longrightarrow> seal_reachable s'"

section \<open>The stores of the tasks\<close>

text \<open>
  A task that stores its result by sector is an operation on the sector it read, like those of
  the poller, when the row it read named it.
\<close>

lemma store_success_update:
  assumes "\<And>r. same_sector t r \<Longrightarrow> advances r (f r)"
    "\<And>r. same_sector t r \<Longrightarrow> advances t r \<Longrightarrow> row_ok t \<Longrightarrow> row_ok r \<Longrightarrow> row_ok (f r)"
  shows "sector_update t (sectors_sdr_pipeline db) (sectors_sdr_pipeline (snd (store_success sc t f db)))"
  using update_pipeline_sector [of "same_sector t" t f db] assms by (simp add: store_success_def)

lemma advances_done:
  "advances r (r\<lparr>p_after_sdr := True, p_ticket_epoch := e, p_ticket_value := v, p_task_sdr := x\<rparr>)"
  "advances r (r\<lparr>p_after_tree_d := True, p_tree_d_cid := v, p_task_tree_d := x\<rparr>)"
  "advances r (r\<lparr>p_after_tree_r := True, p_after_tree_c := True, p_tree_r_cid := v, p_task_tree_r := x, p_task_tree_c := y\<rparr>)"
  "advances r (r\<lparr>p_after_synth := True, p_task_synth := x\<rparr>)"
  "advances r (r\<lparr>p_after_porep := True, p_seed_value := v, p_porep_proof := w, p_task_porep := x\<rparr>)"
  "advances r (r\<lparr>p_after_finalize := True, p_task_finalize := x\<rparr>)"
  "advances r (r\<lparr>p_after_move_storage := True, p_task_move_storage := x\<rparr>)"
  "advances r (r\<lparr>p_failed := True, p_failed_reason := q, p_task_precommit_msg := x\<rparr>)"
  "advances r (r\<lparr>p_precommit_msg_cid := v, p_after_precommit_msg := True, p_task_precommit_msg := x\<rparr>)"
  "advances r (r\<lparr>p_commit_msg_cid := v, p_after_commit_msg := True, p_task_commit_msg := x\<rparr>)"
  by (simp_all add: advances_def)

lemma row_ok_done:
  "row_ok r \<Longrightarrow> row_ok (r\<lparr>p_after_sdr := True, p_ticket_epoch := e, p_ticket_value := v, p_task_sdr := None\<rparr>)"
  "row_ok r \<Longrightarrow> p_after_sdr r \<Longrightarrow> row_ok (r\<lparr>p_after_tree_d := True, p_tree_d_cid := v, p_task_tree_d := None\<rparr>)"
  "row_ok r \<Longrightarrow> p_after_tree_d r \<Longrightarrow> row_ok (r\<lparr>p_after_tree_r := True, p_after_tree_c := True, p_tree_r_cid := v,
     p_task_tree_r := None, p_task_tree_c := None\<rparr>)"
  "row_ok r \<Longrightarrow> p_after_tree_c r \<and> p_after_tree_r r \<Longrightarrow> row_ok (r\<lparr>p_after_synth := True, p_task_synth := None\<rparr>)"
  "row_ok r \<Longrightarrow> p_after_precommit_msg_success r \<Longrightarrow>
     row_ok (r\<lparr>p_after_porep := True, p_seed_value := v, p_porep_proof := w, p_task_porep := None\<rparr>)"
  "row_ok r \<Longrightarrow> p_after_porep r \<Longrightarrow> row_ok (r\<lparr>p_after_finalize := True, p_task_finalize := None\<rparr>)"
  "row_ok r \<Longrightarrow> p_after_finalize r \<Longrightarrow> row_ok (r\<lparr>p_after_move_storage := True, p_task_move_storage := None\<rparr>)"
  "row_ok r \<Longrightarrow> row_ok (r\<lparr>p_failed := True, p_failed_reason := q, p_task_precommit_msg := None\<rparr>)"
  "row_ok r \<Longrightarrow> p_after_synth r \<Longrightarrow>
     row_ok (r\<lparr>p_precommit_msg_cid := v, p_after_precommit_msg := True, p_task_precommit_msg := None\<rparr>)"
  "row_ok r \<Longrightarrow> p_after_porep r \<Longrightarrow>
     row_ok (r\<lparr>p_commit_msg_cid := v, p_after_commit_msg := True, p_task_commit_msg := None\<rparr>)"
  by (simp_all add: row_ok_defs)

text \<open>What a task relies on, by the column that names it.\<close>

lemma row_ok_needs:
  "row_ok t \<Longrightarrow> p_task_tree_d t \<noteq> None \<Longrightarrow> advances t r \<Longrightarrow> p_after_sdr r"
  "row_ok t \<Longrightarrow> p_task_tree_c t \<noteq> None \<Longrightarrow> advances t r \<Longrightarrow> p_after_tree_d r"
  "row_ok t \<Longrightarrow> p_task_synth t \<noteq> None \<Longrightarrow> advances t r \<Longrightarrow> p_after_tree_c r \<and> p_after_tree_r r"
  "row_ok t \<Longrightarrow> p_task_porep t \<noteq> None \<Longrightarrow> advances t r \<Longrightarrow> p_after_precommit_msg_success r"
  unfolding row_ok_def tasks_ok_def advances_def by blast+

lemma row_ok_own:
  "row_ok r \<Longrightarrow> p_task_finalize r = Some tid \<Longrightarrow> p_after_porep r"
  "row_ok r \<Longrightarrow> p_task_move_storage r = Some tid \<Longrightarrow> p_after_finalize r"
  "row_ok r \<Longrightarrow> p_task_precommit_msg r = Some tid \<Longrightarrow> p_after_synth r"
  "row_ok r \<Longrightarrow> p_task_commit_msg r = Some tid \<Longrightarrow> p_after_porep r"
  by (simp_all add: row_ok_def tasks_ok_def)

lemma sdr_stored: "sector_update t (sectors_sdr_pipeline db) (sectors_sdr_pipeline (snd (SDR_store sc t a db)))"
  unfolding SDR_store_def by (cases a) (auto intro!: store_success_update advances_done row_ok_done)

lemma treeD_stored:
  "p_task_tree_d t \<noteq> None \<Longrightarrow> sector_update t (sectors_sdr_pipeline db) (sectors_sdr_pipeline (snd (TreeD_store sc t d db)))"
  unfolding TreeD_store_def by (intro store_success_update advances_done row_ok_done row_ok_needs(1) [of t])

lemma treeRC_stored:
  "p_task_tree_c t \<noteq> None \<Longrightarrow>
   sector_update t (sectors_sdr_pipeline db) (sectors_sdr_pipeline (snd (TreeRC_store sc t d (Inr ru) db)))"
  unfolding TreeRC_store_def
  by (cases ru) (auto intro!: store_success_update advances_done row_ok_done row_ok_needs(2) [of t])

lemma synth_stored:
  "p_task_synth t \<noteq> None \<Longrightarrow> sector_update t (sectors_sdr_pipeline db) (sectors_sdr_pipeline (snd (markFinished sc t db)))"
  unfolding markFinished_def by (intro store_success_update advances_done row_ok_done row_ok_needs(3) [of t])

lemma porep_stored:
  "p_task_porep t \<noteq> None \<Longrightarrow> sector_update t (sectors_sdr_pipeline db) (sectors_sdr_pipeline (snd (PoRep_store sc t a db)))"
  unfolding PoRep_store_def
  by (cases a) (auto intro!: store_success_update advances_done row_ok_done row_ok_needs(4) [of t])

section \<open>The invariant\<close>

text \<open>
  The pipeline is in order, sectors are unique, and what a reader holds is an earlier version of
  a row that was in order.
\<close>

definition sys_ok :: "seal_sys \<Rightarrow> bool" where
  "sys_ok s \<longleftrightarrow> pipeline_ok (sy_db s) \<and> keys_ok (sy_db s) \<and>
     (\<forall>t\<in>set (sy_read s). snapshot t (sy_db s) \<and> sector_key t \<in> sector_key ` set (sectors_sdr_pipeline (sy_db s)))"

lemma advances_key: "advances r r' \<Longrightarrow> sector_key r' = sector_key r"
  by (simp add: advances_def sector_key_def)

lemma list_all2_advances_keys:
  "list_all2 advances rows rows' \<Longrightarrow> map sector_key rows' = map sector_key rows"
  by (induction rule: list_all2_induct) (simp_all add: advances_key)

lemma snapshot_advances:
  assumes "snapshot t db" "list_all2 advances (sectors_sdr_pipeline db) (sectors_sdr_pipeline db')"
  shows "snapshot t db'"
  unfolding snapshot_def
proof (intro conjI ballI impI)
  show "row_ok t" using assms(1) by (simp add: snapshot_def)
next
  fix r' assume r': "r' \<in> set (sectors_sdr_pipeline db')" "same_sector t r'"
  obtain r where r: "r \<in> set (sectors_sdr_pipeline db)" "advances r r'"
    using assms(2) r'(1) unfolding list_all2_conv_all_nth in_set_conv_nth by metis
  then have "advances t r" using assms(1) r'(2) advances_sector by (simp add: snapshot_def)
  with r(2) show "advances t r'" by (rule advances_trans [rotated])
qed

lemma sys_ok_advances:
  assumes "sys_ok s" "list_all2 advances (sectors_sdr_pipeline (sy_db s)) (sectors_sdr_pipeline db')" "pipeline_ok db'"
  shows "sys_ok (s\<lparr>sy_db := db'\<rparr>)"
proof -
  have "map sector_key (sectors_sdr_pipeline db') = map sector_key (sectors_sdr_pipeline (sy_db s))"
    by (rule list_all2_advances_keys [OF assms(2)])
  then have "keys_ok db'" "sector_key ` set (sectors_sdr_pipeline db') = sector_key ` set (sectors_sdr_pipeline (sy_db s))"
    using assms(1) by (simp_all add: sys_ok_def keys_ok_def) (metis set_map)
  then show ?thesis using assms(1,3) snapshot_advances [OF _ assms(2)] by (simp add: sys_ok_def)
qed

lemma sys_ok_sector:
  assumes ok: "sys_ok s" and t: "t \<in> set (sy_read s)"
    and upd: "sector_update t (sectors_sdr_pipeline (sy_db s)) (sectors_sdr_pipeline db')"
  shows "sys_ok (s\<lparr>sy_db := db'\<rparr>)"
proof -
  obtain h where h: "sectors_sdr_pipeline db' = map h (sectors_sdr_pipeline (sy_db s))" "\<And>r. advances r (h r)"
    "\<And>r. \<not> same_sector t r \<Longrightarrow> h r = r" "\<And>r. same_sector t r \<Longrightarrow> advances t r \<Longrightarrow> row_ok t \<Longrightarrow> row_ok r \<Longrightarrow> row_ok (h r)"
    using upd unfolding sector_update_map by blast
  have snap: "snapshot t (sy_db s)" and rows: "pipeline_ok (sy_db s)" using ok t by (simp_all add: sys_ok_def)
  have "row_ok (h r)" if "r \<in> set (sectors_sdr_pipeline (sy_db s))" for r
    using that snap rows h(3,4) [of r] by (cases "same_sector t r") (auto simp: snapshot_def pipeline_ok_def)
  then have "pipeline_ok db'" by (simp add: pipeline_ok_def h(1))
  moreover have "list_all2 advances (sectors_sdr_pipeline (sy_db s)) (sectors_sdr_pipeline db')"
    unfolding h(1) by (simp add: list_all2_map2 h(2) list_all2_same)
  ultimately show ?thesis using sys_ok_advances [OF ok] by blast
qed

lemma sys_ok_update:
  assumes ok: "sys_ok s" and upd: "sectors_sdr_pipeline db' = update_where p f (sectors_sdr_pipeline (sy_db s))"
    and f: "\<And>r. p r \<Longrightarrow> advances r (f r)" "\<And>r. p r \<Longrightarrow> row_ok r \<Longrightarrow> row_ok (f r)"
  shows "sys_ok (s\<lparr>sy_db := db'\<rparr>)"
proof (rule sys_ok_advances [OF ok])
  show "list_all2 advances (sectors_sdr_pipeline (sy_db s)) (sectors_sdr_pipeline db')"
    unfolding upd update_where_def by (simp add: list_all2_map2 list_all2_same f(1))
  show "pipeline_ok db'"
    using ok f(2) by (auto simp: sys_ok_def pipeline_ok_def upd update_where_def)
qed

lemma poll_ops_update:
  assumes "op \<in> set (poll_ops env height)"
  shows "sector_update t (sectors_sdr_pipeline db) (sectors_sdr_pipeline (op t db))"
  using assms sdr.op_update treeD.op_update treeRC.op_update synth.op_update precommit_landed.op_update
    porep.op_update start_epoch.op_update finalize.op_update move.op_update commit_landed.op_update
  by (auto simp: poll_ops_def)

lemma poll_sector_ops: "poll_sector env height t db = fold (\<lambda>op. op t) (poll_ops env height) db"
  by (simp add: poll_sector_def poll_ops_def Let_def)

lemma sys_ok_step:
  assumes "seal_step s s'" "sys_ok s"
  shows "sys_ok s'"
  using assms
proof (induction rule: seal_step.induct)
  case (insert r s)
  then have "row_ok r" by (simp add: new_sector_def row_ok_defs task_columns_def numeral_eq_Suc)
  moreover have "snapshot t ((sy_db s)\<lparr>sectors_sdr_pipeline := sectors_sdr_pipeline (sy_db s) @ [r]\<rparr>)"
    if "t \<in> set (sy_read s)" for t
  proof -
    have "sector_key t \<noteq> sector_key r" using insert(2,3) that unfolding sys_ok_def by metis
    then have "\<not> same_sector t r" by (auto simp: sector_key_def same_sector_def)
    then show ?thesis using insert that by (auto simp: sys_ok_def snapshot_def)
  qed
  ultimately show ?case using insert by (auto simp: sys_ok_def pipeline_ok_def keys_ok_def)
next
  case (read r s)
  then show ?case using snapshot_current by (auto simp: sys_ok_def)
next
  case (poll_op t s op env height)
  then show ?case using sys_ok_sector poll_ops_update by blast
next
  case (poll_precommits s env)
  then have "pipeline_ok (sy_db s)" by (simp add: sys_ok_def)
  then show ?case by (intro sys_ok_advances poll_precommits batch_precommit_rows)
next
  case (poll_commits s env)
  then have "pipeline_ok (sy_db s)" by (simp add: sys_ok_def)
  then show ?case by (intro sys_ok_advances poll_commits batch_commit_rows)
next
  case (sdr t s sc a)
  then show ?case using sys_ok_sector sdr_stored by blast
next
  case (treeD t s sc d)
  then show ?case using sys_ok_sector treeD_stored by blast
next
  case (treeRC t s sc d ru)
  then show ?case using sys_ok_sector treeRC_stored by blast
next
  case (synth t s sc)
  then show ?case using sys_ok_sector synth_stored by blast
next
  case (porep t s sc a)
  then show ?case using sys_ok_sector porep_stored by blast
next
  case (finalize s sc tid)
  show ?case
  proof (cases "sc_exec_fails sc")
    case False
    show ?thesis
      by (rule sys_ok_update [OF finalize, where p = "\<lambda>r. p_task_finalize r = Some tid"
            and f = "\<lambda>r. r\<lparr>p_after_finalize := True, p_task_finalize := None\<rparr>"])
        (auto simp: Finalize_store_def False update_pipeline_def intro: advances_done row_ok_done row_ok_own(1))
  qed (use finalize in \<open>simp add: Finalize_store_def\<close>)
next
  case (move t s sc tid)
  show ?case
  proof (cases "sc_exec_fails sc")
    case False
    show ?thesis
      by (rule sys_ok_update [OF move(2), where p = "\<lambda>r. p_task_move_storage r = Some tid"
            and f = "\<lambda>r. r\<lparr>p_after_move_storage := True, p_task_move_storage := None\<rparr>"])
        (auto simp: MoveStorage_store_def False update_pipeline_def intro: advances_done row_ok_done row_ok_own(2))
  qed (use move in \<open>simp add: MoveStorage_store_def\<close>)
next
  case (give_up s tid p reason)
  show ?case
    by (rule sys_ok_update [OF give_up, where p = "\<lambda>r. p_task_precommit_msg r = Some tid \<and> p r"
          and f = "\<lambda>r. r\<lparr>p_failed := True, p_failed_reason := reason, p_task_precommit_msg := None\<rparr>"])
      (auto simp: precommit_give_up_def update_pipeline_def intro: advances_done row_ok_done)
next
  case (precommitted s tid cid)
  show ?case
    by (rule sys_ok_update [OF precommitted, where p = "\<lambda>r. p_task_precommit_msg r = Some tid"
          and f = "\<lambda>r. r\<lparr>p_precommit_msg_cid := Some cid, p_after_precommit_msg := True, p_task_precommit_msg := None\<rparr>"])
      (auto simp: precommit_store_cid_def update_pipeline_def intro: advances_done row_ok_done row_ok_own(3))
next
  case (committed s tid sp sectors cid)
  show ?case
    by (rule sys_ok_update [OF committed, where p = "\<lambda>r. p_task_commit_msg r = Some tid \<and> p_sp_id r = sp \<and> p_sector_number r \<in> set sectors"
          and f = "\<lambda>r. r\<lparr>p_commit_msg_cid := Some cid, p_after_commit_msg := True, p_task_commit_msg := None\<rparr>"])
      (auto simp: commit_store_cid_def update_pipeline_def intro: advances_done row_ok_done row_ok_own(4))
next
  case (other_tables db' s)
  then show ?case by (simp add: sys_ok_def pipeline_ok_def keys_ok_def snapshot_def)
qed

lemma seal_reachable_ok: "seal_reachable s \<Longrightarrow> sys_ok s"
proof (induction rule: seal_reachable.induct)
  case (start db)
  then show ?case by (simp add: sys_ok_def pipeline_ok_def keys_ok_def)
next
  case (step s s')
  then show ?case using sys_ok_step by blast
qed

section \<open>What rounds do to a row\<close>

text \<open>
  A reflexive and transitive relation between rows holds between the rows before and after a
  round when it holds for each update the round makes.
\<close>

locale row_relation =
  fixes R :: "pipeline_row \<Rightarrow> pipeline_row \<Rightarrow> bool"
  assumes R_refl: "R r r" and R_trans: "R a b \<Longrightarrow> R b c \<Longrightarrow> R a c"
begin

abbreviation rel :: "pipeline_db \<Rightarrow> pipeline_db \<Rightarrow> bool" where
  "rel db db' \<equiv> list_all2 R (sectors_sdr_pipeline db) (sectors_sdr_pipeline db')"

lemma rel_refl: "rel db db"
  by (simp add: list_all2_same R_refl)

lemma rel_trans: "rel a b \<Longrightarrow> rel b c \<Longrightarrow> rel a c"
  by (rule list_all2_trans [of R R R]) (auto intro: R_trans)

lemma rel_update: "(\<And>r. p r \<Longrightarrow> R r (f r)) \<Longrightarrow> rel db (update_pipeline p f db)"
  by (simp add: update_pipeline_def update_where_def list_all2_map2 list_all2_same R_refl)

lemma rel_stage:
  assumes "\<And>tid r. p r \<Longrightarrow> R r (f tid r)"
  shows "rel db (add_stage_task env s (assign_one p f) db)"
  using add_stage_task_cases [of env s "assign_one p f" db]
proof
  assume "assign_one p f (task_seq (pd_harmony db)) (db\<lparr>pd_harmony :=
      snd (insert_task (se_name env s) (se_owner env) (se_now env) (pd_harmony db))\<rparr>) =
    (Inr True, add_stage_task env s (assign_one p f) db)"
  from assign_one_True [OF this]
  have "sectors_sdr_pipeline (add_stage_task env s (assign_one p f) db) =
      sectors_sdr_pipeline (update_pipeline p (f (task_seq (pd_harmony db))) db)"
    by (simp add: update_pipeline_def)
  then show ?thesis using rel_update [of p "f (task_seq (pd_harmony db))" db] assms by simp
qed (simp add: list_all2_same R_refl)

lemma rel_batch:
  assumes "batch_outcome free f fires cands db db'" "\<And>tid r. free r \<Longrightarrow> R r (f tid r)"
  shows "rel db db'"
  using assms(1)
proof (cases rule: batch_outcome_cases)
  case (2 rows b n)
  then show ?thesis using assms(2) by (simp add: update_where_def list_all2_map2 list_all2_same R_refl)
qed (simp add: list_all2_same R_refl)

lemma rel_fold: "(\<And>x db. x \<in> set xs \<Longrightarrow> rel db (f x db)) \<Longrightarrow> rel db (fold f xs db)"
proof (induction xs arbitrary: db)
  case (Cons x xs)
  have "rel db (f x db)" by (rule Cons.prems) simp
  moreover have "rel (f x db) (fold f xs (f x db))" by (rule Cons.IH) (simp add: Cons.prems)
  ultimately show ?case using rel_trans by simp
qed (simp add: list_all2_same R_refl)

end

text \<open>The updates a round makes, each with what the code knows of the row it changes.\<close>

locale poll_relation = row_relation +
  assumes R_sdr: "p_task_sdr r = None \<Longrightarrow> R r (r\<lparr>p_task_sdr := Some tid\<rparr>)"
    and R_tree_d: "p_task_tree_d r = None \<Longrightarrow> R r (r\<lparr>p_task_tree_d := Some tid\<rparr>)"
    and R_tree_rc: "p_task_tree_c r = None \<Longrightarrow> p_task_tree_r r = None \<Longrightarrow>
      R r (r\<lparr>p_task_tree_c := Some tid, p_task_tree_r := Some tid\<rparr>)"
    and R_synth: "p_task_synth r = None \<Longrightarrow> R r (r\<lparr>p_task_synth := Some tid\<rparr>)"
    and R_porep: "p_task_porep r = None \<Longrightarrow> R r (r\<lparr>p_task_porep := Some tid\<rparr>)"
    and R_finalize: "p_task_finalize r = None \<Longrightarrow> R r (r\<lparr>p_task_finalize := Some tid\<rparr>)"
    and R_move: "p_task_move_storage r = None \<Longrightarrow> R r (r\<lparr>p_task_move_storage := Some tid\<rparr>)"
    and R_precommit: "precommit_eligible r \<Longrightarrow> R r (r\<lparr>p_task_precommit_msg := Some tid\<rparr>)"
    and R_commit: "p_task_commit_msg r = None \<Longrightarrow> R r (r\<lparr>p_task_commit_msg := Some tid\<rparr>)"
    and R_precommit_retry: "p_precommit_msg_cid r = Some c \<Longrightarrow>
      R r (r\<lparr>p_precommit_msg_cid := None, p_task_precommit_msg := None, p_after_precommit_msg := False\<rparr>)"
    and R_commit_retry: "p_commit_msg_cid r = Some c \<Longrightarrow>
      R r (r\<lparr>p_commit_msg_cid := None, p_task_commit_msg := None, p_after_commit_msg := False\<rparr>)"
    and R_precommit_landed: "p_seed_epoch r = None \<Longrightarrow>
      R r (r\<lparr>p_seed_epoch := Some e, p_precommit_msg_tsk := Some k, p_after_precommit_msg_success := True\<rparr>)"
    and R_start_epoch: "p_start_epoch r = None \<Longrightarrow> R r (r\<lparr>p_start_epoch := Some e\<rparr>)"
    and R_commit_landed: "R r (r\<lparr>p_after_commit_msg_success := True, p_commit_msg_tsk := Some k\<rparr>)"
begin

lemma rel_poll_ops: "op \<in> set (poll_ops env height) \<Longrightarrow> rel db (op t db)"
proof -
  have stages: "rel db (pollStartSDR env t db)" "rel db (pollStartSDRTreeD env t db)"
    "rel db (pollStartSDRTreeRC env t db)" "rel db (pollStartSynth env t db)" "rel db (pollStartPoRep env height t db)"
    "rel db (pollStartFinalize env t db)" "rel db (pollStartMoveStorage env t db)" for env db
    unfolding pollStartSDR_def pollStartSDRTreeD_def pollStartSDRTreeRC_def pollStartSynth_def pollStartPoRep_def
      pollStartFinalize_def pollStartMoveStorage_def
    by (auto simp: rel_refl intro!: rel_stage R_sdr R_tree_d R_tree_rc R_synth R_porep R_finalize R_move)
  have retry: "rel db (snd (pollRetryPrecommitMsgSend env t er db))" "rel db (snd (pollRetryCommitMsgSend env t er db))"
    for env er db
    unfolding pollRetryPrecommitMsgSend_def pollRetryCommitMsgSend_def
    by (auto simp: rel_refl split: option.splits intro!: rel_update R_precommit_retry R_commit_retry)
  have fail: "rel db (snd (pollPrecommitMsgFail env t er db))" "rel db (snd (pollCommitMsgFail env t er db))" for env er db
    using retry unfolding pollPrecommitMsgFail_def pollCommitMsgFail_def
    by (auto simp: rel_refl split: exit_code.splits sum.splits)
  have landed: "rel db (snd (pollPrecommitMsgLanded env t db))" "rel db (snd (pollerAddStartEpoch env t db))" for env db
    using fail unfolding pollPrecommitMsgLanded_def pollerAddStartEpoch_def
    by (auto simp: rel_refl split: sum.splits option.splits list.splits
        intro!: rel_update R_precommit_landed R_start_epoch)
  have set_success: "rel db (d\<lparr>market_mk12_deal_pipeline := x, market_mk20_pipeline := y\<rparr>)"
    if "rel db d1" "d = update_pipeline (\<lambda>r. same_sector t r \<and> \<not> p_after_commit_msg_success r)
      (\<lambda>r. r\<lparr>p_after_commit_msg_success := True, p_commit_msg_tsk := Some c\<rparr>) d1" for d d1 c x y db
  proof -
    have "rel d1 d" unfolding that(2) by (rule rel_update) (rule R_commit_landed)
    with that(1) have "rel db d" by (rule rel_trans)
    then show ?thesis by simp
  qed
  have "rel db (snd (pollCommitMsgLanded env t db))" for env db
  proof (cases "p_after_commit_msg t \<and> \<not> p_after_commit_msg_success t \<and> se_IsSet env pollerCommitMsg \<and> \<not> se_select_fails env")
    case False
    then show ?thesis by (auto simp: pollCommitMsgLanded_def rel_refl)
  next
    case True
    show ?thesis
    proof (cases "exec_results p_commit_msg_cid t db")
      case (Cons er ers)
      obtain err db1 where e: "(if se_exitcode env (er_ExecutedRcptExitCode er) \<noteq> ExitOk
          then pollCommitMsgFail env t er db else (None, db)) = (err, db1)" by (rule prod.exhaust)
      then have rel: "rel db db1" using fail(2) [of db env er] rel_refl by (auto split: if_splits)
      show ?thesis using True Cons e rel set_success [OF rel refl]
        by (simp add: pollCommitMsgLanded_def split: sum.split bool.split)
    qed (simp add: pollCommitMsgLanded_def rel_refl)
  qed
  then show "op \<in> set (poll_ops env height) \<Longrightarrow> rel db (op t db)" using stages landed by (auto simp: poll_ops_def)
qed

lemma rel_poll_sector: "rel db (poll_sector env height t db)"
  unfolding poll_sector_ops by (rule rel_fold) (rule rel_poll_ops)

lemma rel_batches: "rel db (pollStartBatchPrecommitMsg env db)" "rel db (pollStartBatchCommitMsg env db)"
  by (rule batch_precommit_outcome [of env db], erule rel_batch, rule R_precommit, assumption)
    (rule batch_commit_outcome [of env db], erule rel_batch, rule R_commit, blast)

lemma rel_poll: "rel db (snd (poll env db))"
proof (cases "se_head env")
  case (Some height)
  have "rel db (fold (poll_sector env height) (poll_tasks db) db)" by (rule rel_fold) (rule rel_poll_sector)
  then have "rel db (pollStartBatchCommitMsg env (pollStartBatchPrecommitMsg env (fold (poll_sector env height) (poll_tasks db) db)))"
    by (meson rel_batches rel_trans)
  then show ?thesis using Some by (simp add: poll_def rel_refl)
qed (simp add: poll_def rel_refl)

end

text \<open>A row that names a commit task and has no commit message keeps naming it.\<close>

definition keeps_commit_task :: "pipeline_row \<Rightarrow> pipeline_row \<Rightarrow> bool" where
  "keeps_commit_task r r' \<longleftrightarrow> (p_task_commit_msg r \<noteq> None \<and> p_commit_msg_cid r = None \<longrightarrow>
     p_task_commit_msg r' = p_task_commit_msg r \<and> p_commit_msg_cid r' = None)"

interpretation kept: poll_relation keeps_commit_task
  by unfold_locales (auto simp: keeps_commit_task_def)

text \<open>The tasks of the other stages are never taken back, and their flags are left to the tasks.\<close>

definition keeps_stages :: "pipeline_row \<Rightarrow> pipeline_row \<Rightarrow> bool" where
  "keeps_stages r r' \<longleftrightarrow> sector_key r' = sector_key r \<and>
     (p_task_sdr r \<noteq> None \<longrightarrow> p_task_sdr r' \<noteq> None) \<and> (p_task_tree_d r \<noteq> None \<longrightarrow> p_task_tree_d r' \<noteq> None) \<and>
     (p_task_tree_c r \<noteq> None \<longrightarrow> p_task_tree_c r' \<noteq> None) \<and> (p_task_synth r \<noteq> None \<longrightarrow> p_task_synth r' \<noteq> None) \<and>
     (p_task_porep r \<noteq> None \<longrightarrow> p_task_porep r' \<noteq> None) \<and> (p_task_finalize r \<noteq> None \<longrightarrow> p_task_finalize r' \<noteq> None) \<and>
     (p_task_move_storage r \<noteq> None \<longrightarrow> p_task_move_storage r' \<noteq> None) \<and>
     (p_task_tree_r r = p_task_tree_c r \<longrightarrow> p_task_tree_r r' = p_task_tree_c r') \<and>
     p_after_sdr r' = p_after_sdr r \<and> p_after_tree_d r' = p_after_tree_d r"

interpretation stages: poll_relation keeps_stages
  by unfold_locales (auto simp: keeps_stages_def sector_key_def)

section \<open>Progress\<close>

text \<open>
  The stage a sector with no task under way is waiting for; \<open>None\<close> while it waits for a message
  or the chain, and at the end.
\<close>

definition next_stage :: "int \<Rightarrow> pipeline_row \<Rightarrow> poller_id option" where
  "next_stage height r =
     (if \<not> p_after_sdr r then Some pollerSDR
      else if \<not> p_after_tree_d r then Some pollerTreeD
      else if \<not> p_after_tree_c r \<and> \<not> p_after_tree_r r then Some pollerTreeRC
      else if \<not> p_after_synth r then Some pollerSyntheticProofs
      else if \<not> p_after_precommit_msg r \<or> \<not> p_after_precommit_msg_success r then None
      else if \<not> p_after_porep r
           then (case p_seed_epoch r of None \<Rightarrow> None
                 | Some seed \<Rightarrow> if height \<ge> seed + seedEpochConfidence then Some pollerPoRep else None)
      else if \<not> p_after_finalize r then Some pollerFinalize
      else if \<not> p_after_move_storage r then Some pollerMoveStorage
      else None)"

fun stage_task :: "poller_id \<Rightarrow> pipeline_row \<Rightarrow> TaskID option" where
  "stage_task pollerSDR r = p_task_sdr r"
| "stage_task pollerTreeD r = p_task_tree_d r"
| "stage_task pollerTreeRC r = p_task_tree_c r"
| "stage_task pollerSyntheticProofs r = p_task_synth r"
| "stage_task pollerPrecommitMsg r = p_task_precommit_msg r"
| "stage_task pollerPoRep r = p_task_porep r"
| "stage_task pollerCommitMsg r = p_task_commit_msg r"
| "stage_task pollerFinalize r = p_task_finalize r"
| "stage_task pollerMoveStorage r = p_task_move_storage r"

definition healthy :: "seal_env \<Rightarrow> int \<Rightarrow> bool" where
  "healthy env height \<longleftrightarrow> (\<forall>s. se_IsSet env s \<and> \<not> se_tx_fails env s) \<and> \<not> se_select_fails env \<and> se_head env = Some height"

lemma stages_length: "stages.rel db db' \<Longrightarrow> length (sectors_sdr_pipeline db') = length (sectors_sdr_pipeline db)"
  by (simp add: list_all2_lengthD)

lemma stages_nth:
  "stages.rel db db' \<Longrightarrow> i < length (sectors_sdr_pipeline db) \<Longrightarrow>
   keeps_stages (sectors_sdr_pipeline db ! i) (sectors_sdr_pipeline db' ! i)"
  by (rule list_all2_nthD)

lemma stages_keys: "stages.rel db db' \<Longrightarrow> keys_ok db \<Longrightarrow> keys_ok db'"
proof -
  assume rel: "stages.rel db db'" and ok: "keys_ok db"
  have "map sector_key (sectors_sdr_pipeline db') = map sector_key (sectors_sdr_pipeline db)"
    using rel by (induction rule: list_all2_induct) (simp_all add: keeps_stages_def)
  then show "keys_ok db'" using ok by (simp add: keys_ok_def)
qed

lemma next_stage_kept:
  "keeps_stages r r' \<Longrightarrow> next_stage height t = Some st \<Longrightarrow> stage_task st r \<noteq> None \<Longrightarrow> stage_task st r' \<noteq> None"
  by (auto simp: next_stage_def keeps_stages_def split: if_splits option.splits)

text \<open>The update of a stage hits the sector exactly once.\<close>

lemma assigned:
  assumes keys: "keys_ok db" and i: "i < length (sectors_sdr_pipeline db)" "p (sectors_sdr_pipeline db ! i)"
    and p: "\<And>r. p r \<Longrightarrow> same_sector t r" and tx: "\<not> se_tx_fails env s"
  shows "sectors_sdr_pipeline (add_stage_task env s (assign_one p f) db) ! i =
    f (task_seq (pd_harmony db)) (sectors_sdr_pipeline db ! i)"
proof -
  let ?rows = "sectors_sdr_pipeline db"
  have "r = ?rows ! i" if "r \<in> set ?rows" "p r" for r
    using distinct_key_eq [of sector_key ?rows r "?rows ! i"] keys that i p
    by (auto simp: keys_ok_def sector_key_def same_sector_def)
  then have "filter p ?rows = filter (\<lambda>r. r = ?rows ! i) ?rows" using i by (intro filter_cong) auto
  moreover have "distinct ?rows" using keys by (simp add: keys_ok_def distinct_map)
  ultimately have "count_where p ?rows = 1" using i by (simp add: count_where_def distinct_length_filter)
  then show ?thesis using i tx
    by (simp add: add_stage_task_def insert_task_def assign_one_def update_pipeline_def Let_def nth_update_where)
qed

text \<open>One operation gives a sector that waits for its stage a task, if it has none yet.\<close>

definition stage_op :: "seal_env \<Rightarrow> int \<Rightarrow> poller_id \<Rightarrow> pollTask \<Rightarrow> pipeline_db \<Rightarrow> pipeline_db" where
  "stage_op env height st = (case st of
     pollerSDR \<Rightarrow> pollStartSDR env | pollerTreeD \<Rightarrow> pollStartSDRTreeD env | pollerTreeRC \<Rightarrow> pollStartSDRTreeRC env
   | pollerSyntheticProofs \<Rightarrow> pollStartSynth env | pollerPoRep \<Rightarrow> pollStartPoRep env height
   | pollerFinalize \<Rightarrow> pollStartFinalize env | _ \<Rightarrow> pollStartMoveStorage env)"

lemma stage_op_assigns:
  assumes env: "healthy env height" and keys: "keys_ok db" and i: "i < length (sectors_sdr_pipeline db)"
    and kept: "keeps_stages t (sectors_sdr_pipeline db ! i)"
    and t: "row_ok t" "set (task_columns t) = {None}" "next_stage height t = Some st"
  shows "stage_task st (sectors_sdr_pipeline (stage_op env height st t db) ! i) \<noteq> None"
proof (cases "stage_task st (sectors_sdr_pipeline db ! i) = None")
  case False
  have "stages.rel db (stage_op env height st t db)"
    by (rule stages.rel_poll_ops [of _ env height]) (simp add: stage_op_def poll_ops_def split: poller_id.split)
  then show ?thesis using next_stage_kept [OF _ t(3) False] stages_nth [OF _ i] by blast
next
  case True
  let ?r = "sectors_sdr_pipeline db ! i"
  have same: "same_sector t ?r" using kept by (simp add: keeps_stages_def sector_key_def same_sector_def)
  have none: "p_task_sdr t = None" "p_task_tree_d t = None" "p_task_tree_c t = None" "p_task_tree_r t = None"
    "p_task_synth t = None" "p_task_porep t = None" "p_task_finalize t = None" "p_task_move_storage t = None"
    using t(2) by (auto simp: task_columns_def)
  have h: "se_IsSet env s" "\<not> se_tx_fails env s" for s using env by (simp_all add: healthy_def)
  have flags: "p_after_sdr ?r = p_after_sdr t" "p_after_tree_d ?r = p_after_tree_d t" "p_task_tree_r ?r = p_task_tree_c ?r"
    using kept none by (simp_all add: keeps_stages_def)
  note after = afterSDR_def afterTreeD_def afterTreeRC_def afterSynth_def afterPrecommitMsg_def afterPrecommitMsgSuccess_def
    afterPoRep_def afterFinalize_def
  have assign: "sectors_sdr_pipeline (add_stage_task env s (assign_one (\<lambda>r. same_sector t r \<and> q r) f) db) ! i =
      f (task_seq (pd_harmony db)) ?r" if "q ?r" for s q f
    by (rule assigned [OF keys i]) (use that same h(2) in auto)
  show ?thesis
    using t(3,1) True same none flags h(1)
    by (auto simp: next_stage_def stage_op_def row_ok_def flags_ok_def after assign
        pollStartSDR_def pollStartSDRTreeD_def pollStartSDRTreeRC_def pollStartSynth_def pollStartPoRep_def
        pollStartFinalize_def pollStartMoveStorage_def split: if_splits option.splits)
qed

lemma keeps_stages_refl: "keeps_stages r r"
  by (rule stages.R_refl)

lemma poll_sector_assigns:
  assumes env: "healthy env height" and keys: "keys_ok db" and i: "i < length (sectors_sdr_pipeline db)"
    and t: "sectors_sdr_pipeline db ! i = t" "row_ok t" "set (task_columns t) = {None}" "next_stage height t = Some st"
  shows "stage_task st (sectors_sdr_pipeline (poll_sector env height t db) ! i) \<noteq> None"
proof -
  have "stage_op env height st \<in> set (poll_ops env height)"
    by (simp add: stage_op_def poll_ops_def split: poller_id.split)
  then obtain before after where ops: "poll_ops env height = before @ stage_op env height st # after"
    by (meson split_list)
  let ?db1 = "fold (\<lambda>op. op t) before db"
  let ?db2 = "stage_op env height st t ?db1"
  have rel1: "stages.rel db ?db1" by (rule stages.rel_fold, rule stages.rel_poll_ops [of _ env height]) (simp add: ops)
  have rel2: "stages.rel ?db2 (fold (\<lambda>op. op t) after ?db2)"
    by (rule stages.rel_fold, rule stages.rel_poll_ops [of _ env height]) (simp add: ops)
  have rel12: "stages.rel ?db1 ?db2" by (rule stages.rel_poll_ops [of _ env height]) (simp add: ops)
  have i1: "i < length (sectors_sdr_pipeline ?db1)" "i < length (sectors_sdr_pipeline ?db2)"
    using i stages_length [OF rel1] stages_length [OF rel12] by simp_all
  have "stage_task st (sectors_sdr_pipeline ?db2 ! i) \<noteq> None"
    by (rule stage_op_assigns [OF env stages_keys [OF rel1 keys] i1(1)]) (use stages_nth [OF rel1 i] t in simp_all)
  then show ?thesis using next_stage_kept [OF stages_nth [OF rel2 i1(2)] t(4)] by (simp add: poll_sector_ops ops)
qed

lemma poll_assigns:
  assumes env: "healthy env height" and keys: "keys_ok db" and i: "i < length (sectors_sdr_pipeline db)"
    and t: "sectors_sdr_pipeline db ! i = t" "row_ok t" "set (task_columns t) = {None}" "next_stage height t = Some st"
    and polled: "t \<in> set (poll_tasks db)"
  shows "stage_task st (sectors_sdr_pipeline (snd (poll env db)) ! i) \<noteq> None"
proof -
  obtain before after where ts: "poll_tasks db = before @ t # after" using polled by (meson split_list)
  have "distinct (map sector_key (poll_tasks db))"
    using keys by (simp add: poll_tasks_def keys_ok_def distinct_map_filter)
  then have other: "\<forall>u\<in>set before. \<not> same_sector u t"
    by (auto simp: ts same_sector_def sector_key_def image_iff)
  let ?db1 = "fold (poll_sector env height) before db"
  let ?db2 = "poll_sector env height t ?db1"
  let ?db3 = "fold (poll_sector env height) after ?db2"
  have rel1: "stages.rel db ?db1" and rel3: "stages.rel ?db2 ?db3"
    by (rule stages.rel_fold, rule stages.rel_poll_sector)+
  have rel2: "stages.rel ?db1 ?db2" by (rule stages.rel_poll_sector)
  have i1: "i < length (sectors_sdr_pipeline ?db1)" and i2: "i < length (sectors_sdr_pipeline ?db2)"
    using i stages_length [OF rel1] stages_length [OF rel2] by simp_all
  have "sectors_sdr_pipeline ?db1 ! i = t" using fold_sectors_other [OF i, of before env height] other t(1) by simp
  then have "stage_task st (sectors_sdr_pipeline ?db2 ! i) \<noteq> None"
    using poll_sector_assigns [OF env stages_keys [OF rel1 keys] i1] t by simp
  moreover have "stages.rel ?db2 (pollStartBatchCommitMsg env (pollStartBatchPrecommitMsg env ?db3))"
    by (meson rel3 stages.rel_batches stages.rel_trans)
  ultimately show ?thesis using env next_stage_kept [OF stages_nth [OF _ i2] t(4)] by (simp add: poll_def healthy_def ts)
qed

section \<open>A message nobody waits for\<close>

text \<open>The precommit message of the sector was sent, and nothing else is under way for it.\<close>

definition awaits_precommit :: "pipeline_row \<Rightarrow> bool" where
  "awaits_precommit r \<longleftrightarrow> p_after_sdr r \<and> p_after_tree_d r \<and> p_after_tree_c r \<and> p_after_tree_r r \<and> p_after_synth r \<and>
     p_after_precommit_msg r \<and> \<not> p_after_precommit_msg_success r \<and> \<not> p_after_porep r \<and> \<not> p_after_commit_msg r"

lemma add_stage_task_refused:
  assumes "\<And>tid h. \<exists>res. extra tid (db\<lparr>pd_harmony := h\<rparr>) = (res, db\<lparr>pd_harmony := h\<rparr>) \<and> res \<noteq> Inr True"
  shows "sectors_sdr_pipeline (add_stage_task env p extra db) = sectors_sdr_pipeline db"
    "message_waits (add_stage_task env p extra db) = message_waits db"
proof -
  obtain res where "extra (task_seq (pd_harmony db)) (db\<lparr>pd_harmony :=
      snd (insert_task (se_name env p) (se_owner env) (se_now env) (pd_harmony db))\<rparr>) =
    (res, db\<lparr>pd_harmony := snd (insert_task (se_name env p) (se_owner env) (se_now env) (pd_harmony db))\<rparr>)"
    "res \<noteq> Inr True" using assms by blast
  then show "sectors_sdr_pipeline (add_stage_task env p extra db) = sectors_sdr_pipeline db"
    "message_waits (add_stage_task env p extra db) = message_waits db"
    using add_stage_task_cases [of env p extra db] by auto
qed

lemma exec_results_none: "message_waits db = [] \<Longrightarrow> exec_results c t db = []"
  by (auto simp: exec_results_def)

lemma poll_sector_awaits:
  assumes "awaits_precommit r" "message_waits db = []"
  shows "poll_sector env height r db = db"
  using assms unfolding poll_sector_def awaits_precommit_def
  by (simp add: pollStartSDR_def pollStartSDRTreeD_def pollStartSDRTreeRC_def pollStartSynth_def
      pollPrecommitMsgLanded_def exec_results_none pollStartPoRep_def afterPrecommitMsgSuccess_def pollerAddStartEpoch_def
      pollStartFinalize_def afterPoRep_def pollStartMoveStorage_def afterFinalize_def pollCommitMsgLanded_def)

lemma batches_awaits:
  assumes "awaits_precommit r" "sectors_sdr_pipeline db = [r]"
  shows "sectors_sdr_pipeline (pollStartBatchPrecommitMsg env db) = [r]"
    "message_waits (pollStartBatchPrecommitMsg env db) = message_waits db"
    "sectors_sdr_pipeline (pollStartBatchCommitMsg env db) = [r]"
    "message_waits (pollStartBatchCommitMsg env db) = message_waits db"
proof -
  have "filter precommit_eligible [r] = []" "filter commit_eligible [r] = []"
    using assms(1) by (simp_all add: awaits_precommit_def precommit_eligible_def commit_eligible_def)
  then have none: "precommit_candidates l m (db\<lparr>pd_harmony := h\<rparr>) = Some []" "commit_candidates m (db\<lparr>pd_harmony := h\<rparr>) = Some []"
    for l m h using assms(2) by (simp_all add: precommit_candidates_def commit_candidates_def Let_def number_batches_def row_number_def)
  show "sectors_sdr_pipeline (pollStartBatchPrecommitMsg env db) = [r]"
    "message_waits (pollStartBatchPrecommitMsg env db) = message_waits db"
    using assms(2) unfolding pollStartBatchPrecommitMsg_def Let_def
    by (auto simp: none split: option.split intro!: add_stage_task_refused [THEN trans])
  show "sectors_sdr_pipeline (pollStartBatchCommitMsg env db) = [r]"
    "message_waits (pollStartBatchCommitMsg env db) = message_waits db"
    using assms(2) unfolding pollStartBatchCommitMsg_def Let_def
    by (auto simp: none split: option.split intro!: add_stage_task_refused [THEN trans])
qed

lemma poll_awaits:
  assumes "awaits_precommit r" "sectors_sdr_pipeline db = [r]" "message_waits db = []"
  shows "sectors_sdr_pipeline (snd (poll env db)) = [r] \<and> message_waits (snd (poll env db)) = []"
proof (cases "se_head env")
  case (Some height)
  have "fold (poll_sector env height) (poll_tasks db) db = db"
    using assms poll_sector_awaits [OF assms(1,3)] by (simp add: poll_tasks_def)
  then show ?thesis using Some assms batches_awaits by (simp add: poll_def)
qed (use assms in \<open>simp add: poll_def\<close>)

section \<open>Properties\<close>

definition ex_sys :: seal_sys where
  "ex_sys = \<lparr>sy_db = pollStartSDR ex_seal_env (ex_sector 1) (ex_pipeline [ex_sector 1]), sy_read = [ex_sector 1]\<rparr>"

lemma ex_sys_reachable: "seal_reachable ex_sys"
proof -
  let ?db = "ex_pipeline []" and ?r = "ex_sector 1"
  have start: "seal_reachable \<lparr>sy_db = ?db, sy_read = []\<rparr>" by (rule seal_reachable.start) (simp add: ex_pipeline_def)
  have "seal_step \<lparr>sy_db = ?db, sy_read = []\<rparr> (\<lparr>sy_db = ?db, sy_read = []\<rparr>
      \<lparr>sy_db := (sy_db \<lparr>sy_db = ?db, sy_read = []\<rparr>)\<lparr>sectors_sdr_pipeline := sectors_sdr_pipeline (sy_db \<lparr>sy_db = ?db, sy_read = []\<rparr>) @ [?r]\<rparr>\<rparr>)"
    by (rule seal_step.insert) (simp_all add: new_sector_def ex_sector_def task_columns_def ex_pipeline_def numeral_eq_Suc)
  with start have "seal_reachable \<lparr>sy_db = ex_pipeline [?r], sy_read = []\<rparr>"
    by (auto dest: seal_reachable.step simp: ex_pipeline_def)
  moreover have "seal_step \<lparr>sy_db = ex_pipeline [?r], sy_read = []\<rparr>
      (\<lparr>sy_db = ex_pipeline [?r], sy_read = []\<rparr>\<lparr>sy_read := ?r # sy_read \<lparr>sy_db = ex_pipeline [?r], sy_read = []\<rparr>\<rparr>)"
    by (rule seal_step.read) (simp add: ex_pipeline_def)
  ultimately have "seal_reachable \<lparr>sy_db = ex_pipeline [?r], sy_read = [?r]\<rparr>"
    by (auto dest: seal_reachable.step)
  moreover have "seal_step \<lparr>sy_db = ex_pipeline [?r], sy_read = [?r]\<rparr>
      (\<lparr>sy_db = ex_pipeline [?r], sy_read = [?r]\<rparr>\<lparr>sy_db := pollStartSDR ex_seal_env ?r (sy_db \<lparr>sy_db = ex_pipeline [?r], sy_read = [?r]\<rparr>)\<rparr>)"
    by (rule seal_step.poll_op [of _ _ _ ex_seal_env 0]) (simp_all add: poll_ops_def)
  ultimately show ?thesis by (auto dest: seal_reachable.step simp: ex_sys_def)
qed



definition ex_wait_db :: pipeline_db where
  "ex_wait_db = ex_pipeline [(ex_sealed 1)\<lparr>p_task_precommit_msg := Some 5, p_tree_r_cid := Some ''r'', p_tree_d_cid := Some ''d''\<rparr>]"

definition ex_wait_calls :: precommit_calls where
  "ex_wait_calls = ex_precommit_calls\<lparr>pc_insert_fails := True\<rparr>"

text \<open>
  The message ID and the row that waits for the message are stored by two statements. When the
  second fails the task is tried again, finds no sector and ends, and from then on no round of
  the poller ever changes the sector: its precommit message is not waited for.
\<close>

theorem precommit_wait_lost:
  "\<exists>pc taskID db db1. SubmitPrecommit_Do pc taskID db = ((False, Some ''inserting into message_waits''), db1) \<and>
     SubmitPrecommit_Do pc taskID db1 = ((True, Some ''expected at least 1 sector params, got 0''), db1) \<and>
     map p_precommit_msg_cid (sectors_sdr_pipeline db1) = [Some ''msg''] \<and>
     (\<forall>envs. sectors_sdr_pipeline (fold (\<lambda>env db. snd (poll env db)) envs db1) = sectors_sdr_pipeline db1)"
proof -
  let ?db1 = "precommit_store_cid 5 ''msg'' ex_wait_db"
  obtain r where r: "sectors_sdr_pipeline ?db1 = [r]" "awaits_precommit r" "p_precommit_msg_cid r = Some ''msg''"
    by (simp add: precommit_store_cid_def ex_wait_db_def ex_pipeline_def update_pipeline_def update_where_def
        awaits_precommit_def ex_sealed_def ex_sector_def)
  have w: "message_waits ?db1 = []"
    by (simp add: precommit_store_cid_def ex_wait_db_def ex_pipeline_def update_pipeline_def)
  have "sectors_sdr_pipeline (fold (\<lambda>env db. snd (poll env db)) envs db) = [r]"
    if "sectors_sdr_pipeline db = [r]" "message_waits db = []" for envs db
    using that by (induction envs arbitrary: db) (simp_all add: poll_awaits [OF r(2)])
  then have "\<forall>envs. sectors_sdr_pipeline (fold (\<lambda>env db. snd (poll env db)) envs ?db1) = sectors_sdr_pipeline ?db1"
    using r(1) w by simp
  moreover have "SubmitPrecommit_Do ex_wait_calls 5 ex_wait_db = ((False, Some ''inserting into message_waits''), ?db1)"
    by code_simp
  moreover have "SubmitPrecommit_Do ex_wait_calls 5 ?db1 = ((True, Some ''expected at least 1 sector params, got 0''), ?db1)"
    by code_simp
  ultimately show ?thesis using r
    by (intro exI [of _ ex_wait_calls] exI [of _ 5] exI [of _ ex_wait_db] exI [of _ ?db1]) simp
qed

definition ex_commit_db :: pipeline_db where
  "ex_commit_db = ex_pipeline (map (\<lambda>n. (ex_sealed n)\<lparr>p_tree_r_cid := Some ''r'', p_tree_d_cid := Some ''d'',
     p_after_precommit_msg := True, p_after_precommit_msg_success := True, p_seed_epoch := Some 300,
     p_after_porep := True, p_porep_proof := Some ''proof'', p_task_commit_msg := Some 7\<rparr>) [1, 2])"

text \<open>
  A sector whose own commit fails in the simulation is left out of the message, the task
  ends as done, and the sector keeps naming the finished task: no round of the poller ever
  puts it into a batch again.
\<close>

theorem commit_skipped_stuck:
  "\<exists>cc taskID db ms db1 ms1. SubmitCommit_Do cc taskID (db, ms) = Some ((True, None), db1, ms1) \<and>
     \<not> p_after_commit_msg (last (sectors_sdr_pipeline db1)) \<and>
     (\<forall>envs. p_task_commit_msg (last (sectors_sdr_pipeline (fold (\<lambda>env db. snd (poll env db)) envs db1))) = Some taskID)"
proof -
  obtain db1 ms1 where run: "SubmitCommit_Do ex_commit_calls 7 (ex_commit_db, []) = Some ((True, None), db1, ms1)"
    and rows: "map p_task_commit_msg (sectors_sdr_pipeline db1) = [None, Some 7]"
      "map p_commit_msg_cid (sectors_sdr_pipeline db1) = [Some ''msg'', None]"
      "map p_after_commit_msg (sectors_sdr_pipeline db1) = [True, False]"
  proof -
    have "(case SubmitCommit_Do ex_commit_calls 7 (ex_commit_db, []) of Some ((True, None), db1, ms1) \<Rightarrow>
        map p_task_commit_msg (sectors_sdr_pipeline db1) = [None, Some 7] \<and>
        map p_commit_msg_cid (sectors_sdr_pipeline db1) = [Some ''msg'', None] \<and>
        map p_after_commit_msg (sectors_sdr_pipeline db1) = [True, False] | _ \<Rightarrow> False)"
      by code_simp
    then show thesis using that by (auto split: option.splits prod.splits bool.splits)
  qed
  from rows obtain a b where ab: "sectors_sdr_pipeline db1 = [a, b]" "p_task_commit_msg b = Some 7" "p_commit_msg_cid b = None"
    "\<not> p_after_commit_msg b" by (auto simp: map_eq_Cons_conv)
  have "p_task_commit_msg (last (sectors_sdr_pipeline (fold (\<lambda>env db. snd (poll env db)) envs db1))) = Some 7" for envs
  proof -
    have "kept.rel db1 (fold (\<lambda>env db. snd (poll env db)) envs db1)" by (rule kept.rel_fold) (rule kept.rel_poll)
    then show ?thesis using ab by (auto simp: list_all2_Cons1 keeps_commit_task_def)
  qed
  then have "\<not> p_after_commit_msg (last (sectors_sdr_pipeline db1)) \<and>
     (\<forall>envs. p_task_commit_msg (last (sectors_sdr_pipeline (fold (\<lambda>env db. snd (poll env db)) envs db1))) = Some 7)"
    using ab by simp
  with run show ?thesis by blast
qed



end
