(* ===== verification/IndexLocks.thy ===== *)
theory IndexLocks
  imports FileTypes
begin

unbundle bit_operations_syntax

text \<open>
  Locks on the files of a sector (\<open>lib/paths/index_locks.go\<close>): any number of readers or one
  writer per sector and file type, held until the caller's context ends.

  The mutexes make \<open>tryLock\<close>, \<open>unlock\<close> and the accesses to the map atomic. A call of
  \<open>lockWith\<close> is three steps, between which other calls run: it enters (the entry of the
  sector is found or made, its reference count goes up), then it is granted the lock or
  leaves without it (\<open>tryLock\<close> refused, or the context ended while waiting), and a granted
  lock is released when the context ends.
\<close>

section \<open>The lock of a sector\<close>

record sectorLock =
  sl_r :: "uint64 list"
  sl_w :: SectorFileType
  sl_refs :: nat

definition new_sectorLock :: sectorLock where
  "new_sectorLock = \<lparr>sl_r = replicate FileTypes_count 0, sl_w = 0, sl_refs = 0\<rparr>"

definition canLock :: "SectorFileType \<Rightarrow> SectorFileType \<Rightarrow> sectorLock \<Rightarrow> bool" where
  "canLock read write l \<longleftrightarrow>
     list_all (\<lambda>(b, r). \<not> (b \<and> r > 0)) (zip (All write) (sl_r l)) \<and>
     sl_w l AND read = 0 \<and> sl_w l AND write = 0"

definition tryLock :: "SectorFileType \<Rightarrow> SectorFileType \<Rightarrow> sectorLock \<Rightarrow> sectorLock option" where
  "tryLock read write l =
     (if \<not> canLock read write l then None
      else Some (l\<lparr>sl_r := map (\<lambda>(set, r). if set then r + 1 else r) (zip (All read) (sl_r l)),
                   sl_w := sl_w l OR write\<rparr>))"

definition unlock :: "SectorFileType \<Rightarrow> SectorFileType \<Rightarrow> sectorLock \<Rightarrow> sectorLock" where
  "unlock read write l =
     l\<lparr>sl_r := map (\<lambda>(set, r). if set then r - 1 else r) (zip (All read) (sl_r l)),
       sl_w := sl_w l AND NOT write\<rparr>"

section \<open>The locks of the index\<close>

type_synonym lock_map = "SectorID \<rightharpoonup> sectorLock"
type_synonym request = "SectorID \<times> SectorFileType \<times> SectorFileType"

datatype lock_request = NothingToLock | UnknownFileTypes | Proceed

definition check_request :: "SectorFileType \<Rightarrow> SectorFileType \<Rightarrow> lock_request" where
  "check_request read write =
     (if read OR write = 0 then NothingToLock
      else if sint (read OR write) > 2 ^ FileTypes_count - 1 then UnknownFileTypes
      else Proceed)"

definition lock_enter :: "SectorID \<Rightarrow> lock_map \<Rightarrow> lock_map" where
  "lock_enter sector m =
     (let slk = (case m sector of None \<Rightarrow> new_sectorLock | Some slk \<Rightarrow> slk)
      in m(sector \<mapsto> slk\<lparr>sl_refs := sl_refs slk + 1\<rparr>))"

definition lock_release :: "request \<Rightarrow> lock_map \<Rightarrow> lock_map" where
  "lock_release rq m =
     (case rq of (sector, read, write) \<Rightarrow>
        (case m sector of
           None \<Rightarrow> m
         | Some slk \<Rightarrow>
             let slk' = (unlock read write slk)\<lparr>sl_refs := sl_refs slk - 1\<rparr>
             in if sl_refs slk' = 0 then m(sector := None) else m(sector \<mapsto> slk')))"

text \<open>\<open>StorageTryLock\<close> enters and tries at once; it does not wait.\<close>

definition StorageTryLock :: "request \<Rightarrow> lock_map \<Rightarrow> lock_request \<times> bool \<times> lock_map" where
  "StorageTryLock rq m =
     (case rq of (sector, read, write) \<Rightarrow>
        (case check_request read write of
           Proceed \<Rightarrow>
             let m1 = lock_enter sector m
             in (case Option.bind (m1 sector) (tryLock read write) of
                   None \<Rightarrow> (Proceed, False, m1)
                 | Some l \<Rightarrow> (Proceed, True, m1(sector \<mapsto> l)))
         | c \<Rightarrow> (c, False, m)))"

section \<open>Steps\<close>

record lock_state =
  ls_locks :: lock_map
  ls_waiting :: "request list"
  ls_leases :: "request list"

text \<open>The reference counts and reader counts are assumed not to reach the range of \<open>uint\<close>.\<close>

inductive lstep :: "lock_state \<Rightarrow> lock_state \<Rightarrow> bool" where
  enter:
    "check_request rd wr = Proceed \<Longrightarrow>
     lstep s (s\<lparr>ls_locks := lock_enter sector (ls_locks s), ls_waiting := (sector, rd, wr) # ls_waiting s\<rparr>)"
| grant:
    "(sector, rd, wr) \<in> set (ls_waiting s) \<Longrightarrow> ls_locks s sector = Some l \<Longrightarrow> tryLock rd wr l = Some l' \<Longrightarrow>
     length (ls_leases s) < 2 ^ 64 - 1 \<Longrightarrow>
     lstep s \<lparr>ls_locks = (ls_locks s)(sector \<mapsto> l'), ls_waiting = remove1 (sector, rd, wr) (ls_waiting s),
              ls_leases = (sector, rd, wr) # ls_leases s\<rparr>"
| leave:
    "rq \<in> set (ls_waiting s) \<Longrightarrow> lstep s (s\<lparr>ls_waiting := remove1 rq (ls_waiting s)\<rparr>)"
| release:
    "rq \<in> set (ls_leases s) \<Longrightarrow>
     lstep s (s\<lparr>ls_locks := lock_release rq (ls_locks s), ls_leases := remove1 rq (ls_leases s)\<rparr>)"

definition init_locks :: lock_state where
  "init_locks = \<lparr>ls_locks = Map.empty, ls_waiting = [], ls_leases = []\<rparr>"

inductive lock_reachable :: "lock_state \<Rightarrow> bool" where
  "lock_reachable init_locks"
| "lock_reachable s \<Longrightarrow> lstep s s' \<Longrightarrow> lock_reachable s'"

section \<open>What a lock promises\<close>

text \<open>
  Two holders are compatible when neither writes a file type the other reads or writes.
  \<open>rep l hs\<close> says that the lock \<open>l\<close> is held by exactly \<open>hs\<close>.
\<close>

definition compatible :: "SectorFileType \<times> SectorFileType \<Rightarrow> SectorFileType \<times> SectorFileType \<Rightarrow> bool" where
  "compatible h h' \<longleftrightarrow>
     snd h AND snd h' = 0 \<and> snd h AND fst h' AND FTAll = 0 \<and> snd h' AND fst h AND FTAll = 0"

definition readers :: "(SectorFileType \<times> SectorFileType) list \<Rightarrow> nat \<Rightarrow> nat" where
  "readers hs i = length (filter (\<lambda>h. bit (fst h) i) hs)"

definition rep :: "sectorLock \<Rightarrow> (SectorFileType \<times> SectorFileType) list \<Rightarrow> bool" where
  "rep l hs \<longleftrightarrow>
     sl_r l = map (\<lambda>i. of_nat (readers hs i)) [0..<7] \<and>
     (\<forall>n. bit (sl_w l) n \<longleftrightarrow> (\<exists>h\<in>set hs. bit (snd h) n)) \<and>
     length hs < 2 ^ 64 \<and> sorted_wrt compatible hs"

locale rw_lock =
  fixes held :: "'l \<Rightarrow> ('m \<times> 'm) list \<Rightarrow> bool"
    and compat :: "'m \<times> 'm \<Rightarrow> 'm \<times> 'm \<Rightarrow> bool"
    and fresh :: 'l
    and acquire :: "'m \<Rightarrow> 'm \<Rightarrow> 'l \<Rightarrow> 'l option"
    and release :: "'m \<Rightarrow> 'm \<Rightarrow> 'l \<Rightarrow> 'l"
    and valid :: "'m \<Rightarrow> bool"
    and bound :: nat
  assumes fresh_held: "held fresh []"
    and held_exclusive: "held l hs \<Longrightarrow> sorted_wrt compat hs"
    and acquire_held: "held l hs \<Longrightarrow> length hs < bound \<Longrightarrow> acquire rd wr l = Some l' \<Longrightarrow> held l' ((rd, wr) # hs)"
    and acquire_refused: "held l hs \<Longrightarrow> valid rd \<Longrightarrow> valid wr \<Longrightarrow> acquire rd wr l = None \<Longrightarrow> \<exists>h\<in>set hs. \<not> compat (rd, wr) h"
    and release_held: "held l hs \<Longrightarrow> (rd, wr) \<in> set hs \<Longrightarrow> held (release rd wr l) (remove1 (rd, wr) hs)"
begin

lemma acquire_compat:
  assumes "held l hs" "length hs < bound" "acquire rd wr l = Some l'" "h \<in> set hs"
  shows "compat (rd, wr) h"
  using held_exclusive [OF acquire_held [OF assms(1-3)]] assms(4) by simp

lemma acquire_iff:
  assumes "held l hs" "length hs < bound" "valid rd" "valid wr"
  shows "(\<exists>l'. acquire rd wr l = Some l') \<longleftrightarrow> (\<forall>h\<in>set hs. compat (rd, wr) h)"
  using acquire_compat [OF assms(1,2)] acquire_refused [OF assms(1,3,4)] by (cases "acquire rd wr l") auto

lemma acquire_release:
  assumes "held l hs" "length hs < bound" "acquire rd wr l = Some l'"
  shows "held (release rd wr l') hs"
  using release_held [OF acquire_held [OF assms], of rd wr] by simp

end

section \<open>The sector lock keeps the promise\<close>

lemma All_bits: "All t = map (bit t) [0..<7]"
proof -
  have "t AND push_bit i 1 \<noteq> 0 \<longleftrightarrow> bit t i" for i
    by (simp add: push_bit_of_1 and_exp_eq_0_iff_not_bit)
  then show ?thesis by (simp add: All_def FileTypes_count_def)
qed

lemma zip_map_same: "zip (map f xs) (map g xs) = map (\<lambda>x. (f x, g x)) xs"
  by (induction xs) simp_all

lemma and_eq_0_bits: "a AND b = 0 \<longleftrightarrow> (\<forall>n. \<not> (bit a n \<and> bit (b :: SectorFileType) n))"
proof
  assume "a AND b = 0"
  then show "\<forall>n. \<not> (bit a n \<and> bit b n)" by (metis bit_and_iff bit_0_eq bot_apply bot_bool_def)
next
  assume "\<forall>n. \<not> (bit a n \<and> bit b n)"
  then show "a AND b = 0" by (intro bit_eqI) (simp add: bit_and_iff)
qed

lemma readers_le: "readers hs i \<le> length hs"
  by (simp add: readers_def)

lemma of_nat_readers_pos:
  assumes "length hs < 2 ^ 64"
  shows "(of_nat (readers hs i) :: uint64) > 0 \<longleftrightarrow> readers hs i > 0"
proof -
  have "readers hs i < 2 ^ 64" using readers_le assms by (rule le_less_trans)
  then have "unat (of_nat (readers hs i) :: uint64) = readers hs i" by (simp add: unat_of_nat)
  then show ?thesis by (metis neq0_conv unat_eq_zero word_gt_0)
qed

lemma readers_pos: "readers hs i > 0 \<longleftrightarrow> (\<exists>h\<in>set hs. bit (fst h) i)"
  by (auto simp: readers_def filter_empty_conv)

lemma canLock_iff:
  assumes "rep l hs"
  shows "canLock rd wr l \<longleftrightarrow>
    (\<forall>h\<in>set hs. (\<forall>i<7. \<not> (bit wr i \<and> bit (fst h) i)) \<and> snd h AND rd = 0 \<and> snd h AND wr = 0)"
proof -
  have r: "sl_r l = map (\<lambda>i. of_nat (readers hs i)) [0..<7]" "length hs < 2 ^ 64"
    and w: "\<And>n. bit (sl_w l) n \<longleftrightarrow> (\<exists>h\<in>set hs. bit (snd h) n)"
    using assms by (simp_all add: rep_def)
  have "list_all (\<lambda>(b, r). \<not> (b \<and> r > 0)) (zip (All wr) (sl_r l)) \<longleftrightarrow>
      (\<forall>i<7. \<not> (bit wr i \<and> readers hs i > 0))"
    unfolding r(1) All_bits zip_map_same by (auto simp: list_all_iff of_nat_readers_pos [OF r(2)] simp del: upt_rec_numeral)
  then show ?thesis unfolding canLock_def readers_pos and_eq_0_bits w by blast
qed

lemma compatible_sym: "compatible h h' \<Longrightarrow> compatible h' h"
  by (simp add: compatible_def and.commute)

lemma canLock_compatible:
  assumes "rep l hs" "canLock rd wr l" "h \<in> set hs"
  shows "compatible (rd, wr) h"
  using assms canLock_iff [OF assms(1), of rd wr]
  by (auto simp: compatible_def and_eq_0_bits bit_and_iff FTAll_bits)

lemma tryLock_rep:
  assumes "rep l hs" "length hs < 2 ^ 64 - 1" "tryLock rd wr l = Some l'"
  shows "rep l' ((rd, wr) # hs)"
proof -
  have can: "canLock rd wr l" and l': "l' = l\<lparr>sl_r := map (\<lambda>(set, r). if set then r + 1 else r) (zip (All rd) (sl_r l)),
      sl_w := sl_w l OR wr\<rparr>"
    using assms(3) by (auto simp: tryLock_def split: if_splits)
  have "readers ((rd, wr) # hs) i = (if bit rd i then Suc (readers hs i) else readers hs i)" for i
    by (simp add: readers_def)
  then have "sl_r l' = map (\<lambda>i. of_nat (readers ((rd, wr) # hs) i)) [0..<7]"
    using assms(1) unfolding l' rep_def All_bits by (simp add: zip_map_same)
  moreover have "bit (sl_w l') n \<longleftrightarrow> (\<exists>h\<in>set ((rd, wr) # hs). bit (snd h) n)" for n
    using assms(1) by (auto simp: l' rep_def bit_or_iff)
  moreover have "sorted_wrt compatible ((rd, wr) # hs)"
    using assms(1) canLock_compatible [OF assms(1) can] by (simp add: rep_def)
  ultimately show ?thesis using assms(2) by (simp add: rep_def)
qed

lemma sorted_wrt_remove1: "sorted_wrt P xs \<Longrightarrow> sorted_wrt P (remove1 x xs)"
  by (induction xs) (auto dest: notin_set_remove1 set_remove1_subset [THEN subsetD])

lemma sorted_wrt_compatible_other:
  assumes "sorted_wrt compatible hs" "h \<in> set hs" "h' \<in> set (remove1 h hs)"
  shows "compatible h h'"
  using assms by (induction hs) (auto split: if_splits dest: compatible_sym set_remove1_subset [THEN subsetD])

lemma length_remove1_Suc: "x \<in> set xs \<Longrightarrow> length xs = Suc (length (remove1 x xs))"
  by (induction xs) auto

lemma unlock_rep:
  assumes "rep l hs" "(rd, wr) \<in> set hs"
  shows "rep (unlock rd wr l) (remove1 (rd, wr) hs)"
proof -
  have count: "readers hs i = (if bit rd i then Suc (readers (remove1 (rd, wr) hs) i) else readers (remove1 (rd, wr) hs) i)" for i
  proof -
    have "filter (\<lambda>h. bit (fst h) i) (remove1 (rd, wr) hs) =
        (if bit rd i then remove1 (rd, wr) (filter (\<lambda>h. bit (fst h) i) hs) else filter (\<lambda>h. bit (fst h) i) hs)"
      by (simp add: filter_remove1 remove1_idem)
    then show ?thesis using assms(2) by (simp add: readers_def length_remove1_Suc)
  qed
  have "sl_r (unlock rd wr l) = map (\<lambda>i. of_nat (readers (remove1 (rd, wr) hs) i)) [0..<7]"
    using assms(1) unfolding unlock_def rep_def All_bits by (simp add: zip_map_same count)
  moreover have "bit (sl_w (unlock rd wr l)) n \<longleftrightarrow> (\<exists>h\<in>set (remove1 (rd, wr) hs). bit (snd h) n)" for n
  proof -
    have other: "\<not> bit wr n \<or> \<not> bit (snd h) n" if "h \<in> set (remove1 (rd, wr) hs)" for h
      using sorted_wrt_compatible_other [OF _ assms(2) that] assms(1)
      by (auto simp: rep_def compatible_def and_eq_0_bits)
    have split: "(\<exists>h\<in>set hs. bit (snd h) n) \<longleftrightarrow> bit wr n \<or> (\<exists>h\<in>set (remove1 (rd, wr) hs). bit (snd h) n)"
    proof -
      have "mset hs = add_mset (rd, wr) (mset (remove1 (rd, wr) hs))" using assms(2) by simp
      then have "set hs = insert (rd, wr) (set (remove1 (rd, wr) hs))"
        by (metis set_mset_add_mset_insert set_mset_mset)
      then show ?thesis by auto
    qed
    have "n < 64" if "bit (sl_w l) n" using that bit_imp_le_length [of "sl_w l" n] by simp
    then have "bit (sl_w (unlock rd wr l)) n \<longleftrightarrow> bit (sl_w l) n \<and> \<not> bit wr n"
      by (auto simp: unlock_def bit_and_iff bit_not_iff)
    with assms(1) split other show ?thesis unfolding rep_def by blast
  qed
  moreover have "sorted_wrt compatible (remove1 (rd, wr) hs)"
    using assms(1) by (simp add: rep_def sorted_wrt_remove1)
  moreover have "length (remove1 (rd, wr) hs) < 2 ^ 64"
    using assms(1) by (auto simp: rep_def length_remove1)
  ultimately show ?thesis by (simp add: rep_def)
qed

lemma new_rep: "rep new_sectorLock []"
  by (simp add: rep_def new_sectorLock_def readers_def FileTypes_count_def map_replicate_const)

text \<open>A refusal has a reason: a holder that is in the way.\<close>

lemma tryLock_refused:
  assumes "rep l hs" "tryLock rd wr l = None" "rd AND FTAll = rd" "wr AND FTAll = wr"
  shows "\<exists>h\<in>set hs. \<not> compatible (rd, wr) h"
proof -
  obtain h where h: "h \<in> set hs" "(\<exists>i<7. bit wr i \<and> bit (fst h) i) \<or> snd h AND rd \<noteq> 0 \<or> snd h AND wr \<noteq> 0"
    using assms(2) unfolding tryLock_def canLock_iff [OF assms(1)] by (auto split: if_splits)
  have "bit rd n \<Longrightarrow> n < 7" for n using assms(3) FTAll_bits by (metis bit_and_iff)
  with h(2) have "\<not> compatible (rd, wr) h"
    by (auto simp: compatible_def and_eq_0_bits bit_and_iff FTAll_bits)
  with h(1) show ?thesis by blast
qed

interpretation sl: rw_lock rep compatible new_sectorLock tryLock unlock "\<lambda>t. t AND FTAll = t" "2 ^ 64 - 1"
proof unfold_locales
  show "rep new_sectorLock []" by (rule new_rep)
  show "sorted_wrt compatible hs" if "rep l hs" for l hs
    using that by (simp add: rep_def)
  show "rep l' ((rd, wr) # hs)" if "rep l hs" "length hs < 2 ^ 64 - 1" "tryLock rd wr l = Some l'" for l hs rd wr l'
    using that by (rule tryLock_rep)
  show "\<exists>h\<in>set hs. \<not> compatible (rd, wr) h"
    if "rep l hs" "rd AND FTAll = rd" "wr AND FTAll = wr" "tryLock rd wr l = None" for l hs rd wr
    using that(1,4,2,3) by (rule tryLock_refused)
  show "rep (unlock rd wr l) (remove1 (rd, wr) hs)" if "rep l hs" "(rd, wr) \<in> set hs" for l hs rd wr
    using that by (rule unlock_rep)
qed

section \<open>The index keeps its locks\<close>

text \<open>
  The holders of a sector's lock are the leases on the sector, and the count of references
  is at least the number of leases and waiting calls, so that an entry in use is not
  dropped.
\<close>

definition on_sector :: "SectorID \<Rightarrow> request list \<Rightarrow> (SectorFileType \<times> SectorFileType) list" where
  "on_sector sector rqs = map snd (filter (\<lambda>rq. fst rq = sector) rqs)"

definition locks_ok :: "lock_state \<Rightarrow> bool" where
  "locks_ok s \<longleftrightarrow>
     (\<forall>sector. case ls_locks s sector of
        None \<Rightarrow> on_sector sector (ls_leases s) = [] \<and> on_sector sector (ls_waiting s) = []
      | Some l \<Rightarrow> rep l (on_sector sector (ls_leases s)) \<and>
          length (on_sector sector (ls_leases s)) + length (on_sector sector (ls_waiting s)) \<le> sl_refs l)"

lemma on_sector_Cons:
  "on_sector sector ((sec, rd, wr) # rqs) = (if sec = sector then (rd, wr) # on_sector sector rqs else on_sector sector rqs)"
  by (simp add: on_sector_def)

lemma on_sector_remove1:
  "on_sector sector (remove1 (sec, rd, wr) rqs) =
   (if sec = sector then remove1 (rd, wr) (on_sector sector rqs) else on_sector sector rqs)"
proof (induction rqs)
  case Nil
  show ?case by (simp add: on_sector_def)
next
  case (Cons rq rqs)
  obtain sec' rd' wr' where "rq = (sec', rd', wr')" by (metis prod_cases3)
  then show ?case using Cons by (cases "sec = sector"; cases "sec' = sector") (simp_all add: on_sector_Cons)
qed

lemma on_sector_mem: "(sector, rd, wr) \<in> set rqs \<Longrightarrow> (rd, wr) \<in> set (on_sector sector rqs)"
  by (force simp: on_sector_def)

lemma length_on_sector: "length (on_sector sector rqs) \<le> length rqs"
  by (simp add: on_sector_def)

lemma rep_refs [simp]: "rep (l\<lparr>sl_refs := n\<rparr>) hs = rep l hs"
  by (simp add: rep_def)

lemma locks_okD:
  assumes "locks_ok s" "ls_locks s sector = Some l"
  shows "rep l (on_sector sector (ls_leases s))"
    "length (on_sector sector (ls_leases s)) + length (on_sector sector (ls_waiting s)) \<le> sl_refs l"
  using assms(1) [unfolded locks_ok_def, THEN spec, of sector] assms(2) by simp_all

lemma locks_ok_None:
  assumes "locks_ok s" "ls_locks s sector = None"
  shows "on_sector sector (ls_leases s) = []" "on_sector sector (ls_waiting s) = []"
  using assms(1) [unfolded locks_ok_def, THEN spec, of sector] assms(2) by simp_all

lemma locks_okI:
  assumes "\<And>sector. ls_locks s sector = None \<Longrightarrow> on_sector sector (ls_leases s) = [] \<and> on_sector sector (ls_waiting s) = []"
    "\<And>sector l. ls_locks s sector = Some l \<Longrightarrow> rep l (on_sector sector (ls_leases s)) \<and>
      length (on_sector sector (ls_leases s)) + length (on_sector sector (ls_waiting s)) \<le> sl_refs l"
  shows "locks_ok s"
  unfolding locks_ok_def using assms by (auto split: option.split)

lemma enter_ok:
  assumes "locks_ok s"
  shows "locks_ok (s\<lparr>ls_locks := lock_enter sector (ls_locks s), ls_waiting := (sector, rd, wr) # ls_waiting s\<rparr>)"
proof (rule locks_okI)
  fix sec l
  assume l: "ls_locks (s\<lparr>ls_locks := lock_enter sector (ls_locks s), ls_waiting := (sector, rd, wr) # ls_waiting s\<rparr>) sec = Some l"
  show "rep l (on_sector sec (ls_leases (s\<lparr>ls_locks := lock_enter sector (ls_locks s), ls_waiting := (sector, rd, wr) # ls_waiting s\<rparr>))) \<and>
      length (on_sector sec (ls_leases (s\<lparr>ls_locks := lock_enter sector (ls_locks s), ls_waiting := (sector, rd, wr) # ls_waiting s\<rparr>))) +
      length (on_sector sec (ls_waiting (s\<lparr>ls_locks := lock_enter sector (ls_locks s), ls_waiting := (sector, rd, wr) # ls_waiting s\<rparr>))) \<le> sl_refs l"
    using l locks_okD [OF assms, of sec] locks_ok_None [OF assms, of sec] sl.fresh_held
    by (cases "ls_locks s sec") (auto simp: lock_enter_def Let_def on_sector_Cons split: if_splits)
qed (use locks_ok_None [OF assms] in \<open>auto simp: lock_enter_def Let_def on_sector_Cons split: if_splits\<close>)

lemma grant_ok:
  assumes ok: "locks_ok s" and w: "(sector, rd, wr) \<in> set (ls_waiting s)"
    and l: "ls_locks s sector = Some l" "tryLock rd wr l = Some l'"
    and len: "length (ls_leases s) < 2 ^ 64 - 1"
  shows "locks_ok \<lparr>ls_locks = (ls_locks s)(sector \<mapsto> l'), ls_waiting = remove1 (sector, rd, wr) (ls_waiting s),
    ls_leases = (sector, rd, wr) # ls_leases s\<rparr>"
proof (rule locks_okI, goal_cases)
  case (1 sec)
  then show ?case using locks_ok_None [OF ok, of sec] by (auto simp: on_sector_Cons on_sector_remove1 split: if_splits)
next
  case (2 sec k)
  have "length (on_sector sector (ls_leases s)) < 2 ^ 64 - 1" using length_on_sector len by (rule le_less_trans)
  note rep = sl.acquire_held [OF locks_okD(1) [OF ok l(1)] this l(2)]
  have "sl_refs l' = sl_refs l" using l(2) by (auto simp: tryLock_def split: if_splits)
  moreover have "length (remove1 (rd, wr) (on_sector sector (ls_waiting s))) + 1 = length (on_sector sector (ls_waiting s))"
    using length_remove1_Suc [OF on_sector_mem [OF w]] by simp
  ultimately show ?case
    using 2 rep locks_okD [OF ok l(1)] locks_okD [OF ok, of sec]
    by (auto simp: on_sector_Cons on_sector_remove1 split: if_splits)
qed

lemma leave_ok:
  assumes "locks_ok s"
  shows "locks_ok (s\<lparr>ls_waiting := remove1 rq (ls_waiting s)\<rparr>)"
proof -
  obtain sector rd wr where rq: "rq = (sector, rd, wr)" by (metis prod_cases3)
  have le: "length (on_sector sec (remove1 rq (ls_waiting s))) \<le> length (on_sector sec (ls_waiting s))" for sec
    by (auto simp: rq on_sector_remove1 length_remove1)
  show ?thesis
  proof (rule locks_okI, goal_cases)
    case (1 sec)
    then show ?case using locks_ok_None [OF assms, of sec] le [of sec] by auto
  next
    case (2 sec l)
    then show ?case using locks_okD [OF assms, of sec l] le [of sec] by auto
  qed
qed

lemma release_ok:
  assumes ok: "locks_ok s" and rq: "rq \<in> set (ls_leases s)"
  shows "locks_ok (s\<lparr>ls_locks := lock_release rq (ls_locks s), ls_leases := remove1 rq (ls_leases s)\<rparr>)"
proof -
  obtain sector rd wr where [simp]: "rq = (sector, rd, wr)" by (metis prod_cases3)
  have mem: "(rd, wr) \<in> set (on_sector sector (ls_leases s))" using on_sector_mem rq by simp
  then obtain l where l: "ls_locks s sector = Some l" using locks_ok_None(1) [OF ok] by fastforce
  note held = locks_okD [OF ok l]
  have rep: "rep (unlock rd wr l) (remove1 (rd, wr) (on_sector sector (ls_leases s)))"
    using held(1) mem by (rule sl.release_held)
  have len: "length (remove1 (rd, wr) (on_sector sector (ls_leases s))) + 1 = length (on_sector sector (ls_leases s))"
    using length_remove1_Suc [OF mem] by simp
  have m: "lock_release (sector, rd, wr) (ls_locks s) = (ls_locks s)(sector :=
      (if sl_refs l - 1 = 0 then None else Some ((unlock rd wr l)\<lparr>sl_refs := sl_refs l - 1\<rparr>)))"
    by (simp add: lock_release_def l Let_def)
  show ?thesis
  proof (rule locks_okI, goal_cases)
    case (1 sec)
    have last: "remove1 (rd, wr) (on_sector sector (ls_leases s)) = [] \<and> on_sector sector (ls_waiting s) = []"
      if "sl_refs l - 1 = 0"
    proof -
      have "length (remove1 (rd, wr) (on_sector sector (ls_leases s))) + length (on_sector sector (ls_waiting s)) = 0"
        using that held(2) len by linarith
      then show ?thesis by simp
    qed
    show ?case
    proof (cases "sec = sector")
      case True
      then show ?thesis using 1 last by (auto simp: m on_sector_remove1 split: if_splits)
    next
      case False
      then show ?thesis using 1 locks_ok_None [OF ok, of sec] by (simp add: m on_sector_remove1)
    qed
  next
    case (2 sec k)
    show ?case
    proof (cases "sec = sector")
      case True
      then have "k = (unlock rd wr l)\<lparr>sl_refs := sl_refs l - 1\<rparr>" using 2 by (auto simp: m split: if_splits)
      then show ?thesis using True rep held(2) len by (simp add: on_sector_remove1)
    next
      case False
      then show ?thesis using 2 locks_okD [OF ok, of sec k] by (simp add: m on_sector_remove1)
    qed
  qed
qed

lemma lock_reachable_ok: "lock_reachable s \<Longrightarrow> locks_ok s"
proof (induction rule: lock_reachable.induct)
  case 1
  show ?case by (simp add: locks_ok_def init_locks_def on_sector_def)
next
  case (2 s s')
  from 2(2,3) show ?case by cases (auto intro: enter_ok grant_ok leave_ok release_ok)
qed

section \<open>Calls that do not wait\<close>

text \<open>
  \<open>StorageTryLock\<close> is a call that enters and at once is granted the lock or leaves.
\<close>

lemma StorageTryLock_Proceed:
  "StorageTryLock (sector, rd, wr) m = (Proceed, ok, m') \<longleftrightarrow>
   check_request rd wr = Proceed \<and>
   (case tryLock rd wr (the (lock_enter sector m sector)) of
      None \<Rightarrow> \<not> ok \<and> m' = lock_enter sector m
    | Some l \<Rightarrow> ok \<and> m' = (lock_enter sector m)(sector \<mapsto> l))"
proof -
  have "lock_enter sector m sector \<noteq> None" by (simp add: lock_enter_def Let_def)
  then show ?thesis
    by (auto simp: StorageTryLock_def Let_def split: lock_request.splits option.splits)
qed

lemma StorageTryLock_reachable:
  assumes s: "lock_reachable s" and call: "StorageTryLock rq (ls_locks s) = (Proceed, ok, m)"
    and len: "length (ls_leases s) < 2 ^ 64 - 1"
  shows "lock_reachable (s\<lparr>ls_locks := m, ls_leases := (if ok then rq # ls_leases s else ls_leases s)\<rparr>)"
proof -
  obtain sector rd wr where rq: "rq = (sector, rd, wr)" by (metis prod_cases3)
  define e where "e = s\<lparr>ls_locks := lock_enter sector (ls_locks s), ls_waiting := (sector, rd, wr) # ls_waiting s\<rparr>"
  have call': "check_request rd wr = Proceed" using call by (simp add: rq StorageTryLock_Proceed)
  have e: "lock_reachable e" unfolding e_def by (rule lock_reachable.intros(2) [OF s lstep.enter [OF call']])
  obtain l where l: "lock_enter sector (ls_locks s) sector = Some l" by (simp add: lock_enter_def Let_def)
  show ?thesis
  proof (cases "tryLock rd wr l")
    case None
    then have "\<not> ok" "m = lock_enter sector (ls_locks s)" using call l by (simp_all add: rq StorageTryLock_Proceed)
    then show ?thesis using lock_reachable.intros(2) [OF e lstep.leave [of rq]] by (simp add: e_def rq)
  next
    case (Some l')
    then have "ok" "m = (lock_enter sector (ls_locks s))(sector \<mapsto> l')"
      using call l by (simp_all add: rq StorageTryLock_Proceed)
    moreover
    have "lstep e \<lparr>ls_locks = (ls_locks e)(sector \<mapsto> l'), ls_waiting = remove1 (sector, rd, wr) (ls_waiting e),
        ls_leases = (sector, rd, wr) # ls_leases e\<rparr>"
      by (rule lstep.grant) (use l Some len in \<open>simp_all add: e_def\<close>)
    from lock_reachable.intros(2) [OF e this]
    have "lock_reachable (s\<lparr>ls_locks := (lock_enter sector (ls_locks s))(sector \<mapsto> l'), ls_leases := (sector, rd, wr) # ls_leases s\<rparr>)"
      by (cases s) (simp add: e_def)
    ultimately show ?thesis by (simp add: rq)
  qed
qed

lemma lock_enter_rep:
  assumes "locks_ok s" "lock_enter sector (ls_locks s) sector = Some l"
  shows "rep l (on_sector sector (ls_leases s))"
proof (cases "ls_locks s sector")
  case None
  then show ?thesis using assms locks_ok_None(1) [OF assms(1) None] sl.fresh_held
    by (auto simp: lock_enter_def Let_def)
next
  case (Some k)
  then show ?thesis using assms(2) locks_okD(1) [OF assms(1) Some] by (auto simp: lock_enter_def Let_def)
qed

lemma check_request_known:
  assumes "rd AND FTAll = rd" "wr AND FTAll = wr" "rd OR wr \<noteq> 0"
  shows "check_request rd wr = Proceed"
proof -
  have small: "\<not> bit (rd OR wr) n" if "n \<ge> 7" for n
  proof -
    have "\<not> bit (rd AND FTAll OR wr AND FTAll) n" using that FTAll_bits by (simp add: bit_or_iff bit_and_iff)
    then show ?thesis using assms(1,2) by simp
  qed
  have "take_bit 7 (rd OR wr) = rd OR wr"
  proof (rule bit_eqI)
    fix n
    show "bit (take_bit 7 (rd OR wr)) n \<longleftrightarrow> bit (rd OR wr) n"
      using small [of n] by (simp only: bit_take_bit_iff) linarith
  qed
  then have "uint (rd OR wr) < 2 ^ 7" by (metis take_bit_int_less_exp unsigned_take_bit_eq)
  moreover from this have "sint (rd OR wr) = uint (rd OR wr)"
    unfolding sint_uint by (intro signed_take_bit_int_eq_self) (simp_all add: order.trans [of _ 0])
  ultimately show ?thesis using assms(3) by (simp add: check_request_def FileTypes_count_def)
qed

section \<open>References that are not returned\<close>

text \<open>
  A sector has a spare reference when its count exceeds the number of leases and waiting
  calls. No step takes a spare reference away, and the entry is dropped at count zero only.
\<close>

definition spare_ref :: "SectorID \<Rightarrow> lock_state \<Rightarrow> bool" where
  "spare_ref sector s \<longleftrightarrow>
     (case ls_locks s sector of
        None \<Rightarrow> False
      | Some l \<Rightarrow> length (on_sector sector (ls_leases s)) + length (on_sector sector (ls_waiting s)) < sl_refs l)"

lemma tryLock_refs: "tryLock rd wr l = Some l' \<Longrightarrow> sl_refs l' = sl_refs l"
  by (auto simp: tryLock_def split: if_splits)

lemma spare_ref_step:
  assumes "lstep s s'" "spare_ref sector s"
  shows "spare_ref sector s'"
  using assms(1)
proof cases
  case (enter rd wr sec)
  then show ?thesis using assms(2)
    by (auto simp: spare_ref_def lock_enter_def Let_def on_sector_Cons split: option.splits)
next
  case (grant sec rd wr l l')
  then show ?thesis
    using assms(2) tryLock_refs [OF grant(4)] length_remove1_Suc [OF on_sector_mem [OF grant(2)]]
    by (cases "sec = sector") (auto simp: spare_ref_def on_sector_Cons on_sector_remove1 split: option.splits)
next
  case (leave rq)
  obtain sec rd wr where "rq = (sec, rd, wr)" by (metis prod_cases3)
  then show ?thesis using assms(2) leave
    by (cases "sec = sector") (auto simp: spare_ref_def on_sector_remove1 length_remove1 split: option.splits if_splits)
next
  case (release rq)
  obtain sec rd wr where rq: "rq = (sec, rd, wr)" by (metis prod_cases3)
  have mem: "(rd, wr) \<in> set (on_sector sec (ls_leases s))" using on_sector_mem release(2) rq by simp
  show ?thesis
  proof (cases "sec = sector")
    case True
    then show ?thesis using assms(2) release rq length_remove1_Suc [OF mem]
      by (auto simp: spare_ref_def lock_release_def Let_def on_sector_remove1 split: option.splits)
  next
    case False
    then show ?thesis using assms(2) release rq
      by (auto simp: spare_ref_def lock_release_def Let_def on_sector_remove1 split: option.splits)
  qed
qed

lemma spare_ref_steps: "lstep\<^sup>*\<^sup>* s s' \<Longrightarrow> spare_ref sector s \<Longrightarrow> spare_ref sector s'"
  by (induction rule: rtranclp_induct) (auto intro: spare_ref_step)

lemma refused_spare:
  assumes "locks_ok s" "StorageTryLock (sector, rd, wr) (ls_locks s) = (Proceed, False, m)"
  shows "spare_ref sector (s\<lparr>ls_locks := m\<rparr>)"
proof -
  have "m = lock_enter sector (ls_locks s)"
    using assms(2) by (auto simp: StorageTryLock_Proceed split: option.splits)
  then show ?thesis
    using locks_okD(2) [OF assms(1), of sector] locks_ok_None [OF assms(1), of sector]
    by (cases "ls_locks s sector") (auto simp: spare_ref_def lock_enter_def Let_def)
qed

section \<open>Properties\<close>

definition ex_sector :: SectorID where
  "ex_sector = \<lparr>sid_Miner = 1000, sid_Number = 7\<rparr>"

text \<open>A sector read by one lease, and read and in another file type written by a second one.\<close>

definition ex_reader :: request where
  "ex_reader = (ex_sector, FTSealed OR FTCache, 0)"

definition ex_writer :: request where
  "ex_writer = (ex_sector, FTCache, FTKey)"

definition ex_locks1 :: lock_state where
  "ex_locks1 = \<lparr>ls_locks = snd (snd (StorageTryLock ex_reader Map.empty)), ls_waiting = [], ls_leases = [ex_reader]\<rparr>"

definition ex_locks2 :: lock_state where
  "ex_locks2 = \<lparr>ls_locks = snd (snd (StorageTryLock ex_writer (ls_locks ex_locks1))), ls_waiting = [],
     ls_leases = [ex_writer, ex_reader]\<rparr>"

lemma ex_locks1_reachable: "lock_reachable ex_locks1"
proof -
  have "fst (StorageTryLock ex_reader Map.empty) = Proceed" "fst (snd (StorageTryLock ex_reader Map.empty))"
    by code_simp+
  then have "StorageTryLock ex_reader (ls_locks init_locks) = (Proceed, True, snd (snd (StorageTryLock ex_reader Map.empty)))"
    by (simp add: init_locks_def prod_eq_iff)
  from StorageTryLock_reachable [OF lock_reachable.intros(1) this] show ?thesis
    by (simp add: init_locks_def ex_locks1_def)
qed

lemma ex_locks2_reachable: "lock_reachable ex_locks2"
proof -
  have "fst (StorageTryLock ex_writer (ls_locks ex_locks1)) = Proceed" "fst (snd (StorageTryLock ex_writer (ls_locks ex_locks1)))"
    by code_simp+
  then have "StorageTryLock ex_writer (ls_locks ex_locks1) =
      (Proceed, True, snd (snd (StorageTryLock ex_writer (ls_locks ex_locks1))))"
    by (simp add: prod_eq_iff)
  from StorageTryLock_reachable [OF ex_locks1_reachable this] show ?thesis
    by (simp add: ex_locks1_def ex_locks2_def)
qed

text \<open>
  C18: However calls and releases interleave, the leases given out on one sector are compatible
  with each other: no file type has a writer beside another writer or a reader.
\<close>

theorem leases_exclusive:
  assumes "lock_reachable s"
  shows "sorted_wrt compatible (on_sector sector (ls_leases s))"
proof (cases "ls_locks s sector")
  case None
  then show ?thesis using locks_ok_None(1) [OF lock_reachable_ok [OF assms]] by simp
next
  case (Some l)
  then show ?thesis by (rule sl.held_exclusive [OF locks_okD(1) [OF lock_reachable_ok [OF assms]]])
qed

theorem leases_exclusive_witness:
  "length (on_sector ex_sector (ls_leases ex_locks2)) = 2 \<and>
   sorted_wrt compatible (on_sector ex_sector (ls_leases ex_locks2))"
proof
  show "length (on_sector ex_sector (ls_leases ex_locks2)) = 2" by code_simp
qed (rule leases_exclusive [OF ex_locks2_reachable])

text \<open>
  A call that does not wait is granted the lock exactly when its request is compatible
  with every lease on the sector: it is never refused without a holder in its way.
\<close>

theorem StorageTryLock_granted_iff:
  assumes "lock_reachable s" "length (ls_leases s) < 2 ^ 64 - 1"
    and "rd AND FTAll = rd" "wr AND FTAll = wr" "rd OR wr \<noteq> 0"
  shows "\<exists>ok m. StorageTryLock (sector, rd, wr) (ls_locks s) = (Proceed, ok, m) \<and>
    (ok \<longleftrightarrow> (\<forall>h\<in>set (on_sector sector (ls_leases s)). compatible (rd, wr) h))"
proof -
  obtain l where l: "lock_enter sector (ls_locks s) sector = Some l" by (simp add: lock_enter_def Let_def)
  have len: "length (on_sector sector (ls_leases s)) < 2 ^ 64 - 1"
    using length_on_sector assms(2) by (rule le_less_trans)
  have check: "check_request rd wr = Proceed"
    using assms(3-5) by (rule check_request_known)
  show ?thesis
    using sl.acquire_iff [OF lock_enter_rep [OF lock_reachable_ok [OF assms(1)] l] len assms(3,4)] check l
    by (cases "tryLock rd wr l") (auto simp: StorageTryLock_Proceed)
qed

theorem StorageTryLock_granted_iff_witness:
  "\<exists>ok m. StorageTryLock (ex_sector, FTUnsealed, FTSealed) (ls_locks ex_locks2) = (Proceed, ok, m) \<and> \<not> ok"
proof -
  have "\<exists>h\<in>set (on_sector ex_sector (ls_leases ex_locks2)). \<not> compatible (FTUnsealed, FTSealed) h" by code_simp
  moreover have "FTUnsealed AND FTAll = FTUnsealed" "FTSealed AND FTAll = FTSealed" "FTUnsealed OR FTSealed \<noteq> 0"
    by code_simp+
  moreover have "length (ls_leases ex_locks2) < 2 ^ 64 - 1" by (simp add: ex_locks2_def)
  ultimately show ?thesis
    using StorageTryLock_granted_iff [OF ex_locks2_reachable, of FTUnsealed FTSealed ex_sector] by blast
qed

text \<open>
  A refused call leaves a reference behind that nothing takes back: whatever happens
  afterwards, the entry of the sector is never dropped from the map.
\<close>

theorem refused_call_leaks_entry:
  assumes "lock_reachable s" "StorageTryLock (sector, rd, wr) (ls_locks s) = (Proceed, False, m)"
    and "lstep\<^sup>*\<^sup>* (s\<lparr>ls_locks := m\<rparr>) s'"
  shows "ls_locks s' sector \<noteq> None"
  using spare_ref_steps [OF assms(3) refused_spare [OF lock_reachable_ok [OF assms(1)] assms(2)]]
  by (auto simp: spare_ref_def split: option.splits)

theorem refused_call_leaks_entry_witness:
  "\<exists>m s'. StorageTryLock (ex_sector, 0, FTSealed) (ls_locks ex_locks1) = (Proceed, False, m) \<and>
     lstep\<^sup>*\<^sup>* (ex_locks1\<lparr>ls_locks := m\<rparr>) s' \<and> ls_waiting s' = [] \<and> ls_leases s' = [] \<and> ls_locks s' ex_sector \<noteq> None"
proof -
  define m where "m = snd (snd (StorageTryLock (ex_sector, 0, FTSealed) (ls_locks ex_locks1)))"
  have "fst (StorageTryLock (ex_sector, 0, FTSealed) (ls_locks ex_locks1)) = Proceed"
    "\<not> fst (snd (StorageTryLock (ex_sector, 0, FTSealed) (ls_locks ex_locks1)))"
    by code_simp+
  then have call: "StorageTryLock (ex_sector, 0, FTSealed) (ls_locks ex_locks1) = (Proceed, False, m)"
    by (simp add: m_def prod_eq_iff)
  define s' where "s' = ex_locks1\<lparr>ls_locks := lock_release ex_reader m, ls_leases := []\<rparr>"
  have "lstep (ex_locks1\<lparr>ls_locks := m\<rparr>) s'"
    using lstep.release [of ex_reader "ex_locks1\<lparr>ls_locks := m\<rparr>"] by (simp add: ex_locks1_def s'_def)
  then have steps: "lstep\<^sup>*\<^sup>* (ex_locks1\<lparr>ls_locks := m\<rparr>) s'" by blast
  have "ls_waiting s' = []" "ls_leases s' = []" by (simp_all add: s'_def ex_locks1_def)
  with call steps refused_call_leaks_entry [OF ex_locks1_reachable call steps] show ?thesis by blast
qed

end
