(* ===== verification/MessageSend.thy ===== *)
theory MessageSend
  imports HarmonyDB
begin

text \<open>
  Sending of chain messages (\<open>tasks/message/sender.go\<close>, \<open>tasks/message/sender_eth.go\<close>).

  A caller stores an unsigned message with a send task; the task takes the lock of the
  sending key, gives the message a nonce, signs it, stores the signed message, pushes it to
  the node and stores the result. Tasks of many machines interleave at every database
  statement and every call of the node, and a process may die between any two of them, so
  \<open>Do\<close> is modelled as the sequence of its atomic steps. That one task is worked on by one
  execution at a time is what the task engine guarantees.

  The node (\<open>MpoolGetNonce\<close>, \<open>MpoolPush\<close>) and the signer are parameters: the answers of the
  node are part of the actions, and the signer is a function.
\<close>

section \<open>The tables\<close>

record send_row =
  sr_task :: TaskID
  sr_from :: string
  sr_unsigned :: string
  sr_nonce :: "uint64 option"
  sr_signed :: "string option"
  sr_success :: "bool option"
  sr_error :: "string option"

text \<open>
  Where an execution of \<open>Do\<close> stands: it has read its row; it has the lock; the signed
  message is stored; the node has answered; the result is stored; an error is returned
  after the lock was taken. The first two keep the nonce and signature that were read.
\<close>

datatype do_state =
    DoRead "(uint64 \<times> string) option"
  | DoLocked "(uint64 \<times> string) option"
  | DoSigned uint64 string
  | DoPushed uint64 "string option"
  | DoRecorded
  | DoFailed

record send_state =
  m_rows :: "send_row list"
  m_locks :: "string \<rightharpoonup> TaskID"
  m_tasks :: "TaskID list"
  m_running :: "TaskID \<rightharpoonup> do_state"
  m_accepted :: "(string \<times> uint64 \<times> TaskID) list"

definition find_row :: "TaskID \<Rightarrow> send_state \<Rightarrow> send_row option" where
  "find_row t s = find (\<lambda>r. sr_task r = t) (m_rows s)"

section \<open>The statements\<close>

text \<open>
  The upsert of the lock row succeeds when the key is not locked or is locked by the task.
\<close>

definition acquire_lock :: "string \<Rightarrow> TaskID \<Rightarrow> (string \<rightharpoonup> TaskID) \<Rightarrow> (string \<rightharpoonup> TaskID) option" where
  "acquire_lock from t locks =
     (case locks from of
        None \<Rightarrow> Some (locks(from \<mapsto> t))
      | Some t' \<Rightarrow> if t' = t then Some locks else None)"

definition release_lock :: "string \<Rightarrow> TaskID \<Rightarrow> (string \<rightharpoonup> TaskID) \<Rightarrow> (string \<rightharpoonup> TaskID)" where
  "release_lock from t locks = (if locks from = Some t then locks(from := None) else locks)"

text \<open>\<open>SELECT MAX(nonce) ... WHERE from_key = $1 AND send_success = true\<close>\<close>

definition db_nonce :: "string \<Rightarrow> send_row list \<Rightarrow> uint64 option" where
  "db_nonce from rows =
     (case [n. r \<leftarrow> rows, sr_from r = from \<and> sr_success r = Some True, n \<leftarrow> (case sr_nonce r of None \<Rightarrow> [] | Some n \<Rightarrow> [n])] of
        [] \<Rightarrow> None
      | n # ns \<Rightarrow> Some (fold max ns n))"

definition choose_nonce :: "uint64 \<Rightarrow> uint64 option \<Rightarrow> uint64" where
  "choose_nonce msgNonce dbNonce =
     (case dbNonce of
        None \<Rightarrow> msgNonce
      | Some d \<Rightarrow> if d + 1 > msgNonce then d + 1 else msgNonce)"

text \<open>
  The unique index on sender and nonce of the rows whose result is not a failure makes the
  update that stores a nonce fail when another such row has it.
\<close>

definition nonce_free :: "TaskID \<Rightarrow> string \<Rightarrow> uint64 \<Rightarrow> send_row list \<Rightarrow> bool" where
  "nonce_free t from n rows =
     list_all (\<lambda>r. \<not> (sr_task r \<noteq> t \<and> sr_from r = from \<and> sr_nonce r = Some n \<and> sr_success r \<noteq> Some False)) rows"

definition set_row :: "TaskID \<Rightarrow> (send_row \<Rightarrow> send_row) \<Rightarrow> send_state \<Rightarrow> send_state" where
  "set_row t f s = s\<lparr>m_rows := update_where (\<lambda>r. sr_task r = t) f (m_rows s)\<rparr>"

definition set_running :: "TaskID \<Rightarrow> do_state option \<Rightarrow> send_state \<Rightarrow> send_state" where
  "set_running t d s = s\<lparr>m_running := (m_running s)(t := d)\<rparr>"

section \<open>The steps of a send task\<close>

datatype send_action =
    Add TaskID string string
  | Start TaskID
  | Acquire TaskID
  | Assign TaskID uint64
  | Resume TaskID
  | Fail TaskID
  | Push TaskID "string option"
  | Record TaskID
  | RecordFail TaskID
  | Release TaskID
  | ReleaseFail TaskID
  | Crash TaskID

text \<open>
  \<open>Assign t m\<close>: the node answers \<open>m\<close> to \<open>MpoolGetNonce\<close>; \<open>Fail t\<close>: a call before the
  nonce is stored returns an error. \<open>Push t None\<close>: the node takes the message,
  \<open>Push t (Some e)\<close>: it answers with an error. \<open>Release\<close> is the deferred statement; the
  task is done when the result was stored. \<open>Crash\<close> ends an execution anywhere, also by loss
  of ownership while it waits for the lock.
\<close>

fun send_step :: "(string \<Rightarrow> uint64 \<Rightarrow> string option) \<Rightarrow> send_action \<Rightarrow> send_state \<Rightarrow> send_state option" where
  "send_step sign (Add t from uns) s =
     (if find_row t s \<noteq> None then None
      else Some (s\<lparr>m_rows := m_rows s @
             [\<lparr>sr_task = t, sr_from = from, sr_unsigned = uns, sr_nonce = None, sr_signed = None,
               sr_success = None, sr_error = None\<rparr>],
           m_tasks := t # m_tasks s\<rparr>))"
| "send_step sign (Start t) s =
     (case find_row t s of
        None \<Rightarrow> None
      | Some r \<Rightarrow>
          if t \<in> set (m_tasks s) \<and> m_running s t = None then
            Some (set_running t (Some (DoRead (case sr_nonce r of
              None \<Rightarrow> None | Some n \<Rightarrow> Some (n, case sr_signed r of None \<Rightarrow> [] | Some d \<Rightarrow> d)))) s)
          else None)"
| "send_step sign (Acquire t) s =
     (case (find_row t s, m_running s t) of
        (Some r, Some (DoRead x)) \<Rightarrow>
          (case acquire_lock (sr_from r) t (m_locks s) of
             None \<Rightarrow> None
           | Some locks \<Rightarrow> Some (set_running t (Some (DoLocked x)) (s\<lparr>m_locks := locks\<rparr>)))
      | _ \<Rightarrow> None)"
| "send_step sign (Assign t m) s =
     (case (find_row t s, m_running s t) of
        (Some r, Some (DoLocked None)) \<Rightarrow>
          (let n = choose_nonce m (db_nonce (sr_from r) (m_rows s)) in
           case sign (sr_unsigned r) n of
             None \<Rightarrow> None
           | Some d \<Rightarrow>
               if nonce_free t (sr_from r) n (m_rows s) then
                 Some (set_running t (Some (DoSigned n d))
                   (set_row t (\<lambda>r. r\<lparr>sr_nonce := Some n, sr_signed := Some d\<rparr>) s))
               else None)
      | _ \<Rightarrow> None)"
| "send_step sign (Resume t) s =
     (case m_running s t of
        Some (DoLocked (Some (n, d))) \<Rightarrow> Some (set_running t (Some (DoSigned n d)) s)
      | _ \<Rightarrow> None)"
| "send_step sign (Fail t) s =
     (case m_running s t of
        Some (DoLocked None) \<Rightarrow> Some (set_running t (Some DoFailed) s)
      | _ \<Rightarrow> None)"
| "send_step sign (Push t answer) s =
     (case (find_row t s, m_running s t) of
        (Some r, Some (DoSigned n d)) \<Rightarrow>
          Some (set_running t (Some (DoPushed n answer))
            (if answer = None then s\<lparr>m_accepted := (sr_from r, n, t) # m_accepted s\<rparr> else s))
      | _ \<Rightarrow> None)"
| "send_step sign (Record t) s =
     (case m_running s t of
        Some (DoPushed n answer) \<Rightarrow>
          Some (set_running t (Some DoRecorded)
            (set_row t (\<lambda>r. r\<lparr>sr_success := Some (answer = None),
               sr_error := Some (case answer of None \<Rightarrow> [] | Some e \<Rightarrow> e)\<rparr>) s))
      | _ \<Rightarrow> None)"
| "send_step sign (RecordFail t) s =
     (case m_running s t of
        Some (DoPushed n answer) \<Rightarrow> Some (set_running t (Some DoFailed) s)
      | _ \<Rightarrow> None)"
| "send_step sign (Release t) s =
     (case (find_row t s, m_running s t) of
        (Some r, Some DoRecorded) \<Rightarrow>
          Some (set_running t None (s\<lparr>m_locks := release_lock (sr_from r) t (m_locks s),
                                      m_tasks := removeAll t (m_tasks s)\<rparr>))
      | (Some r, Some DoFailed) \<Rightarrow>
          Some (set_running t None (s\<lparr>m_locks := release_lock (sr_from r) t (m_locks s)\<rparr>))
      | _ \<Rightarrow> None)"
| "send_step sign (ReleaseFail t) s =
     (case m_running s t of
        Some DoRecorded \<Rightarrow> Some (set_running t None s)
      | Some DoFailed \<Rightarrow> Some (set_running t None s)
      | _ \<Rightarrow> None)"
| "send_step sign (Crash t) s = (if m_running s t = None then None else Some (set_running t None s))"

definition init_send :: send_state where
  "init_send = \<lparr>m_rows = [], m_locks = Map.empty, m_tasks = [], m_running = Map.empty, m_accepted = []\<rparr>"

section \<open>What the node promises\<close>

text \<open>
  \<open>MpoolGetNonce\<close> answers with a nonce above those of the messages the node has taken from
  the key.
\<close>

fun mpool_ok :: "send_action \<Rightarrow> send_state \<Rightarrow> bool" where
  "mpool_ok (Assign t m) s =
     (case find_row t s of
        None \<Rightarrow> True
      | Some r \<Rightarrow> list_all (\<lambda>(from, n, t'). from = sr_from r \<longrightarrow> n < m) (m_accepted s))"
| "mpool_ok a s = True"

fun is_RecordFail :: "send_action \<Rightarrow> bool" where
  "is_RecordFail (RecordFail t) = True"
| "is_RecordFail a = False"

fun actor :: "send_action \<Rightarrow> TaskID" where
  "actor (Add t _ _) = t"
| "actor (Start t) = t"
| "actor (Acquire t) = t"
| "actor (Assign t _) = t"
| "actor (Resume t) = t"
| "actor (Fail t) = t"
| "actor (Push t _) = t"
| "actor (Record t) = t"
| "actor (RecordFail t) = t"
| "actor (Release t) = t"
| "actor (ReleaseFail t) = t"
| "actor (Crash t) = t"

text \<open>Runs in which the node keeps its promise; with \<open>lossy\<close>, the result may fail to be stored.\<close>

inductive sends :: "(string \<Rightarrow> uint64 \<Rightarrow> string option) \<Rightarrow> bool \<Rightarrow> send_state \<Rightarrow> bool" for sign lossy where
  "sends sign lossy init_send"
| "sends sign lossy s \<Longrightarrow> mpool_ok a s \<Longrightarrow> lossy \<or> \<not> is_RecordFail a \<Longrightarrow> send_step sign a s = Some s' \<Longrightarrow>
   sends sign lossy s'"

text \<open>A run of given actions, when each of them is allowed.\<close>

fun send_run :: "(string \<Rightarrow> uint64 \<Rightarrow> string option) \<Rightarrow> bool \<Rightarrow> send_action list \<Rightarrow> send_state \<Rightarrow> send_state option" where
  "send_run sign lossy [] s = Some s"
| "send_run sign lossy (a # as) s =
     (if mpool_ok a s \<and> (lossy \<or> \<not> is_RecordFail a)
      then Option.bind (send_step sign a s) (send_run sign lossy as) else None)"

lemma send_run_sends: "sends sign lossy s \<Longrightarrow> send_run sign lossy as s = Some s' \<Longrightarrow> sends sign lossy s'"
  by (induction as arbitrary: s) (auto split: if_splits Option.bind_splits intro: sends.intros(2))

section \<open>Rows and locks\<close>

lemma find_row_task: "find_row t s = Some r \<Longrightarrow> sr_task r = t"
  by (auto simp: find_row_def dest: find_Some_set)

lemma find_update_where:
  assumes "\<And>r. sr_task (f r) = sr_task r"
  shows "find (\<lambda>r. sr_task r = t') (update_where (\<lambda>r. sr_task r = t) f rows) =
    (if t' = t then map_option f (find (\<lambda>r. sr_task r = t') rows) else find (\<lambda>r. sr_task r = t') rows)"
  using assms by (induction rows) (auto simp: update_where_def)

lemma find_row_set_row [simp]:
  assumes "\<And>r. sr_task (f r) = sr_task r"
  shows "find_row t' (set_row t f s) = (if t' = t then map_option f (find_row t' s) else find_row t' s)"
  by (simp add: find_row_def set_row_def find_update_where [OF assms])

lemma set_row_simps [simp]:
  "m_locks (set_row t f s) = m_locks s" "m_tasks (set_row t f s) = m_tasks s"
  "m_running (set_row t f s) = m_running s" "m_accepted (set_row t f s) = m_accepted s"
  by (simp_all add: set_row_def)

lemma set_running_simps [simp]:
  "m_rows (set_running t d s) = m_rows s" "m_locks (set_running t d s) = m_locks s"
  "m_tasks (set_running t d s) = m_tasks s" "m_accepted (set_running t d s) = m_accepted s"
  "m_running (set_running t d s) = (m_running s)(t := d)"
  by (simp_all add: set_running_def)

lemma find_row_cong [simp]:
  "find_row t (set_running t' d s) = find_row t s"
  "find_row t (s\<lparr>m_locks := l\<rparr>) = find_row t s"
  "find_row t (s\<lparr>m_locks := l, m_tasks := ts\<rparr>) = find_row t s"
  "find_row t (s\<lparr>m_accepted := ac\<rparr>) = find_row t s"
  by (simp_all add: find_row_def)

lemma choose_nonce_ge: "m \<le> choose_nonce m d"
  by (auto simp: choose_nonce_def split: option.split)

section \<open>The lock protects the nonce\<close>

text \<open>
  A task that may still push a message with a nonce holds the lock of its key, and no other
  task has had a message with that nonce taken.
\<close>

fun holds_lock :: "do_state \<Rightarrow> bool" where
  "holds_lock (DoRead _) = False"
| "holds_lock _ = True"

fun nonce_ok :: "do_state \<Rightarrow> uint64 option \<Rightarrow> bool" where
  "nonce_ok (DoRead x) n \<longleftrightarrow> map_option fst x = n"
| "nonce_ok (DoLocked x) n \<longleftrightarrow> map_option fst x = n"
| "nonce_ok (DoSigned n' _) n \<longleftrightarrow> n = Some n'"
| "nonce_ok (DoPushed n' _) n \<longleftrightarrow> n = Some n'"
| "nonce_ok DoRecorded n \<longleftrightarrow> True"
| "nonce_ok DoFailed n \<longleftrightarrow> n = None"

definition row_ok :: "send_state \<Rightarrow> TaskID \<Rightarrow> bool" where
  "row_ok s t \<longleftrightarrow>
     (case find_row t s of
        None \<Rightarrow> m_running s t = None \<and> t \<notin> set (m_tasks s) \<and> (\<forall>k. m_locks s k \<noteq> Some t)
      | Some r \<Rightarrow>
          (case m_running s t of
             None \<Rightarrow> True
           | Some d \<Rightarrow> t \<in> set (m_tasks s) \<and> nonce_ok d (sr_nonce r) \<and>
               (holds_lock d \<longrightarrow> m_locks s (sr_from r) = Some t)) \<and>
          (t \<in> set (m_tasks s) \<and> sr_nonce r \<noteq> None \<longrightarrow> m_locks s (sr_from r) = Some t))"

definition accepted_ok :: "send_state \<Rightarrow> bool" where
  "accepted_ok s \<longleftrightarrow>
     (\<forall>f n t t'. (f, n, t) \<in> set (m_accepted s) \<and> (f, n, t') \<in> set (m_accepted s) \<longrightarrow> t = t') \<and>
     (\<forall>t r n t'. find_row t s = Some r \<and> t \<in> set (m_tasks s) \<and> sr_nonce r = Some n \<and>
        (sr_from r, n, t') \<in> set (m_accepted s) \<longrightarrow> t' = t)"

definition sends_ok :: "send_state \<Rightarrow> bool" where
  "sends_ok s \<longleftrightarrow> (\<forall>t. row_ok s t) \<and> accepted_ok s"

lemma row_okD:
  assumes "row_ok s t" "find_row t s = Some r"
  shows "m_running s t = Some d \<Longrightarrow> t \<in> set (m_tasks s)"
    "m_running s t = Some d \<Longrightarrow> holds_lock d \<Longrightarrow> m_locks s (sr_from r) = Some t"
    "t \<in> set (m_tasks s) \<Longrightarrow> sr_nonce r \<noteq> None \<Longrightarrow> m_locks s (sr_from r) = Some t"
  using assms by (auto simp: row_ok_def)

lemma running_row: "row_ok s t \<Longrightarrow> m_running s t = Some d \<Longrightarrow> \<exists>r. find_row t s = Some r"
  by (auto simp: row_ok_def split: option.splits)

text \<open>A step of one task leaves the rows and the executions of the others alone.\<close>

lemma row_ok_other:
  assumes "row_ok s t'" "find_row t' s' = find_row t' s" "m_running s' t' = m_running s t'"
    and "t' \<in> set (m_tasks s') \<longleftrightarrow> t' \<in> set (m_tasks s)"
    and "\<And>k. m_locks s' k = Some t' \<longleftrightarrow> m_locks s k = Some t'"
  shows "row_ok s' t'"
  using assms by (cases "find_row t' s"; cases "m_running s t'") (simp_all add: row_ok_def)

lemma acquire_lock_other:
  "acquire_lock from t locks = Some locks' \<Longrightarrow> t' \<noteq> t \<Longrightarrow> locks' k = Some t' \<longleftrightarrow> locks k = Some t'"
  by (auto simp: acquire_lock_def split: option.splits if_splits)

lemma acquire_lock_own: "acquire_lock from t locks = Some locks' \<Longrightarrow> locks' from = Some t"
  by (auto simp: acquire_lock_def split: option.splits if_splits)

lemma acquire_lock_mono: "acquire_lock from t locks = Some locks' \<Longrightarrow> locks k = Some t' \<Longrightarrow> locks' k = Some t'"
  by (auto simp: acquire_lock_def split: option.splits if_splits)

lemma release_lock_other: "t' \<noteq> t \<Longrightarrow> release_lock from t locks k = Some t' \<longleftrightarrow> locks k = Some t'"
  by (auto simp: release_lock_def)

lemmas step_splits = option.splits do_state.splits prod.splits if_splits

lemma find_row_Add:
  "find_row t (s\<lparr>m_rows := m_rows s @ [r], m_tasks := ts\<rparr>) =
   (case find_row t s of None \<Rightarrow> if sr_task r = t then Some r else None | Some r' \<Rightarrow> Some r')"
proof -
  have "find P (xs @ [r]) = (case find P xs of None \<Rightarrow> if P r then Some r else None | Some r' \<Rightarrow> Some r')" for P xs
    by (induction xs) auto
  then show ?thesis by (simp add: find_row_def)
qed

lemma step_other:
  assumes "send_step sign a s = Some s'" "row_ok s t" "t \<noteq> actor a"
  shows "row_ok s' t"
proof (rule row_ok_other [OF assms(2)])
  show "find_row t s' = find_row t s"
    using assms(1,3) by (cases a) (auto simp: Let_def find_row_Add split: step_splits)
  show "m_running s' t = m_running s t"
    using assms(1,3) by (cases a) (auto simp: Let_def split: step_splits)
  show "t \<in> set (m_tasks s') \<longleftrightarrow> t \<in> set (m_tasks s)"
    using assms(1,3) by (cases a) (auto simp: Let_def split: step_splits)
  show "m_locks s' k = Some t \<longleftrightarrow> m_locks s k = Some t" for k
    using assms(1,3) by (cases a) (auto simp: Let_def acquire_lock_other release_lock_other split: step_splits)
qed

lemma row_ok_idle:
  assumes "row_ok s t" "m_running s t = Some d"
  shows "row_ok (set_running t None s) t"
  using assms by (auto simp: row_ok_def split: option.splits)

lemma row_ok_running:
  assumes "row_ok s t" "m_running s t = Some d" "holds_lock d"
    and "\<And>n. nonce_ok d n \<Longrightarrow> nonce_ok d' n"
  shows "row_ok (set_running t (Some d') s) t"
  using assms by (auto simp: row_ok_def split: option.splits)

lemma row_ok_release:
  assumes "row_ok s t" "find_row t s = Some r" "m_running s t = Some DoFailed"
  shows "row_ok (set_running t None (s\<lparr>m_locks := release_lock (sr_from r) t (m_locks s)\<rparr>)) t"
  using assms by (simp add: row_ok_def)

lemma row_ok_set_row:
  assumes "row_ok s t" "m_running s t = Some d" "holds_lock d" "\<And>r. sr_task (f r) = sr_task r" "\<And>r. sr_from (f r) = sr_from r"
    and "\<And>r. nonce_ok d (sr_nonce r) \<Longrightarrow> nonce_ok d' (sr_nonce (f r))"
  shows "row_ok (set_running t (Some d') (set_row t f s)) t"
  using assms by (auto simp: row_ok_def split: option.splits)

lemma step_own:
  assumes step: "send_step sign a s = Some s'" and ok: "row_ok s (actor a)" and "\<not> is_RecordFail a"
  shows "row_ok s' (actor a)"
proof (cases a)
  case (Add t k uns)
  then show ?thesis using step ok by (auto simp: row_ok_def find_row_Add split: if_splits option.splits)
next
  case (Start t)
  then show ?thesis using step ok by (auto simp: row_ok_def split: if_splits option.splits)
next
  case (Acquire t)
  then obtain r x locks where "find_row t s = Some r" "m_running s t = Some (DoRead x)"
    and l: "acquire_lock (sr_from r) t (m_locks s) = Some locks"
    and "s' = set_running t (Some (DoLocked x)) (s\<lparr>m_locks := locks\<rparr>)"
    using step by (auto split: option.splits do_state.splits)
  then show ?thesis using ok acquire_lock_own [OF l] Acquire by (simp add: row_ok_def)
next
  case (Assign t m)
  then obtain n d where "m_running s t = Some (DoLocked None)"
    "s' = set_running t (Some (DoSigned n d)) (set_row t (\<lambda>r. r\<lparr>sr_nonce := Some n, sr_signed := Some d\<rparr>) s)"
    using step by (auto simp: Let_def split: option.splits do_state.splits if_splits)
  then show ?thesis using ok Assign by (auto intro!: row_ok_set_row)
next
  case (Record t)
  then obtain n answer where "m_running s t = Some (DoPushed n answer)"
    "s' = set_running t (Some DoRecorded) (set_row t (\<lambda>r. r\<lparr>sr_success := Some (answer = None),
       sr_error := Some (case answer of None \<Rightarrow> [] | Some e \<Rightarrow> e)\<rparr>) s)"
    using step by (auto split: option.splits do_state.splits)
  then show ?thesis using ok Record by (auto intro!: row_ok_set_row)
next
  case (Release t)
  then show ?thesis using step ok row_ok_release [of s t] by (auto simp: row_ok_def split: option.splits do_state.splits)
next
  case (Push t answer)
  then obtain r n d where "find_row t s = Some r" "m_running s t = Some (DoSigned n d)"
    "s' = set_running t (Some (DoPushed n answer)) (if answer = None then s\<lparr>m_accepted := (sr_from r, n, t) # m_accepted s\<rparr> else s)"
    using step by (auto split: option.splits do_state.splits)
  then show ?thesis using ok Push by (auto simp: row_ok_def split: option.splits)
next
  case (Resume t)
  then show ?thesis using step ok by (auto split: option.splits do_state.splits prod.splits intro!: row_ok_running)
next
  case (Fail t)
  then show ?thesis using step ok by (auto split: option.splits do_state.splits intro!: row_ok_running)
next
  case (ReleaseFail t)
  then show ?thesis using step ok by (auto split: option.splits do_state.splits intro: row_ok_idle)
next
  case (Crash t)
  then show ?thesis using step ok by (auto split: if_splits intro: row_ok_idle)
qed (use assms(3) in simp)

lemma step_accepted:
  assumes step: "send_step sign a s = Some s'" and ok: "sends_ok s" and mp: "mpool_ok a s"
  shows "accepted_ok s'"
proof -
  have row: "row_ok s t" for t using ok by (simp add: sends_ok_def)
  have uniq: "t = t'" if "(f, n, t) \<in> set (m_accepted s)" "(f, n, t') \<in> set (m_accepted s)" for f n t t'
    using ok that by (auto simp: sends_ok_def accepted_ok_def)
  have own: "t' = t" if "find_row t s = Some r" "t \<in> set (m_tasks s)" "sr_nonce r = Some n"
    "(sr_from r, n, t') \<in> set (m_accepted s)" for t r n t'
    using ok that by (auto simp: sends_ok_def accepted_ok_def)
  show ?thesis
  proof (cases a)
    case (Assign t m)
    then obtain r n d where r: "find_row t s = Some r" and n: "n = choose_nonce m (db_nonce (sr_from r) (m_rows s))"
      and s': "s' = set_running t (Some (DoSigned n d)) (set_row t (\<lambda>r. r\<lparr>sr_nonce := Some n, sr_signed := Some d\<rparr>) s)"
      using step by (auto simp: Let_def split: step_splits)
    have "n' < n" if "(sr_from r, n', t') \<in> set (m_accepted s)" for n' t'
    proof -
      have "n' < m" using mp that Assign r by (auto simp: list_all_iff)
      then show ?thesis using choose_nonce_ge [of m "db_nonce (sr_from r) (m_rows s)"] n by simp
    qed
    then have "(sr_from r, n, t') \<notin> set (m_accepted s)" for t' by blast
    then show ?thesis using r uniq own by (auto simp: s' accepted_ok_def split: if_splits)
  next
    case (Push t answer)
    then obtain r n d where r: "find_row t s = Some r" "m_running s t = Some (DoSigned n d)"
      and s': "s' = set_running t (Some (DoPushed n answer))
        (if answer = None then s\<lparr>m_accepted := (sr_from r, n, t) # m_accepted s\<rparr> else s)"
      using step by (auto split: step_splits)
    have nonce: "sr_nonce r = Some n" "t \<in> set (m_tasks s)" "m_locks s (sr_from r) = Some t"
      using row [of t] r by (auto simp: row_ok_def)
    have other: "t2 = t" if "find_row t2 s = Some r2" "t2 \<in> set (m_tasks s)" "sr_nonce r2 = Some n" "sr_from r2 = sr_from r" for t2 r2
      using row_okD(3) [OF row that(1,2)] that(3,4) nonce(3) by simp
    have mine: "t' = t" if "(sr_from r, n, t') \<in> set (m_accepted s)" for t'
      using own [OF r(1) nonce(2,1) that] .
    show ?thesis
    proof (cases "answer = None")
      case True
      then show ?thesis unfolding accepted_ok_def
        using uniq own other mine by (auto simp: s')
    next
      case False
      then show ?thesis using uniq own by (auto simp: s' accepted_ok_def)
    qed
  qed (use step uniq own in \<open>auto simp: accepted_ok_def find_row_Add split: step_splits\<close>)
qed

lemma sends_invariant:
  assumes "sends sign False s"
  shows "sends_ok s"
  using assms
proof (induction rule: sends.induct)
  case 1
  show ?case by (simp add: sends_ok_def row_ok_def accepted_ok_def init_send_def find_row_def)
next
  case (2 s a s')
  then have a: "\<not> is_RecordFail a" by simp
  have "row_ok s' t" for t
  proof (cases "t = actor a")
    case True
    then show ?thesis using step_own [OF 2(4) _ a] 2(5) by (simp add: sends_ok_def)
  next
    case False
    then show ?thesis using step_other [OF 2(4)] 2(5) by (simp add: sends_ok_def)
  qed
  then show ?case using step_accepted [OF 2(4,5,2)] by (simp add: sends_ok_def)
qed

section \<open>Properties\<close>

definition ex_sign :: "string \<Rightarrow> uint64 \<Rightarrow> string option" where
  "ex_sign m n = Some (m @ ''!'')"

text \<open>Two tasks of one key, one after the other.\<close>

definition ex_two_sends :: "send_action list" where
  "ex_two_sends = [Add 1 ''k'' ''a'', Add 2 ''k'' ''b'', Start 2, Start 1, Acquire 1, Assign 1 7, Push 1 None, Record 1,
     Release 1, Acquire 2, Assign 2 8, Push 2 None]"

text \<open>
  A push is refused and the process dies after storing that. The task is tried again, the
  push is refused again, and storing the result fails, which releases the lock. A second
  task gets the nonce. Then the first task is tried again.
\<close>

definition ex_race :: "send_action list" where
  "ex_race = [Add 1 ''k'' ''a'', Add 2 ''k'' ''b'',
     Start 1, Acquire 1, Assign 1 7, Push 1 (Some ''busy''), Record 1, Crash 1,
     Start 1, Acquire 1, Resume 1, Push 1 (Some ''busy''), RecordFail 1, Release 1,
     Start 2, Acquire 2, Assign 2 7, Push 2 None, Record 2, Release 2,
     Start 1, Acquire 1, Resume 1, Push 1 None]"

lemma run_accepted:
  assumes "map_option m_accepted (send_run sign lossy as init_send) = Some acc"
  shows "\<exists>s. sends sign lossy s \<and> m_accepted s = acc"
proof -
  obtain s where "send_run sign lossy as init_send = Some s" "m_accepted s = acc" using assms by auto
  then show ?thesis using send_run_sends [OF sends.intros(1)] by blast
qed



text \<open>
  When storing the result of a push can fail, the lock is given up although the signed
  message may be pushed again, and two tasks can get messages with one nonce taken.
\<close>

theorem nonce_used_twice:
  "\<exists>s. sends ex_sign True s \<and> (''k'', 7, 1) \<in> set (m_accepted s) \<and> (''k'', 7, 2) \<in> set (m_accepted s)"
proof -
  have "map_option m_accepted (send_run ex_sign True ex_race init_send) = Some [(''k'', 7, 1), (''k'', 7, 2)]"
    by code_simp
  then show ?thesis using run_accepted by fastforce
qed

end
