(* ===== verification/MemTree.thy ===== *)
theory MemTree
  imports Prelude
begin

unbundle bit_operations_syntax

text \<open>
  Merkle trees over 32-byte nodes kept in one buffer (\<open>lib/proof/merkle_sha254_memtree.go\<close>,
  \<open>lib/proof/tree_size.go\<close>), inclusion proofs from them (\<open>lib/proof/merkle_proof_memtree.go\<close>)
  and proofs that are put together from a section of a piece and a cached layer of its tree
  (\<open>lib/proof/cached_proof.go\<close>).

  All offsets of the code are multiples of the node size, so a buffer is a list of nodes.
  The hash function, the fr32 padding, the piece size arithmetic and the buffer pool are
  code of other packages and a parameter of the model.
\<close>

section \<open>Code of other packages\<close>

type_synonym node = "byte list"

record piece_lib =
  pl_sha :: "byte list \<Rightarrow> byte list"
  pl_Pad :: "byte list \<Rightarrow> node list"
  pl_Padded :: "nat \<Rightarrow> nat"
  pl_Unpadded :: "nat \<Rightarrow> nat"
  pl_PaddedSize :: "nat \<Rightarrow> nat"
  pl_pool :: "nat \<Rightarrow> node list"

text \<open>
  What is documented of it: fr32 padding turns each block of 127 bytes into four nodes, the
  piece sizes convert accordingly, the padded size of a valid unpadded size is that size, and
  the pool gives a buffer of the length asked for, with any content.
\<close>

definition piece_lib_ok :: "piece_lib \<Rightarrow> bool" where
  "piece_lib_ok L \<longleftrightarrow>
     (\<forall>xs ys. 127 dvd length xs \<longrightarrow> pl_Pad L (xs @ ys) = pl_Pad L xs @ pl_Pad L ys) \<and>
     (\<forall>xs m. length xs = 127 * m \<longrightarrow> length (pl_Pad L xs) = 4 * m) \<and>
     (\<forall>m. pl_Padded L (127 * m) = 128 * m) \<and>
     (\<forall>m. pl_Unpadded L (128 * m) = 127 * m) \<and>
     (\<forall>k. pl_PaddedSize L (127 * 2 ^ k) = 127 * 2 ^ k) \<and>
     (\<forall>n. length (pl_pool L n) = n)"

section \<open>Building a tree\<close>

definition NODE_SIZE :: nat where "NODE_SIZE = 32"
definition MaxMemtreeSize :: nat where "MaxMemtreeSize = 2 ^ 30"

definition ComputeBinShaParent :: "(byte list \<Rightarrow> byte list) \<Rightarrow> node \<Rightarrow> node \<Rightarrow> node" where
  "ComputeBinShaParent sha left right =
     (let out = sha (left @ right) in out[NODE_SIZE - 1 := out ! (NODE_SIZE - 1) AND 0x3F])"

text \<open>The sizes of the levels; all callers use trees of arity two.\<close>

fun level_sizes :: "nat \<Rightarrow> nat list" where
  "level_sizes n = (if n = 0 then [] else if n = 1 then [1] else n # level_sizes ((n + 2 - 1) div 2))"

declare level_sizes.simps [simp del]

definition computeTotalNodes :: "nat \<Rightarrow> nat \<times> nat list" where
  "computeTotalNodes nLeaves = (sum_list (level_sizes nLeaves), level_sizes nLeaves)"

definition build_level :: "(node \<Rightarrow> node \<Rightarrow> node) \<Rightarrow> nat \<Rightarrow> nat \<Rightarrow> nat \<Rightarrow> node list \<Rightarrow> node list" where
  "build_level h prevLevelStart currLevelStart levelNodes buf =
     fold (\<lambda>i b. b[currLevelStart + i := h (b ! (prevLevelStart + 2 * i)) (b ! (prevLevelStart + 2 * i + 1))])
       [0..<levelNodes] buf"

fun build_levels :: "(node \<Rightarrow> node \<Rightarrow> node) \<Rightarrow> nat \<Rightarrow> nat list \<Rightarrow> node list \<Rightarrow> node list" where
  "build_levels h start (s0 # s1 # ss) buf =
     build_levels h (start + s0) (s1 # ss) (build_level h start (start + s0) s1 buf)"
| "build_levels h start ss buf = buf"

datatype tree_error = PieceTooLarge | ShortRead | InvalidSize | InvalidLeaf | CacheError | ReaderError | SectionMismatch

definition BuildSha254MemtreeFromSnapshot :: "piece_lib \<Rightarrow> node list \<Rightarrow> tree_error + node list" where
  "BuildSha254MemtreeFromSnapshot L data =
     (if length data * NODE_SIZE > MaxMemtreeSize then Inl PieceTooLarge
      else
        let (totalNodes, levelSizes) = computeTotalNodes (length data);
            memtreeBuf = data @ drop (length data) (pl_pool L totalNodes)
        in Inr (build_levels (ComputeBinShaParent (pl_sha L)) 0 levelSizes memtreeBuf))"

definition BuildSha254Memtree :: "piece_lib \<Rightarrow> byte list \<Rightarrow> nat \<Rightarrow> tree_error + node list" where
  "BuildSha254Memtree L rawIn sz =
     (if pl_Padded L sz > MaxMemtreeSize then Inl PieceTooLarge
      else if length rawIn < sz then Inl ShortRead
      else
        let nLeaves = pl_Padded L sz div NODE_SIZE;
            (totalNodes, levelSizes) = computeTotalNodes nLeaves;
            memtreeBuf = pl_Pad L (take sz rawIn) @ drop nLeaves (pl_pool L totalNodes)
        in Inr (build_levels (ComputeBinShaParent (pl_sha L)) 0 levelSizes memtreeBuf))"

section \<open>Proofs from a tree\<close>

record RawMerkleProof =
  mp_Leaf :: node
  mp_Proof :: "node list"
  mp_Root :: node

text \<open>
  The loop that finds the sizes of the levels again ends at a level of one node; with no
  nodes at all it does not end, which is the result \<open>None\<close>.
\<close>

partial_function (option) proof_levels :: "nat \<Rightarrow> nat list option" where
  "proof_levels currLevelCount =
     (if currLevelCount = 1 then Some [1]
      else Option.bind (proof_levels ((currLevelCount + 2 - 1) div 2)) (\<lambda>ls. Some (currLevelCount # ls)))"

fun siblings :: "node list \<Rightarrow> nat \<Rightarrow> nat list \<Rightarrow> nat \<Rightarrow> node list" where
  "siblings memtree start (s0 # s1 # ss) index =
     memtree ! (start + (index XOR 1)) # siblings memtree (start + s0) (s1 # ss) (index div 2)"
| "siblings memtree start ss index = []"

definition MemtreeProof :: "node list \<Rightarrow> int \<Rightarrow> (tree_error + RawMerkleProof) option" where
  "MemtreeProof memtree leafIndex =
     map_option
       (\<lambda>levelSizes.
          if sum_list levelSizes \<noteq> length memtree then Inl InvalidSize
          else if leafIndex < 0 \<or> leafIndex \<ge> int (hd levelSizes) then Inl InvalidLeaf
          else Inr \<lparr>mp_Leaf = memtree ! nat leafIndex,
                    mp_Proof = siblings memtree 0 levelSizes (nat leafIndex),
                    mp_Root = memtree ! sum_list (butlast levelSizes)\<rparr>)
       (proof_levels ((length memtree + 1) div 2))"

section \<open>Proofs from a cached layer\<close>

record CacheProofParams =
  cp_SnapshotNodeIndex :: nat
  cp_StartLeaf :: nat
  cp_LeavesPerNode :: nat
  cp_SubTreeChallenge :: nat
  cp_SectionOffset :: nat
  cp_SectionLength :: nat
  cp_SubrootSize :: nat

definition ComputeCacheProofParams :: "piece_lib \<Rightarrow> nat \<Rightarrow> nat \<Rightarrow> CacheProofParams" where
  "ComputeCacheProofParams L layerIdx challengedLeaf =
     (let leavesPerNode = push_bit layerIdx 1;
          snapshotNodeIndex = drop_bit layerIdx challengedLeaf;
          startLeaf = push_bit layerIdx snapshotNodeIndex;
          offset = pl_Unpadded L (startLeaf * NODE_SIZE);
          len = pl_Unpadded L (leavesPerNode * NODE_SIZE);
          subrootSize = pl_Padded L (pl_PaddedSize L len)
      in \<lparr>cp_SnapshotNodeIndex = snapshotNodeIndex, cp_StartLeaf = startLeaf, cp_LeavesPerNode = leavesPerNode,
          cp_SubTreeChallenge = challengedLeaf - startLeaf, cp_SectionOffset = offset, cp_SectionLength = len,
          cp_SubrootSize = subrootSize\<rparr>)"

definition CombineSplitProofs :: "RawMerkleProof \<Rightarrow> RawMerkleProof \<Rightarrow> RawMerkleProof" where
  "CombineSplitProofs subProof upperProof =
     \<lparr>mp_Leaf = mp_Leaf subProof, mp_Proof = mp_Proof subProof @ mp_Proof upperProof, mp_Root = mp_Root upperProof\<rparr>"

text \<open>
  The cache and the reader of the piece are interfaces. A missing entry is \<open>Some None\<close>-like:
  \<open>Inr None\<close>. The bytes of the piece come with the size the reader reports.
\<close>

record proof_cache =
  pc_GetLayerIndex :: "tree_error + nat option"
  pc_GetNode :: "nat \<Rightarrow> nat \<Rightarrow> tree_error + node option"
  pc_GetLayer :: "nat \<Rightarrow> tree_error + node list"

definition section_data :: "byte list \<Rightarrow> CacheProofParams \<Rightarrow> piece_lib \<Rightarrow> byte list" where
  "section_data piece params L =
     (let dataReader = take (cp_SectionLength params) (drop (cp_SectionOffset params) piece);
          fileRemaining = int (length piece) - int (cp_SectionOffset params)
      in if fileRemaining < int (cp_SectionLength params)
         then dataReader @ replicate (nat (int (pl_Unpadded L (cp_SubrootSize params)) - fileRemaining)) 0
         else dataReader)"

text \<open>The result is \<open>None\<close> when a loop does not end and \<open>Some (Inr None)\<close> without a cache.\<close>

definition GenerateCachedProof ::
  "piece_lib \<Rightarrow> (tree_error + byte list) \<Rightarrow> proof_cache \<Rightarrow> nat \<Rightarrow> (tree_error + RawMerkleProof option) option" where
  "GenerateCachedProof L reader cache challengedLeaf =
     (case pc_GetLayerIndex cache of
        Inl e \<Rightarrow> Some (Inl e)
      | Inr None \<Rightarrow> Some (Inr None)
      | Inr (Some layerIdx) \<Rightarrow>
        (let params = ComputeCacheProofParams L layerIdx challengedLeaf in
         case pc_GetNode cache layerIdx (cp_SnapshotNodeIndex params) of
           Inl e \<Rightarrow> Some (Inl e)
         | Inr None \<Rightarrow> Some (Inr None)
         | Inr (Some nodeHash) \<Rightarrow>
           (case reader of
              Inl e \<Rightarrow> Some (Inl e)
            | Inr piece \<Rightarrow>
              (case BuildSha254Memtree L (section_data piece params L) (pl_Unpadded L (cp_SubrootSize params)) of
                 Inl e \<Rightarrow> Some (Inl e)
               | Inr memtree \<Rightarrow>
                 (case MemtreeProof memtree (int (cp_SubTreeChallenge params)) of
                    None \<Rightarrow> None
                  | Some (Inl e) \<Rightarrow> Some (Inl e)
                  | Some (Inr subTreeProof) \<Rightarrow>
                      if mp_Root subTreeProof \<noteq> nodeHash then Some (Inl SectionMismatch)
                      else
                        (case pc_GetLayer cache layerIdx of
                           Inl e \<Rightarrow> Some (Inl e)
                         | Inr layer \<Rightarrow>
                           (case BuildSha254MemtreeFromSnapshot L layer of
                              Inl e \<Rightarrow> Some (Inl e)
                            | Inr mtree \<Rightarrow>
                              (case MemtreeProof mtree (int (cp_SnapshotNodeIndex params)) of
                                 None \<Rightarrow> None
                               | Some (Inl e) \<Rightarrow> Some (Inl e)
                               | Some (Inr snapshotProof) \<Rightarrow>
                                   Some (Inr (Some (CombineSplitProofs subTreeProof snapshotProof)))))))))))"

section \<open>The tree a buffer stands for\<close>

text \<open>One level from the one below it, all levels in a row, the siblings of a leaf and the root.\<close>

fun pairs :: "('a \<Rightarrow> 'a \<Rightarrow> 'a) \<Rightarrow> 'a list \<Rightarrow> 'a list" where
  "pairs h (a # b # xs) = h a b # pairs h xs"
| "pairs h xs = []"

primrec flat_tree :: "('a \<Rightarrow> 'a \<Rightarrow> 'a) \<Rightarrow> nat \<Rightarrow> 'a list \<Rightarrow> 'a list" where
  "flat_tree h 0 xs = xs"
| "flat_tree h (Suc k) xs = xs @ flat_tree h k (pairs h xs)"

primrec tree_path :: "('a \<Rightarrow> 'a \<Rightarrow> 'a) \<Rightarrow> nat \<Rightarrow> 'a list \<Rightarrow> nat \<Rightarrow> 'a list" where
  "tree_path h 0 xs i = []"
| "tree_path h (Suc k) xs i = xs ! (i XOR 1) # tree_path h k (pairs h xs) (i div 2)"

primrec tree_layer :: "('a \<Rightarrow> 'a \<Rightarrow> 'a) \<Rightarrow> nat \<Rightarrow> 'a list \<Rightarrow> 'a list" where
  "tree_layer h 0 xs = xs"
| "tree_layer h (Suc k) xs = tree_layer h k (pairs h xs)"

definition tree_proof :: "(node \<Rightarrow> node \<Rightarrow> node) \<Rightarrow> nat \<Rightarrow> node list \<Rightarrow> nat \<Rightarrow> RawMerkleProof" where
  "tree_proof h k xs i = \<lparr>mp_Leaf = xs ! i, mp_Proof = tree_path h k xs i, mp_Root = hd (tree_layer h k xs)\<rparr>"

text \<open>What a verifier does with a proof: hash up from the leaf.\<close>

fun fold_path :: "('a \<Rightarrow> 'a \<Rightarrow> 'a) \<Rightarrow> 'a \<Rightarrow> nat \<Rightarrow> 'a list \<Rightarrow> 'a" where
  "fold_path h cur i [] = cur"
| "fold_path h cur i (s # ss) = fold_path h (if even i then h cur s else h s cur) (i div 2) ss"

lemma length_pairs: "length (pairs h xs) = length xs div 2"
  by (induction h xs rule: pairs.induct) auto

lemma nth_pairs: "2 * i + 1 < length xs \<Longrightarrow> pairs h xs ! i = h (xs ! (2 * i)) (xs ! (2 * i + 1))"
proof (induction h xs arbitrary: i rule: pairs.induct)
  case (1 h a b xs)
  then show ?case by (cases i) auto
qed auto

lemma pairs_section: "pairs h (take (2 * n) (drop (2 * m) xs)) = take n (drop m (pairs h xs))"
proof (rule nth_equalityI)
  have "length (pairs h (take (2 * n) (drop (2 * m) xs))) = min (length xs - 2 * m) (2 * n) div 2"
    by (simp add: length_pairs)
  also have "\<dots> = min (length xs div 2 - m) n"
    unfolding min_def by auto
  finally show len: "length (pairs h (take (2 * n) (drop (2 * m) xs))) = length (take n (drop m (pairs h xs)))"
    by (simp add: length_pairs)
  fix i
  assume "i < length (pairs h (take (2 * n) (drop (2 * m) xs)))"
  then have "i < min (length xs div 2 - m) n" unfolding len by (simp add: length_pairs)
  then have i: "i < n" "2 * (m + i) + 1 < length xs" by auto
  then show "pairs h (take (2 * n) (drop (2 * m) xs)) ! i = take n (drop m (pairs h xs)) ! i"
    by (simp add: nth_pairs length_pairs algebra_simps)
qed

lemma length_flat_tree: "length xs = 2 ^ k \<Longrightarrow> length (flat_tree h k xs) = 2 ^ Suc k - 1"
proof (induction k arbitrary: xs)
  case (Suc k)
  then have "length (flat_tree h k (pairs h xs)) = 2 ^ Suc k - 1" by (simp add: length_pairs)
  then show ?case using Suc.prems by simp
qed simp

lemma length_tree_layer: "length (tree_layer h l xs) = length xs div 2 ^ l"
  by (induction l arbitrary: xs) (simp_all add: length_pairs div_mult2_eq)

lemma sibling_index: "(i :: nat) XOR 1 = (if even i then i + 1 else i - 1)"
  by (simp add: xor_Suc_0_eq)

lemma level_sizes_2: "level_sizes (2 ^ Suc k) = 2 ^ Suc k # level_sizes (2 ^ k)"
proof -
  have "(2 ^ Suc k + 2 - 1) div 2 = (2 ^ k :: nat)" by simp
  moreover have "(2 :: nat) ^ Suc k > 1" by (rule one_less_power) simp_all
  ultimately show ?thesis by (subst level_sizes.simps) simp
qed

lemma level_sizes_1: "level_sizes (Suc 0) = [Suc 0]"
  by (simp add: level_sizes.simps)

lemma level_sizes_Cons: "\<exists>ss. level_sizes (2 ^ k) = 2 ^ k # ss"
proof (cases k)
  case (Suc j)
  then show ?thesis using level_sizes_2 by blast
qed (simp add: level_sizes_1)

lemma sum_level_sizes: "sum_list (level_sizes (2 ^ k)) = 2 ^ Suc k - 1"
proof (induction k)
  case (Suc k)
  then have "sum_list (level_sizes (2 ^ Suc k)) = 2 ^ Suc k + (2 ^ Suc k - 1)" by (simp only: level_sizes_2 sum_list.Cons)
  then show ?case by simp
qed (simp add: level_sizes_1)

text \<open>The loop of the proof finds the sizes again when there is a node, and does not end otherwise.\<close>

lemma proof_levels_2: "proof_levels (2 ^ k) = Some (level_sizes (2 ^ k))"
proof (induction k)
  case 0
  show ?case by (simp add: proof_levels.simps level_sizes_1)
next
  case (Suc k)
  have "(2 ^ Suc k + 2 - 1) div 2 = (2 ^ k :: nat)" by simp
  moreover have "(2 :: nat) ^ Suc k > 1" by (rule one_less_power) simp_all
  ultimately show ?case using Suc by (subst proof_levels.simps) (simp add: level_sizes_2 del: power_Suc)
qed

lemma proof_levels_diverges: "proof_levels 0 = None"
proof -
  have "n \<noteq> 0" if "proof_levels n = Some ls" for n ls
  proof (rule proof_levels.raw_induct [OF _ that])
    fix levels :: "nat \<Rightarrow> nat list option" and n ls
    assume ih: "\<And>n ls. levels n = Some ls \<Longrightarrow> n \<noteq> 0"
    assume "(if n = 1 then Some [1] else Option.bind (levels ((n + 2 - 1) div 2)) (\<lambda>ls. Some (n # ls))) = Some ls"
    then show "n \<noteq> 0" using ih [of 0] by (cases "n = 0") (auto split: Option.bind_splits)
  qed
  then show ?thesis by (cases "proof_levels 0") auto
qed

section \<open>The buffer holds the tree\<close>

lemma build_level_pairs:
  assumes "length xs = 2 * n" "n \<le> length rest"
  shows "build_level h (length pre) (length pre + 2 * n) n (pre @ xs @ rest) = pre @ xs @ pairs h xs @ drop n rest"
proof -
  let ?step = "\<lambda>i b. b[length pre + 2 * n + i := h (b ! (length pre + 2 * i)) (b ! (length pre + 2 * i + 1))]"
  have "fold ?step [0..<m] (pre @ xs @ rest) = pre @ xs @ take m (pairs h xs) @ drop m rest" if "m \<le> n" for m
    using that
  proof (induction m)
    case (Suc m)
    have ps: "length (pairs h xs) = n" using assms(1) by (simp add: length_pairs)
    obtain r rs where rest: "drop m rest = r # rs" "drop (Suc m) rest = rs"
      using Suc.prems assms(2) by (metis Cons_nth_drop_Suc Suc_le_lessD le_less_trans less_le_trans)
    let ?b = "pre @ xs @ take m (pairs h xs) @ drop m rest"
    have "fold ?step [0..<Suc m] (pre @ xs @ rest) = ?step m ?b" using Suc by simp
    also have "\<dots> = ?b[length pre + 2 * n + m := pairs h xs ! m]"
      using Suc.prems assms(1) by (simp add: nth_append nth_pairs)
    also have "\<dots> = pre @ xs @ take m (pairs h xs) @ (pairs h xs ! m # rs)"
      using Suc.prems assms(1) ps by (simp add: list_update_append rest)
    also have "\<dots> = pre @ xs @ take (Suc m) (pairs h xs) @ drop (Suc m) rest"
      using Suc.prems ps by (simp add: take_Suc_conv_app_nth rest(2))
    finally show ?case .
  qed simp
  from this [of n] show ?thesis using assms(1) by (simp add: build_level_def length_pairs)
qed

lemma build_levels_flat:
  assumes "length xs = 2 ^ k" "length rest = 2 ^ k - 1"
  shows "build_levels h (length pre) (level_sizes (2 ^ k)) (pre @ xs @ rest) = pre @ flat_tree h k xs"
  using assms
proof (induction k arbitrary: pre xs rest)
  case 0
  then show ?case by (simp add: level_sizes_1)
next
  case (Suc k)
  obtain ss where ss: "level_sizes (2 ^ k) = 2 ^ k # ss" using level_sizes_Cons by blast
  have "(2 :: nat) ^ k \<ge> 1" by simp
  then have len: "2 ^ k \<le> length rest" "length (drop (2 ^ k) rest) = 2 ^ k - 1" using Suc.prems(2) by simp_all
  have ps: "length (pairs h xs) = 2 ^ k" using Suc.prems(1) by (simp add: length_pairs)
  have "build_levels h (length pre) (level_sizes (2 ^ Suc k)) (pre @ xs @ rest) =
      build_levels h (length (pre @ xs)) (level_sizes (2 ^ k)) (build_level h (length pre) (length pre + 2 * 2 ^ k) (2 ^ k) (pre @ xs @ rest))"
    using Suc.prems(1) by (simp add: level_sizes_2 ss del: power_Suc) simp
  also have "\<dots> = build_levels h (length (pre @ xs)) (level_sizes (2 ^ k)) ((pre @ xs) @ pairs h xs @ drop (2 ^ k) rest)"
    using build_level_pairs [of xs "2 ^ k" rest h pre] Suc.prems(1) len(1) by simp
  also have "\<dots> = pre @ flat_tree h (Suc k) xs" using Suc.IH [OF ps len(2), of "pre @ xs"] by simp
  finally show ?case .
qed

lemma FromSnapshot_tree:
  assumes "piece_lib_ok L" "length xs = 2 ^ k" "2 ^ k * NODE_SIZE \<le> MaxMemtreeSize"
  shows "BuildSha254MemtreeFromSnapshot L xs = Inr (flat_tree (ComputeBinShaParent (pl_sha L)) k xs)"
proof -
  let ?n = "2 ^ Suc k - 1 :: nat"
  have "length (drop (2 ^ k) (pl_pool L ?n)) = 2 ^ k - 1" using assms(1) by (simp add: piece_lib_ok_def)
  from build_levels_flat [OF assms(2) this, of "ComputeBinShaParent (pl_sha L)" "[]"] show ?thesis
    using assms(2,3) by (simp add: BuildSha254MemtreeFromSnapshot_def computeTotalNodes_def sum_level_sizes not_less del: power_Suc)
qed

lemma Memtree_tree:
  assumes ok: "piece_lib_ok L" and sz: "sz = 127 * 2 ^ j" and fits: "128 * 2 ^ j \<le> MaxMemtreeSize" and raw: "length raw \<ge> sz"
  shows "BuildSha254Memtree L raw sz = Inr (flat_tree (ComputeBinShaParent (pl_sha L)) (j + 2) (pl_Pad L (take sz raw)))"
proof -
  let ?xs = "pl_Pad L (take sz raw)" and ?k = "j + 2"
  have padded: "pl_Padded L sz = 128 * 2 ^ j" using ok by (simp add: piece_lib_ok_def sz)
  have "length (take sz raw) = 127 * 2 ^ j" using raw sz by simp
  then have len: "length ?xs = 2 ^ ?k" using ok by (auto simp: piece_lib_ok_def power_add)
  have leaves: "128 * 2 ^ j div NODE_SIZE = (2 ^ ?k :: nat)" by (simp add: NODE_SIZE_def power_add)
  have "length (drop (2 ^ ?k) (pl_pool L (2 ^ Suc ?k - 1))) = 2 ^ ?k - 1"
    using ok by (simp add: piece_lib_ok_def)
  from build_levels_flat [OF len this, of "ComputeBinShaParent (pl_sha L)" "[]"] show ?thesis
    using raw fits by (simp add: BuildSha254Memtree_def computeTotalNodes_def padded leaves sum_level_sizes not_less del: power_Suc power_add add_2_eq_Suc')
qed

section \<open>Proofs\<close>

lemma siblings_path:
  assumes "length xs = 2 ^ k" "i < 2 ^ k"
  shows "siblings (pre @ flat_tree h k xs) (length pre) (level_sizes (2 ^ k)) i = tree_path h k xs i"
  using assms
proof (induction k arbitrary: pre xs i)
  case 0
  then show ?case by (simp add: level_sizes_1)
next
  case (Suc k)
  obtain ss where ss: "level_sizes (2 ^ k) = 2 ^ k # ss" using level_sizes_Cons by blast
  have ps: "length (pairs h xs) = 2 ^ k" "i div 2 < 2 ^ k" using Suc.prems by (simp_all add: length_pairs)
  have sib: "i XOR 1 < 2 ^ Suc k" using Suc.prems(2) unfolding sibling_index by auto
  have "siblings (pre @ flat_tree h (Suc k) xs) (length pre) (level_sizes (2 ^ Suc k)) i =
      xs ! (i XOR 1) # siblings ((pre @ xs) @ flat_tree h k (pairs h xs)) (length (pre @ xs)) (level_sizes (2 ^ k)) (i div 2)"
    using Suc.prems(1) sib by (simp add: level_sizes_2 ss nth_append del: power_Suc)
  then show ?case using Suc.IH [OF ps, of "pre @ xs"] by simp
qed

lemma flat_tree_root:
  assumes "length xs = 2 ^ k"
  shows "flat_tree h k xs ! sum_list (butlast (level_sizes (2 ^ k))) = hd (tree_layer h k xs)"
  using assms
proof (induction k arbitrary: xs)
  case 0
  then show ?case by (cases xs) (simp_all add: level_sizes_1)
next
  case (Suc k)
  obtain ss where ss: "level_sizes (2 ^ k) = 2 ^ k # ss" using level_sizes_Cons by blast
  have "length (pairs h xs) = 2 ^ k" using Suc.prems by (simp add: length_pairs)
  from Suc.IH [OF this] show ?case using Suc.prems
    by (simp add: level_sizes_2 ss nth_append del: power_Suc)
qed

lemma MemtreeProof_tree:
  assumes "length xs = 2 ^ k" "i < 2 ^ k"
  shows "MemtreeProof (flat_tree h k xs) (int i) = Some (Inr (tree_proof h k xs i))"
proof -
  obtain ss where ss: "level_sizes (2 ^ k) = 2 ^ k # ss" using level_sizes_Cons by blast
  have leaves: "(length (flat_tree h k xs) + 1) div 2 = 2 ^ k" using length_flat_tree [OF assms(1), of h] by simp
  have "flat_tree h k xs ! i = xs ! i" using assms by (cases k) (simp_all add: nth_append)
  then show ?thesis
    using siblings_path [OF assms, of "[]" h] flat_tree_root [OF assms(1), of h] assms(2)
      length_flat_tree [OF assms(1), of h] sum_level_sizes [of k]
    unfolding MemtreeProof_def leaves proof_levels_2 tree_proof_def ss by simp
qed

lemma tree_path_verifies:
  assumes "length xs = 2 ^ k" "i < 2 ^ k"
  shows "fold_path h (xs ! i) i (tree_path h k xs i) = hd (tree_layer h k xs)"
  using assms
proof (induction k arbitrary: xs i)
  case 0
  then show ?case by (cases xs) simp_all
next
  case (Suc k)
  have ps: "length (pairs h xs) = 2 ^ k" "i div 2 < 2 ^ k" using Suc.prems by (simp_all add: length_pairs)
  have "2 * (i div 2) + 1 < length xs" using Suc.prems(1) ps(2) by simp
  from nth_pairs [OF this, of h]
  have "(if even i then h (xs ! i) (xs ! (i XOR 1)) else h (xs ! (i XOR 1)) (xs ! i)) = pairs h xs ! (i div 2)"
    unfolding sibling_index by (auto elim!: evenE oddE)
  then show ?case using Suc.IH [OF ps] by (simp only: tree_path.simps fold_path.simps tree_layer.simps)
qed

text \<open>A path is the path inside the section that holds the leaf, followed by the path of the section.\<close>

lemma tree_path_add: "tree_path h (l + m) xs i = tree_path h l xs i @ tree_path h m (tree_layer h l xs) (i div 2 ^ l)"
  by (induction l arbitrary: xs i) (simp_all add: div_mult2_eq)

lemma tree_layer_add: "tree_layer h (l + m) xs = tree_layer h m (tree_layer h l xs)"
  by (induction l arbitrary: xs) simp_all

lemma section_layer:
  "tree_layer h l (take (2 ^ l * n) (drop (2 ^ l * j) xs)) = take n (drop j (tree_layer h l xs))"
proof (induction l arbitrary: xs)
  case (Suc l)
  have "pairs h (take (2 ^ Suc l * n) (drop (2 ^ Suc l * j) xs)) = take (2 ^ l * n) (drop (2 ^ l * j) (pairs h xs))"
    using pairs_section [of h "2 ^ l * n" "2 ^ l * j" xs] by (simp add: mult.assoc)
  then show ?case using Suc by simp
qed simp

lemma section_path:
  assumes "2 ^ l * (j + 1) \<le> length xs" "i < 2 ^ l"
  shows "tree_path h l (take (2 ^ l) (drop (2 ^ l * j) xs)) i = tree_path h l xs (2 ^ l * j + i)"
  using assms
proof (induction l arbitrary: xs i)
  case (Suc l)
  have sec: "pairs h (take (2 ^ Suc l) (drop (2 ^ Suc l * j) xs)) = take (2 ^ l) (drop (2 ^ l * j) (pairs h xs))"
    using pairs_section [of h "2 ^ l" "2 ^ l * j" xs] by (simp add: mult.assoc)
  have "2 ^ l * (j + 1) \<le> length (pairs h xs)" "i div 2 < 2 ^ l" using Suc.prems by (simp_all add: length_pairs)
  note ih = Suc.IH [OF this]
  have par: "(2 ^ Suc l * j + i) div 2 = 2 ^ l * j + i div 2" "even (2 ^ Suc l * j + i) = even i" by simp_all
  have "(2 ^ Suc l * j + i) XOR 1 = 2 ^ Suc l * j + (i XOR 1)"
    unfolding sibling_index par(2) by (auto elim: oddE)
  moreover have "i XOR 1 < 2 ^ Suc l" using Suc.prems(2) unfolding sibling_index by auto
  ultimately show ?case using Suc.prems(1) ih sec par(1) by simp
qed simp

section \<open>Sections of a piece\<close>

lemma Pad_section:
  assumes ok: "piece_lib_ok L" and len: "length xs = 127 * n" and j: "m + j \<le> n"
  shows "pl_Pad L (take (127 * m) (drop (127 * j) xs)) = take (4 * m) (drop (4 * j) (pl_Pad L xs))"
proof -
  let ?a = "take (127 * j) xs" and ?b = "take (127 * m) (drop (127 * j) xs)" and ?c = "drop (127 * m) (drop (127 * j) xs)"
  have split: "xs = ?a @ ?b @ ?c" by (metis append_take_drop_id)
  have la: "length ?a = 127 * j" "length ?b = 127 * m" using len j by simp_all
  have "pl_Pad L xs = pl_Pad L ?a @ pl_Pad L ?b @ pl_Pad L ?c"
  proof -
    have "pl_Pad L (?a @ ?b @ ?c) = pl_Pad L ?a @ pl_Pad L (?b @ ?c)"
      using ok la(1) unfolding piece_lib_ok_def by simp
    also have "pl_Pad L (?b @ ?c) = pl_Pad L ?b @ pl_Pad L ?c"
      using ok la(2) unfolding piece_lib_ok_def by simp
    finally show ?thesis using split by simp
  qed
  moreover have "length (pl_Pad L ?a) = 4 * j" "length (pl_Pad L ?b) = 4 * m"
    using ok la by (simp_all add: piece_lib_ok_def)
  ultimately show ?thesis by simp
qed

text \<open>The piece with zeros up to its full size, and the leaves of its tree.\<close>

definition full_piece :: "byte list \<Rightarrow> nat \<Rightarrow> byte list" where
  "full_piece piece sz = piece @ replicate (sz - length piece) 0"

lemma section_data_take:
  assumes "length piece \<le> sz" "cp_SectionOffset p + len \<le> sz" "cp_SectionLength p = len"
    and "pl_Unpadded L (cp_SubrootSize p) = len"
  shows "length (section_data piece p L) \<ge> len \<and>
    take len (section_data piece p L) = take len (drop (cp_SectionOffset p) (full_piece piece sz))"
proof -
  let ?o = "cp_SectionOffset p"
  have drop_full: "drop ?o (full_piece piece sz) = drop ?o piece @ replicate (sz - max ?o (length piece)) 0"
    using assms(1) by (cases "?o \<le> length piece") (simp_all add: full_piece_def max_def)
  show ?thesis
  proof (cases "int (length piece) - int ?o < int len")
    case True
    let ?n = "nat (int len - (int (length piece) - int ?o))"
    have sd: "section_data piece p L = take len (drop ?o piece) @ replicate ?n 0"
      using True assms(3,4) by (simp add: section_data_def)
    have short: "take len (drop ?o piece) = drop ?o piece" using True by simp
    have "len - length (drop ?o piece) \<le> ?n" using True by simp
    moreover have "len - length (drop ?o piece) \<le> sz - max ?o (length piece)" using assms(2) by simp
    ultimately show ?thesis unfolding sd short drop_full by (auto simp: min_def)
  next
    case False
    then have "section_data piece p L = take len (drop ?o piece)" "len \<le> length (drop ?o piece)"
      using assms(3,4) by (simp_all add: section_data_def)
    then show ?thesis unfolding drop_full by simp
  qed
qed

lemma params_layer:
  assumes ok: "piece_lib_ok L"
  shows "ComputeCacheProofParams L (j + 2) leaf =
    \<lparr>cp_SnapshotNodeIndex = leaf div 2 ^ (j + 2), cp_StartLeaf = leaf div 2 ^ (j + 2) * 2 ^ (j + 2), cp_LeavesPerNode = 2 ^ (j + 2),
     cp_SubTreeChallenge = leaf mod 2 ^ (j + 2), cp_SectionOffset = 127 * (leaf div 2 ^ (j + 2) * 2 ^ j),
     cp_SectionLength = 127 * 2 ^ j, cp_SubrootSize = 128 * 2 ^ j\<rparr>"
proof -
  have unp: "pl_Unpadded L (128 * m) = 127 * m" "pl_Padded L (127 * m) = 128 * m" "pl_PaddedSize L (127 * 2 ^ k) = 127 * 2 ^ k" for m k
    using ok by (simp_all add: piece_lib_ok_def)
  have "leaf div 2 ^ (j + 2) * 2 ^ (j + 2) * NODE_SIZE = 128 * (leaf div 2 ^ (j + 2) * 2 ^ j)"
    "2 ^ (j + 2) * NODE_SIZE = 128 * 2 ^ j"
    by (simp_all add: NODE_SIZE_def power_add)
  then show ?thesis
    unfolding ComputeCacheProofParams_def push_bit_eq_mult drop_bit_eq_div Let_def
    by (simp only: unp mult_1 minus_div_mult_eq_mod)
qed

text \<open>What is needed of the cache: it holds one layer of the tree over the leaves.\<close>

definition caches_layer :: "(node \<Rightarrow> node \<Rightarrow> node) \<Rightarrow> nat \<Rightarrow> node list \<Rightarrow> proof_cache \<Rightarrow> bool" where
  "caches_layer h l leaves cache \<longleftrightarrow>
     pc_GetLayerIndex cache = Inr (Some l) \<and> pc_GetLayer cache l = Inr (tree_layer h l leaves) \<and>
     (\<forall>i<length (tree_layer h l leaves). pc_GetNode cache l i = Inr (Some (tree_layer h l leaves ! i)))"

text \<open>The proof inside a section and the proof of the section give the proof in the whole tree.\<close>

lemma combine_section:
  assumes room: "2 ^ l * (idx + 1) \<le> length leaves" and sub: "sub < 2 ^ l"
  shows "CombineSplitProofs (tree_proof h l (take (2 ^ l) (drop (2 ^ l * idx) leaves)) sub) (tree_proof h m (tree_layer h l leaves) idx) =
    tree_proof h (l + m) leaves (2 ^ l * idx + sub)"
proof -
  have "(2 ^ l * idx + sub) div 2 ^ l = idx" using sub by simp
  then have "tree_path h (l + m) leaves (2 ^ l * idx + sub) =
      tree_path h l leaves (2 ^ l * idx + sub) @ tree_path h m (tree_layer h l leaves) idx"
    by (simp add: tree_path_add)
  moreover have "take (2 ^ l) (drop (2 ^ l * idx) leaves) ! sub = leaves ! (2 ^ l * idx + sub)" using room sub by simp
  ultimately show ?thesis
    by (simp only: CombineSplitProofs_def tree_proof_def tree_layer_add RawMerkleProof.simps section_path [OF room sub])
qed

lemma section_root:
  assumes "idx < length (tree_layer h l leaves)"
  shows "mp_Root (tree_proof h l (take (2 ^ l) (drop (2 ^ l * idx) leaves)) sub) = tree_layer h l leaves ! idx"
proof -
  have "tree_layer h l (take (2 ^ l) (drop (2 ^ l * idx) leaves)) = take 1 (drop idx (tree_layer h l leaves))"
    using section_layer [of h l 1 idx leaves] by simp
  then show ?thesis using assms by (simp add: tree_proof_def hd_drop_conv_nth)
qed

text \<open>What the code reads of a section are the leaves under its node.\<close>

lemma section_leaves:
  assumes ok: "piece_lib_ok L" and piece: "length piece \<le> 127 * 2 ^ (j + m)" and idx: "leaf div 2 ^ (j + 2) < 2 ^ m"
    and leaves: "leaves = pl_Pad L (full_piece piece (127 * 2 ^ (j + m)))" and p: "p = ComputeCacheProofParams L (j + 2) leaf"
  shows "127 * 2 ^ j \<le> length (section_data piece p L)"
    "pl_Pad L (take (127 * 2 ^ j) (section_data piece p L)) = take (2 ^ (j + 2)) (drop (2 ^ (j + 2) * (leaf div 2 ^ (j + 2))) leaves)"
proof -
  let ?sz = "127 * 2 ^ (j + m) :: nat" and ?idx = "leaf div 2 ^ (j + 2)"
  note params = params_layer [OF ok, of j leaf, folded p]
  have full: "length (full_piece piece ?sz) = ?sz" using piece by (simp add: full_piece_def)
  have "(?idx + 1) * 2 ^ j \<le> 2 ^ m * 2 ^ j" using idx by (intro mult_right_mono) simp_all
  then have offs: "2 ^ j + ?idx * 2 ^ j \<le> 2 ^ (j + m)" by (simp add: power_add algebra_simps)
  have unp: "pl_Unpadded L (cp_SubrootSize p) = 127 * 2 ^ j" using ok by (simp add: params piece_lib_ok_def)
  have sec: "127 * 2 ^ j \<le> length (section_data piece p L) \<and>
    take (127 * 2 ^ j) (section_data piece p L) = take (127 * 2 ^ j) (drop (127 * (?idx * 2 ^ j)) (full_piece piece ?sz))"
    using section_data_take [OF piece _ _ unp] offs by (simp add: params)
  show "127 * 2 ^ j \<le> length (section_data piece p L)" using sec by simp
  show "pl_Pad L (take (127 * 2 ^ j) (section_data piece p L)) = take (2 ^ (j + 2)) (drop (2 ^ (j + 2) * ?idx) leaves)"
  proof -
    have "4 * 2 ^ j = (2 ^ (j + 2) :: nat)" "4 * (?idx * 2 ^ j) = 2 ^ (j + 2) * ?idx" by (simp_all add: power_add)
    from Pad_section [OF ok full offs, unfolded this] show ?thesis using sec leaves by (simp only:)
  qed
qed

lemma cached_proof_tree:
  assumes ok: "piece_lib_ok L" and h: "h = ComputeBinShaParent (pl_sha L)"
    and piece: "length piece \<le> 127 * 2 ^ (j + m)"
    and leaves: "leaves = pl_Pad L (full_piece piece (127 * 2 ^ (j + m)))"
    and fits: "128 * 2 ^ j \<le> MaxMemtreeSize" "2 ^ m * NODE_SIZE \<le> MaxMemtreeSize"
    and cache: "caches_layer h (j + 2) leaves cache" and leaf: "leaf < 2 ^ (j + 2 + m)"
  shows "GenerateCachedProof L (Inr piece) cache leaf = Some (Inr (Some (tree_proof h (j + 2 + m) leaves leaf)))"
proof -
  let ?l = "j + 2"
  define idx where "idx = leaf div 2 ^ ?l"
  define sub where "sub = leaf mod 2 ^ ?l"
  define p where "p = ComputeCacheProofParams L ?l leaf"
  note params = params_layer [OF ok, of j leaf, folded p_def idx_def sub_def]
  have "leaf < 2 ^ m * 2 ^ ?l" using leaf unfolding power_add [of 2 ?l m] by (simp only: mult.commute)
  then have idx: "idx < 2 ^ m" unfolding idx_def by (rule less_mult_imp_div_less)
  have leaf_eq: "2 ^ ?l * idx + sub = leaf" "sub < 2 ^ ?l" by (simp_all add: idx_def sub_def)
  have "length (full_piece piece (127 * 2 ^ (j + m))) = 127 * 2 ^ (j + m)" using piece by (simp add: full_piece_def)
  then have len: "length leaves = 2 ^ (?l + m)" using ok leaves by (simp add: piece_lib_ok_def power_add)
  have layer: "length (tree_layer h ?l leaves) = 2 ^ m" unfolding length_tree_layer len by (simp add: power_add)
  have room: "2 ^ ?l * (idx + 1) \<le> length leaves"
    using idx unfolding len power_add [of 2 ?l m] by (intro mult_left_mono) simp_all
  let ?sect = "take (2 ^ ?l) (drop (2 ^ ?l * idx) leaves)"
  have sect: "length ?sect = 2 ^ ?l" using room by simp
  note sec = section_leaves [OF ok piece idx [unfolded idx_def] leaves p_def, folded idx_def]
  have steps: "BuildSha254Memtree L (section_data piece p L) (127 * 2 ^ j) = Inr (flat_tree h ?l ?sect)"
    "MemtreeProof (flat_tree h ?l ?sect) (int sub) = Some (Inr (tree_proof h ?l ?sect sub))"
    "BuildSha254MemtreeFromSnapshot L (tree_layer h ?l leaves) = Inr (flat_tree h m (tree_layer h ?l leaves))"
    "MemtreeProof (flat_tree h m (tree_layer h ?l leaves)) (int idx) = Some (Inr (tree_proof h m (tree_layer h ?l leaves) idx))"
    using Memtree_tree [OF ok refl fits(1) sec(1)] MemtreeProof_tree [OF sect leaf_eq(2)]
      FromSnapshot_tree [OF ok layer fits(2)] MemtreeProof_tree [OF layer idx]
    unfolding sec(2) h by simp_all
  have node: "pc_GetLayerIndex cache = Inr (Some ?l)" "pc_GetLayer cache ?l = Inr (tree_layer h ?l leaves)"
    "pc_GetNode cache ?l idx = Inr (Some (tree_layer h ?l leaves ! idx))"
    using cache idx unfolding caches_layer_def layer by blast+
  have sel: "cp_SnapshotNodeIndex p = idx" "cp_SubTreeChallenge p = sub" "pl_Unpadded L (cp_SubrootSize p) = 127 * 2 ^ j"
    using ok by (simp_all add: params piece_lib_ok_def)
  have root: "mp_Root (tree_proof h ?l ?sect sub) = tree_layer h ?l leaves ! idx"
    by (rule section_root) (simp only: layer idx)
  show ?thesis
    unfolding GenerateCachedProof_def Let_def
    by (simp only: sum.case option.case node p_def [symmetric] sel steps root combine_section [OF room leaf_eq(2)] leaf_eq(1) if_False simp_thms)
qed

section \<open>Properties\<close>

text \<open>A library for examples: a fake hash, and padding that adds one zero byte to each block.\<close>

fun ex_chunks :: "nat \<Rightarrow> byte list \<Rightarrow> node list" where
  "ex_chunks 0 xs = []"
| "ex_chunks (Suc n) xs = take 32 xs # take 32 (drop 32 xs) # take 32 (drop 64 xs) # (take 31 (drop 96 xs) @ [0]) # ex_chunks n (drop 127 xs)"

definition ex_lib :: piece_lib where
  "ex_lib = \<lparr>pl_sha = \<lambda>xs. take 16 xs @ take 16 (drop 32 xs), pl_Pad = \<lambda>xs. ex_chunks (length xs div 127) xs,
     pl_Padded = \<lambda>n. n + n div 127, pl_Unpadded = \<lambda>n. n - n div 128, pl_PaddedSize = \<lambda>n. n,
     pl_pool = \<lambda>n. replicate n []\<rparr>"

lemma length_ex_chunks: "length (ex_chunks n xs) = 4 * n"
  by (induction n arbitrary: xs) simp_all

lemma ex_chunks_append: "length xs = 127 * n \<Longrightarrow> ex_chunks (n + m) (xs @ ys) = ex_chunks n xs @ ex_chunks m ys"
  by (induction n arbitrary: xs) simp_all

lemma ex_lib_ok: "piece_lib_ok ex_lib"
  unfolding piece_lib_ok_def
proof (intro conjI allI impI)
  fix xs ys :: "byte list"
  assume "127 dvd length xs"
  then obtain n where n: "length xs = 127 * n" by (auto elim: dvdE)
  have "(length xs + length ys) div 127 = n + length ys div 127" by (simp add: n)
  then show "pl_Pad ex_lib (xs @ ys) = pl_Pad ex_lib xs @ pl_Pad ex_lib ys"
    using ex_chunks_append [OF n] n by (simp add: ex_lib_def)
qed (simp_all add: ex_lib_def length_ex_chunks)

definition ex_piece :: "byte list" where
  "ex_piece = map word_of_nat [0..<600]"

definition ex_leaves :: "node list" where
  "ex_leaves = pl_Pad ex_lib (full_piece ex_piece (127 * 2 ^ (1 + 2)))"

definition ex_cache :: proof_cache where
  "ex_cache = (let layer = tree_layer (ComputeBinShaParent (pl_sha ex_lib)) (1 + 2) ex_leaves in
     \<lparr>pc_GetLayerIndex = Inr (Some (1 + 2)), pc_GetNode = \<lambda>l i. Inr (Some (layer ! i)), pc_GetLayer = \<lambda>l. Inr layer\<rparr>)"

text \<open>
  C28: The proof of a leaf from the buffer that was built over a power of two of leaves has
  the leaf, and hashing up from the leaf along the siblings gives the root of the tree.
\<close>

theorem MemtreeProof_verifies:
  assumes "piece_lib_ok L" "length leaves = 2 ^ k" "2 ^ k * NODE_SIZE \<le> MaxMemtreeSize" "i < 2 ^ k"
  shows "\<exists>memtree p. BuildSha254MemtreeFromSnapshot L leaves = Inr memtree \<and>
    MemtreeProof memtree (int i) = Some (Inr p) \<and> mp_Leaf p = leaves ! i \<and> length (mp_Proof p) = k \<and>
    fold_path (ComputeBinShaParent (pl_sha L)) (mp_Leaf p) i (mp_Proof p) = mp_Root p \<and>
    mp_Root p = hd (tree_layer (ComputeBinShaParent (pl_sha L)) k leaves)"
proof -
  let ?h = "ComputeBinShaParent (pl_sha L)"
  have "length (tree_path ?h k xs j) = k" for k j and xs :: "node list" by (induction k arbitrary: xs j) simp_all
  then show ?thesis
    using FromSnapshot_tree [OF assms(1-3)] MemtreeProof_tree [OF assms(2,4), of ?h] tree_path_verifies [OF assms(2,4), of ?h]
    by (simp add: tree_proof_def)
qed

theorem MemtreeProof_verifies_witness:
  "\<exists>memtree p. BuildSha254MemtreeFromSnapshot ex_lib ex_leaves = Inr memtree \<and>
    MemtreeProof memtree 3 = Some (Inr p) \<and> mp_Leaf p = ex_leaves ! 3 \<and> length (mp_Proof p) = 5"
proof -
  have "length ex_leaves = 2 ^ 5" by (simp add: ex_leaves_def ex_lib_def full_piece_def ex_piece_def length_ex_chunks)
  from MemtreeProof_verifies [OF ex_lib_ok this, of 3] show ?thesis
    by (auto simp: NODE_SIZE_def MaxMemtreeSize_def)
qed

text \<open>
  C8: A proof put together from a section of the piece and a cached layer of its tree is the
  proof that the whole tree gives: for every leaf, any layer from the second one up, and a
  piece of any length up to the padded size.
\<close>

theorem GenerateCachedProof_equals_full:
  assumes "piece_lib_ok L" "h = ComputeBinShaParent (pl_sha L)"
    and "length piece \<le> 127 * 2 ^ (j + m)" "leaves = pl_Pad L (full_piece piece (127 * 2 ^ (j + m)))"
    and "128 * 2 ^ (j + m) \<le> MaxMemtreeSize"
    and "caches_layer h (j + 2) leaves cache" "leaf < 2 ^ (j + 2 + m)"
  shows "\<exists>memtree p. BuildSha254Memtree L (full_piece piece (127 * 2 ^ (j + m))) (127 * 2 ^ (j + m)) = Inr memtree \<and>
    MemtreeProof memtree (int leaf) = Some (Inr p) \<and>
    GenerateCachedProof L (Inr piece) cache leaf = Some (Inr (Some p))"
proof -
  let ?sz = "127 * 2 ^ (j + m) :: nat"
  have full: "length (full_piece piece ?sz) = ?sz" using assms(3) by (simp add: full_piece_def)
  then have len: "length leaves = 2 ^ (j + 2 + m)" using assms(1,4) by (simp add: piece_lib_ok_def power_add)
  have "(2 :: nat) ^ j \<le> 2 ^ (j + m)" "(2 :: nat) ^ m \<le> 2 ^ (j + m)" by (intro power_increasing; simp)+
  then have fits: "128 * 2 ^ j \<le> MaxMemtreeSize" "2 ^ m * NODE_SIZE \<le> MaxMemtreeSize"
    using assms(5) unfolding NODE_SIZE_def by linarith+
  have "BuildSha254Memtree L (full_piece piece ?sz) ?sz = Inr (flat_tree h (j + 2 + m) leaves)"
    using Memtree_tree [OF assms(1) refl assms(5)] full assms(2,4) by (simp add: add.commute add.left_commute)
  then show ?thesis
    using MemtreeProof_tree [OF len assms(7), of h] cached_proof_tree [OF assms(1-4) fits assms(6,7)] by blast
qed

theorem GenerateCachedProof_equals_full_witness:
  "\<exists>memtree p. BuildSha254Memtree ex_lib (full_piece ex_piece (127 * 2 ^ (1 + 2))) (127 * 2 ^ (1 + 2)) = Inr memtree \<and>
    MemtreeProof memtree (int 21) = Some (Inr p) \<and> GenerateCachedProof ex_lib (Inr ex_piece) ex_cache 21 = Some (Inr (Some p))"
proof (rule GenerateCachedProof_equals_full [OF ex_lib_ok refl])
  show "length ex_piece \<le> 127 * 2 ^ (1 + 2)" by (simp add: ex_piece_def)
  show "ex_leaves = pl_Pad ex_lib (full_piece ex_piece (127 * 2 ^ (1 + 2)))" by (rule ex_leaves_def)
  show "128 * 2 ^ (1 + 2) \<le> MaxMemtreeSize" "(21 :: nat) < 2 ^ (1 + 2 + 2)" by (simp_all add: MaxMemtreeSize_def)
  show "caches_layer (ComputeBinShaParent (pl_sha ex_lib)) (1 + 2) ex_leaves ex_cache"
    by (simp add: caches_layer_def ex_cache_def Let_def)
qed

text \<open>
  On an empty buffer, which is what an empty cached layer gives, \<open>MemtreeProof\<close> does not
  return.
\<close>

theorem MemtreeProof_empty_diverges: "MemtreeProof [] i = None"
  by (simp add: MemtreeProof_def proof_levels_diverges)

end
