(* ===== verification/TreeD.thy ===== *)
theory TreeD
  imports MemTree
begin

unbundle bit_operations_syntax

text \<open>
  The file of the data tree of a sector (\<open>lib/proof/treed_build.go\<close>). The data is cut into
  chunks that worker goroutines hash, each into its own buffers, and write to their places
  in every layer of the file; the tops of the chunks are the bottom of the apex tree, which is
  hashed and written at the end.

  The workers write to disjoint places, so their interleaving is an order of the chunks.
  Buffers come from a pool and hold what an earlier use left in them. Errors of the file
  system end the function and are left out.
\<close>

section \<open>Hashing a chunk\<close>

function trailing_ones :: "nat \<Rightarrow> nat" where
  "trailing_ones n = (if odd n then Suc (trailing_ones (n div 2)) else 0)"
  by pat_completeness auto
termination
  by (relation "measure id") (auto elim: oddE)

declare trailing_ones.simps [simp del]

text \<open>The inner loop: the new node and, as long as it is a right child, its parent.\<close>

fun hash_up :: "('a \<Rightarrow> 'a \<Rightarrow> 'a) \<Rightarrow> nat \<Rightarrow> nat \<Rightarrow> int \<Rightarrow> nat \<Rightarrow> 'a list list \<Rightarrow> 'a list list" where
  "hash_up h 0 l inNode outNode dat = dat"
| "hash_up h (Suc n) l inNode outNode dat =
     hash_up h n (l + 1) ((inNode - 1) div 2) (outNode div 2)
       (dat[l + 1 := (dat ! (l + 1))[outNode := h (dat ! l ! nat inNode) (dat ! l ! nat (inNode + 1))]])"

definition hashChunk :: "('a \<Rightarrow> 'a \<Rightarrow> 'a) \<Rightarrow> 'a list list \<Rightarrow> 'a list list" where
  "hashChunk h dat =
     fold (\<lambda>i dat. hash_up h (trailing_ones i + 1) 0 (int (i * 2)) i dat) [0..<length (hd dat) div 2] dat"

section \<open>Places in the file\<close>

fun bits_Len :: "nat \<Rightarrow> nat" where
  "bits_Len n = (if n = 0 then 0 else Suc (bits_Len (n div 2)))"

declare bits_Len.simps [simp del]

definition layerOffset :: "uint64 \<Rightarrow> nat \<Rightarrow> uint64" where
  "layerOffset sz layer =
     (let allOnes = - 1;
          layerOnes = drop_bit (64 - layer) allOnes;
          sizeBitPos = int (bits_Len (unat sz)) - 1
      in push_bit (nat (sizeBitPos - (int layer - 1))) layerOnes)"

definition binTreeSize :: "nat \<Rightarrow> nat" where
  "binTreeSize dat = fst (computeTotalNodes (dat div NODE_SIZE)) * NODE_SIZE"

text \<open>The node position of a layer, for a size in bytes.\<close>

definition layer_pos :: "nat \<Rightarrow> nat \<Rightarrow> nat" where
  "layer_pos sz layer = unat (layerOffset (word_of_nat sz) layer) div NODE_SIZE"

definition write_at :: "nat \<Rightarrow> 'a list \<Rightarrow> 'a list \<Rightarrow> 'a list" where
  "write_at off xs file = take off file @ xs @ drop (off + length xs) file"

section \<open>Reading\<close>

definition nodeSize :: nat where "nodeSize = 32"
definition threadChunkSize :: nat where "threadChunkSize = 2 ^ 20"

fun split_nodes :: "nat \<Rightarrow> byte list \<Rightarrow> node list" where
  "split_nodes 0 xs = []"
| "split_nodes (Suc n) xs = take 32 xs # split_nodes n (drop 32 xs)"

text \<open>
  A full read fills the buffer; at the end of the data nothing is read, \<open>io.EOF\<close> is not an
  error and the buffer keeps its content; a part of a chunk is an error.
\<close>

definition read_chunk :: "piece_lib \<Rightarrow> bool \<Rightarrow> nat \<Rightarrow> byte list \<Rightarrow> (nat \<Rightarrow> node list) \<Rightarrow> nat \<Rightarrow> tree_error + node list" where
  "read_chunk L unpaddedData bottom rawIn dirty q =
     (let need = (if unpaddedData then pl_Unpadded L bottom else bottom);
          got = take need (drop (q * need) rawIn)
      in if length got = need then Inr (if unpaddedData then pl_Pad L got else split_nodes (bottom div nodeSize) got)
         else if got = [] then Inr (dirty q)
         else Inl ShortRead)"

section \<open>The file\<close>

record tree_file =
  tf_out :: "node list"
  tf_apex :: "node list"

text \<open>Writes the layers of a chunk, the bottom one first.\<close>

fun write_layers :: "nat \<Rightarrow> nat \<Rightarrow> nat \<Rightarrow> node list list \<Rightarrow> node list \<Rightarrow> node list" where
  "write_layers sz layer offsetInLayer [] out = out"
| "write_layers sz layer offsetInLayer (layerData # rest) out =
     write_layers sz (layer + 1) (offsetInLayer div 2) rest (write_at (offsetInLayer + layer_pos sz layer) layerData out)"

definition do_chunk ::
  "(node \<Rightarrow> node \<Rightarrow> node) \<Rightarrow> nat \<Rightarrow> nat \<Rightarrow> (nat \<Rightarrow> node list) \<Rightarrow> (nat \<Rightarrow> node list list) \<Rightarrow> nat \<Rightarrow> tree_file \<Rightarrow> tree_file" where
  "do_chunk h sz chunkNodes chunk bufs q f =
     (let work = hashChunk h (chunk q # bufs q)
      in f\<lparr>tf_apex := write_at q (last work) (tf_apex f),
           tf_out := write_layers sz 0 (q * chunkNodes) work (tf_out f)\<rparr>)"

fun write_apex :: "nat \<Rightarrow> nat \<Rightarrow> node list list \<Rightarrow> node list \<Rightarrow> node list" where
  "write_apex sz layer [] out = out"
| "write_apex sz layer (layerData # rest) out =
     write_apex sz (layer + 1) rest (write_at (layer_pos sz layer) layerData out)"

text \<open>
  \<open>order\<close> is the order in which the chunks are worked on, \<open>bufs q\<close> the upper buffers used
  for chunk \<open>q\<close>, \<open>dirty q\<close> the bottom buffer before it is read, \<open>out0\<close>, \<open>apex0\<close> and
  \<open>apex_bufs\<close> the initial content of the file and of the apex buffers.
\<close>

definition BuildTreeD ::
  "piece_lib \<Rightarrow> bool \<Rightarrow> byte list \<Rightarrow> nat \<Rightarrow> nat list \<Rightarrow> (nat \<Rightarrow> node list list) \<Rightarrow> (nat \<Rightarrow> node list) \<Rightarrow>
   node list \<Rightarrow> node list \<Rightarrow> node list list \<Rightarrow> tree_error + (node list \<times> node)" where
  "BuildTreeD L unpaddedData rawIn sz order bufs dirty out0 apex0 apex_bufs =
     (let bottom = min threadChunkSize sz;
          chunks = map (read_chunk L unpaddedData bottom rawIn dirty) [0..<sz div bottom];
          h = ComputeBinShaParent (pl_sha L)
      in if list_ex isl chunks then Inl ShortRead
         else
           let f = fold (do_chunk h sz (bottom div nodeSize) (\<lambda>q. projr (chunks ! q)) bufs) order
                     \<lparr>tf_out = out0, tf_apex = apex0\<rparr>;
               threadLayers = bits_Len (bottom div nodeSize);
               apex = hashChunk h (tf_apex f # apex_bufs)
           in Inr (write_apex sz threadLayers (tl apex) (tf_out f), hd (last apex)))"

section \<open>Hashing a chunk gives the layers of its tree\<close>

text \<open>
  After \<open>n\<close> rounds the first \<open>n div 2 ^ l\<close> nodes of layer \<open>l + 1\<close> are there.
\<close>

definition chunk_inv :: "('a \<Rightarrow> 'a \<Rightarrow> 'a) \<Rightarrow> nat \<Rightarrow> 'a list \<Rightarrow> nat \<Rightarrow> 'a list list \<Rightarrow> bool" where
  "chunk_inv h k xs n dat \<longleftrightarrow>
     length dat = Suc k \<and> dat ! 0 = xs \<and>
     (\<forall>l<k. length (dat ! Suc l) = 2 ^ (k - Suc l) \<and>
        (\<forall>i. i < n div 2 ^ l \<longrightarrow> i < 2 ^ (k - Suc l) \<longrightarrow> dat ! Suc l ! i = tree_layer h (Suc l) xs ! i))"

text \<open>In the round of node \<open>n\<close>, the layers below \<open>l\<close> are done and the others not yet.\<close>

definition round_inv :: "('a \<Rightarrow> 'a \<Rightarrow> 'a) \<Rightarrow> nat \<Rightarrow> 'a list \<Rightarrow> nat \<Rightarrow> nat \<Rightarrow> 'a list list \<Rightarrow> bool" where
  "round_inv h k xs n l dat \<longleftrightarrow>
     length dat = Suc k \<and> dat ! 0 = xs \<and>
     (\<forall>j<k. length (dat ! Suc j) = 2 ^ (k - Suc j) \<and>
        (\<forall>i. i < (if j < l then Suc n else n) div 2 ^ j \<longrightarrow> i < 2 ^ (k - Suc j) \<longrightarrow>
           dat ! Suc j ! i = tree_layer h (Suc j) xs ! i))"

lemma tree_layer_Suc: "tree_layer h (Suc l) xs = pairs h (tree_layer h l xs)"
  by (induction l arbitrary: xs) simp_all

lemma tree_layer_nth:
  assumes "length xs = 2 ^ k" "l < k" "i < 2 ^ (k - Suc l)"
  shows "tree_layer h (Suc l) xs ! i = h (tree_layer h l xs ! (2 * i)) (tree_layer h l xs ! (2 * i + 1))"
proof -
  have "length (tree_layer h l xs) = 2 ^ (k - l)" using assms(1,2) by (simp add: length_tree_layer power_diff)
  moreover have "(2 :: nat) ^ (k - l) = 2 * 2 ^ (k - Suc l)" using assms(2) by (metis Suc_diff_Suc power_Suc)
  ultimately have "2 * i + 1 < length (tree_layer h l xs)" using assms(3) by linarith
  then show ?thesis unfolding tree_layer_Suc by (rule nth_pairs)
qed

lemma trailing_ones_dvd: "l \<le> trailing_ones n \<longleftrightarrow> 2 ^ l dvd Suc n"
proof (induction l arbitrary: n)
  case (Suc l)
  show ?case
  proof (cases "odd n")
    case True
    then obtain m where m: "n = 2 * m + 1" by (auto elim: oddE)
    then have "trailing_ones n = Suc (trailing_ones m)" by (subst trailing_ones.simps) simp
    moreover have "2 ^ Suc l dvd Suc n \<longleftrightarrow> 2 ^ l dvd Suc m"
    proof -
      have "Suc n = 2 * Suc m" by (simp add: m)
      then show ?thesis by (simp only: power_Suc nat_mult_dvd_cancel_disj) simp
    qed
    ultimately show ?thesis using Suc by simp
  next
    case False
    then have "trailing_ones n = 0" by (subst trailing_ones.simps) simp
    moreover have "\<not> 2 ^ Suc l dvd Suc n" using False by (metis dvd_mult_left even_Suc power_Suc)
    ultimately show ?thesis by simp
  qed
qed simp

lemma div_2_pow: "n div (2 * 2 ^ l) = n div 2 ^ l div (2 :: nat)"
  by (simp add: div_mult2_eq [symmetric] mult.commute)

lemma div_Suc_dvd: "2 ^ l dvd Suc n \<Longrightarrow> Suc n div 2 ^ l = Suc (n div 2 ^ l)"
  by (simp add: div_Suc dvd_eq_mod_eq_0)

lemma div_Suc_not_dvd: "\<not> 2 ^ l dvd Suc n \<Longrightarrow> Suc n div 2 ^ l = n div 2 ^ l"
  by (simp add: div_Suc dvd_eq_mod_eq_0)

lemma round_nth:
  assumes inv: "round_inv h k xs n l dat" and l: "l \<le> k" "2 ^ l dvd Suc n" and i: "i < 2 * Suc (n div 2 ^ l)" and n: "Suc n \<le> 2 ^ k div 2"
  shows "dat ! l ! i = tree_layer h l xs ! i"
proof (cases l)
  case 0
  then show ?thesis using inv by (simp add: round_inv_def)
next
  case (Suc j)
  have "Suc n div 2 ^ j = 2 * Suc (n div 2 ^ l)"
  proof -
    obtain q where q: "Suc n = 2 ^ l * q" using l(2) by (auto elim: dvdE)
    then have "Suc n div 2 ^ j = 2 * q" "Suc n div 2 ^ l = q" by (simp_all add: Suc)
    then show ?thesis using div_Suc_dvd [OF l(2)] by simp
  qed
  then have "i < Suc n div 2 ^ j" using i by simp
  moreover have "Suc n div 2 ^ j \<le> 2 ^ (k - Suc j)"
  proof -
    have "Suc n \<le> 2 ^ j * 2 ^ (k - Suc j)" using n l(1) Suc by (cases k) (simp_all flip: power_add)
    then have "Suc n div 2 ^ j \<le> 2 ^ j * 2 ^ (k - Suc j) div 2 ^ j" by (rule div_le_mono)
    then show ?thesis by simp
  qed
  ultimately show ?thesis using inv l(1) Suc by (simp add: round_inv_def)
qed

lemma round_step:
  assumes inv: "round_inv h k xs n l dat" and l: "l < k" "2 ^ l dvd Suc n" and xs: "length xs = 2 ^ k" and n: "Suc n \<le> 2 ^ k div 2"
  shows "round_inv h k xs n (Suc l)
    (dat[Suc l := (dat ! Suc l)[n div 2 ^ l := h (dat ! l ! (2 * (n div 2 ^ l))) (dat ! l ! (2 * (n div 2 ^ l) + 1))]])"
proof -
  let ?a = "n div 2 ^ l"
  have a: "?a < 2 ^ (k - Suc l)"
  proof -
    have "2 ^ k div 2 = (2 :: nat) ^ l * 2 ^ (k - Suc l)" using l(1) by (cases k) (simp_all flip: power_add)
    then have "n < 2 ^ (k - Suc l) * 2 ^ l" using n by (simp add: mult.commute)
    then show ?thesis by (rule less_mult_imp_div_less)
  qed
  have new: "h (dat ! l ! (2 * ?a)) (dat ! l ! (2 * ?a + 1)) = tree_layer h (Suc l) xs ! ?a"
    using round_nth [OF inv _ l(2) _ n, of "2 * ?a"] round_nth [OF inv _ l(2) _ n, of "2 * ?a + 1"] l(1) tree_layer_nth [OF xs l(1) a, of h]
    by simp
  show ?thesis
    unfolding round_inv_def new
  proof (intro conjI allI impI)
    fix j i
    assume j: "j < k" and i: "i < (if j < Suc l then Suc n else n) div 2 ^ j" "i < 2 ^ (k - Suc j)"
    show "dat[Suc l := (dat ! Suc l)[?a := tree_layer h (Suc l) xs ! ?a]] ! Suc j ! i = tree_layer h (Suc j) xs ! i"
    proof (cases "j = l")
      case True
      then have "i < Suc ?a" using i(1) div_Suc_dvd [OF l(2)] by simp
      then show ?thesis using inv True l(1) a i(2) by (cases "i = ?a") (simp_all add: round_inv_def)
    next
      case False
      then show ?thesis using inv j i by (auto simp: round_inv_def split: if_splits)
    qed
  qed (use inv l(1) in \<open>auto simp: round_inv_def nth_list_update\<close>)
qed

lemma hash_up_round:
  assumes "round_inv h k xs n l dat" "l + m = Suc (trailing_ones n)" "length xs = 2 ^ k" "Suc n \<le> 2 ^ k div 2"
    and "m \<noteq> 0 \<Longrightarrow> inNode = 2 * int (n div 2 ^ l)" "outNode = n div 2 ^ l"
  shows "round_inv h k xs n (Suc (trailing_ones n)) (hash_up h m l inNode outNode dat)"
  using assms
proof (induction m arbitrary: l inNode outNode dat)
  case 0
  then show ?case by simp
next
  case (Suc m)
  let ?a = "n div 2 ^ l"
  have dvd: "2 ^ l dvd Suc n" using Suc.prems(2) by (simp flip: trailing_ones_dvd)
  have lk: "l < k"
  proof (rule ccontr)
    assume "\<not> l < k"
    then have "(2 :: nat) ^ k \<le> 2 ^ l" by simp
    moreover have "2 ^ l \<le> Suc n" using dvd by (simp add: dvd_imp_le)
    moreover have "(2 :: nat) ^ k div 2 < 2 ^ k" by simp
    ultimately show False using Suc.prems(4) by linarith
  qed
  have nats: "nat inNode = 2 * ?a" "nat (inNode + 1) = 2 * ?a + 1" using Suc.prems(5) by simp_all
  have out: "outNode div 2 = n div 2 ^ (l + 1)" using Suc.prems(6) by (simp add: div_2_pow)
  have inn: "(inNode - 1) div 2 = 2 * int (n div 2 ^ (l + 1))" if "m \<noteq> 0"
  proof -
    have "2 ^ Suc l dvd Suc n" using Suc.prems(2) that trailing_ones_dvd [of "Suc l" n] by simp
    then have "even (Suc n div 2 ^ l)" by (auto elim!: dvdE)
    then have odd: "odd ?a" using div_Suc_dvd [OF dvd] by simp
    have "n div 2 ^ (l + 1) = ?a div 2" by (simp add: div_2_pow)
    then show ?thesis using Suc.prems(5) odd by (auto elim!: oddE)
  qed
  have "round_inv h k xs n (l + 1) (dat[l + 1 := (dat ! (l + 1))[outNode := h (dat ! l ! nat inNode) (dat ! l ! nat (inNode + 1))]])"
    using round_step [OF Suc.prems(1) lk dvd Suc.prems(3,4)] nats Suc.prems(6) by simp
  from Suc.IH [OF this _ Suc.prems(3,4) inn out] Suc.prems(2) show ?case by simp
qed

lemma chunk_step:
  assumes "chunk_inv h k xs n dat" "length xs = 2 ^ k" "Suc n \<le> 2 ^ k div 2"
  shows "chunk_inv h k xs (Suc n) (hash_up h (trailing_ones n + 1) 0 (int (n * 2)) n dat)"
proof -
  let ?d = "hash_up h (trailing_ones n + 1) 0 (int (n * 2)) n dat"
  have "round_inv h k xs n 0 dat" using assms(1) by (simp add: chunk_inv_def round_inv_def)
  from hash_up_round [OF this _ assms(2,3), of "trailing_ones n + 1" "int (n * 2)" n]
  have inv: "round_inv h k xs n (Suc (trailing_ones n)) ?d" by simp
  have "Suc n div 2 ^ j = (if j < Suc (trailing_ones n) then Suc n else n) div 2 ^ j" for j
    using div_Suc_not_dvd [of j n] trailing_ones_dvd [of j n] by auto
  then show ?thesis using inv by (simp add: chunk_inv_def round_inv_def)
qed

lemma hashChunk_layers:
  assumes "length xs = 2 ^ k" "length bufs = k" "\<And>l. l < k \<Longrightarrow> length (bufs ! l) = 2 ^ (k - Suc l)"
  shows "hashChunk h (xs # bufs) = map (\<lambda>l. tree_layer h l xs) [0..<Suc k]"
proof -
  let ?step = "\<lambda>i dat. hash_up h (trailing_ones i + 1) 0 (int (i * 2)) i dat"
  have inv: "chunk_inv h k xs n (fold ?step [0..<n] (xs # bufs))" if "n \<le> 2 ^ k div 2" for n
    using that
  proof (induction n)
    case 0
    then show ?case using assms by (simp add: chunk_inv_def)
  next
    case (Suc n)
    then show ?case using chunk_step [OF _ assms(1)] by simp
  qed
  let ?d = "hashChunk h (xs # bufs)"
  have d: "chunk_inv h k xs (2 ^ k div 2) ?d" using inv [of "2 ^ k div 2"] assms(1) by (simp add: hashChunk_def)
  show ?thesis
  proof (rule nth_equalityI)
    show "length ?d = length (map (\<lambda>l. tree_layer h l xs) [0..<Suc k])" using d by (simp add: chunk_inv_def)
    fix l
    assume "l < length ?d"
    then have l: "l < Suc k" using d by (simp add: chunk_inv_def)
    have "?d ! l = tree_layer h l xs"
    proof (cases l)
      case 0
      then show ?thesis using d by (simp add: chunk_inv_def)
    next
      case (Suc j)
      then have j: "j < k" using l by simp
      then have len: "length (?d ! Suc j) = 2 ^ (k - Suc j)" using d by (simp add: chunk_inv_def)
      have "2 ^ k div 2 div 2 ^ j = (2 :: nat) ^ (k - Suc j)"
        using j by (cases k) (simp_all add: power_diff)
      then have "?d ! Suc j ! i = tree_layer h (Suc j) xs ! i" if "i < 2 ^ (k - Suc j)" for i
        using d j that by (simp add: chunk_inv_def)
      moreover have "length (tree_layer h (Suc j) xs) = 2 ^ (k - Suc j)"
        unfolding length_tree_layer assms(1) using j by (simp add: power_diff)
      ultimately show ?thesis using len Suc by (auto intro: nth_equalityI)
    qed
    then show "?d ! l = map (\<lambda>l. tree_layer h l xs) [0..<Suc k] ! l" using l by (simp del: upt_Suc)
  qed
qed

section \<open>The places of the layers\<close>

definition lpos :: "nat \<Rightarrow> nat \<Rightarrow> nat" where
  "lpos k l = 2 ^ Suc k - 2 ^ (Suc k - l)"

lemma unat_word64: "n < 2 ^ 64 \<Longrightarrow> unat (word_of_nat n :: uint64) = n"
  by (simp add: unat_of_nat)

lemma bits_Len_pow: "bits_Len (2 ^ s) = Suc s"
proof (induction s)
  case 0
  show ?case by (simp add: bits_Len.simps)
next
  case (Suc s)
  then show ?case by (subst bits_Len.simps) simp
qed

lemma unat_layerOffset:
  assumes "s < 63" "layer \<le> Suc s"
  shows "unat (layerOffset (word_of_nat (2 ^ s)) layer) = (2 ^ layer - 1) * 2 ^ (Suc s - layer)"
proof -
  have "(2 :: nat) ^ s < 2 ^ 64" using assms(1) by (intro power_strict_increasing) simp_all
  then have "unat (word_of_nat (2 ^ s) :: uint64) = 2 ^ s" by (rule unat_word64)
  moreover have "drop_bit (64 - layer) (- 1 :: uint64) = mask layer"
    using assms by (intro bit_word_eqI) (auto simp: bit_drop_bit_eq bit_mask_iff)
  moreover have "nat (int (Suc s) - 1 - (int layer - 1)) = Suc s - layer" by simp
  ultimately have "layerOffset (word_of_nat (2 ^ s)) layer = push_bit (Suc s - layer) (mask layer)"
    by (simp add: layerOffset_def bits_Len_pow)
  also have "\<dots> = word_of_nat ((2 ^ layer - 1) * 2 ^ (Suc s - layer))"
    by (simp add: push_bit_eq_mult mask_eq_exp_minus_1 of_nat_diff)
  finally have eq: "layerOffset (word_of_nat (2 ^ s)) layer = word_of_nat ((2 ^ layer - 1) * 2 ^ (Suc s - layer))" .
  have "(2 ^ layer - 1) * 2 ^ (Suc s - layer) < (2 :: nat) ^ layer * 2 ^ (Suc s - layer)" by simp
  also have "\<dots> = 2 ^ Suc s" using assms(2) by (simp flip: power_add)
  also have "\<dots> < 2 ^ 64" using assms(1) by (intro power_strict_increasing) simp_all
  finally show ?thesis unfolding eq by (rule unat_word64)
qed

lemma layer_pos_lpos:
  assumes "k < 58" "l \<le> Suc k"
  shows "layer_pos (32 * 2 ^ k) l = lpos k l"
proof -
  have size: "32 * 2 ^ k = (2 :: nat) ^ (k + 5)" by (simp add: power_add)
  have "(2 ^ l - 1) * 2 ^ (Suc (k + 5) - l) = (2 ^ l - 1) * 2 ^ (Suc k - l) * (32 :: nat)"
  proof -
    have "Suc (k + 5) - l = (Suc k - l) + 5" using assms(2) by simp
    then show ?thesis by (simp only: power_add) simp
  qed
  also have "(2 ^ l - 1) * 2 ^ (Suc k - l) = lpos k l"
    using assms(2) by (simp add: lpos_def diff_mult_distrib flip: power_add)
  finally show ?thesis
    using unat_layerOffset [of "k + 5" l] assms unfolding layer_pos_def size by (simp add: NODE_SIZE_def)
qed

lemma lpos_Suc: "l \<le> k \<Longrightarrow> lpos k (Suc l) = lpos k l + 2 ^ (k - l)"
proof -
  assume "l \<le> k"
  then have "(2 :: nat) ^ (Suc k - l) = 2 * 2 ^ (k - l)" "(2 :: nat) ^ (Suc k - l) \<le> 2 ^ Suc k"
    by (simp_all add: Suc_diff_le del: power_Suc) (simp add: Suc_diff_le)
  then show ?thesis unfolding lpos_def by simp
qed

lemma lpos_mono: "l < l' \<Longrightarrow> l' \<le> Suc k \<Longrightarrow> lpos k l + 2 ^ (k - l) \<le> lpos k l'"
proof (induction l')
  case (Suc l')
  then show ?case using lpos_Suc [of l' k] by (cases "l = l'") auto
qed simp

lemma lpos_inj:
  assumes "lpos k l + i = lpos k l' + i'" "l \<le> k" "l' \<le> k" "i < 2 ^ (k - l)" "i' < 2 ^ (k - l')"
  shows "l = l' \<and> i = i'"
  using lpos_mono [of l l' k] lpos_mono [of l' l k] assms by (cases l l' rule: linorder_cases) auto

lemma lpos_bound: "l \<le> k \<Longrightarrow> i < 2 ^ (k - l) \<Longrightarrow> lpos k l + i < 2 ^ Suc k - 1"
proof -
  assume "l \<le> k" "i < 2 ^ (k - l)"
  moreover have "lpos k (Suc k) = 2 ^ Suc k - 1" by (simp add: lpos_def)
  ultimately show ?thesis using lpos_mono [of l "Suc k" k] by simp
qed

lemma lpos_cases:
  assumes "p < 2 ^ Suc k - 1"
  obtains l i where "l \<le> k" "i < 2 ^ (k - l)" "p = lpos k l + i"
proof -
  have ex: "p < lpos k m \<Longrightarrow> m \<le> Suc k \<Longrightarrow> \<exists>l i. l \<le> k \<and> i < 2 ^ (k - l) \<and> p = lpos k l + i" for m
  proof (induction m)
    case 0
    then show ?case by (simp add: lpos_def)
  next
    case (Suc m)
    show ?case
    proof (cases "p < lpos k m")
      case False
      then have "m \<le> k \<and> p - lpos k m < 2 ^ (k - m) \<and> p = lpos k m + (p - lpos k m)"
        using Suc.prems lpos_Suc [of m k] by simp
      then show ?thesis by blast
    qed (use Suc in simp)
  qed
  have "lpos k (Suc k) = 2 ^ Suc k - 1" by (simp add: lpos_def)
  then obtain l i where "l \<le> k" "i < 2 ^ (k - l)" "p = lpos k l + i" using ex [of "Suc k"] assms by auto
  then show ?thesis by (rule that)
qed

lemma flat_tree_nth:
  assumes "length xs = 2 ^ k" "l \<le> k" "i < 2 ^ (k - l)"
  shows "flat_tree h k xs ! (lpos k l + i) = tree_layer h l xs ! i"
  using assms
proof (induction k arbitrary: xs l)
  case 0
  then show ?case by (simp add: lpos_def)
next
  case (Suc k)
  show ?case
  proof (cases l)
    case 0
    then show ?thesis using Suc.prems by (simp add: lpos_def nth_append)
  next
    case (Suc j)
    have "lpos (Suc k) (Suc j) = length xs + lpos k j"
    proof -
      have "(2 :: nat) ^ (Suc k - j) \<le> 2 ^ Suc k" by (rule power_increasing) simp_all
      then show ?thesis using Suc.prems(1) by (simp add: lpos_def)
    qed
    then show ?thesis using Suc Suc.IH [of "pairs h xs" j] Suc.prems by (simp add: nth_append length_pairs)
  qed
qed

section \<open>Writing the layers\<close>

lemma length_write_at [simp]: "off + length xs \<le> length file \<Longrightarrow> length (write_at off xs file) = length file"
  by (simp add: write_at_def)

lemma nth_write_at:
  assumes "off + length xs \<le> length file"
  shows "write_at off xs file ! p = (if off \<le> p \<and> p < off + length xs then xs ! (p - off) else file ! p)"
  using assms by (auto simp: write_at_def nth_append)

text \<open>A part of a layer is written at its place and nowhere else.\<close>

lemma write_part:
  assumes len: "length out = 2 ^ Suc k - 1" and xs: "length xs = 2 ^ (c - l)" and l: "l \<le> c" "c \<le> k" and q: "q < 2 ^ (k - c)"
  shows "length (write_at (q * 2 ^ (c - l) + lpos k l) xs out) = 2 ^ Suc k - 1"
    "l' \<le> k \<Longrightarrow> i < 2 ^ (k - l') \<Longrightarrow> write_at (q * 2 ^ (c - l) + lpos k l) xs out ! (lpos k l' + i) =
       (if l' = l \<and> i div 2 ^ (c - l) = q then xs ! (i mod 2 ^ (c - l)) else out ! (lpos k l' + i))"
proof -
  let ?n = "2 ^ (c - l) :: nat"
  have "Suc q * ?n \<le> 2 ^ (k - c) * ?n" using q by (intro mult_right_mono) simp_all
  also have "\<dots> = 2 ^ (k - l)" using l by (simp flip: power_add)
  finally have top: "q * ?n + ?n \<le> 2 ^ (k - l)" by simp
  have "lpos k l + 2 ^ (k - l) \<le> 2 ^ Suc k - 1"
    using lpos_mono [of l "Suc k" k] l by (simp add: lpos_def)
  then have fits: "q * ?n + lpos k l + length xs \<le> length out" using top len xs by simp
  then show "length (write_at (q * ?n + lpos k l) xs out) = 2 ^ Suc k - 1" using len by simp
  assume l': "l' \<le> k" "i < 2 ^ (k - l')"
  show "write_at (q * ?n + lpos k l) xs out ! (lpos k l' + i) =
      (if l' = l \<and> i div ?n = q then xs ! (i mod ?n) else out ! (lpos k l' + i))"
  proof (cases "l' = l")
    case True
    have "q * ?n + lpos k l \<le> lpos k l' + i \<and> lpos k l' + i < q * ?n + lpos k l + ?n \<longleftrightarrow> i div ?n = q"
      using True div_nat_eqI [of ?n q i] div_times_less_eq_dividend [of i ?n] dividend_less_div_times [of ?n i] by (auto simp: mult.commute)
    moreover have "lpos k l' + i - (q * ?n + lpos k l) = i mod ?n" if "i div ?n = q"
      using that True by (simp add: minus_div_mult_eq_mod [symmetric])
    ultimately show ?thesis using True xs by (simp add: nth_write_at [OF fits])
  next
    case False
    have "\<not> (q * ?n + lpos k l \<le> lpos k l' + i \<and> lpos k l' + i < q * ?n + lpos k l + ?n)"
    proof
      assume "q * ?n + lpos k l \<le> lpos k l' + i \<and> lpos k l' + i < q * ?n + lpos k l + ?n"
      then have "lpos k l' + i = lpos k l + (lpos k l' + i - lpos k l)" "lpos k l' + i - lpos k l < 2 ^ (k - l)" using top by auto
      then show False using lpos_inj [of k l' i l "lpos k l' + i - lpos k l"] l l' False by auto
    qed
    then show ?thesis using False xs by (auto simp: nth_write_at [OF fits])
  qed
qed

definition chunk_written :: "nat \<Rightarrow> nat \<Rightarrow> nat \<Rightarrow> nat \<Rightarrow> (nat \<Rightarrow> node list) \<Rightarrow> node list \<Rightarrow> node list \<Rightarrow> bool" where
  "chunk_written k c q l T out out' \<longleftrightarrow>
     length out' = 2 ^ Suc k - 1 \<and>
     (\<forall>l' i. l' \<le> k \<longrightarrow> i < 2 ^ (k - l') \<longrightarrow> out' ! (lpos k l' + i) =
        (if l \<le> l' \<and> l' \<le> c \<and> i div 2 ^ (c - l') = q then T l' ! (i mod 2 ^ (c - l')) else out ! (lpos k l' + i)))"

lemma write_layers_chunk:
  assumes "length out = 2 ^ Suc k - 1" "\<And>l. l \<le> c \<Longrightarrow> length (T l) = 2 ^ (c - l)" "c \<le> k" "q < 2 ^ (k - c)" "k < 58" "l \<le> Suc c"
    and "l \<le> c \<Longrightarrow> off = q * 2 ^ (c - l)"
  shows "chunk_written k c q l T out (write_layers (32 * 2 ^ k) l off (map T [l..<Suc c]) out)"
  using assms(1,6,7)
proof (induction "Suc c - l" arbitrary: l off out)
  case 0
  then show ?case by (auto simp: chunk_written_def)
next
  case (Suc d)
  have l: "l \<le> c" using Suc.hyps(2) by simp
  let ?out = "write_at (off + lpos k l) (T l) out"
  note w = write_part [OF Suc.prems(1) assms(2) [OF l] l assms(3,4)]
  have off: "off = q * 2 ^ (c - l)" using Suc.prems(3) l by simp
  have out_len: "length ?out = 2 ^ Suc k - 1" using w(1) off by simp
  have "off div 2 = q * 2 ^ (c - Suc l)" if "Suc l \<le> c"
    using that off by (simp add: Suc_diff_le flip: power_Suc) (metis Suc_diff_Suc Suc_le_lessD mult.left_commute nonzero_mult_div_cancel_left power_Suc zero_neq_numeral)
  from Suc.hyps(1) [OF _ out_len _ this] Suc.hyps(2) l
  have ih: "chunk_written k c q (Suc l) T ?out (write_layers (32 * 2 ^ k) (Suc l) (off div 2) (map T [Suc l..<Suc c]) ?out)"
    by simp
  have "write_layers (32 * 2 ^ k) l off (map T [l..<Suc c]) out =
      write_layers (32 * 2 ^ k) (Suc l) (off div 2) (map T [Suc l..<Suc c]) ?out"
    using l assms(3,5) layer_pos_lpos [of k l] by (simp add: upt_rec [of l] del: upt_Suc)
  then show ?case using ih w(2) off l unfolding chunk_written_def by (auto simp: not_less_eq_eq)
qed

lemma write_apex_layers:
  assumes "length out = 2 ^ Suc k - 1" "\<And>l. l \<le> k \<Longrightarrow> length (T l) = 2 ^ (k - l)" "k < 58" "l \<le> Suc k"
  shows "length (write_apex (32 * 2 ^ k) l (map T [l..<Suc k]) out) = 2 ^ Suc k - 1 \<and>
    (\<forall>l' i. l' \<le> k \<longrightarrow> i < 2 ^ (k - l') \<longrightarrow> write_apex (32 * 2 ^ k) l (map T [l..<Suc k]) out ! (lpos k l' + i) =
       (if l \<le> l' then T l' ! i else out ! (lpos k l' + i)))"
  using assms(1,4)
proof (induction "Suc k - l" arbitrary: l out)
  case 0
  then show ?case by auto
next
  case (Suc d)
  have l: "l \<le> k" using Suc.hyps(2) by simp
  let ?out = "write_at (lpos k l) (T l) out"
  have w: "length ?out = 2 ^ Suc k - 1"
    "l' \<le> k \<Longrightarrow> i < 2 ^ (k - l') \<Longrightarrow> ?out ! (lpos k l' + i) = (if l' = l then T l ! i else out ! (lpos k l' + i))" for l' i
    using write_part [OF Suc.prems(1) assms(2) [OF l] l le_refl, of 0] by auto
  have "write_apex (32 * 2 ^ k) l (map T [l..<Suc k]) out = write_apex (32 * 2 ^ k) (Suc l) (map T [Suc l..<Suc k]) ?out"
    using l assms(3) layer_pos_lpos [of k l] by (simp add: upt_rec [of l] del: upt_Suc)
  moreover from Suc.hyps(1) [OF _ w(1)] Suc.hyps(2) l
  have "length (write_apex (32 * 2 ^ k) (Suc l) (map T [Suc l..<Suc k]) ?out) = 2 ^ Suc k - 1 \<and>
    (\<forall>l' i. l' \<le> k \<longrightarrow> i < 2 ^ (k - l') \<longrightarrow> write_apex (32 * 2 ^ k) (Suc l) (map T [Suc l..<Suc k]) ?out ! (lpos k l' + i) =
       (if Suc l \<le> l' then T l' ! i else ?out ! (lpos k l' + i)))" by simp
  ultimately show ?case using w(2) by (auto simp: not_less_eq_eq)
qed

section \<open>The whole file\<close>

text \<open>Which buffers a worker and the apex have: one per layer above the bottom.\<close>

definition bufs_ok :: "nat \<Rightarrow> 'a list list \<Rightarrow> bool" where
  "bufs_ok c bufs \<longleftrightarrow> length bufs = c \<and> (\<forall>l<c. length (bufs ! l) = 2 ^ (c - Suc l))"

text \<open>After the chunks in \<open>S\<close>: their parts of the lower layers and of the apex are there.\<close>

definition chunks_done :: "(node \<Rightarrow> node \<Rightarrow> node) \<Rightarrow> nat \<Rightarrow> nat \<Rightarrow> node list \<Rightarrow> nat set \<Rightarrow> tree_file \<Rightarrow> bool" where
  "chunks_done h k c leaves S f \<longleftrightarrow>
     length (tf_out f) = 2 ^ Suc k - 1 \<and> length (tf_apex f) = 2 ^ (k - c) \<and>
     (\<forall>q\<in>S. tf_apex f ! q = tree_layer h c leaves ! q) \<and>
     (\<forall>l i. l \<le> c \<longrightarrow> i < 2 ^ (k - l) \<longrightarrow> i div 2 ^ (c - l) \<in> S \<longrightarrow> tf_out f ! (lpos k l + i) = tree_layer h l leaves ! i)"

lemma chunk_layer:
  assumes "l \<le> c"
  shows "tree_layer h l (take (2 ^ c) (drop (2 ^ c * q) leaves)) = take (2 ^ (c - l)) (drop (2 ^ (c - l) * q) (tree_layer h l leaves))"
proof -
  have "2 ^ c = 2 ^ l * (2 :: nat) ^ (c - l)" using assms by (simp flip: power_add)
  then show ?thesis using section_layer [of h l "2 ^ (c - l)" "2 ^ (c - l) * q" leaves] by (simp add: mult.assoc)
qed

lemma do_chunk_done:
  assumes f: "chunks_done h k c leaves S f" and len: "length leaves = 2 ^ k" and k: "c \<le> k" "k < 58" and q: "q < 2 ^ (k - c)"
    and b: "bufs_ok c (bufs q)" and ch: "chunk q = take (2 ^ c) (drop (2 ^ c * q) leaves)"
  shows "chunks_done h k c leaves (insert q S) (do_chunk h (32 * 2 ^ k) (2 ^ c) chunk bufs q f)"
proof -
  let ?T = "\<lambda>l. tree_layer h l (chunk q)"
  have "2 ^ c * Suc q \<le> 2 ^ c * 2 ^ (k - c)" using q by (intro mult_left_mono) simp_all
  then have "2 ^ c * q + 2 ^ c \<le> length leaves" using len k(1) by (simp flip: power_add)
  then have chl: "length (chunk q) = 2 ^ c" by (simp add: ch)
  then have Tlen: "length (?T l) = 2 ^ (c - l)" if "l \<le> c" for l using that by (simp add: length_tree_layer power_diff)
  have work: "hashChunk h (chunk q # bufs q) = map ?T [0..<Suc c]"
    using hashChunk_layers [OF chl] b by (simp add: bufs_ok_def)
  have out: "chunk_written k c q 0 ?T (tf_out f) (write_layers (32 * 2 ^ k) 0 (q * 2 ^ c) (map ?T [0..<Suc c]) (tf_out f))"
    using write_layers_chunk [OF _ Tlen k(1) q k(2), of "tf_out f" 0] f by (simp add: chunks_done_def)
  have top: "?T c = [tree_layer h c leaves ! q]"
  proof -
    have "q < length (tree_layer h c leaves)" using q len k(1) by (simp add: length_tree_layer power_diff)
    then show ?thesis using chunk_layer [of c c h q leaves] ch by (simp add: take_Suc hd_drop_conv_nth)
  qed
  have apex: "write_at q (?T c) (tf_apex f) = (tf_apex f)[q := tree_layer h c leaves ! q]"
    using f q unfolding top by (simp add: write_at_def chunks_done_def upd_conv_take_nth_drop)
  have part: "?T l ! (i mod 2 ^ (c - l)) = tree_layer h l leaves ! i" if "l \<le> c" "i < 2 ^ (k - l)" "i div 2 ^ (c - l) = q" for l i
  proof -
    have "i = 2 ^ (c - l) * q + i mod 2 ^ (c - l)" using that(3) by (metis mult_div_mod_eq)
    moreover have "length (tree_layer h l leaves) = 2 ^ (k - l)" using len k(1) that(1) by (simp add: length_tree_layer power_diff)
    ultimately show ?thesis using that by (simp add: chunk_layer ch)
  qed
  have "do_chunk h (32 * 2 ^ k) (2 ^ c) chunk bufs q f =
      f\<lparr>tf_apex := (tf_apex f)[q := tree_layer h c leaves ! q],
        tf_out := write_layers (32 * 2 ^ k) 0 (q * 2 ^ c) (map ?T [0..<Suc c]) (tf_out f)\<rparr>"
    unfolding do_chunk_def Let_def work by (simp add: apex [symmetric])
  then show ?thesis using f out part k(1) q unfolding chunks_done_def chunk_written_def by (auto simp: nth_list_update)
qed

lemma fold_chunks_done:
  assumes "chunks_done h k c leaves S f" "length leaves = 2 ^ k" "c \<le> k" "k < 58"
    and "\<And>q. q \<in> set order \<Longrightarrow> q < 2 ^ (k - c)" "\<And>q. q < 2 ^ (k - c) \<Longrightarrow> bufs_ok c (bufs q)"
    and "\<And>q. q < 2 ^ (k - c) \<Longrightarrow> chunk q = take (2 ^ c) (drop (2 ^ c * q) leaves)"
  shows "chunks_done h k c leaves (S \<union> set order) (fold (do_chunk h (32 * 2 ^ k) (2 ^ c) chunk bufs) order f)"
  using assms(1,5)
proof (induction order arbitrary: S f)
  case (Cons q order)
  have "chunks_done h k c leaves (insert q S) (do_chunk h (32 * 2 ^ k) (2 ^ c) chunk bufs q f)"
    using do_chunk_done [OF Cons.prems(1) assms(2-4)] assms(6,7) Cons.prems(2) by simp
  from Cons.IH [OF this] Cons.prems(2) show ?case by simp
qed simp

lemma apex_finish:
  assumes f: "chunks_done h k c leaves {..<2 ^ (k - c)} f" and len: "length leaves = 2 ^ k" and k: "c \<le> k" "k < 58"
    and b: "bufs_ok (k - c) apex_bufs"
  shows "write_apex (32 * 2 ^ k) (Suc c) (tl (hashChunk h (tf_apex f # apex_bufs))) (tf_out f) = flat_tree h k leaves"
    "hd (last (hashChunk h (tf_apex f # apex_bufs))) = hd (tree_layer h k leaves)"
proof -
  have layer: "length (tree_layer h l leaves) = 2 ^ (k - l)" if "l \<le> k" for l
    using len that by (simp add: length_tree_layer power_diff)
  have apex: "tf_apex f = tree_layer h c leaves"
    using f layer [OF k(1)] by (intro nth_equalityI) (simp_all add: chunks_done_def)
  have hashed: "hashChunk h (tf_apex f # apex_bufs) = map (\<lambda>l. tree_layer h l leaves) [c..<Suc k]"
  proof -
    have "hashChunk h (tf_apex f # apex_bufs) = map (\<lambda>l. tree_layer h l (tree_layer h c leaves)) [0..<Suc (k - c)]"
      using hashChunk_layers [OF layer [OF k(1)]] b by (simp add: bufs_ok_def apex)
    also have "\<dots> = map (\<lambda>l. tree_layer h l leaves) (map (\<lambda>l. l + c) [0..<Suc (k - c)])"
      by (simp add: add.commute [of _ c] tree_layer_add del: upt_Suc)
    also have "map (\<lambda>l. l + c) [0..<Suc (k - c)] = [c..<Suc k]" using k(1) by (simp add: map_add_upt del: upt_Suc)
    finally show ?thesis .
  qed
  have tail: "tl (hashChunk h (tf_apex f # apex_bufs)) = map (\<lambda>l. tree_layer h l leaves) [Suc c..<Suc k]"
    unfolding hashed using k(1) by (simp add: map_tl [symmetric] tl_upt del: upt_Suc)
  show "hd (last (hashChunk h (tf_apex f # apex_bufs))) = hd (tree_layer h k leaves)"
    unfolding hashed using k(1) by (simp add: last_map)
  have out: "length (tf_out f) = 2 ^ Suc k - 1" using f by (simp add: chunks_done_def)
  note w = write_apex_layers [OF out layer k(2), of "Suc c", folded tail]
  show "write_apex (32 * 2 ^ k) (Suc c) (tl (hashChunk h (tf_apex f # apex_bufs))) (tf_out f) = flat_tree h k leaves"
  proof (rule nth_equalityI)
    show "length (write_apex (32 * 2 ^ k) (Suc c) (tl (hashChunk h (tf_apex f # apex_bufs))) (tf_out f)) = length (flat_tree h k leaves)"
      using w k(1) length_flat_tree [OF len, of h] by simp
    fix p
    assume "p < length (write_apex (32 * 2 ^ k) (Suc c) (tl (hashChunk h (tf_apex f # apex_bufs))) (tf_out f))"
    then have "p < 2 ^ Suc k - 1" using w k(1) by simp
    then obtain l i where p: "l \<le> k" "i < 2 ^ (k - l)" "p = lpos k l + i" by (rule lpos_cases)
    have "tf_out f ! p = tree_layer h l leaves ! i" if "l \<le> c"
    proof -
      have "i < 2 ^ (k - c) * 2 ^ (c - l)" using p(2) that k(1) by (simp flip: power_add)
      then have "i div 2 ^ (c - l) < 2 ^ (k - c)" by (rule less_mult_imp_div_less)
      then show ?thesis using f that p(2,3) by (simp add: chunks_done_def)
    qed
    then show "write_apex (32 * 2 ^ k) (Suc c) (tl (hashChunk h (tf_apex f # apex_bufs))) (tf_out f) ! p = flat_tree h k leaves ! p"
      using w k(1) p flat_tree_nth [OF len p(1,2), of h] by (auto simp: not_le)
  qed
qed

text \<open>When each chunk is read, the file is the tree over the chunks.\<close>

lemma BuildTreeD_chunks:
  assumes k: "k < 58" and c: "c = min 15 k" and order: "set order = {..<2 ^ (k - c)}"
    and bufs: "\<And>q. q < 2 ^ (k - c) \<Longrightarrow> bufs_ok c (bufs q)" "bufs_ok (k - c) apex_bufs"
    and lens: "length out0 = 2 ^ Suc k - 1" "length apex0 = 2 ^ (k - c)" "length leaves = 2 ^ k"
    and read: "\<And>q. q < 2 ^ (k - c) \<Longrightarrow> read_chunk L unp (32 * 2 ^ c) raw dirty q = Inr (take (2 ^ c) (drop (2 ^ c * q) leaves))"
    and h: "h = ComputeBinShaParent (pl_sha L)"
  shows "BuildTreeD L unp raw (32 * 2 ^ k) order bufs dirty out0 apex0 apex_bufs = Inr (flat_tree h k leaves, hd (tree_layer h k leaves))"
proof -
  let ?chunks = "map (read_chunk L unp (32 * 2 ^ c) raw dirty) [0..<2 ^ (k - c)]"
  let ?f = "fold (do_chunk h (32 * 2 ^ k) (2 ^ c) (\<lambda>q. projr (?chunks ! q)) bufs) order \<lparr>tf_out = out0, tf_apex = apex0\<rparr>"
  have ck: "c \<le> k" using c by simp
  have bottom: "min threadChunkSize (32 * 2 ^ k) = 32 * 2 ^ c"
  proof (cases "k \<le> 15")
    case True
    then have "(2 :: nat) ^ k \<le> 2 ^ 15" by (intro power_increasing) simp_all
    then show ?thesis using True by (simp add: c threadChunkSize_def min_def)
  next
    case False
    then have "(2 :: nat) ^ 15 \<le> 2 ^ k" by (intro power_increasing) simp_all
    then show ?thesis using False by (simp add: c threadChunkSize_def min_def)
  qed
  have nums: "32 * 2 ^ k div (32 * 2 ^ c) = (2 ^ (k - c) :: nat)" "32 * 2 ^ c div nodeSize = 2 ^ c"
    using ck by (simp_all add: power_diff nodeSize_def)
  have ok: "\<not> list_ex isl ?chunks" using read by (auto simp: list_ex_iff)
  have init: "chunks_done h k c leaves {} \<lparr>tf_out = out0, tf_apex = apex0\<rparr>" using lens by (simp add: chunks_done_def)
  have "chunks_done h k c leaves ({} \<union> set order) ?f"
    by (rule fold_chunks_done [OF init lens(3) ck k]) (use order bufs(1) read in auto)
  then have "chunks_done h k c leaves {..<2 ^ (k - c)} ?f" using order by simp
  from apex_finish [OF this lens(3) ck k bufs(2)] ok show ?thesis
    unfolding BuildTreeD_def Let_def bottom nums bits_Len_pow h by simp
qed

section \<open>Reading the data\<close>

definition input_leaves :: "piece_lib \<Rightarrow> bool \<Rightarrow> nat \<Rightarrow> byte list \<Rightarrow> node list" where
  "input_leaves L unpaddedData k raw =
     (if unpaddedData then pl_Pad L (take (127 * 2 ^ (k - 2)) raw) else split_nodes (2 ^ k) raw)"

definition input_ok :: "bool \<Rightarrow> nat \<Rightarrow> byte list \<Rightarrow> bool" where
  "input_ok unpaddedData k raw \<longleftrightarrow>
     (if unpaddedData then 2 \<le> k \<and> 127 * 2 ^ (k - 2) \<le> length raw else 32 * 2 ^ k \<le> length raw)"

lemma length_split_nodes [simp]: "length (split_nodes n xs) = n"
  by (induction n arbitrary: xs) simp_all

lemma nth_split_nodes: "i < n \<Longrightarrow> split_nodes n xs ! i = take 32 (drop (32 * i) xs)"
proof (induction n arbitrary: xs i)
  case (Suc n)
  then show ?case by (cases i) (simp_all add: add.commute)
qed simp

lemma split_nodes_section:
  assumes "m + n \<le> N"
  shows "split_nodes n (take (32 * n) (drop (32 * m) xs)) = take n (drop m (split_nodes N xs))"
proof (rule nth_equalityI)
  fix i
  assume "i < length (split_nodes n (take (32 * n) (drop (32 * m) xs)))"
  then have i: "i < n" "m + i < N" "32 * n - 32 * i \<ge> 32" using assms by auto
  then show "split_nodes n (take (32 * n) (drop (32 * m) xs)) ! i = take n (drop m (split_nodes N xs)) ! i"
    using assms by (simp add: nth_split_nodes drop_take min_def algebra_simps)
qed (use assms in simp)

lemma read_chunk_leaves:
  assumes ok: "piece_lib_ok L" and inp: "input_ok unp k raw" and c: "c \<le> k" "unp \<Longrightarrow> 2 \<le> c" and q: "q < 2 ^ (k - c)"
  shows "read_chunk L unp (32 * 2 ^ c) raw dirty q = Inr (take (2 ^ c) (drop (2 ^ c * q) (input_leaves L unp k raw)))"
proof -
  have "Suc q * 2 ^ c \<le> 2 ^ (k - c) * 2 ^ c" using q by (intro mult_right_mono) simp_all
  then have top: "q * 2 ^ c + 2 ^ c \<le> 2 ^ k" using c(1) by (simp flip: power_add)
  show ?thesis
  proof (cases unp)
    case True
    obtain d where d: "c = d + 2" using c(2) True by (metis le_Suc_ex add.commute)
    obtain e where e: "k = e + 2" using c d by (metis le_Suc_ex add.commute add.left_commute)
    have part: "2 ^ d + q * 2 ^ d \<le> 2 ^ e" using top by (simp add: d e power_add)
    have raw: "127 * 2 ^ e \<le> length raw" using inp True by (simp add: input_ok_def e)
    have need: "pl_Unpadded L (32 * 2 ^ c) = 127 * 2 ^ d"
    proof -
      have "32 * 2 ^ c = (128 * 2 ^ d :: nat)" by (simp add: d power_add)
      then show ?thesis using ok by (simp add: piece_lib_ok_def)
    qed
    have "127 * (2 ^ d + q * 2 ^ d) \<le> length raw" using mult_left_mono [OF part, of 127] raw by linarith
    then have got: "length (take (127 * 2 ^ d) (drop (q * (127 * 2 ^ d)) raw)) = 127 * 2 ^ d" by (simp add: algebra_simps)
    have "take (127 * 2 ^ d) (drop (q * (127 * 2 ^ d)) raw) = take (127 * 2 ^ d) (drop (127 * (q * 2 ^ d)) (take (127 * 2 ^ e) raw))"
      using mult_left_mono [OF part, of 127] by (simp add: drop_take min_def algebra_simps)
    moreover have "length (take (127 * 2 ^ e) raw) = 127 * 2 ^ e" using raw by simp
    moreover have "4 * 2 ^ d = (2 ^ c :: nat)" "4 * (q * 2 ^ d) = 2 ^ c * q" by (simp_all add: d power_add)
    ultimately have "pl_Pad L (take (127 * 2 ^ d) (drop (q * (127 * 2 ^ d)) raw)) = take (2 ^ c) (drop (2 ^ c * q) (pl_Pad L (take (127 * 2 ^ e) raw)))"
      using Pad_section [OF ok _ part] by (simp only:)
    then show ?thesis using True need got by (simp add: read_chunk_def input_leaves_def e Let_def)
  next
    case False
    have raw: "32 * 2 ^ k \<le> length raw" using inp False by (simp add: input_ok_def)
    have "32 * (q * 2 ^ c + 2 ^ c) \<le> length raw" using mult_left_mono [OF top, of 32] raw by linarith
    then have "length (take (32 * 2 ^ c) (drop (q * (32 * 2 ^ c)) raw)) = 32 * 2 ^ c" by (simp add: algebra_simps)
    moreover have "split_nodes (2 ^ c) (take (32 * 2 ^ c) (drop (q * (32 * 2 ^ c)) raw)) = take (2 ^ c) (drop (2 ^ c * q) (split_nodes (2 ^ k) raw))"
      using split_nodes_section [OF top, of raw] by (simp add: ac_simps)
    ultimately show ?thesis using False by (simp add: read_chunk_def input_leaves_def nodeSize_def Let_def)
  qed
qed

section \<open>Properties\<close>

text \<open>
  Hashing a chunk in the order of its first layer, each node with the parents it
  completes, gives every layer of the tree over the chunk, whatever the buffers held before.
\<close>

theorem hashChunk_layers_correct:
  assumes "length xs = 2 ^ k" "length bufs = k" "\<forall>l<k. length (bufs ! l) = 2 ^ (k - Suc l)"
  shows "hashChunk h (xs # bufs) = map (\<lambda>l. tree_layer h l xs) [0..<Suc k]"
  using hashChunk_layers [OF assms(1,2)] assms(3) by simp

theorem hashChunk_layers_correct_witness:
  "hashChunk (\<lambda>a b. a + 10 * b) [[1, 2, 3, 4 :: nat], [0, 0], [0]] = [[1, 2, 3, 4], [21, 43], [451]]"
  using hashChunk_layers_correct [of "[1, 2, 3, 4 :: nat]" 2 "[[0, 0], [0]]" "\<lambda>a b. a + 10 * b"]
  by (simp add: less_Suc_eq numeral_2_eq_2)

text \<open>
  C7: The file of the data tree holds all layers of the tree over the data, one after the
  other, and its commitment is the root: for padded and unpadded input of any power of two
  size, in whatever order the chunks are finished and whatever the buffers held.
\<close>

theorem BuildTreeD_correct:
  assumes "piece_lib_ok L" "k < 58" "input_ok unp k raw"
    and "set order = {..<2 ^ (k - min 15 k)}" "\<forall>q<2 ^ (k - min 15 k). bufs_ok (min 15 k) (bufs q)"
    and "bufs_ok (k - min 15 k) apex_bufs" "length apex0 = 2 ^ (k - min 15 k)"
    and "length out0 * NODE_SIZE = binTreeSize (32 * 2 ^ k)"
    and "h = ComputeBinShaParent (pl_sha L)"
  shows "BuildTreeD L unp raw (32 * 2 ^ k) order bufs dirty out0 apex0 apex_bufs =
    Inr (flat_tree h k (input_leaves L unp k raw), hd (tree_layer h k (input_leaves L unp k raw)))"
proof (rule BuildTreeD_chunks [OF assms(2) refl assms(4) _ assms(6) _ assms(7) _ _ assms(9)])
  show "length out0 = 2 ^ Suc k - 1"
    using assms(8) sum_level_sizes [of k] by (simp add: binTreeSize_def computeTotalNodes_def NODE_SIZE_def)
  show "length (input_leaves L unp k raw) = 2 ^ k"
  proof (cases unp)
    case True
    then obtain e where "k = e + 2" using assms(3) by (auto simp: input_ok_def dest: le_Suc_ex)
    then show ?thesis using assms(1,3) True by (simp add: input_leaves_def input_ok_def piece_lib_ok_def power_add)
  next
    case False
    then show ?thesis by (simp add: input_leaves_def)
  qed
  show "read_chunk L unp (32 * 2 ^ min 15 k) raw dirty q =
      Inr (take (2 ^ min 15 k) (drop (2 ^ min 15 k * q) (input_leaves L unp k raw)))" if "q < 2 ^ (k - min 15 k)" for q
    using read_chunk_leaves [OF assms(1,3) _ _ that] assms(3) by (auto simp: input_ok_def)
qed (use assms(5) in auto)

theorem BuildTreeD_correct_witness:
  "\<exists>out root. BuildTreeD ex_lib False (replicate 64 7) 64 [0] (\<lambda>_. [[[]]]) (\<lambda>_. []) [[], [], []] [[]] [] = Inr (out, root) \<and>
     length out = 3"
proof -
  have "BuildTreeD ex_lib False (replicate 64 7) (32 * 2 ^ 1) [0] (\<lambda>_. [[[]]]) (\<lambda>_. []) [[], [], []] [[]] [] =
      Inr (flat_tree (ComputeBinShaParent (pl_sha ex_lib)) 1 (input_leaves ex_lib False 1 (replicate 64 7)),
        hd (tree_layer (ComputeBinShaParent (pl_sha ex_lib)) 1 (input_leaves ex_lib False 1 (replicate 64 7))))"
    by (rule BuildTreeD_correct [OF ex_lib_ok _ _ _ _ _ _ _ refl])
      (auto simp: input_ok_def bufs_ok_def binTreeSize_def computeTotalNodes_def NODE_SIZE_def level_sizes.simps)
  then show ?thesis by (simp add: input_leaves_def length_pairs)
qed

text \<open>
  Input that ends before a chunk is no error: for up to one chunk of data the function
  reads nothing, succeeds, and the tree is over what the buffer held before.
\<close>

theorem BuildTreeD_empty_input:
  assumes "k \<le> 15" "length (dirty 0) = 2 ^ k" "bufs_ok k (bufs 0)" "length out0 = 2 ^ Suc k - 1" "length apex0 = 1"
    and "0 < pl_Unpadded L (32 * 2 ^ k)" "h = ComputeBinShaParent (pl_sha L)"
  shows "BuildTreeD L unp [] (32 * 2 ^ k) [0] bufs dirty out0 apex0 [] = Inr (flat_tree h k (dirty 0), hd (tree_layer h k (dirty 0)))"
proof (rule BuildTreeD_chunks [OF _ refl _ _ _ assms(4) _ _ _ assms(7)])
  show "read_chunk L unp (32 * 2 ^ min 15 k) [] dirty q = Inr (take (2 ^ min 15 k) (drop (2 ^ min 15 k * q) (dirty 0)))"
    if "q < 2 ^ (k - min 15 k)" for q
    using that assms(1,2,6) by (simp add: read_chunk_def Let_def)
qed (use assms in \<open>auto simp: bufs_ok_def\<close>)

theorem BuildTreeD_empty_input_witness:
  "BuildTreeD ex_lib False [] 32 [0] (\<lambda>_. []) (\<lambda>_. [replicate 32 9]) [[]] [[]] [] = Inr ([replicate 32 9], replicate 32 9)"
  using BuildTreeD_empty_input [of 0 "\<lambda>_. [replicate 32 9]" "\<lambda>_. []" "[[]]" "[[]]" ex_lib _ False, OF _ _ _ _ _ _ refl]
  by (simp add: bufs_ok_def ex_lib_def)

end
