(* ===== verification/ChainSched.thy ===== *)
theory ChainSched
  imports Prelude
begin

text \<open>
  The scheduler of chain head changes (\<open>lib/chainsched/chain_sched.go\<close>): it subscribes to
  the node, passes head changes to the registered functions, and subscribes again when the
  subscription ends, starts wrongly or goes silent.

  \<open>Run\<close> is a loop over events. One pass of the loop is \<open>sched_step\<close>: without a subscription
  it subscribes and then waits for an event in the same pass. Tip sets are an opaque type
  \<open>'ts\<close>; what the registered functions were called with is kept in a log, an entry for
  each call of \<open>update\<close> that reached them.
\<close>

section \<open>State\<close>

datatype change_type = HCRevert | HCApply | HCCurrent | HCOther string

record 'ts HeadChange =
  hc_Type :: change_type
  hc_Val :: "'ts option"

record 'ts chain_sched =
  cs_watchers :: "string list"
  cs_callbacks :: "string list"
  cs_started :: bool
  cs_timeout :: duration
  cs_subscribed :: bool
  cs_first :: bool
  cs_lastNotif :: time
  cs_log :: "(string \<times> 'ts option \<times> 'ts) list"

definition defaultNotificationTimeout :: duration where
  "defaultNotificationTimeout = 5 * minute"

definition NewWithNotificationTimeout :: "duration \<Rightarrow> 'ts chain_sched" where
  "NewWithNotificationTimeout d = \<lparr>cs_watchers = [], cs_callbacks = [], cs_started = False, cs_timeout = d,
     cs_subscribed = False, cs_first = False, cs_lastNotif = 0, cs_log = []\<rparr>"

definition New_sched :: "'ts chain_sched" where
  "New_sched = NewWithNotificationTimeout defaultNotificationTimeout"

text \<open>Registered functions are known by name; they cannot be added after the start.\<close>

definition AddHandler :: "string \<Rightarrow> 'ts chain_sched \<Rightarrow> 'ts chain_sched option" where
  "AddHandler ch s = (if cs_started s then None else Some (s\<lparr>cs_callbacks := cs_callbacks s @ [ch]\<rparr>))"

definition AddWatcher :: "string \<Rightarrow> 'ts chain_sched \<Rightarrow> 'ts chain_sched option" where
  "AddWatcher ch s = (if cs_started s then None else Some (s\<lparr>cs_watchers := cs_watchers s @ [ch]\<rparr>))"

definition HasSubscribers :: "'ts chain_sched \<Rightarrow> bool" where
  "HasSubscribers s \<longleftrightarrow> length (cs_callbacks s) > 0 \<or> length (cs_watchers s) > 0"

section \<open>Running\<close>

text \<open>Watchers come first; an error of a function is logged and the next one is called.\<close>

definition sched_update :: "'ts option \<Rightarrow> 'ts option \<Rightarrow> 'ts chain_sched \<Rightarrow> 'ts chain_sched" where
  "sched_update revert ts s =
     (case ts of
        None \<Rightarrow> s
      | Some v \<Rightarrow> s\<lparr>cs_log := cs_log s @ map (\<lambda>ch. (ch, revert, v)) (cs_watchers s @ cs_callbacks s)\<rparr>)"

fun lowest_highest :: "'ts HeadChange list \<Rightarrow> 'ts option \<Rightarrow> 'ts option \<Rightarrow> 'ts option \<times> 'ts option" where
  "lowest_highest [] lowest highest = (lowest, highest)"
| "lowest_highest (c # cs) lowest highest =
     (case hc_Type c of
        HCRevert \<Rightarrow> lowest_highest cs (hc_Val c) highest
      | HCApply \<Rightarrow> lowest_highest cs lowest (hc_Val c)
      | _ \<Rightarrow> lowest_highest cs lowest highest)"

datatype 'ts sched_event = Notified "'ts HeadChange list" | Closed | Tick

text \<open>
  One pass: \<open>sub\<close> is the answer of the node to \<open>ChainNotify\<close>, an error or success at a
  time, \<open>now\<close> the time at which the event is handled and \<open>ev\<close> the event the pass receives.
\<close>

definition sched_step :: "time option \<Rightarrow> time \<Rightarrow> 'ts sched_event \<Rightarrow> 'ts chain_sched \<Rightarrow> 'ts chain_sched" where
  "sched_step sub now ev s =
     (if \<not> cs_subscribed s \<and> sub = None then s
      else
        let s1 = (if cs_subscribed s then s else s\<lparr>cs_subscribed := True, cs_first := False, cs_lastNotif := the sub\<rparr>)
        in case ev of
             Closed \<Rightarrow> s1\<lparr>cs_subscribed := False\<rparr>
           | Tick \<Rightarrow> if now - cs_lastNotif s1 > cs_timeout s1 then s1\<lparr>cs_subscribed := False\<rparr> else s1
           | Notified changes \<Rightarrow>
               let s2 = s1\<lparr>cs_lastNotif := now\<rparr>
               in if \<not> cs_first s2 then
                    (case changes of
                       [chg] \<Rightarrow>
                         if hc_Type chg \<noteq> HCCurrent then s2\<lparr>cs_subscribed := False\<rparr>
                         else (sched_update None (hc_Val chg) s2)\<lparr>cs_first := True\<rparr>
                     | _ \<Rightarrow> s2\<lparr>cs_subscribed := False\<rparr>)
                  else
                    (let (lowest, highest) = lowest_highest changes None None
                     in sched_update lowest highest s2))"

definition sched_start :: "time \<Rightarrow> 'ts chain_sched \<Rightarrow> 'ts chain_sched" where
  "sched_start now s = s\<lparr>cs_started := True, cs_subscribed := False, cs_first := False, cs_lastNotif := now\<rparr>"

fun sched_run :: "(time option \<times> time \<times> 'ts sched_event) list \<Rightarrow> 'ts chain_sched \<Rightarrow> 'ts chain_sched" where
  "sched_run [] s = s"
| "sched_run ((sub, now, ev) # evs) s = sched_run evs (sched_step sub now ev s)"

section \<open>What the functions see\<close>

lemma sched_update_simps [simp]:
  "cs_watchers (sched_update r a s) = cs_watchers s" "cs_callbacks (sched_update r a s) = cs_callbacks s"
  "cs_started (sched_update r a s) = cs_started s" "cs_subscribed (sched_update r a s) = cs_subscribed s"
  "cs_first (sched_update r a s) = cs_first s" "cs_timeout (sched_update r a s) = cs_timeout s"
  "cs_lastNotif (sched_update r a s) = cs_lastNotif s"
  by (simp_all add: sched_update_def split: option.split)

text \<open>
  The log is a sequence of updates, each of which goes to every watcher and then to every
  handler, and the first update is the head a subscription started with.
\<close>

definition log_of :: "string list \<Rightarrow> ('ts option \<times> 'ts) list \<Rightarrow> (string \<times> 'ts option \<times> 'ts) list" where
  "log_of subs us = concat (map (\<lambda>u. map (\<lambda>ch. (ch, u)) subs) us)"

definition starts_with_head :: "'ts sched_event set \<Rightarrow> ('ts option \<times> 'ts) list \<Rightarrow> bool" where
  "starts_with_head E us \<longleftrightarrow>
     (case us of [] \<Rightarrow> True | (r, v) # _ \<Rightarrow> r = None \<and> Notified [\<lparr>hc_Type = HCCurrent, hc_Val = Some v\<rparr>] \<in> E)"

definition sched_ok :: "'ts sched_event set \<Rightarrow> string list \<Rightarrow> 'ts chain_sched \<Rightarrow> bool" where
  "sched_ok E subs s \<longleftrightarrow>
     cs_watchers s @ cs_callbacks s = subs \<and>
     (\<exists>us. cs_log s = log_of subs us \<and> starts_with_head E us \<and> (cs_first s \<longrightarrow> us \<noteq> []))"

text \<open>Every change the node sends has its tip set.\<close>

fun has_values :: "'ts sched_event \<Rightarrow> bool" where
  "has_values (Notified cs) = list_all (\<lambda>c. hc_Val c \<noteq> None) cs"
| "has_values ev = True"

lemma sched_ok_update:
  assumes "sched_ok E subs s" "cs_first s"
  shows "sched_ok E subs (sched_update r a s)"
proof (cases a)
  case None
  then show ?thesis using assms(1) by (simp add: sched_update_def)
next
  case (Some v)
  obtain us where us: "cs_watchers s @ cs_callbacks s = subs" "cs_log s = log_of subs us" "starts_with_head E us" "us \<noteq> []"
    using assms by (auto simp: sched_ok_def)
  then have "cs_log (sched_update r a s) = log_of subs (us @ [(r, v)])" by (simp add: sched_update_def Some log_of_def)
  moreover have "starts_with_head E (us @ [(r, v)])" using us(3,4) by (cases us) (simp_all add: starts_with_head_def)
  ultimately show ?thesis using us(1) by (auto simp: sched_ok_def)
qed

lemma sched_ok_head:
  assumes "sched_ok E subs s" "Notified [c] \<in> E" "hc_Type c = HCCurrent" "hc_Val c = Some v"
  shows "sched_ok E subs ((sched_update None (hc_Val c) s)\<lparr>cs_first := True\<rparr>)"
proof -
  obtain us where us: "cs_watchers s @ cs_callbacks s = subs" "cs_log s = log_of subs us" "starts_with_head E us"
    using assms(1) by (auto simp: sched_ok_def)
  have "c = \<lparr>hc_Type = HCCurrent, hc_Val = Some v\<rparr>" using assms(3,4) by (cases c) simp
  then have "starts_with_head E (us @ [(None, v)])" using us(3) assms(2) by (cases us) (auto simp: starts_with_head_def)
  moreover have "cs_log (sched_update None (hc_Val c) s) = log_of subs (us @ [(None, v)])"
    using us by (simp add: sched_update_def assms(4) log_of_def)
  ultimately show ?thesis using us(1) by (auto simp: sched_ok_def)
qed

lemma sched_ok_cong:
  "sched_ok E subs s \<Longrightarrow> cs_watchers s' = cs_watchers s \<Longrightarrow> cs_callbacks s' = cs_callbacks s \<Longrightarrow> cs_log s' = cs_log s \<Longrightarrow>
   cs_first s' \<longrightarrow> cs_first s \<Longrightarrow> sched_ok E subs s'"
  by (auto simp: sched_ok_def)

lemma sched_ok_step_subscribed:
  assumes ok: "sched_ok E subs s" and ev: "ev \<in> E" "has_values ev" and sub: "cs_subscribed s"
  shows "sched_ok E subs (sched_step sub now ev s)"
proof (cases ev)
  case (Notified changes)
  define s2 where "s2 = s\<lparr>cs_lastNotif := now\<rparr>"
  have s2: "sched_ok E subs s2" unfolding s2_def by (rule sched_ok_cong [OF ok]) auto
  have drop: "sched_ok E subs (s2\<lparr>cs_subscribed := False\<rparr>)" by (rule sched_ok_cong [OF s2]) auto
  have eq: "sched_step sub now ev s =
      (if \<not> cs_first s2 then
         (case changes of
            [chg] \<Rightarrow> if hc_Type chg \<noteq> HCCurrent then s2\<lparr>cs_subscribed := False\<rparr>
                      else (sched_update None (hc_Val chg) s2)\<lparr>cs_first := True\<rparr>
          | _ \<Rightarrow> s2\<lparr>cs_subscribed := False\<rparr>)
       else (let (lowest, highest) = lowest_highest changes None None in sched_update lowest highest s2))"
    unfolding sched_step_def Let_def s2_def Notified by (simp add: sub)
  show ?thesis
  proof (cases "cs_first s2")
    case True
    then show ?thesis using sched_ok_update [OF s2 True] by (simp add: eq split: prod.split)
  next
    case False
    then show ?thesis unfolding eq using drop sched_ok_head [OF s2] ev Notified by (auto split: list.split)
  qed
qed (use ok sub in \<open>auto simp: sched_step_def intro: sched_ok_cong\<close>)

lemma sched_ok_step:
  assumes ok: "sched_ok E subs s" and ev: "ev \<in> E" "has_values ev"
  shows "sched_ok E subs (sched_step sub now ev s)"
proof (cases "\<not> cs_subscribed s \<and> sub = None")
  case True
  then show ?thesis using ok by (simp add: sched_step_def)
next
  case False
  define s1 where "s1 = (if cs_subscribed s then s else s\<lparr>cs_subscribed := True, cs_first := False, cs_lastNotif := the sub\<rparr>)"
  have s1: "sched_ok E subs s1" unfolding s1_def by (rule sched_ok_cong [OF ok]) auto
  have step: "sched_step sub now ev s = sched_step sub now ev s1" and sub: "cs_subscribed s1"
    using False by (auto simp: sched_step_def s1_def Let_def)
  have "sched_ok E subs (sched_step sub now ev s1)" by (rule sched_ok_step_subscribed [OF s1 ev sub])
  then show ?thesis by (simp only: step)
qed

lemma sched_ok_run:
  assumes "sched_ok E subs s" "\<forall>(sub, now, ev)\<in>set evs. ev \<in> E \<and> has_values ev"
  shows "sched_ok E subs (sched_run evs s)"
  using assms
proof (induction evs arbitrary: s)
  case (Cons e evs)
  obtain sub now ev where e: "e = (sub, now, ev)" by (metis prod_cases3)
  then show ?case using Cons.IH [OF sched_ok_step [OF Cons.prems(1)]] Cons.prems(2) by simp
qed simp

section \<open>Properties\<close>

definition ex_events :: "(time option \<times> time \<times> string sched_event) list" where
  "ex_events =
     [(Some 0, 1, Notified [\<lparr>hc_Type = HCApply, hc_Val = Some ''early''\<rparr>]),
      (Some 5, 6, Notified [\<lparr>hc_Type = HCCurrent, hc_Val = Some ''head''\<rparr>]),
      (None, 8, Notified [\<lparr>hc_Type = HCRevert, hc_Val = Some ''head''\<rparr>, \<lparr>hc_Type = HCApply, hc_Val = Some ''other''\<rparr>])]"

definition ex_sched :: "string chain_sched" where
  "ex_sched = New_sched\<lparr>cs_watchers := [''w''], cs_callbacks := [''c'']\<rparr>"



end
