(* ===== verification/WinningPost.thy ===== *)
theory WinningPost
  imports HarmonyDB
begin

text \<open>
  Block mining (\<open>tasks/winning/winning_task.go\<close>, \<open>tasks/winning/inclusion_check_task.go\<close>).

  Every node of a cluster follows the chain head and adds, once per round and miner, a task
  with the tipset to build on. The task runs the election, computes the winning PoSt, builds
  a block, stores that it won and submits the block. A miner that signs two blocks of one
  epoch, two blocks with the same parents, or a block that leaves out its own previous block
  is slashed, and the tables \<open>mining_tasks\<close> and \<open>mining_base_block\<close> are there to
  prevent it.

  The node, the wallet and the prover are parameters: the record \<open>wp_api\<close> holds what they
  answer to one execution of the task. Sleeping has no effect on the state and is left out.
\<close>

section \<open>Chain data\<close>

type_synonym epoch = int

record block_header =
  bh_Cid :: string
  bh_Ticket :: string
  bh_Timestamp :: uint64

record tipset =
  ts_Blocks :: "block_header list"
  ts_Height :: epoch

definition Cids :: "tipset \<Rightarrow> string list" where
  "Cids ts = map bh_Cid (ts_Blocks ts)"

record MiningBase =
  mb_TipSet :: tipset
  mb_ComputeTime :: time
  mb_AddRounds :: epoch

definition mb_epoch :: "MiningBase \<Rightarrow> epoch" where
  "mb_epoch mb = ts_Height (mb_TipSet mb) + mb_AddRounds mb + 1"

record sector_info =
  si_SealProof :: int
  si_SectorNumber :: int
  si_SealedCID :: string
  si_SectorKey :: "string option"

record base_info =
  mbi_EligibleForMining :: bool
  mbi_Sectors :: "sector_info list"
  mbi_PrevBeaconEntry :: "byte list"
  mbi_BeaconEntries :: "byte list list"
  mbi_WorkerKey :: string

record PostSectorChallenge =
  psc_SealProof :: int
  psc_SectorNumber :: int
  psc_SealedCID :: string
  psc_Challenge :: "uint64 list"
  psc_Update :: bool

record BlockTemplate =
  bt_Miner :: int
  bt_Parents :: "string list"
  bt_Ticket :: string
  bt_Eproof :: string
  bt_BeaconValues :: "byte list list"
  bt_Messages :: "string list"
  bt_Epoch :: epoch
  bt_Timestamp :: uint64
  bt_WinningPoStProof :: string

text \<open>The build parameters, here those of the main network.\<close>

record build_params =
  BlockDelaySecs :: uint64
  PropagationDelaySecs :: uint64
  UpgradeSmokeHeight :: epoch
  TicketRandomnessLookback :: epoch

definition mainnet :: build_params where
  "mainnet = \<lparr>BlockDelaySecs = 30, PropagationDelaySecs = 10, UpgradeSmokeHeight = 51000,
              TicketRandomnessLookback = 1\<rparr>"

datatype rand_tag = WinningPoStChallengeSeed | TicketProduction

record wp_api =
  ParseCid :: "string \<Rightarrow> string + string"
  ChainGetTipSet :: "string list \<Rightarrow> string + tipset"
  MinerGetBaseInfo :: "int \<Rightarrow> epoch \<Rightarrow> string list \<Rightarrow> string + base_info option"
  HeadOnError :: "string + tipset"
  ChainFinality :: epoch
  IsRoundWinner :: "epoch \<Rightarrow> int \<Rightarrow> byte list \<Rightarrow> base_info \<Rightarrow> string + string option"
  MarshalAddress :: "int \<Rightarrow> string + byte list"
  DrawRandomnessFromBase :: "byte list \<Rightarrow> rand_tag \<Rightarrow> epoch \<Rightarrow> byte list \<Rightarrow> string + byte list"
  RegisteredWinningPoStProof :: "int \<Rightarrow> string + int"
  GeneratePoStFallbackSectorChallenges :: "int \<Rightarrow> int \<Rightarrow> byte list \<Rightarrow> int list \<Rightarrow> string + (int \<Rightarrow> uint64 list)"
  GenerateSingleVanillaProof :: "int \<Rightarrow> PostSectorChallenge \<Rightarrow> int \<Rightarrow> string + byte list option"
  cuzk_Enabled :: bool
  WinningPoStCuzk :: "int \<Rightarrow> int \<Rightarrow> byte list \<Rightarrow> byte list list \<Rightarrow> string + string"
  GenerateWinningPoStWithVanilla :: "int \<Rightarrow> int \<Rightarrow> byte list \<Rightarrow> byte list list \<Rightarrow> string + string"
  VRFProofBytes :: "string \<Rightarrow> byte list"
  ComputeVRF :: "string \<Rightarrow> byte list \<Rightarrow> string + string"
  MpoolSelect :: "string list \<Rightarrow> string \<Rightarrow> string + string list"
  ChainHead :: "string + tipset"
  ChainTipSetWeight :: "string list \<Rightarrow> string + int"
  NewTipSet :: "block_header list \<Rightarrow> string + tipset"
  MinTicket :: "tipset \<Rightarrow> string"
  MinTimestamp :: "tipset \<Rightarrow> uint64"
  MinerCreateBlock :: "BlockTemplate \<Rightarrow> string + (string \<times> uint64)"

section \<open>The tables\<close>

record mining_task =
  mt_task_id :: TaskID
  mt_sp_id :: int
  mt_epoch :: epoch
  mt_base_compute_time :: time
  mt_won :: bool
  mt_mined_cid :: "string option"
  mt_mined_at :: "time option"
  mt_submitted_at :: "time option"
  mt_included :: "bool option"

record base_block =
  bb_task_id :: TaskID
  bb_sp_id :: int
  bb_block_cid :: string
  bb_no_win :: bool

record mining_db =
  mining_tasks :: "mining_task list"
  mining_base_block :: "base_block list"

text \<open>
  The constraints of the tables: \<open>mining_tasks_pk\<close> and \<open>mining_tasks_sp_epoch\<close>; the foreign
  key, \<open>mining_base_block_pk2\<close> and the partial index \<open>mining_base_block_cid_k\<close>.
\<close>

definition insert_mining_task :: "mining_task \<Rightarrow> mining_db \<Rightarrow> string + mining_db" where
  "insert_mining_task r db =
     (if list_ex (\<lambda>x. mt_task_id x = mt_task_id r \<or> mt_sp_id x = mt_sp_id r \<and> mt_epoch x = mt_epoch r) (mining_tasks db)
      then Inl ''inserting mining_tasks''
      else Inr (db\<lparr>mining_tasks := mining_tasks db @ [r]\<rparr>))"

definition insert_base_block :: "base_block \<Rightarrow> mining_db \<Rightarrow> string + mining_db" where
  "insert_base_block b db =
     (if \<not> list_ex (\<lambda>x. mt_task_id x = bb_task_id b) (mining_tasks db)
         \<or> list_ex (\<lambda>x. bb_sp_id x = bb_sp_id b \<and> bb_block_cid x = bb_block_cid b \<and>
                        (bb_task_id x = bb_task_id b \<or> \<not> bb_no_win x \<and> \<not> bb_no_win b)) (mining_base_block db)
      then Inl ''inserting mining base blocks''
      else Inr (db\<lparr>mining_base_block := mining_base_block db @ [b]\<rparr>))"

section \<open>Following the chain\<close>

text \<open>
  The base for the next round: the head and the two weights are what the node answers
  (\<open>retry1\<close> asks until it does).
\<close>

definition next_base :: "time \<Rightarrow> tipset \<Rightarrow> (string list \<Rightarrow> int) \<Rightarrow> MiningBase \<Rightarrow> MiningBase" where
  "next_base now head weight workBase =
     (if Cids (mb_TipSet workBase) = Cids head then workBase\<lparr>mb_AddRounds := mb_AddRounds workBase + 1\<rparr>
      else if weight (Cids head) \<le> weight (Cids (mb_TipSet workBase))
      then workBase\<lparr>mb_AddRounds := mb_AddRounds workBase + 1\<rparr>
      else \<lparr>mb_TipSet = head, mb_ComputeTime = now, mb_AddRounds = 0\<rparr>)"

definition insert_base_blocks :: "TaskID \<Rightarrow> int \<Rightarrow> string list \<Rightarrow> mining_db \<Rightarrow> string + mining_db" where
  "insert_base_blocks t sp cids db =
     fold (\<lambda>c r. rbind r (insert_base_block \<lparr>bb_task_id = t, bb_sp_id = sp, bb_block_cid = c, bb_no_win = False\<rparr>))
       cids (Inr db)"

text \<open>The function \<open>mineBasic\<close> passes to \<open>taskFn\<close>: the transaction that adds a mining task.\<close>

definition own_blocks :: "epoch \<Rightarrow> int \<Rightarrow> mining_db \<Rightarrow> string option list" where
  "own_blocks baseEpoch sp db =
     map mt_mined_cid (filter (\<lambda>r. mt_epoch r = baseEpoch \<and> mt_sp_id r = sp \<and> mt_won r) (mining_tasks db))"

definition own_block_included :: "(string \<Rightarrow> string + string) \<Rightarrow> tipset \<Rightarrow> string option list \<Rightarrow> string + unit" where
  "own_block_included parse base cids =
     (case cids of
        [] \<Rightarrow> Inr ()
      | None # _ \<Rightarrow> Inl ''querying mining_tasks''
      | Some c0 # _ \<Rightarrow>
          rbind (parse c0) (\<lambda>c.
            if c \<in> set (Cids base) then Inr ()
            else Inl ''our block was not included in the tipset, aborting''))"

definition add_mining_task ::
  "(string \<Rightarrow> string + string) \<Rightarrow> TaskID \<Rightarrow> int \<Rightarrow> MiningBase \<Rightarrow> mining_db \<Rightarrow> string + mining_db" where
  "add_mining_task parse t sp workBase db =
     rbind (own_block_included parse (mb_TipSet workBase) (own_blocks (ts_Height (mb_TipSet workBase)) sp db)) (\<lambda>_.
     rbind (insert_mining_task
       \<lparr>mt_task_id = t, mt_sp_id = sp, mt_epoch = mb_epoch workBase,
        mt_base_compute_time = mb_ComputeTime workBase, mt_won = False, mt_mined_cid = None,
        mt_mined_at = None, mt_submitted_at = None, mt_included = None\<rparr> db) (\<lambda>db1.
     insert_base_blocks t sp (Cids (mb_TipSet workBase)) db1))"

text \<open>
  One turn of the loop of \<open>mineBasic\<close> for the actors in the order the map yields them: an
  address that is no ID address is skipped, a failed transaction is rolled back. The task
  IDs are those the task engine drew.
\<close>

definition mine_round ::
  "(string \<Rightarrow> string + string) \<Rightarrow> ('a \<Rightarrow> int option) \<Rightarrow> time \<Rightarrow> tipset \<Rightarrow> (string list \<Rightarrow> int) \<Rightarrow> (TaskID \<times> 'a) list \<Rightarrow>
   MiningBase \<times> mining_db \<Rightarrow> MiningBase \<times> mining_db" where
  "mine_round parse IDFromAddress now head weight acts = (\<lambda>(workBase, db).
     let base = next_base now head weight workBase
     in (base,
         fold (\<lambda>(t, act) db.
           case IDFromAddress act of
             None \<Rightarrow> db
           | Some sp \<Rightarrow> (case add_mining_task parse t sp base db of Inl _ \<Rightarrow> db | Inr db' \<Rightarrow> db')) acts db))"

section \<open>An attempt to mine\<close>

record mining_details =
  md_SpID :: int
  md_Epoch :: epoch
  md_BlockCIDs :: "string list"
  md_CompTime :: time

text \<open>The first two queries. \<open>Inr None\<close>: the task has already won.\<close>

definition load_details :: "TaskID \<Rightarrow> mining_db \<Rightarrow> string + mining_details option" where
  "load_details t db =
     (case find (\<lambda>r. mt_task_id r = t) (mining_tasks db) of
        None \<Rightarrow> Inl ''query mining base info fail''
      | Some r \<Rightarrow>
          if mt_won r then Inr None
          else Inr (Some \<lparr>md_SpID = mt_sp_id r, md_Epoch = mt_epoch r,
                          md_BlockCIDs = map bb_block_cid (filter (\<lambda>b. bb_task_id b = t) (mining_base_block db)),
                          md_CompTime = mt_base_compute_time r\<rparr>))"

fun parse_cids :: "(string \<Rightarrow> string + string) \<Rightarrow> string list \<Rightarrow> string + string list" where
  "parse_cids parse [] = Inr []"
| "parse_cids parse (c # cs) = rbind (parse c) (\<lambda>b. rbind (parse_cids parse cs) (\<lambda>bs. Inr (b # bs)))"

definition load_base :: "wp_api \<Rightarrow> mining_details \<Rightarrow> string + MiningBase" where
  "load_base api d =
     rbind (parse_cids (ParseCid api) (md_BlockCIDs d)) (\<lambda>bcids.
     rbind (ChainGetTipSet api bcids) (\<lambda>baseTs.
     Inr \<lparr>mb_TipSet = baseTs, mb_ComputeTime = md_CompTime d,
          mb_AddRounds = md_Epoch d - ts_Height baseTs - 1\<rparr>))"

text \<open>The checks up to the election; \<open>Inr None\<close>: record that this base does not win.\<close>

definition winner_check :: "wp_api \<Rightarrow> int \<Rightarrow> MiningBase \<Rightarrow> string + (base_info \<times> byte list \<times> string) option" where
  "winner_check api sp base =
     (case MinerGetBaseInfo api sp (mb_epoch base) (Cids (mb_TipSet base)) of
        Inl e \<Rightarrow>
          rbind (HeadOnError api) (\<lambda>curHead.
            if ts_Height curHead > ts_Height (mb_TipSet base) + ChainFinality api then Inr None
            else Inl ''failed to get mining base info'')
      | Inr None \<Rightarrow> Inr None
      | Inr (Some mbi) \<Rightarrow>
          if \<not> mbi_EligibleForMining mbi then Inr None
          else if mbi_Sectors mbi = [] then Inl ''no sectors selected for winning PoSt''
          else let bvals = mbi_BeaconEntries mbi;
                   rbase = (if bvals = [] then mbi_PrevBeaconEntry mbi else last bvals)
               in rbind (IsRoundWinner api (mb_epoch base) sp rbase mbi) (\<lambda>eproof.
                    Inr (case eproof of None \<Rightarrow> None | Some ep \<Rightarrow> Some (mbi, rbase, ep))))"

text \<open>
  The vanilla proofs are computed concurrently; the error returned is one of the errors, here
  that of the first sector that has one.
\<close>

fun vanilla_proofs :: "wp_api \<Rightarrow> int \<Rightarrow> int \<Rightarrow> PostSectorChallenge list \<Rightarrow> string + byte list list" where
  "vanilla_proofs api ppt mid [] = Inr []"
| "vanilla_proofs api ppt mid (s # ss) =
     rbind (GenerateSingleVanillaProof api mid s ppt) (\<lambda>vanilla.
       case vanilla of
         None \<Rightarrow> Inl ''vanilla is nil''
       | Some v \<Rightarrow> rbind (vanilla_proofs api ppt mid ss) (\<lambda>vs. Inr (v # vs)))"

definition generateWinningPost ::
  "wp_api \<Rightarrow> int \<Rightarrow> int \<Rightarrow> PostSectorChallenge list \<Rightarrow> byte list \<Rightarrow> string + string" where
  "generateWinningPost api ppt mid sectors randomness =
     rbind (vanilla_proofs api ppt mid sectors) (\<lambda>vproofs.
       if cuzk_Enabled api then WinningPoStCuzk api ppt mid randomness vproofs
       else GenerateWinningPoStWithVanilla api ppt mid randomness vproofs)"

unbundle bit_operations_syntax

text \<open>Byte 31 is masked to make the randomness a field element; a shorter slice would panic.\<close>

definition post_randomness :: "byte list \<Rightarrow> string + byte list" where
  "post_randomness brand =
     (if length brand < 32 then Inl ''index out of range''
      else Inr (brand[31 := brand ! 31 AND 0x3f]))"

definition winning_post :: "wp_api \<Rightarrow> int \<Rightarrow> epoch \<Rightarrow> base_info \<Rightarrow> byte list \<Rightarrow> string + string" where
  "winning_post api sp rnd mbi rbase =
     rbind (MarshalAddress api sp) (\<lambda>buf.
     rbind (DrawRandomnessFromBase api rbase WinningPoStChallengeSeed rnd buf) (\<lambda>brand.
     rbind (post_randomness brand) (\<lambda>prand.
     rbind (RegisteredWinningPoStProof api (si_SealProof (hd (mbi_Sectors mbi)))) (\<lambda>ppt.
     rbind (GeneratePoStFallbackSectorChallenges api ppt sp prand (map si_SectorNumber (mbi_Sectors mbi))) (\<lambda>challenges.
     generateWinningPost api ppt sp
       (map (\<lambda>s. \<lparr>psc_SealProof = si_SealProof s, psc_SectorNumber = si_SectorNumber s,
                  psc_SealedCID = si_SealedCID s, psc_Challenge = challenges (si_SectorNumber s),
                  psc_Update = (si_SectorKey s \<noteq> None)\<rparr>) (mbi_Sectors mbi))
       prand)))))"

definition computeTicket ::
  "build_params \<Rightarrow> wp_api \<Rightarrow> int \<Rightarrow> byte list \<Rightarrow> epoch \<Rightarrow> string \<Rightarrow> base_info \<Rightarrow> string + string" where
  "computeTicket bp api sp brand rnd chainRand mbi =
     rbind (MarshalAddress api sp) (\<lambda>buf.
     rbind (DrawRandomnessFromBase api brand TicketProduction (rnd - TicketRandomnessLookback bp)
              (if rnd > UpgradeSmokeHeight bp then buf @ VRFProofBytes api chainRand else buf)) (\<lambda>input.
     ComputeVRF api (mbi_WorkerKey mbi) input))"

text \<open>
  The equivocation check: when another tipset of the same height has more weight, build on
  the blocks that are in both.
\<close>

definition refresh_base ::
  "build_params \<Rightarrow> wp_api \<Rightarrow> int \<Rightarrow> byte list \<Rightarrow> base_info \<Rightarrow> MiningBase \<Rightarrow> string \<Rightarrow> string list \<Rightarrow>
   string + (MiningBase \<times> string \<times> string list)" where
  "refresh_base bp api sp rbase mbi base ticket msgs =
     rbind (ChainHead api) (\<lambda>head.
     rbind (ChainTipSetWeight api (Cids head)) (\<lambda>headWeight.
     rbind (ChainTipSetWeight api (Cids (mb_TipSet base))) (\<lambda>baseWeight.
     let ts = mb_TipSet base;
         bestTs = (if headWeight \<le> baseWeight then ts else head);
         refreshed = filter (\<lambda>b. bh_Cid b \<in> set (Cids bestTs)) (ts_Blocks ts)
     in if ts_Height bestTs = ts_Height ts \<and> Cids bestTs \<noteq> Cids ts \<and>
           refreshed \<noteq> [] \<and> length refreshed \<noteq> length (ts_Blocks ts)
        then rbind (NewTipSet api refreshed) (\<lambda>refreshedBase.
             rbind (if MinTicket api ts \<noteq> MinTicket api refreshedBase
                    then computeTicket bp api sp rbase (mb_epoch base) (MinTicket api refreshedBase) mbi
                    else Inr ticket) (\<lambda>ticket'.
             rbind (MpoolSelect api (Cids refreshedBase) ticket') (\<lambda>msgs'.
             Inr (base\<lparr>mb_TipSet := refreshedBase\<rparr>, ticket', msgs'))))
        else Inr (base, ticket, msgs))))"

definition block_template ::
  "build_params \<Rightarrow> wp_api \<Rightarrow> int \<Rightarrow> epoch \<Rightarrow> MiningBase \<Rightarrow> string \<Rightarrow> string \<Rightarrow> byte list list \<Rightarrow> string list \<Rightarrow> string \<Rightarrow>
   BlockTemplate" where
  "block_template bp api sp rnd base ticket eproof bvals msgs post =
     \<lparr>bt_Miner = sp, bt_Parents = Cids (mb_TipSet base), bt_Ticket = ticket, bt_Eproof = eproof,
      bt_BeaconValues = bvals, bt_Messages = msgs, bt_Epoch = rnd,
      bt_Timestamp = MinTimestamp api (mb_TipSet base) +
        BlockDelaySecs bp * (word_of_int (mb_AddRounds base) + 1),
      bt_WinningPoStProof = post\<rparr>"

text \<open>\<open>Do\<close> from the base tipset to the block; \<open>Inr None\<close> is \<open>persistNoWin\<close>.\<close>

definition mine_attempt ::
  "build_params \<Rightarrow> wp_api \<Rightarrow> mining_details \<Rightarrow> string + (BlockTemplate \<times> string \<times> uint64) option" where
  "mine_attempt bp api d =
     rbind (load_base api d) (\<lambda>base.
     rbind (winner_check api (md_SpID d) base) (\<lambda>won.
     case won of
       None \<Rightarrow> Inr None
     | Some (mbi, rbase, eproof) \<Rightarrow>
         rbind (winning_post api (md_SpID d) (mb_epoch base) mbi rbase) (\<lambda>post.
         rbind (computeTicket bp api (md_SpID d) rbase (mb_epoch base) (MinTicket api (mb_TipSet base)) mbi) (\<lambda>ticket.
         rbind (MpoolSelect api (Cids (mb_TipSet base)) ticket) (\<lambda>msgs.
         rbind (refresh_base bp api (md_SpID d) rbase mbi base ticket msgs) (\<lambda>(base', ticket', msgs').
         let tm = block_template bp api (md_SpID d) (mb_epoch base) base' ticket' eproof (mbi_BeaconEntries mbi) msgs' post
         in rbind (MinerCreateBlock api tm) (\<lambda>(hdr, stamp). Inr (Some (tm, hdr, stamp)))))))))"

section \<open>The statements of the task\<close>

definition persistNoWin :: "TaskID \<Rightarrow> mining_db \<Rightarrow> (string + bool) \<times> mining_db" where
  "persistNoWin t db =
     (if count_where (\<lambda>b. bb_task_id b = t) (mining_base_block db) = 0
      then (Inl ''persist no win: no rows updated'', db)
      else (Inr True, db\<lparr>mining_base_block :=
              update_where (\<lambda>b. bb_task_id b = t) (\<lambda>b. b\<lparr>bb_no_win := True\<rparr>) (mining_base_block db)\<rparr>))"

definition persist_win :: "TaskID \<Rightarrow> string \<Rightarrow> time \<Rightarrow> mining_db \<Rightarrow> nat \<times> mining_db" where
  "persist_win t hdr now db =
     (count_where (\<lambda>r. mt_task_id r = t \<and> \<not> mt_won r) (mining_tasks db),
      db\<lparr>mining_tasks :=
        update_where (\<lambda>r. mt_task_id r = t \<and> \<not> mt_won r)
          (\<lambda>r. r\<lparr>mt_won := True, mt_mined_cid := Some hdr, mt_mined_at := Some now\<rparr>) (mining_tasks db)\<rparr>)"

definition persist_submitted :: "TaskID \<Rightarrow> time \<Rightarrow> mining_db \<Rightarrow> mining_db" where
  "persist_submitted t now db =
     db\<lparr>mining_tasks := update_where (\<lambda>r. mt_task_id r = t) (\<lambda>r. r\<lparr>mt_submitted_at := Some now\<rparr>) (mining_tasks db)\<rparr>"

section \<open>The inclusion check\<close>

definition MinInclusionEpochs :: epoch where
  "MinInclusionEpochs = 5"

definition set_included :: "bool \<Rightarrow> epoch \<Rightarrow> int \<Rightarrow> mining_db \<Rightarrow> mining_db" where
  "set_included inc ep sp db =
     db\<lparr>mining_tasks := update_where (\<lambda>r. mt_epoch r = ep \<and> mt_sp_id r = sp)
          (\<lambda>r. r\<lparr>mt_included := Some inc\<rparr>) (mining_tasks db)\<rparr>"

text \<open>The rows are read once; a tipset that cannot be read ends the task, its earlier updates stay.\<close>

fun check_inclusion ::
  "(epoch \<Rightarrow> string + tipset) \<Rightarrow> epoch \<Rightarrow> mining_task list \<Rightarrow> mining_db \<Rightarrow> (string + bool) \<times> mining_db" where
  "check_inclusion ByHeight head [] db = (Inr True, db)"
| "check_inclusion ByHeight head (r # rs) db =
     (if mt_epoch r > head - MinInclusionEpochs then check_inclusion ByHeight head rs db
      else case ByHeight (mt_epoch r) of
        Inl e \<Rightarrow> (Inl e, db)
      | Inr tsAt \<Rightarrow>
          check_inclusion ByHeight head rs
            (set_included (\<exists>c\<in>set (Cids tsAt). mt_mined_cid r = Some c) (mt_epoch r) (mt_sp_id r) db))"

definition InclusionCheck ::
  "(epoch \<Rightarrow> string + tipset) \<Rightarrow> string + tipset \<Rightarrow> mining_db \<Rightarrow> (string + bool) \<times> mining_db" where
  "InclusionCheck ByHeight headCall db =
     (let toCheck = filter (\<lambda>r. mt_won r \<and> mt_included r = None) (mining_tasks db)
      in case headCall of
           Inl e \<Rightarrow> (Inl e, db)
         | Inr head \<Rightarrow> check_inclusion ByHeight (ts_Height head) toCheck db)"

end
