(* ===== verification/MiningSafety.thy ===== *)
theory MiningSafety
  imports WinningPost
begin

text \<open>
  Slashing protection of block mining. The executions of mining tasks of a whole cluster
  interleave at every database statement and every submission, and stop anywhere; the
  theorems speak of every block that was ever submitted.
\<close>

section \<open>The system\<close>

text \<open>
  An execution of \<open>Do\<close> has read its row (\<open>Loaded\<close>), has stored that it won (\<open>Won\<close>) or has
  submitted its block (\<open>Sent\<close>).
\<close>

datatype mine_run =
    Loaded mining_details
  | Won BlockTemplate string
  | Sent

record mine_sys =
  w_db :: mining_db
  w_runs :: "nat \<rightharpoonup> TaskID \<times> mine_run"
  w_submitted :: "(TaskID \<times> BlockTemplate \<times> string) list"

text \<open>
  What the steps rely on of the node: a tipset that was asked for by its blocks has these
  blocks, a tipset made of some blocks has these blocks, and the text of a block identifier
  stands for itself.
\<close>

definition api_ok :: "wp_api \<Rightarrow> bool" where
  "api_ok api \<longleftrightarrow>
     (\<forall>c c'. ParseCid api c = Inr c' \<longrightarrow> c' = c) \<and>
     (\<forall>cids ts. ChainGetTipSet api cids = Inr ts \<longrightarrow> set (Cids ts) = set cids \<and> ts_Blocks ts \<noteq> []) \<and>
     (\<forall>bs ts. NewTipSet api bs = Inr ts \<longrightarrow> set (ts_Blocks ts) = set bs)"

text \<open>
  \<open>elect d\<close> is the outcome of the election for the base of a task: whether it wins, when
  every node answers alike; \<open>None\<close> when the answers may differ from one execution to the next.
\<close>

inductive mine_step :: "(mining_details \<Rightarrow> bool option) \<Rightarrow> build_params \<Rightarrow> mine_sys \<Rightarrow> mine_sys \<Rightarrow> bool" for elect bp where
  dispatch: "add_mining_task parse t sp base (w_db s) = Inr db' \<Longrightarrow>
    mine_step elect bp s (s\<lparr>w_db := db'\<rparr>)"
| load: "load_details t (w_db s) = Inr (Some d) \<Longrightarrow> w_runs s r = None \<Longrightarrow>
    mine_step elect bp s (s\<lparr>w_runs := (w_runs s)(r \<mapsto> (t, Loaded d))\<rparr>)"
| no_win: "w_runs s r = Some (t, Loaded d) \<Longrightarrow> mine_attempt bp api d = Inr None \<Longrightarrow> elect d \<noteq> Some True \<Longrightarrow>
    mine_step elect bp s (s\<lparr>w_db := snd (persistNoWin t (w_db s)), w_runs := (w_runs s)(r := None)\<rparr>)"
| win: "w_runs s r = Some (t, Loaded d) \<Longrightarrow> api_ok api \<Longrightarrow> mine_attempt bp api d = Inr (Some (tm, hdr, stamp)) \<Longrightarrow>
    elect d \<noteq> Some False \<Longrightarrow> persist_win t hdr now (w_db s) = (n, db') \<Longrightarrow> 0 < n \<Longrightarrow>
    mine_step elect bp s (s\<lparr>w_db := db', w_runs := (w_runs s)(r \<mapsto> (t, Won tm hdr))\<rparr>)"
| submit: "w_runs s r = Some (t, Won tm hdr) \<Longrightarrow>
    mine_step elect bp s (s\<lparr>w_runs := (w_runs s)(r \<mapsto> (t, Sent)), w_submitted := (t, tm, hdr) # w_submitted s\<rparr>)"
| submitted: "w_runs s r = Some (t, Sent) \<Longrightarrow>
    mine_step elect bp s (s\<lparr>w_db := persist_submitted t now (w_db s), w_runs := (w_runs s)(r := None)\<rparr>)"
| stop: "mine_step elect bp s (s\<lparr>w_runs := (w_runs s)(r := None)\<rparr>)"
| inclusion: "mine_step elect bp s (s\<lparr>w_db := snd (InclusionCheck ByHeight headCall (w_db s))\<rparr>)"

definition mine_init :: mine_sys where
  "mine_init = \<lparr>w_db = \<lparr>mining_tasks = [], mining_base_block = []\<rparr>, w_runs = Map.empty, w_submitted = []\<rparr>"

inductive mine_reachable :: "(mining_details \<Rightarrow> bool option) \<Rightarrow> build_params \<Rightarrow> mine_sys \<Rightarrow> bool" for elect bp where
  init: "mine_reachable elect bp mine_init"
| step: "mine_reachable elect bp s \<Longrightarrow> mine_step elect bp s s' \<Longrightarrow> mine_reachable elect bp s'"

section \<open>What an attempt yields\<close>

lemma parse_cids_id:
  "(\<And>c c'. parse c = Inr c' \<Longrightarrow> c' = c) \<Longrightarrow> parse_cids parse cs = Inr bs \<Longrightarrow> bs = cs"
  by (induction cs arbitrary: bs) (auto simp: rbind_Inr_iff)

lemma load_base_Inr:
  assumes "load_base api d = Inr base" "api_ok api"
  shows "mb_epoch base = md_Epoch d" "set (Cids (mb_TipSet base)) = set (md_BlockCIDs d)" "ts_Blocks (mb_TipSet base) \<noteq> []"
  using assms parse_cids_id [of "ParseCid api" "md_BlockCIDs d"]
  by (auto simp: load_base_def rbind_Inr_iff mb_epoch_def api_ok_def)

lemma refresh_base_cases:
  assumes "refresh_base bp api sp rbase mbi base ticket msgs = Inr (base', ticket', msgs')"
  obtains "base' = base"
  | bs ts where "NewTipSet api bs = Inr ts" "base' = base\<lparr>mb_TipSet := ts\<rparr>" "bs \<noteq> []"
      "set bs \<subseteq> set (ts_Blocks (mb_TipSet base))"
  using assms by (auto simp: refresh_base_def rbind_Inr_iff Let_def split: if_splits)

lemma refresh_base_Inr:
  assumes "refresh_base bp api sp rbase mbi base ticket msgs = Inr (base', ticket', msgs')" "api_ok api"
    "ts_Blocks (mb_TipSet base) \<noteq> []"
  shows "ts_Blocks (mb_TipSet base') \<noteq> [] \<and> set (Cids (mb_TipSet base')) \<subseteq> set (Cids (mb_TipSet base))"
  using assms(1)
proof (cases rule: refresh_base_cases)
  case (2 bs ts)
  have "set (ts_Blocks ts) = set bs"
    using assms(2) 2(1) by (simp add: api_ok_def)
  with 2 show ?thesis by (auto simp: Cids_def)
qed (use assms in simp)

text \<open>
  A block built by a task has the task's miner and epoch, and its parents are blocks of the
  task's base, at least one.
\<close>

lemma mine_attempt_block:
  assumes "mine_attempt bp api d = Inr (Some (tm, hdr, stamp))" "api_ok api"
  shows "bt_Miner tm = md_SpID d" "bt_Epoch tm = md_Epoch d"
    "bt_Parents tm \<noteq> []" "set (bt_Parents tm) \<subseteq> set (md_BlockCIDs d)"
proof -
  obtain base rbase mbi ticket msgs base' ticket' msgs' eproof post where
    b: "load_base api d = Inr base"
    and r: "refresh_base bp api (md_SpID d) rbase mbi base ticket msgs = Inr (base', ticket', msgs')"
    and tm: "tm = block_template bp api (md_SpID d) (mb_epoch base) base' ticket' eproof (mbi_BeaconEntries mbi) msgs' post"
    using assms(1) by (auto simp: mine_attempt_def rbind_Inr_iff Let_def split: option.splits prod.splits)
  note base = load_base_Inr [OF b assms(2)]
  note refreshed = refresh_base_Inr [OF r assms(2) base(3)]
  show "bt_Miner tm = md_SpID d" "bt_Epoch tm = md_Epoch d"
    "bt_Parents tm \<noteq> []" "set (bt_Parents tm) \<subseteq> set (md_BlockCIDs d)"
    using base refreshed by (auto simp: tm block_template_def Cids_def)
qed

section \<open>The tables\<close>

definition has_task :: "TaskID \<Rightarrow> int \<Rightarrow> epoch \<Rightarrow> mining_db \<Rightarrow> bool" where
  "has_task t sp ep db \<longleftrightarrow> (\<exists>x\<in>set (mining_tasks db). mt_task_id x = t \<and> mt_sp_id x = sp \<and> mt_epoch x = ep)"

definition won_task :: "TaskID \<Rightarrow> mining_db \<Rightarrow> bool" where
  "won_task t db \<longleftrightarrow> (\<exists>x\<in>set (mining_tasks db). mt_task_id x = t \<and> mt_won x)"

definition base_cids :: "TaskID \<Rightarrow> mining_db \<Rightarrow> string set" where
  "base_cids t db = {c. \<exists>b\<in>set (mining_base_block db). bb_task_id b = t \<and> bb_block_cid b = c}"

definition lost_task :: "TaskID \<Rightarrow> mining_db \<Rightarrow> bool" where
  "lost_task t db \<longleftrightarrow> (\<exists>b\<in>set (mining_base_block db). bb_task_id b = t \<and> bb_no_win b)"

text \<open>What an execution reads of its task, whether it has won or not.\<close>

definition task_details :: "TaskID \<Rightarrow> mining_db \<Rightarrow> mining_details option" where
  "task_details t db =
     map_option (\<lambda>r. \<lparr>md_SpID = mt_sp_id r, md_Epoch = mt_epoch r,
       md_BlockCIDs = map bb_block_cid (filter (\<lambda>b. bb_task_id b = t) (mining_base_block db)),
       md_CompTime = mt_base_compute_time r\<rparr>) (find (\<lambda>r. mt_task_id r = t) (mining_tasks db))"

text \<open>What the constraints of the two tables keep.\<close>

definition mining_tasks_ok :: "mining_task list \<Rightarrow> bool" where
  "mining_tasks_ok rows \<longleftrightarrow> distinct (map mt_task_id rows) \<and> distinct (map (\<lambda>x. (mt_sp_id x, mt_epoch x)) rows)"

definition base_ok :: "mining_db \<Rightarrow> bool" where
  "base_ok db \<longleftrightarrow>
     (\<forall>b\<in>set (mining_base_block db). \<exists>ep. has_task (bb_task_id b) (bb_sp_id b) ep db) \<and>
     (\<forall>b\<in>set (mining_base_block db). \<forall>b'\<in>set (mining_base_block db).
        \<not> bb_no_win b \<and> \<not> bb_no_win b' \<and> bb_sp_id b = bb_sp_id b' \<and> bb_block_cid b = bb_block_cid b' \<longrightarrow>
        bb_task_id b = bb_task_id b')"

definition mining_db_ok :: "mining_db \<Rightarrow> bool" where
  "mining_db_ok db \<longleftrightarrow> mining_tasks_ok (mining_tasks db) \<and> base_ok db"

lemmas table_views = has_task_def won_task_def base_cids_def lost_task_def

lemma has_task_unique:
  "mining_tasks_ok (mining_tasks db) \<Longrightarrow> has_task t sp ep db \<Longrightarrow> has_task t sp' ep' db \<Longrightarrow> sp' = sp \<and> ep' = ep"
  using distinct_key_eq [of mt_task_id "mining_tasks db"] by (auto simp: has_task_def mining_tasks_ok_def)

lemma epoch_unique:
  assumes "mining_tasks_ok (mining_tasks db)" "has_task t sp ep db" "has_task t' sp ep db"
  shows "t' = t"
  using assms distinct_key_eq [of "\<lambda>x. (mt_sp_id x, mt_epoch x)" "mining_tasks db"]
  by (fastforce simp: has_task_def mining_tasks_ok_def)

lemma base_cids_disjoint:
  assumes "mining_db_ok db" "has_task t sp ep db" "has_task t' sp ep' db" "t \<noteq> t'"
    "\<not> lost_task t db" "\<not> lost_task t' db"
  shows "base_cids t db \<inter> base_cids t' db = {}"
proof -
  have sp: "bb_sp_id b = sp" if "b \<in> set (mining_base_block db)" "bb_task_id b = t \<or> bb_task_id b = t'" for b
    using that assms(1-3) has_task_unique by (fastforce simp: mining_db_ok_def base_ok_def)
  show ?thesis
  proof (rule equals0I)
    fix c
    assume "c \<in> base_cids t db \<inter> base_cids t' db"
    then obtain b b' where b: "b \<in> set (mining_base_block db)" "b' \<in> set (mining_base_block db)"
      "bb_task_id b = t" "bb_task_id b' = t'" "bb_block_cid b = bb_block_cid b'"
      by (auto simp: base_cids_def)
    then have "bb_task_id b = bb_task_id b'"
      using assms(1,5,6) sp [of b] sp [of b'] unfolding mining_db_ok_def base_ok_def lost_task_def by metis
    with b assms(4) show False by simp
  qed
qed

section \<open>The statements\<close>

lemma find_append: "find p xs = Some x \<Longrightarrow> find p (xs @ ys) = Some x"
  by (induction xs) (auto split: if_splits)

lemma insert_base_blocks_Inl: "fold (\<lambda>c r. rbind r (f c)) cs (Inl e) = Inl e"
  by (induction cs) simp_all

lemma insert_base_block_ok:
  assumes "insert_base_block b db = Inr db'" "base_ok db" "has_task (bb_task_id b) (bb_sp_id b) ep db" "\<not> bb_no_win b"
  shows "base_ok db' \<and> mining_tasks db' = mining_tasks db \<and> mining_base_block db' = mining_base_block db @ [b]"
proof -
  have db': "db' = db\<lparr>mining_base_block := mining_base_block db @ [b]\<rparr>"
    and free: "\<And>x. x \<in> set (mining_base_block db) \<Longrightarrow> \<not> (bb_sp_id x = bb_sp_id b \<and> bb_block_cid x = bb_block_cid b \<and> \<not> bb_no_win x)"
    using assms(1,4) by (auto simp: insert_base_block_def list_ex_iff split: if_splits)
  have "\<exists>ep. has_task (bb_task_id x) (bb_sp_id x) ep db'" if "x \<in> set (mining_base_block db')" for x
    using that assms(2,3) by (auto simp: db' has_task_def base_ok_def)
  moreover have "bb_task_id x = bb_task_id y"
    if "x \<in> set (mining_base_block db')" "y \<in> set (mining_base_block db')"
      "\<not> bb_no_win x \<and> \<not> bb_no_win y \<and> bb_sp_id x = bb_sp_id y \<and> bb_block_cid x = bb_block_cid y" for x y
  proof (cases "x = b \<or> y = b")
    case True
    then show ?thesis using that free [of x] free [of y] by (auto simp: db')
  next
    case False
    then have "x \<in> set (mining_base_block db)" "y \<in> set (mining_base_block db)" using that by (auto simp: db')
    then show ?thesis using that(3) assms(2) unfolding base_ok_def by blast
  qed
  ultimately have "base_ok db'" unfolding base_ok_def by blast
  then show ?thesis unfolding db' by simp
qed

lemma insert_base_blocks_ok:
  assumes "insert_base_blocks t sp cids db = Inr db'" "base_ok db" "has_task t sp ep db"
  shows "base_ok db' \<and> mining_tasks db' = mining_tasks db \<and>
    mining_base_block db' = mining_base_block db @
      map (\<lambda>c. \<lparr>bb_task_id = t, bb_sp_id = sp, bb_block_cid = c, bb_no_win = False\<rparr>) cids"
  using assms
proof (induction cids arbitrary: db)
  case (Cons c cs)
  let ?b = "\<lparr>bb_task_id = t, bb_sp_id = sp, bb_block_cid = c, bb_no_win = False\<rparr>"
  obtain db1 where db1: "insert_base_block ?b db = Inr db1"
    using Cons.prems(1) by (cases "insert_base_block ?b db") (auto simp: insert_base_blocks_def insert_base_blocks_Inl)
  have ok: "base_ok db1 \<and> mining_tasks db1 = mining_tasks db \<and> mining_base_block db1 = mining_base_block db @ [?b]"
    using insert_base_block_ok [OF db1 Cons.prems(2)] Cons.prems(3) by simp
  then show ?case
    using Cons.IH [of db1] Cons.prems db1 by (simp add: insert_base_blocks_def has_task_def)
qed (simp add: insert_base_blocks_def)

lemma add_mining_task_ok:
  assumes "add_mining_task parse t0 sp base db = Inr db'" "mining_db_ok db"
  shows "mining_db_ok db'" "task_details t db = Some d \<Longrightarrow> task_details t db' = Some d" "won_task t db' = won_task t db"
    "lost_task t db' = lost_task t db"
proof -
  obtain db1 where db1: "insert_mining_task
      \<lparr>mt_task_id = t0, mt_sp_id = sp, mt_epoch = mb_epoch base,
        mt_base_compute_time = mb_ComputeTime base, mt_won = False, mt_mined_cid = None,
        mt_mined_at = None, mt_submitted_at = None, mt_included = None\<rparr> db = Inr db1"
    and db': "insert_base_blocks t0 sp (Cids (mb_TipSet base)) db1 = Inr db'"
    using assms(1) by (auto simp: add_mining_task_def rbind_Inr_iff)
  have new: "has_task t0 sp (mb_epoch base) db1" and rows: "mining_base_block db1 = mining_base_block db"
    and kept: "\<And>t sp ep. has_task t sp ep db \<Longrightarrow> has_task t sp ep db1"
    and won: "\<And>t. won_task t db1 = won_task t db"
    using db1 by (auto simp: insert_mining_task_def has_task_def won_task_def split: if_splits)
  have tasks: "mining_tasks_ok (mining_tasks db1)"
    using db1 assms(2)
    by (fastforce simp: insert_mining_task_def mining_db_ok_def mining_tasks_ok_def list_ex_iff split: if_splits)
  have "base_ok db1"
    using assms(2) kept rows unfolding mining_db_ok_def base_ok_def by (metis (no_types, lifting))
  note ins = insert_base_blocks_ok [OF db' this new]
  show "mining_db_ok db'" using ins tasks by (simp add: mining_db_ok_def)
  show "won_task t db' = won_task t db" using won ins by (simp add: won_task_def)
  show "lost_task t db' = lost_task t db" using ins rows by (auto simp: lost_task_def)
  assume d: "task_details t db = Some d"
  then obtain r where r: "find (\<lambda>r. mt_task_id r = t) (mining_tasks db) = Some r" by (auto simp: task_details_def)
  have "t \<noteq> t0"
    using find_Some_set [OF r] db1 by (auto simp: insert_mining_task_def list_ex_iff split: if_splits)
  moreover have "find (\<lambda>r. mt_task_id r = t) (mining_tasks db') = Some r"
    using r db1 ins by (auto simp: insert_mining_task_def find_append split: if_splits)
  ultimately show "task_details t db' = Some d"
    using d r ins rows by (simp add: task_details_def comp_def)
qed

lemma bex_update_where:
  "(\<exists>x\<in>set (update_where p f t). Q x) \<longleftrightarrow> (\<exists>x\<in>set t. Q (if p x then f x else x))"
  by (auto simp: update_where_def split: if_splits)

lemma update_tasks_ok:
  fixes p :: "mining_task \<Rightarrow> bool"
  assumes "mining_db_ok db" "\<And>x. mt_task_id (f x) = mt_task_id x \<and> mt_sp_id (f x) = mt_sp_id x \<and> mt_epoch (f x) = mt_epoch x \<and>
      mt_base_compute_time (f x) = mt_base_compute_time x"
  defines "db' \<equiv> db\<lparr>mining_tasks := update_where p f (mining_tasks db)\<rparr>"
  shows "mining_db_ok db'" "task_details t db' = task_details t db" "lost_task t db' = lost_task t db"
proof -
  have has: "has_task t sp ep db' = has_task t sp ep db" for t sp ep
    using assms(2) by (simp add: has_task_def db'_def bex_update_where if_distrib cong: if_cong)
  have rows: "mining_base_block db' = mining_base_block db" by (simp add: db'_def)
  have "base_ok db' = base_ok db" by (simp only: base_ok_def has rows)
  moreover have "mining_tasks_ok (mining_tasks db')"
    using assms(1,2) by (simp add: mining_tasks_ok_def mining_db_ok_def db'_def map_update_where_key)
  ultimately show "mining_db_ok db'"
    using assms(1) by (simp add: mining_db_ok_def)
  show "task_details t db' = task_details t db"
    using assms(2) find_update_where_key [of mt_task_id f t p "mining_tasks db"]
    by (simp add: task_details_def db'_def option.map_comp comp_def if_distrib cong: if_cong)
qed (simp add: db'_def lost_task_def)

lemma persist_submitted_ok:
  assumes "mining_db_ok db"
  shows "mining_db_ok (persist_submitted t0 now db)"
    "task_details t (persist_submitted t0 now db) = task_details t db"
    "won_task t (persist_submitted t0 now db) = won_task t db"
    "lost_task t (persist_submitted t0 now db) = lost_task t db"
  using update_tasks_ok [OF assms, where f = "\<lambda>r. r\<lparr>mt_submitted_at := Some now\<rparr>" and p = "\<lambda>r. mt_task_id r = t0"]
  by (simp_all add: persist_submitted_def won_task_def bex_update_where if_distrib cong: if_cong)

lemma set_included_ok:
  assumes "mining_db_ok db"
  shows "mining_db_ok (set_included i ep0 sp0 db)"
    "task_details t (set_included i ep0 sp0 db) = task_details t db"
    "won_task t (set_included i ep0 sp0 db) = won_task t db"
    "lost_task t (set_included i ep0 sp0 db) = lost_task t db"
  using update_tasks_ok [OF assms, where f = "\<lambda>r. r\<lparr>mt_included := Some i\<rparr>" and p = "\<lambda>r. mt_epoch r = ep0 \<and> mt_sp_id r = sp0"]
  by (simp_all add: set_included_def won_task_def bex_update_where if_distrib cong: if_cong)

lemma check_inclusion_ok:
  assumes "mining_db_ok db"
  shows "mining_db_ok (snd (check_inclusion bh head rs db)) \<and>
    task_details t (snd (check_inclusion bh head rs db)) = task_details t db \<and>
    won_task t (snd (check_inclusion bh head rs db)) = won_task t db \<and>
    lost_task t (snd (check_inclusion bh head rs db)) = lost_task t db"
  using assms by (induction rs arbitrary: db) (simp_all add: set_included_ok split: sum.split)

lemma InclusionCheck_ok:
  assumes "mining_db_ok db"
  shows "mining_db_ok (snd (InclusionCheck bh hc db))"
    "task_details t (snd (InclusionCheck bh hc db)) = task_details t db"
    "won_task t (snd (InclusionCheck bh hc db)) = won_task t db"
    "lost_task t (snd (InclusionCheck bh hc db)) = lost_task t db"
  using assms check_inclusion_ok by (simp_all add: InclusionCheck_def split: sum.split)

lemma persist_win_ok:
  assumes "mining_db_ok db" "persist_win t0 hdr now db = (n, db')"
  shows "mining_db_ok db'" "task_details t db' = task_details t db"
    "lost_task t db' = lost_task t db" "won_task t db \<Longrightarrow> won_task t db'" "0 < n \<Longrightarrow> won_task t0 db'"
    "0 < n \<Longrightarrow> \<not> won_task t0 db"
proof -
  have db': "db' = db\<lparr>mining_tasks := update_where (\<lambda>r. mt_task_id r = t0 \<and> \<not> mt_won r)
      (\<lambda>r. r\<lparr>mt_won := True, mt_mined_cid := Some hdr, mt_mined_at := Some now\<rparr>) (mining_tasks db)\<rparr>"
    and n: "n = count_where (\<lambda>r. mt_task_id r = t0 \<and> \<not> mt_won r) (mining_tasks db)"
    using assms(2) by (simp_all add: persist_win_def)
  show "mining_db_ok db'" "task_details t db' = task_details t db" "lost_task t db' = lost_task t db"
    unfolding db' by (rule update_tasks_ok [OF assms(1)]; simp)+
  show "won_task t db \<Longrightarrow> won_task t db'"
    by (auto simp: db' won_task_def bex_update_where)
  assume "0 < n"
  then obtain x where x: "x \<in> set (mining_tasks db)" "mt_task_id x = t0" "\<not> mt_won x"
    by (auto simp: n count_where_def filter_empty_conv)
  then show "\<not> won_task t0 db"
    using assms(1) distinct_key_eq [of mt_task_id "mining_tasks db"]
    by (auto simp: won_task_def mining_db_ok_def mining_tasks_ok_def)
  show "won_task t0 db'"
    using x by (auto simp: db' won_task_def bex_update_where)
qed

lemma persistNoWin_ok:
  assumes "mining_db_ok db"
  shows "mining_db_ok (snd (persistNoWin t0 db))"
    "task_details t (snd (persistNoWin t0 db)) = task_details t db"
    "won_task t (snd (persistNoWin t0 db)) = won_task t db"
    "t \<noteq> t0 \<Longrightarrow> lost_task t (snd (persistNoWin t0 db)) = lost_task t db"
proof -
  let ?db = "snd (persistNoWin t0 db)"
  have tasks: "mining_tasks ?db = mining_tasks db" by (simp add: persistNoWin_def)
  have has: "has_task t sp ep ?db = has_task t sp ep db" for t sp ep by (simp add: has_task_def tasks)
  show "won_task t ?db = won_task t db" by (simp add: won_task_def tasks)
  have rows: "set (mining_base_block ?db) =
      {b \<in> set (mining_base_block db). bb_task_id b \<noteq> t0} \<union>
      (\<lambda>b. b\<lparr>bb_no_win := True\<rparr>) ` {b \<in> set (mining_base_block db). bb_task_id b = t0}"
    by (auto simp: persistNoWin_def set_update_where count_where_def filter_empty_conv)
  have "map bb_block_cid (filter (\<lambda>b. bb_task_id b = t) (update_where p (\<lambda>b. b\<lparr>bb_no_win := True\<rparr>) bs)) =
      map bb_block_cid (filter (\<lambda>b. bb_task_id b = t) bs)" for p and bs :: "base_block list"
    by (induction bs) (simp_all add: update_where_def)
  then show "task_details t ?db = task_details t db"
    by (simp add: task_details_def persistNoWin_def)
  show "t \<noteq> t0 \<Longrightarrow> lost_task t ?db = lost_task t db" unfolding lost_task_def rows by auto
  have live: "x \<in> set (mining_base_block db)" if "x \<in> set (mining_base_block ?db)" "\<not> bb_no_win x" for x
    using that unfolding rows by auto
  have fk: "\<exists>ep. has_task (bb_task_id x) (bb_sp_id x) ep db" if "x \<in> set (mining_base_block ?db)" for x
    using that assms unfolding rows mining_db_ok_def base_ok_def by auto
  have "base_ok ?db"
    using assms live fk unfolding base_ok_def mining_db_ok_def has by blast
  then show "mining_db_ok ?db" using assms by (simp add: mining_db_ok_def tasks)
qed

lemma load_details_Some:
  "load_details t db = Inr (Some d) \<Longrightarrow> task_details t db = Some d"
  by (auto simp: load_details_def task_details_def split: option.splits if_splits)

lemma task_details_Some:
  assumes "task_details t db = Some d"
  shows "has_task t (md_SpID d) (md_Epoch d) db" "set (md_BlockCIDs d) = base_cids t db"
  using assms by (auto simp: task_details_def has_task_def base_cids_def dest!: find_Some_set)

section \<open>The invariant\<close>

definition claims :: "mine_sys \<Rightarrow> TaskID \<Rightarrow> BlockTemplate \<Rightarrow> bool" where
  "claims s t tm \<longleftrightarrow> (\<exists>hdr. (t, tm, hdr) \<in> set (w_submitted s) \<or> (\<exists>r. w_runs s r = Some (t, Won tm hdr)))"

definition claim_ok :: "(mining_details \<Rightarrow> bool option) \<Rightarrow> mining_db \<Rightarrow> TaskID \<Rightarrow> BlockTemplate \<Rightarrow> bool" where
  "claim_ok elect db t tm \<longleftrightarrow> won_task t db \<and>
     (\<exists>d. task_details t db = Some d \<and> elect d \<noteq> Some False \<and> bt_Miner tm = md_SpID d \<and> bt_Epoch tm = md_Epoch d \<and>
          bt_Parents tm \<noteq> [] \<and> set (bt_Parents tm) \<subseteq> set (md_BlockCIDs d))"

definition rows_inv :: "(mining_details \<Rightarrow> bool option) \<Rightarrow> mine_sys \<Rightarrow> bool" where
  "rows_inv elect s \<longleftrightarrow>
     mining_db_ok (w_db s) \<and>
     (\<forall>r t d. w_runs s r = Some (t, Loaded d) \<longrightarrow> task_details t (w_db s) = Some d) \<and>
     (\<forall>t. lost_task t (w_db s) \<longrightarrow> (\<exists>d. task_details t (w_db s) = Some d \<and> elect d \<noteq> Some True)) \<and>
     (\<forall>t tm. claims s t tm \<longrightarrow> claim_ok elect (w_db s) t tm)"

definition once_inv :: "mine_sys \<Rightarrow> bool" where
  "once_inv s \<longleftrightarrow>
     distinct (map fst (w_submitted s)) \<and>
     (\<forall>r t tm hdr. w_runs s r = Some (t, Won tm hdr) \<longrightarrow>
        t \<notin> fst ` set (w_submitted s) \<and>
        (\<forall>r' tm' hdr'. w_runs s r' = Some (t, Won tm' hdr') \<longrightarrow> r' = r))"

lemma rows_invI:
  assumes "mining_db_ok (w_db s)"
    "\<And>r t d. w_runs s r = Some (t, Loaded d) \<Longrightarrow> task_details t (w_db s) = Some d"
    "\<And>t. lost_task t (w_db s) \<Longrightarrow> \<exists>d. task_details t (w_db s) = Some d \<and> elect d \<noteq> Some True"
    "\<And>t tm. claims s t tm \<Longrightarrow> claim_ok elect (w_db s) t tm"
  shows "rows_inv elect s"
  using assms unfolding rows_inv_def by blast

lemma rows_invD:
  assumes "rows_inv elect s"
  shows "mining_db_ok (w_db s)"
    "w_runs s r = Some (t, Loaded d) \<Longrightarrow> task_details t (w_db s) = Some d"
    "lost_task t (w_db s) \<Longrightarrow> \<exists>d. task_details t (w_db s) = Some d \<and> elect d \<noteq> Some True"
    "claims s t tm \<Longrightarrow> claim_ok elect (w_db s) t tm"
  using assms unfolding rows_inv_def by blast+

text \<open>A statement that keeps what was read and won, and adds no claim, keeps the invariant.\<close>

lemma rows_inv_db:
  assumes "rows_inv elect s" "mining_db_ok db'"
    "\<And>t d. task_details t (w_db s) = Some d \<Longrightarrow> task_details t db' = Some d"
    "\<And>t. won_task t (w_db s) \<Longrightarrow> won_task t db'"
    "\<And>t. lost_task t db' \<Longrightarrow> lost_task t (w_db s) \<or> (\<exists>d. task_details t (w_db s) = Some d \<and> elect d \<noteq> Some True)"
  shows "rows_inv elect (s\<lparr>w_db := db'\<rparr>)"
proof (rule rows_invI, goal_cases)
  case 3
  then show ?case using assms(3,5) rows_invD(3) [OF assms(1)] by simp blast
next
  case (4 t tm)
  then have "claim_ok elect (w_db s) t tm" using rows_invD(4) [OF assms(1)] by (simp add: claims_def)
  then show ?case using assms(3,4) unfolding claim_ok_def by simp blast
qed (use assms(1-3) rows_invD in auto)

lemma rows_inv_runs:
  assumes "rows_inv elect s" "w_db s' = w_db s"
    "\<And>r t d. w_runs s' r = Some (t, Loaded d) \<Longrightarrow> w_runs s r = Some (t, Loaded d) \<or> task_details t (w_db s) = Some d"
    "\<And>t tm. claims s' t tm \<Longrightarrow> claims s t tm \<or> claim_ok elect (w_db s) t tm"
  shows "rows_inv elect s'"
proof (rule rows_invI, goal_cases)
  case 2
  then show ?case using assms(2,3) rows_invD(2) [OF assms(1)] by metis
next
  case 4
  then show ?case using assms(2,4) rows_invD(4) [OF assms(1)] by metis
qed (use assms(2) rows_invD(1,3) [OF assms(1)] in simp_all)

lemma rows_inv_stop:
  "rows_inv elect s \<Longrightarrow> rows_inv elect (s\<lparr>w_runs := (w_runs s)(r := None)\<rparr>)"
  by (erule rows_inv_runs) (auto simp: claims_def split: if_splits)

lemma rows_inv_step:
  assumes "mine_step elect bp s s'" "rows_inv elect s"
  shows "rows_inv elect s'"
  using assms
proof (cases rule: mine_step.cases)
  case (dispatch parse t sp base db')
  note ok = add_mining_task_ok [OF dispatch(2) rows_invD(1) [OF assms(2)]]
  show ?thesis unfolding dispatch(1) by (rule rows_inv_db [OF assms(2) ok(1)]) (simp_all add: ok)
next
  case (load t d r)
  then show ?thesis
    using assms(2) load_details_Some
    by (intro rows_inv_runs [OF assms(2)]) (auto simp: claims_def split: if_splits)
next
  case (no_win r t d api)
  note ok = persistNoWin_ok [OF rows_invD(1) [OF assms(2)]]
  have "rows_inv elect (s\<lparr>w_db := snd (persistNoWin t (w_db s))\<rparr>)"
    using rows_invD(2) [OF assms(2) no_win(2)] no_win(4)
    by (intro rows_inv_db [OF assms(2) ok(1)]) (simp_all add: ok(2,3), metis ok(4))
  then show ?thesis
    using rows_inv_stop [of elect "s\<lparr>w_db := snd (persistNoWin t (w_db s))\<rparr>" r] by (simp add: no_win(1))
next
  case (win r t d api tm hdr stamp now n db')
  note ok = persist_win_ok [OF rows_invD(1) [OF assms(2)] win(6)]
  have inv: "rows_inv elect (s\<lparr>w_db := db'\<rparr>)"
    by (rule rows_inv_db [OF assms(2) ok(1)]) (simp_all add: ok(2-4))
  have "claim_ok elect db' t tm"
    using mine_attempt_block [OF win(4,3)] rows_invD(2) [OF assms(2) win(2)] win(5) ok(2,5) win(7)
    by (simp add: claim_ok_def)
  then show ?thesis
    unfolding win(1) by (intro rows_inv_runs [OF inv]) (auto simp: claims_def split: if_splits)
next
  case (submit r t tm hdr)
  then show ?thesis
    using assms(2) by (intro rows_inv_runs [OF assms(2)]) (auto simp: claims_def split: if_splits)
next
  case (submitted r t now)
  note ok = persist_submitted_ok [OF rows_invD(1) [OF assms(2)], where now = now]
  have "rows_inv elect (s\<lparr>w_db := persist_submitted t now (w_db s)\<rparr>)"
    by (rule rows_inv_db [OF assms(2) ok(1)]) (simp_all add: ok)
  then show ?thesis
    using rows_inv_stop [of elect "s\<lparr>w_db := persist_submitted t now (w_db s)\<rparr>" r] by (simp add: submitted(1))
next
  case (stop r)
  then show ?thesis using rows_inv_stop [OF assms(2)] by simp
next
  case (inclusion bh hc)
  note ok = InclusionCheck_ok [OF rows_invD(1) [OF assms(2)]]
  show ?thesis unfolding inclusion(1) by (rule rows_inv_db [OF assms(2) ok(1)]) (simp_all add: ok)
qed

text \<open>A task whose win was just stored had not won, so nothing was claimed for it.\<close>

lemma once_inv_step:
  assumes "mine_step elect bp s s'" "rows_inv elect s" "once_inv s"
  shows "once_inv s'"
  using assms(1)
proof (cases rule: mine_step.cases)
  case (win r t d api tm hdr stamp now n db')
  have "\<not> won_task t (w_db s)" using persist_win_ok(6) [OF rows_invD(1) [OF assms(2)] win(6) win(7)] .
  then have "\<not> claims s t x" for x using rows_invD(4) [OF assms(2)] by (auto simp: claim_ok_def)
  then show ?thesis
    using assms(3) unfolding win(1) once_inv_def claims_def by (auto split: if_splits)
next
  case (submit r t tm hdr)
  then show ?thesis
    using assms(3) unfolding once_inv_def by (auto split: if_splits)
qed (use assms(3) in \<open>auto simp: once_inv_def split: if_splits\<close>)

lemma mine_reachable_inv:
  "mine_reachable elect bp s \<Longrightarrow> rows_inv elect s \<and> once_inv s"
proof (induction rule: mine_reachable.induct)
  case init
  show ?case
    by (auto simp: rows_inv_def once_inv_def mine_init_def claims_def mining_db_ok_def mining_tasks_ok_def base_ok_def lost_task_def)
next
  case (step s s')
  then show ?case using rows_inv_step once_inv_step by blast
qed

lemma submitted_claim:
  assumes "mine_reachable elect bp s" "(t, tm, hdr) \<in> set (w_submitted s)"
  shows "claim_ok elect (w_db s) t tm"
  using rows_invD(4) [OF conjunct1 [OF mine_reachable_inv [OF assms(1)]]] assms(2) by (auto simp: claims_def)

section \<open>An example\<close>

definition ex_block :: "string \<Rightarrow> block_header" where
  "ex_block c = \<lparr>bh_Cid = c, bh_Ticket = c, bh_Timestamp = 1000\<rparr>"

definition ex_tipset :: "string list \<Rightarrow> epoch \<Rightarrow> tipset" where
  "ex_tipset cs h = \<lparr>ts_Blocks = map ex_block cs, ts_Height = h\<rparr>"

definition ex_base_info :: base_info where
  "ex_base_info = \<lparr>mbi_EligibleForMining = True,
     mbi_Sectors = [\<lparr>si_SealProof = 8, si_SectorNumber = 3, si_SealedCID = ''R'', si_SectorKey = None\<rparr>],
     mbi_PrevBeaconEntry = [], mbi_BeaconEntries = [], mbi_WorkerKey = ''w''\<rparr>"

text \<open>
  A node that knows the genesis tipset \<open>G\<close> at height 9 and the tipset of \<open>A\<close> and \<open>B\<close> at
  height 10, follows \<open>head\<close>, prefers the tipset of \<open>B\<close> and \<open>D\<close>, and names the block it
  creates \<open>name\<close>.
\<close>

definition ex_api :: "base_info option \<Rightarrow> tipset \<Rightarrow> string \<Rightarrow> wp_api" where
  "ex_api info head name = \<lparr>
     ParseCid = Inr,
     ChainGetTipSet = (\<lambda>cs. if cs = [''G''] then Inr (ex_tipset cs 9)
        else if cs = [''A'', ''B''] then Inr (ex_tipset cs 10) else Inl ''not found''),
     MinerGetBaseInfo = (\<lambda>_ _ _. Inr info), HeadOnError = Inr head, ChainFinality = 900,
     IsRoundWinner = (\<lambda>_ _ _ _. Inr (Some ''e'')),
     MarshalAddress = (\<lambda>_. Inr []), DrawRandomnessFromBase = (\<lambda>_ _ _ _. Inr (replicate 32 0)),
     RegisteredWinningPoStProof = Inr,
     GeneratePoStFallbackSectorChallenges = (\<lambda>_ _ _ _. Inr (\<lambda>_. [])),
     GenerateSingleVanillaProof = (\<lambda>_ _ _. Inr (Some [])), cuzk_Enabled = False,
     WinningPoStCuzk = (\<lambda>_ _ _ _. Inl ''off''), GenerateWinningPoStWithVanilla = (\<lambda>_ _ _ _. Inr ''p''),
     VRFProofBytes = (\<lambda>_. []), ComputeVRF = (\<lambda>_ _. Inr ''t''), MpoolSelect = (\<lambda>_ _. Inr []),
     ChainHead = Inr head, ChainTipSetWeight = (\<lambda>cs. Inr (if cs = [''B'', ''D''] then 2 else 1)),
     NewTipSet = (\<lambda>bs. Inr \<lparr>ts_Blocks = bs, ts_Height = 10\<rparr>),
     MinTicket = (\<lambda>_. ''k''), MinTimestamp = (\<lambda>_. 1000), MinerCreateBlock = (\<lambda>_. Inr (name, 1030))\<rparr>"

lemma ex_api_ok: "api_ok (ex_api info head name)"
  by (auto simp: api_ok_def ex_api_def ex_tipset_def ex_block_def Cids_def split: if_splits)

definition ex_template :: "string list \<Rightarrow> epoch \<Rightarrow> uint64 \<Rightarrow> BlockTemplate" where
  "ex_template ps ep stamp = \<lparr>bt_Miner = 7, bt_Parents = ps, bt_Ticket = ''t'', bt_Eproof = ''e'', bt_BeaconValues = [],
     bt_Messages = [], bt_Epoch = ep, bt_Timestamp = stamp, bt_WinningPoStProof = ''p''\<rparr>"

definition ex_details :: "string list \<Rightarrow> epoch \<Rightarrow> mining_details" where
  "ex_details cs ep = \<lparr>md_SpID = 7, md_Epoch = ep, md_BlockCIDs = cs, md_CompTime = 0\<rparr>"

lemmas ex_mining_defs = ex_block_def ex_tipset_def ex_base_info_def ex_api_def ex_template_def ex_details_def mainnet_def

lemmas attempt_defs = mine_attempt_def load_base_def winner_check_def winning_post_def post_randomness_def
  generateWinningPost_def computeTicket_def refresh_base_def block_template_def Cids_def mb_epoch_def

lemma ex_attempts:
  "mine_attempt mainnet (ex_api (Some ex_base_info) (ex_tipset [''G''] 9) ''A'') (ex_details [''G''] 10) =
     Inr (Some (ex_template [''G''] 10 1030, ''A'', 1030))"
  "mine_attempt mainnet (ex_api (Some ex_base_info) (ex_tipset [''G''] 9) ''C'') (ex_details [''G''] 11) =
     Inr (Some (ex_template [''G''] 11 1060, ''C'', 1030))"
  "mine_attempt mainnet (ex_api (Some ex_base_info) (ex_tipset [''B'', ''D''] 10) ''C'') (ex_details [''A'', ''B''] 11) =
     Inr (Some (ex_template [''B''] 11 1030, ''C'', 1030))"
  "mine_attempt mainnet (ex_api None (ex_tipset [''G''] 9) ''A'') (ex_details [''G''] 10) = Inr None"
  by (simp_all add: attempt_defs ex_mining_defs Let_def)

definition ex_mining_task :: "TaskID \<Rightarrow> epoch \<Rightarrow> string option \<Rightarrow> mining_task" where
  "ex_mining_task t ep mined = \<lparr>mt_task_id = t, mt_sp_id = 7, mt_epoch = ep, mt_base_compute_time = 0, mt_won = (mined \<noteq> None),
     mt_mined_cid = mined, mt_mined_at = map_option (\<lambda>_. 5) mined, mt_submitted_at = None, mt_included = None\<rparr>"

definition ex_bb :: "TaskID \<Rightarrow> string \<Rightarrow> bool \<Rightarrow> base_block" where
  "ex_bb t c nw = \<lparr>bb_task_id = t, bb_sp_id = 7, bb_block_cid = c, bb_no_win = nw\<rparr>"

definition ex_base :: "string list \<Rightarrow> epoch \<Rightarrow> epoch \<Rightarrow> MiningBase" where
  "ex_base cs h add = \<lparr>mb_TipSet = ex_tipset cs h, mb_ComputeTime = 0, mb_AddRounds = add\<rparr>"

lemmas table_defs = ex_mining_task_def ex_bb_def ex_base_def add_mining_task_def own_blocks_def own_block_included_def
  insert_mining_task_def insert_base_blocks_def insert_base_block_def load_details_def persist_win_def
  persistNoWin_def count_where_def update_where_def mb_epoch_def Cids_def

text \<open>Miner 7 has mined block \<open>A\<close> on \<open>G\<close>; a second execution of the task has read it before.\<close>

definition ex_first :: mine_sys where
  "ex_first = \<lparr>w_db = \<lparr>mining_tasks = [ex_mining_task 1 10 (Some ''A'')], mining_base_block = [ex_bb 1 ''G'' False]\<rparr>,
     w_runs = [0 \<mapsto> (1, Sent), 1 \<mapsto> (1, Loaded (ex_details [''G''] 10))],
     w_submitted = [(1, ex_template [''G''] 10 1030, ''A'')]\<rparr>"

lemma ex_first_reachable:
  assumes "\<And>d. elect d \<noteq> Some False"
  shows "mine_reachable elect mainnet ex_first"
proof -
  let ?db = "\<lparr>mining_tasks = [ex_mining_task 1 10 None], mining_base_block = [ex_bb 1 ''G'' False]\<rparr>"
  let ?s1 = "\<lparr>w_db = ?db, w_runs = Map.empty, w_submitted = []\<rparr>"
  let ?s2 = "?s1\<lparr>w_runs := [0 \<mapsto> (1, Loaded (ex_details [''G''] 10))]\<rparr>"
  let ?s3 = "?s2\<lparr>w_runs := (w_runs ?s2)(1 \<mapsto> (1, Loaded (ex_details [''G''] 10)))\<rparr>"
  let ?s4 = "ex_first\<lparr>w_runs := (w_runs ex_first)(0 \<mapsto> (1, Won (ex_template [''G''] 10 1030) ''A'')), w_submitted := []\<rparr>"
  have "mine_step elect mainnet mine_init ?s1"
    using mine_step.dispatch [of Inr 1 7 "ex_base [''G''] 9 0" mine_init ?db elect mainnet]
    by (simp add: table_defs ex_mining_defs mine_init_def)
  then have 1: "mine_reachable elect mainnet ?s1" by (rule mine_reachable.step [OF mine_reachable.init])
  have "mine_step elect mainnet ?s1 ?s2"
    using mine_step.load [of 1 ?s1 "ex_details [''G''] 10" 0 elect mainnet] by (simp add: table_defs ex_mining_defs)
  note 2 = mine_reachable.step [OF 1 this]
  have "mine_step elect mainnet ?s2 ?s3"
    using mine_step.load [of 1 ?s2 "ex_details [''G''] 10" 1 elect mainnet] by (simp add: table_defs ex_mining_defs)
  note 3 = mine_reachable.step [OF 2 this]
  have "mine_step elect mainnet ?s3 ?s4"
    using mine_step.win [OF _ ex_api_ok ex_attempts(1), of ?s3 0 1 elect 5 1 "w_db ex_first"] assms
    by (simp add: table_defs ex_first_def fun_upd_twist)
  note 4 = mine_reachable.step [OF 3 this]
  have "mine_step elect mainnet ?s4 ex_first"
    using mine_step.submit [of ?s4 0 1 "ex_template [''G''] 10 1030" "''A''" elect mainnet]
    by (simp add: ex_first_def fun_upd_twist)
  then show ?thesis by (rule mine_reachable.step [OF 4])
qed

text \<open>A turn of the mining loop is a sequence of steps.\<close>

lemma mine_round_reachable:
  assumes "mine_reachable elect bp s"
  shows "mine_reachable elect bp (s\<lparr>w_db := snd (mine_round parse idf now head weight acts (base, w_db s))\<rparr>)"
proof -
  let ?b = "next_base now head weight base"
  let ?add = "\<lambda>(t, act) db. case idf act of None \<Rightarrow> db
    | Some sp \<Rightarrow> (case add_mining_task parse t sp ?b db of Inl _ \<Rightarrow> db | Inr db' \<Rightarrow> db')"
  have "mine_reachable elect bp (s\<lparr>w_db := fold ?add acts (w_db s)\<rparr>)"
    using assms
  proof (induction acts arbitrary: s)
    case (Cons a acts)
    obtain t act where a: "a = (t, act)" by (cases a)
    have "mine_reachable elect bp (s\<lparr>w_db := ?add a (w_db s)\<rparr>)"
      using Cons.prems mine_reachable.step [OF Cons.prems mine_step.dispatch, of parse t _ ?b]
      by (auto simp: a split: option.split sum.split)
    from Cons.IH [OF this] show ?case by simp
  qed simp
  then show ?thesis by (simp add: mine_round_def Let_def)
qed

text \<open>A further task that is added, wins and submits.\<close>

lemma mine_once_more:
  assumes "mine_reachable elect mainnet s" "\<And>d. elect d \<noteq> Some False"
    "add_mining_task Inr 2 7 base (w_db s) = Inr db1" "load_details 2 db1 = Inr (Some d)" "w_runs s 2 = None"
    "mine_attempt mainnet (ex_api info head name) d = Inr (Some (tm, hdr, stamp))"
    "persist_win 2 hdr 5 db1 = (n, db2)" "0 < n"
  shows "mine_reachable elect mainnet
    (s\<lparr>w_db := db2, w_runs := (w_runs s)(2 \<mapsto> (2, Sent)), w_submitted := (2, tm, hdr) # w_submitted s\<rparr>)"
proof -
  let ?s1 = "s\<lparr>w_db := db1\<rparr>"
  let ?s2 = "?s1\<lparr>w_runs := (w_runs s)(2 \<mapsto> (2, Loaded d))\<rparr>"
  let ?s3 = "?s2\<lparr>w_db := db2, w_runs := (w_runs s)(2 \<mapsto> (2, Won tm hdr))\<rparr>"
  have 1: "mine_reachable elect mainnet ?s1"
    using mine_reachable.step [OF assms(1) mine_step.dispatch [OF assms(3)]] .
  have 2: "mine_reachable elect mainnet ?s2"
    using mine_reachable.step [OF 1 mine_step.load [of 2 ?s1 d 2]] assms(4,5) by simp
  have 3: "mine_reachable elect mainnet ?s3"
    using mine_reachable.step [OF 2 mine_step.win [of ?s2 2 2 d, OF _ ex_api_ok assms(6,2)]] assms(7,8) by simp
  show ?thesis
    using mine_reachable.step [OF 3 mine_step.submit [of ?s3 2 2 tm hdr]] by simp
qed

definition ex_second :: mine_sys where
  "ex_second = ex_first
     \<lparr>w_db := \<lparr>mining_tasks = [ex_mining_task 1 10 (Some ''A''), ex_mining_task 2 11 (Some ''C'')],
               mining_base_block = [ex_bb 1 ''G'' False, ex_bb 2 ''A'' False, ex_bb 2 ''B'' False]\<rparr>,
      w_runs := (w_runs ex_first)(2 \<mapsto> (2, Sent)),
      w_submitted := (2, ex_template [''B''] 11 1030, ''C'') # w_submitted ex_first\<rparr>"

lemma ex_second_reachable:
  assumes "\<And>d. elect d \<noteq> Some False"
  shows "mine_reachable elect mainnet ex_second"
proof -
  let ?db1 = "\<lparr>mining_tasks = [ex_mining_task 1 10 (Some ''A''), ex_mining_task 2 11 None],
    mining_base_block = [ex_bb 1 ''G'' False, ex_bb 2 ''A'' False, ex_bb 2 ''B'' False]\<rparr>"
  have "add_mining_task Inr 2 7 (ex_base [''A'', ''B''] 10 0) (w_db ex_first) = Inr ?db1"
    by (simp add: table_defs ex_mining_defs ex_first_def)
  moreover have "load_details 2 ?db1 = Inr (Some (ex_details [''A'', ''B''] 11))"
    by (simp add: table_defs ex_mining_defs)
  moreover have "persist_win 2 ''C'' 5 ?db1 = (1, w_db ex_second)"
    by (simp add: table_defs ex_second_def)
  ultimately show ?thesis
    using mine_once_more [OF ex_first_reachable [OF assms] assms _ _ _ ex_attempts(3)]
    by (simp add: ex_second_def ex_first_def)
qed

section \<open>Theorems\<close>

text \<open>
  C4: A miner never submits two blocks of one epoch, whatever the nodes answer, however many
  executions of a mining task run at once and wherever they stop.
\<close>

theorem one_block_per_epoch:
  assumes "mine_reachable elect bp s"
  shows "distinct (map (\<lambda>(t, tm, hdr). (bt_Miner tm, bt_Epoch tm)) (w_submitted s))"
proof -
  let ?key = "\<lambda>(t, tm, hdr). (bt_Miner tm, bt_Epoch tm)"
  have inv: "rows_inv elect s" "once_inv s" using mine_reachable_inv [OF assms] by simp_all
  have "x = y" if x: "x \<in> set (w_submitted s)" and y: "y \<in> set (w_submitted s)" and eq: "?key x = ?key y" for x y
  proof -
    obtain d d' where d: "task_details (fst x) (w_db s) = Some d" "task_details (fst y) (w_db s) = Some d'"
      "md_SpID d = md_SpID d'" "md_Epoch d = md_Epoch d'"
      using submitted_claim [OF assms, of "fst x" "fst (snd x)" "snd (snd x)"]
        submitted_claim [OF assms, of "fst y" "fst (snd y)" "snd (snd y)"] x y eq
      by (auto simp: claim_ok_def split: prod.splits)
    have "fst x = fst y"
      using epoch_unique [of "w_db s"] task_details_Some(1) [OF d(1)] task_details_Some(1) [OF d(2)] d(3,4)
        rows_invD(1) [OF inv(1)] by (metis mining_db_ok_def)
    then show "x = y"
      using inv(2) x y distinct_key_eq [of fst "w_submitted s"] by (simp add: once_inv_def)
  qed
  moreover have "distinct (w_submitted s)" using inv(2) by (simp add: once_inv_def distinct_map)
  ultimately show ?thesis by (simp add: distinct_map inj_on_def)
qed

theorem one_block_per_epoch_witness:
  "mine_reachable (\<lambda>_. None) mainnet ex_second \<and>
   distinct (map (\<lambda>(t, tm, hdr). (bt_Miner tm, bt_Epoch tm)) (w_submitted ex_second)) \<and>
   length (w_submitted ex_second) = 2"
proof -
  have r: "mine_reachable (\<lambda>_. None) mainnet ex_second" by (rule ex_second_reachable) simp
  then show ?thesis using one_block_per_epoch [OF r] by (simp add: ex_second_def ex_first_def)
qed

text \<open>
  C10: If the nodes agree on the outcome of the elections, two blocks a miner submits never
  have a parent in common, not even when they are of different epochs, and every block has a
  parent.
\<close>

theorem no_common_parent:
  assumes "mine_reachable elect bp s" "\<And>d. elect d \<noteq> None"
    "(t, tm, hdr) \<in> set (w_submitted s)" "(t', tm', hdr') \<in> set (w_submitted s)"
    "t \<noteq> t'" "bt_Miner tm = bt_Miner tm'"
  shows "set (bt_Parents tm) \<inter> set (bt_Parents tm') = {} \<and> bt_Parents tm \<noteq> [] \<and> bt_Parents tm' \<noteq> []"
proof -
  let ?db = "w_db s"
  have inv: "rows_inv elect s" using mine_reachable_inv [OF assms(1)] by simp
  obtain d d' where d: "task_details t ?db = Some d" "elect d \<noteq> Some False" "task_details t' ?db = Some d'"
    "elect d' \<noteq> Some False" "md_SpID d = bt_Miner tm" "md_SpID d' = bt_Miner tm'"
    and ps: "set (bt_Parents tm) \<subseteq> set (md_BlockCIDs d)" "set (bt_Parents tm') \<subseteq> set (md_BlockCIDs d')"
      "bt_Parents tm \<noteq> []" "bt_Parents tm' \<noteq> []"
    using submitted_claim [OF assms(1,3)] submitted_claim [OF assms(1,4)] by (auto simp: claim_ok_def)
  have "elect d = Some True" "elect d' = Some True"
    using d(2,4) assms(2) [of d] assms(2) [of d'] by auto
  then have "\<not> lost_task t ?db" "\<not> lost_task t' ?db"
    using rows_invD(3) [OF inv] d(1,3) by fastforce+
  moreover note has = task_details_Some [OF d(1)] task_details_Some [OF d(3)]
  ultimately have "base_cids t ?db \<inter> base_cids t' ?db = {}"
    using base_cids_disjoint [OF rows_invD(1) [OF inv]] assms(5,6) d(5,6) by metis
  then show ?thesis using ps has(2,4) by blast
qed

theorem no_common_parent_witness:
  "mine_reachable (\<lambda>_. Some True) mainnet ex_second \<and>
   (1, ex_template [''G''] 10 1030, ''A'') \<in> set (w_submitted ex_second) \<and>
   (2, ex_template [''B''] 11 1030, ''C'') \<in> set (w_submitted ex_second) \<and>
   set (bt_Parents (ex_template [''G''] 10 1030)) \<inter> set (bt_Parents (ex_template [''B''] 11 1030)) = {}"
proof -
  have r: "mine_reachable (\<lambda>_. Some True) mainnet ex_second" by (rule ex_second_reachable) simp
  have m: "(1, ex_template [''G''] 10 1030, ''A'') \<in> set (w_submitted ex_second)"
    "(2, ex_template [''B''] 11 1030, ''C'') \<in> set (w_submitted ex_second)"
    by (simp_all add: ex_second_def ex_first_def)
  show ?thesis
    using r m no_common_parent [OF r _ m] by (simp add: ex_template_def)
qed

text \<open>
  The states of the next two theorems: the second execution of the first task is told that
  the miner may not mine, and a null round lets a second task use the same base.
\<close>

definition ex_fork :: mine_sys where
  "ex_fork = ex_first
     \<lparr>w_db := \<lparr>mining_tasks = [ex_mining_task 1 10 (Some ''A''), ex_mining_task 2 11 (Some ''C'')],
               mining_base_block = [ex_bb 1 ''G'' True, ex_bb 2 ''G'' False]\<rparr>,
      w_runs := [0 \<mapsto> (1, Sent), 2 \<mapsto> (2, Sent)],
      w_submitted := (2, ex_template [''G''] 11 1060, ''C'') # w_submitted ex_first\<rparr>"

lemma ex_fork_reachable: "mine_reachable (\<lambda>_. None) mainnet ex_fork"
proof -
  let ?s = "ex_first\<lparr>w_db := snd (persistNoWin 1 (w_db ex_first)), w_runs := (w_runs ex_first)(1 := None)\<rparr>"
  let ?db1 = "\<lparr>mining_tasks = [ex_mining_task 1 10 (Some ''A''), ex_mining_task 2 11 None],
    mining_base_block = [ex_bb 1 ''G'' True, ex_bb 2 ''G'' False]\<rparr>"
  have s: "mine_reachable (\<lambda>_. None) mainnet ?s"
    using mine_reachable.step [OF ex_first_reachable mine_step.no_win [of ex_first 1 1, OF _ ex_attempts(4)]]
    by (simp add: ex_first_def)
  have "add_mining_task Inr 2 7 (ex_base [''G''] 9 1) (w_db ?s) = Inr ?db1"
    by (simp add: table_defs ex_mining_defs ex_first_def)
  moreover have "load_details 2 ?db1 = Inr (Some (ex_details [''G''] 11))"
    by (simp add: table_defs ex_mining_defs)
  moreover have "persist_win 2 ''C'' 5 ?db1 = (1, w_db ex_fork)"
    by (simp add: table_defs ex_fork_def)
  ultimately show ?thesis
    using mine_once_more [OF s _ _ _ _ ex_attempts(2)] by (simp add: ex_fork_def ex_first_def)
qed

text \<open>
  The agreement of the nodes is needed: recording that a base does not win does not look
  at whether the task has won, so after one execution won and another did not, the base is
  free again and the miner submits a second block on the same parents.
\<close>

theorem common_parent_when_nodes_disagree:
  "mine_reachable (\<lambda>_. None) mainnet ex_fork \<and>
   map (\<lambda>(t, tm, hdr). (bt_Miner tm, bt_Epoch tm, bt_Parents tm)) (w_submitted ex_fork) =
     [(7, 11, [''G'']), (7, 10, [''G''])]"
  using ex_fork_reachable by (simp add: ex_fork_def ex_first_def ex_template_def)

text \<open>
  C35: A mining task is added only on a base that includes the block the miner itself mined
  at the height of the base, if it mined one.
\<close>

theorem added_base_includes_own_block:
  assumes "add_mining_task parse t sp base db = Inr db'" "mining_tasks_ok (mining_tasks db)"
    "x \<in> set (mining_tasks db)" "mt_won x" "mt_sp_id x = sp" "mt_epoch x = ts_Height (mb_TipSet base)"
  shows "\<exists>c0 c. mt_mined_cid x = Some c0 \<and> parse c0 = Inr c \<and> c \<in> set (Cids (mb_TipSet base))"
proof -
  let ?own = "filter (\<lambda>r. mt_epoch r = ts_Height (mb_TipSet base) \<and> mt_sp_id r = sp \<and> mt_won r) (mining_tasks db)"
  obtain y ys where own: "?own = y # ys"
    using assms(3-6) by (cases ?own) (auto simp: filter_empty_conv)
  then have "y \<in> set ?own" by simp
  then have y: "y \<in> set (mining_tasks db)" "mt_epoch y = ts_Height (mb_TipSet base)" "mt_sp_id y = sp" by simp_all
  have "y = x"
    using assms(2,3,5,6) y distinct_key_eq [of "\<lambda>x. (mt_sp_id x, mt_epoch x)" "mining_tasks db" x y]
    by (simp add: mining_tasks_ok_def)
  then have "own_block_included parse (mb_TipSet base) (mt_mined_cid x # map mt_mined_cid ys) = Inr ()"
    using assms(1) own by (auto simp: add_mining_task_def own_blocks_def rbind_Inr_iff)
  then show ?thesis
    by (auto simp: own_block_included_def rbind_Inr_iff split: option.splits if_splits)
qed

theorem added_base_includes_own_block_witness:
  "(\<exists>db'. add_mining_task Inr 2 7 (ex_base [''A'', ''B''] 10 0) (w_db ex_first) = Inr db') \<and>
   (\<exists>c0 c. mt_mined_cid (ex_mining_task 1 10 (Some ''A'')) = Some c0 \<and> (Inr c0 :: string + string) = Inr c \<and>
      c \<in> set (Cids (mb_TipSet (ex_base [''A'', ''B''] 10 0))))"
proof -
  obtain db' where db': "add_mining_task Inr 2 7 (ex_base [''A'', ''B''] 10 0) (w_db ex_first) = Inr db'"
    by (simp add: table_defs ex_mining_defs ex_first_def)
  show ?thesis
    using db' added_base_includes_own_block [OF db', of "ex_mining_task 1 10 (Some ''A'')"]
    by (simp add: ex_first_def ex_mining_task_def ex_base_def ex_tipset_def mining_tasks_ok_def)
qed


section \<open>The inclusion check\<close>

definition due_check :: "epoch \<Rightarrow> mining_task \<Rightarrow> bool" where
  "due_check head r \<longleftrightarrow> mt_epoch r \<le> head - MinInclusionEpochs"

definition in_chain :: "(epoch \<Rightarrow> string + tipset) \<Rightarrow> mining_task \<Rightarrow> bool" where
  "in_chain bh r \<longleftrightarrow> (\<exists>ts c. bh (mt_epoch r) = Inr ts \<and> mt_mined_cid r = Some c \<and> c \<in> set (Cids ts))"

lemma check_inclusion_rows:
  assumes "check_inclusion bh head rs db = (Inr True, db')" "distinct (map (\<lambda>x. (mt_sp_id x, mt_epoch x)) rs)"
  shows "mining_tasks db' =
    map (\<lambda>r. case find (\<lambda>x. (mt_sp_id x, mt_epoch x) = (mt_sp_id r, mt_epoch r)) (filter (due_check head) rs) of
               None \<Rightarrow> r | Some x \<Rightarrow> r\<lparr>mt_included := Some (in_chain bh x)\<rparr>) (mining_tasks db)"
  using assms
proof (induction rs arbitrary: db)
  case (Cons x rs)
  show ?case
  proof (cases "due_check head x")
    case True
    then obtain ts where ts: "bh (mt_epoch x) = Inr ts"
      using Cons.prems(1) by (auto simp: due_check_def split: sum.splits)
    have inc: "(\<exists>c\<in>set (Cids ts). mt_mined_cid x = Some c) = in_chain bh x" using ts by (auto simp: in_chain_def)
    have other: "(mt_sp_id y, mt_epoch y) \<noteq> (mt_sp_id x, mt_epoch x)" if "y \<in> set rs" for y
      using Cons.prems(2) that by (force simp: image_iff)
    let ?f = "\<lambda>r. find (\<lambda>y. (mt_sp_id y, mt_epoch y) = (mt_sp_id r, mt_epoch r)) (filter (due_check head) rs)"
    have none: "?f r = None" if "(mt_sp_id x, mt_epoch x) = (mt_sp_id r, mt_epoch r)" for r
      unfolding find_None_iff_set using other that by auto
    have "mining_tasks db' = map (\<lambda>r. case ?f r of None \<Rightarrow> r | Some y \<Rightarrow> r\<lparr>mt_included := Some (in_chain bh y)\<rparr>)
        (mining_tasks (set_included (in_chain bh x) (mt_epoch x) (mt_sp_id x) db))"
      using Cons.prems True ts inc by (intro Cons.IH) (simp_all add: due_check_def)
    also have "\<dots> = map (\<lambda>r. if (mt_sp_id x, mt_epoch x) = (mt_sp_id r, mt_epoch r) then r\<lparr>mt_included := Some (in_chain bh x)\<rparr>
        else case ?f r of None \<Rightarrow> r | Some y \<Rightarrow> r\<lparr>mt_included := Some (in_chain bh y)\<rparr>) (mining_tasks db)"
      using none [of x] by (auto simp: set_included_def update_where_def)
    finally show ?thesis using True by (auto intro!: map_cong)
  next
    case False
    then show ?thesis using Cons by (simp add: due_check_def)
  qed
qed simp

text \<open>
  A completed inclusion check stores for every won block that was not checked yet and is at
  least five epochs below the head whether it is in the chain's tipset of its epoch, and leaves
  every other row as it is.
\<close>

theorem InclusionCheck_exact:
  assumes "InclusionCheck bh (Inr head) db = (Inr True, db')" "mining_tasks_ok (mining_tasks db)"
  shows "mining_tasks db' =
    map (\<lambda>r. if mt_won r \<and> mt_included r = None \<and> mt_epoch r \<le> ts_Height head - 5
             then r\<lparr>mt_included := Some (in_chain bh r)\<rparr> else r) (mining_tasks db)"
proof -
  let ?key = "\<lambda>x. (mt_sp_id x, mt_epoch x)"
  let ?rs = "filter (\<lambda>r. mt_won r \<and> mt_included r = None) (mining_tasks db)"
  let ?due = "filter (due_check (ts_Height head)) ?rs"
  have d: "distinct (map ?key (mining_tasks db))" using assms(2) by (simp add: mining_tasks_ok_def)
  have rows: "mining_tasks db' = map (\<lambda>r. case find (\<lambda>x. ?key x = ?key r) ?due of
      None \<Rightarrow> r | Some x \<Rightarrow> r\<lparr>mt_included := Some (in_chain bh x)\<rparr>) (mining_tasks db)"
    using assms(1) d by (intro check_inclusion_rows) (simp_all add: InclusionCheck_def distinct_map_filter)
  have "find (\<lambda>x. ?key x = ?key r) ?due = (if r \<in> set ?due then Some r else None)" if "r \<in> set (mining_tasks db)" for r
  proof (cases "r \<in> set ?due")
    case True
    then show ?thesis using find_key [of ?key ?due r] d by (simp add: distinct_map_filter)
  next
    case False
    then have "\<forall>x\<in>set ?due. ?key x \<noteq> ?key r" using distinct_key_eq [OF d that] by (metis (no_types, lifting) filter_is_subset subsetD)
    then have "find (\<lambda>x. ?key x = ?key r) ?due = None" unfolding find_None_iff_set .
    then show ?thesis using False by (simp only: if_False)
  qed
  then show ?thesis
    unfolding rows by (auto simp: due_check_def MinInclusionEpochs_def)
qed

theorem InclusionCheck_exact_witness:
  "(let db = w_db ex_second; bh = (\<lambda>_. Inr (ex_tipset [''A'', ''B''] 10)); head = ex_tipset [''X''] 15
    in InclusionCheck bh (Inr head) db = (Inr True, snd (InclusionCheck bh (Inr head) db)) \<and>
       map mt_included (mining_tasks (snd (InclusionCheck bh (Inr head) db))) = [Some True, None])"
proof -
  have "InclusionCheck (\<lambda>_. Inr (ex_tipset [''A'', ''B''] 10)) (Inr (ex_tipset [''X''] 15)) (w_db ex_second) =
      (Inr True, snd (InclusionCheck (\<lambda>_. Inr (ex_tipset [''A'', ''B''] 10)) (Inr (ex_tipset [''X''] 15)) (w_db ex_second)))"
    by (simp add: InclusionCheck_def ex_second_def ex_mining_task_def ex_tipset_def MinInclusionEpochs_def)
  note this InclusionCheck_exact [OF this]
  then show ?thesis
    by (simp add: ex_second_def ex_mining_task_def ex_tipset_def ex_block_def mining_tasks_ok_def in_chain_def Cids_def)
qed

end
