(* ===== verification/SectorIndex.thy ===== *)
theory SectorIndex
  imports FileTypes HarmonyDB "HOL-Library.List_Lexorder"
begin

unbundle bit_operations_syntax

text \<open>
  The sector index (\<open>lib/paths/db_index.go\<close>, \<open>lib/paths/index.go\<close>): which storage paths
  exist, which files of which sector they hold, where a file may be allocated, and the locks
  on the files of a sector that the nodes of a cluster take in the database.

  A storage path is a row of \<open>storage_path\<close>, a file a row of \<open>sector_location\<close>. Lists are
  stored as one comma-separated column. \<open>NOW()\<close> and \<open>time.Now()\<close> are the argument \<open>now\<close>.
  Parsing a URL and joining the file's name to it, and reading a miner address, are
  parameters. The order in which a Go map is ranged over is one of the possible orders.
\<close>

section \<open>Lists in a column\<close>

fun Split :: "string \<Rightarrow> string list" where
  "Split [] = [[]]"
| "Split (c # cs) =
     (if c = CHR '','' then [] # Split cs
      else (case Split cs of [] \<Rightarrow> [[c]] | w # ws \<Rightarrow> (c # w) # ws))"

fun Join :: "string list \<Rightarrow> string" where
  "Join [] = []"
| "Join [w] = w"
| "Join (w # v # ws) = w @ CHR '','' # Join (v # ws)"

definition splitString :: "string \<Rightarrow> string list" where
  "splitString str = (if str = [] then [] else Split str)"

text \<open>\<open>union\<close> looks up the first list only, so a new element that is twice in \<open>b\<close> is added twice.\<close>

definition union :: "string list \<Rightarrow> string list \<Rightarrow> string list" where
  "union a b = a @ filter (\<lambda>elem. elem \<notin> set a) b"

section \<open>The tables\<close>

record path_row =
  path_storage_id :: string
  path_urls :: "string option"
  path_weight :: uint64
  path_max_storage :: uint64
  path_can_seal :: bool
  path_can_store :: bool
  path_groups :: string
  path_allow_to :: string
  path_allow_types :: string
  path_deny_types :: string
  path_allow_miners :: string
  path_deny_miners :: string
  path_capacity :: int
  path_available :: int
  path_fs_available :: int
  path_reserved :: int
  path_used :: int
  path_last_heartbeat :: time
  path_heartbeat_err :: "string option"

record location_row =
  loc_sector :: SectorID
  loc_filetype :: SectorFileType
  loc_storage :: string
  loc_primary :: bool
  loc_read_ts :: "time option"
  loc_read_refs :: int
  loc_write_ts :: "time option"
  loc_write_owner :: "string option"

record index_db =
  storage_path :: "path_row list"
  sector_location :: "location_row list"

record FsStat =
  st_Capacity :: int
  st_Available :: int
  st_FSAvailable :: int
  st_Reserved :: int
  st_Used :: int

record StorageInfo =
  info_ID :: string
  info_URLs :: "string list"
  info_Weight :: uint64
  info_MaxStorage :: uint64
  info_CanSeal :: bool
  info_CanStore :: bool
  info_Groups :: "string list"
  info_AllowTo :: "string list"
  info_AllowTypes :: "string list"
  info_DenyTypes :: "string list"
  info_AllowMiners :: "string list"
  info_DenyMiners :: "string list"

section \<open>Storage paths\<close>

text \<open>Names of file types that are not known are dropped, with an alert.\<close>

definition known_types :: "string list \<Rightarrow> string list" where
  "known_types = filter (\<lambda>typ. TypeFromString typ \<noteq> None)"

definition set_info :: "StorageInfo \<Rightarrow> path_row \<Rightarrow> path_row" where
  "set_info si r = r\<lparr>
     path_weight := info_Weight si, path_max_storage := info_MaxStorage si,
     path_can_seal := info_CanSeal si, path_can_store := info_CanStore si,
     path_groups := Join (info_Groups si), path_allow_to := Join (info_AllowTo si),
     path_allow_types := Join (known_types (info_AllowTypes si)),
     path_deny_types := Join (known_types (info_DenyTypes si)),
     path_allow_miners := Join (info_AllowMiners si), path_deny_miners := Join (info_DenyMiners si)\<rparr>"

definition set_stat :: "FsStat \<Rightarrow> time \<Rightarrow> path_row \<Rightarrow> path_row" where
  "set_stat st now r = r\<lparr>
     path_capacity := st_Capacity st, path_available := st_Available st, path_fs_available := st_FSAvailable st,
     path_reserved := st_Reserved st, path_used := st_Used st, path_last_heartbeat := now\<rparr>"

definition blank_path :: "string \<Rightarrow> path_row" where
  "blank_path sid = \<lparr>path_storage_id = sid, path_urls = None, path_weight = 0, path_max_storage = 0,
     path_can_seal = False, path_can_store = False, path_groups = [], path_allow_to = [], path_allow_types = [],
     path_deny_types = [], path_allow_miners = [], path_deny_miners = [], path_capacity = 0, path_available = 0,
     path_fs_available = 0, path_reserved = 0, path_used = 0, path_last_heartbeat = 0, path_heartbeat_err = None\<rparr>"

definition find_path :: "string \<Rightarrow> index_db \<Rightarrow> path_row option" where
  "find_path sid db = find (\<lambda>r. path_storage_id r = sid) (storage_path db)"

definition StorageAttach :: "(string \<Rightarrow> bool) \<Rightarrow> StorageInfo \<Rightarrow> FsStat \<Rightarrow> time \<Rightarrow> index_db \<Rightarrow> string + index_db" where
  "StorageAttach url_ok si st now db =
     (if \<not> list_all url_ok (info_URLs si) then Inl ''failed to parse url''
      else case find_path (info_ID si) db of
        Some r \<Rightarrow>
          (let currUrls = (case path_urls r of None \<Rightarrow> [] | Some u \<Rightarrow> Split u)
           in Inr (db\<lparr>storage_path :=
                update_where (\<lambda>x. path_storage_id x = info_ID si)
                  (\<lambda>x. (set_info si x)\<lparr>path_urls := Some (Join (union currUrls (info_URLs si))),
                                       path_last_heartbeat := now\<rparr>) (storage_path db)\<rparr>))
      | None \<Rightarrow>
          Inr (db\<lparr>storage_path := storage_path db @
            [set_stat st now (set_info si ((blank_path (info_ID si))\<lparr>path_urls := Some (Join (info_URLs si))\<rparr>))]\<rparr>))"

definition StorageDetach :: "string \<Rightarrow> string \<Rightarrow> index_db \<Rightarrow> string + index_db" where
  "StorageDetach sid u db =
     (case find_path sid db of
        None \<Rightarrow> Inl ''no rows in result set''
      | Some r \<Rightarrow>
          let urls = splitString (case path_urls r of None \<Rightarrow> [] | Some x \<Rightarrow> x);
              modUrls = filter (\<lambda>x. x \<noteq> u) urls
          in Inr (if length modUrls = length urls then db
                  else if modUrls \<noteq> [] then
                    db\<lparr>storage_path := update_where (\<lambda>x. path_storage_id x = sid)
                         (\<lambda>x. x\<lparr>path_urls := Some (Join modUrls)\<rparr>) (storage_path db)\<rparr>
                  else db\<lparr>storage_path := delete_where (\<lambda>x. path_storage_id x = sid) (storage_path db),
                          sector_location := delete_where (\<lambda>l. loc_storage l = sid) (sector_location db)\<rparr>))"

text \<open>A serialization failure is retried; after the update the path is read for the metrics.\<close>

definition StorageReportHealth :: "string \<Rightarrow> FsStat \<Rightarrow> time \<Rightarrow> index_db \<Rightarrow> (string + unit) \<times> index_db" where
  "StorageReportHealth sid st now db =
     ((if find_path sid db = None then Inl ''Querying for storage id fails'' else Inr ()),
      db\<lparr>storage_path := update_where (\<lambda>x. path_storage_id x = sid) (set_stat st now) (storage_path db)\<rparr>)"

definition info_of_row :: "path_row \<Rightarrow> StorageInfo" where
  "info_of_row r = \<lparr>info_ID = path_storage_id r,
     info_URLs = splitString (case path_urls r of None \<Rightarrow> [] | Some u \<Rightarrow> u),
     info_Weight = path_weight r, info_MaxStorage = path_max_storage r, info_CanSeal = path_can_seal r,
     info_CanStore = path_can_store r, info_Groups = splitString (path_groups r),
     info_AllowTo = splitString (path_allow_to r), info_AllowTypes = splitString (path_allow_types r),
     info_DenyTypes = splitString (path_deny_types r), info_AllowMiners = splitString (path_allow_miners r),
     info_DenyMiners = splitString (path_deny_miners r)\<rparr>"

text \<open>\<open>qResults[0]\<close> panics, here \<open>None\<close>, when there is no such path.\<close>

definition StorageInfo_of :: "string \<Rightarrow> index_db \<Rightarrow> StorageInfo option" where
  "StorageInfo_of sid db = map_option info_of_row (find_path sid db)"

section \<open>Files\<close>

definition checkFileType :: "SectorFileType \<Rightarrow> bool" where
  "checkFileType fileType = list_ex (\<lambda>fileTypeValid. fileTypeValid AND fileType = 0) PathTypes"

definition is_file :: "SectorID \<Rightarrow> SectorFileType \<Rightarrow> string \<Rightarrow> location_row \<Rightarrow> bool" where
  "is_file s ft sid l \<longleftrightarrow> loc_sector l = s \<and> loc_filetype l = ft \<and> loc_storage l = sid"

text \<open>The upsert keeps a primary copy primary.\<close>

definition upsert_location :: "string \<Rightarrow> SectorID \<Rightarrow> SectorFileType \<Rightarrow> bool \<Rightarrow> location_row list \<Rightarrow> location_row list" where
  "upsert_location sid s ft primary ls =
     (if list_ex (is_file s ft sid) ls
      then update_where (is_file s ft sid) (\<lambda>l. l\<lparr>loc_primary := loc_primary l \<or> primary\<rparr>) ls
      else ls @ [\<lparr>loc_sector = s, loc_filetype = ft, loc_storage = sid, loc_primary = primary, loc_read_ts = None,
                  loc_read_refs = 0, loc_write_ts = None, loc_write_owner = None\<rparr>])"

definition StorageDeclareSector ::
  "string \<Rightarrow> SectorID \<Rightarrow> SectorFileType \<Rightarrow> bool \<Rightarrow> index_db \<Rightarrow> string + index_db" where
  "StorageDeclareSector sid s ft primary db =
     (if \<not> checkFileType ft then Inl ''invalid filetype''
      else Inr (db\<lparr>sector_location := upsert_location sid s ft primary (sector_location db)\<rparr>))"

definition StorageDropSector :: "string \<Rightarrow> SectorID \<Rightarrow> SectorFileType \<Rightarrow> index_db \<Rightarrow> string + index_db" where
  "StorageDropSector sid s ft db =
     (if \<not> checkFileType ft then Inl ''invalid filetype''
      else Inr (db\<lparr>sector_location := delete_where (is_file s ft sid) (sector_location db)\<rparr>))"

text \<open>One sub-batch is a transaction: a bad type leaves nothing of it.\<close>

type_synonym sector_declaration = "string \<times> SectorID \<times> SectorFileType \<times> bool"

definition batchStorageDeclareSectors :: "sector_declaration list \<Rightarrow> index_db \<Rightarrow> string + index_db" where
  "batchStorageDeclareSectors ds db =
     (if list_ex (\<lambda>(sid, s, ft, p). \<not> checkFileType ft) ds then Inl ''invalid filetype for declaration''
      else Inr (db\<lparr>sector_location :=
             fold (\<lambda>(sid, s, ft, p). upsert_location sid s ft p) ds (sector_location db)\<rparr>))"

definition maxParallelSubBatches :: nat where
  "maxParallelSubBatches = 8"

definition num_sub_batches :: "nat \<Rightarrow> nat" where
  "num_sub_batches n =
     (let k = n div maxParallelSubBatches + (if n mod maxParallelSubBatches \<noteq> 0 then 1 else 0)
      in if k > maxParallelSubBatches then maxParallelSubBatches else k)"

text \<open>
  Slicing \<open>uniqueDeclarations[start:end]\<close> panics, here \<open>None\<close>, when the start lies beyond
  the end.
\<close>

definition sub_batches :: "'a list \<Rightarrow> 'a list list option" where
  "sub_batches ds =
     (let n = length ds; k = num_sub_batches n; sz = (n + k - 1) div k;
          start = (\<lambda>i. i * sz); stop = (\<lambda>i. min (start i + sz) n)
      in if list_all (\<lambda>i. start i \<le> stop i) [0..<k]
         then Some (map (\<lambda>i. take (stop i - start i) (drop (start i) ds)) [0..<k])
         else None)"

text \<open>
  The sub-batches run concurrently, here one after the other; all of them run, and an error
  of one is the error of the call.
\<close>

fun run_batches :: "sector_declaration list list \<Rightarrow> index_db \<Rightarrow> (string + unit) \<times> index_db" where
  "run_batches [] db = (Inr (), db)"
| "run_batches (b # bs) db =
     (case batchStorageDeclareSectors b db of
        Inl e \<Rightarrow> (Inl ''error in sub-batch processing'', snd (run_batches bs db))
      | Inr db' \<Rightarrow> run_batches bs db')"

definition BatchStorageDeclareSectors :: "sector_declaration list \<Rightarrow> index_db \<Rightarrow> ((string + unit) \<times> index_db) option" where
  "BatchStorageDeclareSectors ds db =
     (if ds = [] then Some (Inr (), db)
      else map_option (\<lambda>bs. run_batches bs db) (sub_batches (remdups ds)))"

definition StorageList :: "string \<Rightarrow> index_db \<Rightarrow> (SectorID \<times> SectorFileType) list" where
  "StorageList sid db =
     (let es = filter (\<lambda>l. loc_storage l = sid) (sector_location db)
      in map (\<lambda>s. (s, fold (\<lambda>l t. t OR loc_filetype l) (filter (\<lambda>l. loc_sector l = s) es) 0))
           (remdups (map loc_sector es)))"

section \<open>Finding files and places\<close>

text \<open>\<open>MinerFilter\<close>: \<open>miner_id\<close> reads an address; \<open>Inl\<close> when it is no ID address.\<close>

fun checkMinerInList :: "(string \<Rightarrow> string + uint64) \<Rightarrow> string list \<Rightarrow> uint64 \<Rightarrow> string + bool" where
  "checkMinerInList miner_id [] miner = Inr False"
| "checkMinerInList miner_id (m # ms) miner =
     rbind (miner_id m) (\<lambda>mid. if mid = miner then Inr True else checkMinerInList miner_id ms miner)"

definition MinerFilter :: "(string \<Rightarrow> string + uint64) \<Rightarrow> string list \<Rightarrow> string list \<Rightarrow> uint64 \<Rightarrow> string + bool" where
  "MinerFilter miner_id allowMiners denyMiners miner =
     rbind (if allowMiners = [] then Inr True else checkMinerInList miner_id allowMiners miner) (\<lambda>ok.
     if \<not> ok then Inr False
     else rbind (if denyMiners = [] then Inr False else checkMinerInList miner_id denyMiners miner) (\<lambda>found.
          Inr (\<not> found)))"

definition HeartbeatInterval :: duration where
  "HeartbeatInterval = 10 * second"

definition SkippedHeartbeatThresh :: duration where
  "SkippedHeartbeatThresh = HeartbeatInterval * 5"

definition path_alive :: "time \<Rightarrow> uint64 \<Rightarrow> path_row \<Rightarrow> bool" where
  "path_alive now spaceReq r \<longleftrightarrow>
     path_available r \<ge> uint spaceReq \<and> now - SkippedHeartbeatThresh < path_last_heartbeat r \<and> path_heartbeat_err r = None"

record SectorStorageInfo =
  ssi_ID :: string
  ssi_URLs :: "string list"
  ssi_BaseURLs :: "string list"
  ssi_Weight :: uint64
  ssi_CanSeal :: bool
  ssi_CanStore :: bool
  ssi_Primary :: bool
  ssi_AllowTypes :: "string list"
  ssi_DenyTypes :: "string list"

definition row_urls :: "path_row \<Rightarrow> string list" where
  "row_urls r = splitString (case path_urls r of None \<Rightarrow> [] | Some u \<Rightarrow> u)"

fun sector_urls :: "(string \<Rightarrow> string option) \<Rightarrow> string list \<Rightarrow> string + string list" where
  "sector_urls file_url [] = Inr []"
| "sector_urls file_url (u # us) =
     (case file_url u of
        None \<Rightarrow> Inl ''failed to parse url''
      | Some fu \<Rightarrow> rbind (sector_urls file_url us) (\<lambda>fus. Inr (fu # fus)))"

definition storage_entry :: "(string \<Rightarrow> string option) \<Rightarrow> path_row \<Rightarrow> uint64 \<Rightarrow> bool \<Rightarrow> string + SectorStorageInfo" where
  "storage_entry file_url r weight primary =
     rbind (sector_urls file_url (row_urls r)) (\<lambda>urls.
     Inr \<lparr>ssi_ID = path_storage_id r, ssi_URLs = urls, ssi_BaseURLs = row_urls r, ssi_Weight = weight,
          ssi_CanSeal = path_can_seal r, ssi_CanStore = path_can_store r, ssi_Primary = primary,
          ssi_AllowTypes = splitString (path_allow_types r), ssi_DenyTypes = splitString (path_deny_types r)\<rparr>)"

definition holds_files :: "SectorID \<Rightarrow> SectorFileType \<Rightarrow> index_db \<Rightarrow> path_row \<Rightarrow> location_row list" where
  "holds_files s ft db r =
     filter (\<lambda>l. loc_sector l = s \<and> loc_filetype l \<in> set (AllSet ft) \<and> loc_storage l = path_storage_id r) (sector_location db)"

text \<open>The groups to which a file may be moved; \<open>None\<close> when one of its paths does not restrict them.\<close>

definition allow_list :: "path_row list \<Rightarrow> string list option" where
  "allow_list rows =
     fold (\<lambda>r acc. case acc of
         Some gs \<Rightarrow> if splitString (path_allow_to r) \<noteq> [] then Some (gs @ splitString (path_allow_to r)) else None
       | None \<Rightarrow> None) rows (Some [])"

fun collect :: "('a \<Rightarrow> string + 'b option) \<Rightarrow> 'a list \<Rightarrow> string + 'b list" where
  "collect f [] = Inr []"
| "collect f (x # xs) =
     rbind (f x) (\<lambda>y. rbind (collect f xs) (\<lambda>ys. Inr (case y of None \<Rightarrow> ys | Some z \<Rightarrow> z # ys)))"

definition findSectorUncached ::
  "(string \<Rightarrow> string \<Rightarrow> string option) \<Rightarrow> (string \<Rightarrow> string + uint64) \<Rightarrow> SectorID \<Rightarrow> SectorFileType \<Rightarrow> uint64 \<Rightarrow> bool \<Rightarrow> time \<Rightarrow>
   index_db \<Rightarrow> string + SectorStorageInfo list" where
  "findSectorUncached file_url miner_id s ft ssize allowFetch now db =
     (let rows = filter (\<lambda>r. holds_files s ft db r \<noteq> []) (sort_key path_storage_id (storage_path db));
          url = file_url (case TypeString ft of None \<Rightarrow> ''<unknown>'' | Some t \<Rightarrow> t)
      in rbind (collect (\<lambda>r.
             let ls = holds_files s ft db r
             in rbind (storage_entry url r (path_weight r * word_of_nat (length ls)) (list_ex loc_primary ls)) (\<lambda>e. Inr (Some e)))
           rows) (\<lambda>found.
         if \<not> allowFetch then Inr found
         else case SealSpaceUse ft ssize of
           Inl e \<Rightarrow> Inl ''estimating required space''
         | Inr spaceReq \<Rightarrow>
             rbind (collect (\<lambda>r.
                 if path_storage_id r \<in> set (map path_storage_id rows) then Inr None
                 else if \<not> AnyAllowed ft (splitString (path_allow_types r)) (splitString (path_deny_types r)) then Inr None
                 else rbind (MinerFilter miner_id (splitString (path_allow_miners r)) (splitString (path_deny_miners r)) (sid_Miner s)) (\<lambda>proceed.
                   if \<not> proceed then Inr None
                   else if (case allow_list rows of
                              None \<Rightarrow> False
                            | Some gs \<Rightarrow> list_all (\<lambda>g. g \<notin> set gs) (splitString (path_groups r))) then Inr None
                   else rbind (storage_entry url r 0 False) (\<lambda>e. Inr (Some e))))
               (filter (\<lambda>r. path_can_seal r \<and> path_alive now spaceReq r) (storage_path db))) (\<lambda>more.
             Inr (found @ more))))"

datatype PathType = PathStorage | PathSealing

definition NoMinerFilter :: uint64 where
  "NoMinerFilter = 0"

text \<open>
  \<open>StorageBestAlloc\<close>; \<open>space_use_fn\<close> is the function the context may carry. Rows of equal
  rank come in any order, here in table order.
\<close>

definition StorageBestAlloc ::
  "(string \<Rightarrow> string + uint64) \<Rightarrow> (SectorFileType \<Rightarrow> uint64 \<Rightarrow> space_error + uint64) option \<Rightarrow>
   SectorFileType \<Rightarrow> uint64 \<Rightarrow> PathType \<Rightarrow> uint64 \<Rightarrow> time \<Rightarrow> index_db \<Rightarrow> string + StorageInfo list" where
  "StorageBestAlloc miner_id space_use_fn allocate ssize pathType miner now db =
     (case (case space_use_fn of
              Some f \<Rightarrow> f allocate ssize
            | None \<Rightarrow> (case pathType of PathSealing \<Rightarrow> SealSpaceUse allocate ssize | PathStorage \<Rightarrow> StoreSpaceUse allocate ssize)) of
        Inl e \<Rightarrow> Inl ''estimating required space''
      | Inr spaceReq \<Rightarrow>
          collect (\<lambda>r.
              if miner = NoMinerFilter then Inr (Some (info_of_row r))
              else rbind (MinerFilter miner_id (splitString (path_allow_miners r)) (splitString (path_deny_miners r)) miner) (\<lambda>proceed.
                   Inr (if proceed then Some (info_of_row r) else None)))
            (sort_key (\<lambda>r. - (path_available r * uint (path_weight r)))
              (filter (\<lambda>r. path_alive now spaceReq r \<and>
                 (case pathType of PathSealing \<Rightarrow> path_can_seal r | PathStorage \<Rightarrow> path_can_store r)) (storage_path db))))"

section \<open>Locks\<close>

definition LockTimeOut :: duration where
  "LockTimeOut = 300 * second"

definition isLocked :: "time \<Rightarrow> time option \<Rightarrow> bool" where
  "isLocked now ts = (case ts of None \<Rightarrow> False | Some t \<Rightarrow> t > now - LockTimeOut)"

definition of_types :: "SectorID \<Rightarrow> SectorFileType \<Rightarrow> location_row \<Rightarrow> bool" where
  "of_types s fts l \<longleftrightarrow> loc_sector l = s \<and> loc_filetype l \<in> set (AllSet fts)"

text \<open>
  The lock state of a file type: what the last row read says; a type without a row is not
  locked.
\<close>

definition lockMap :: "location_row list \<Rightarrow> SectorFileType \<Rightarrow> time option \<times> time option" where
  "lockMap rows ft =
     (case find (\<lambda>l. loc_filetype l = ft) (rev rows) of
        None \<Rightarrow> (None, None)
      | Some l \<Rightarrow> (loc_read_ts l, loc_write_ts l))"

datatype lock_error = UnknownTypes | AlreadyLocked | LockFailed

definition index_lock ::
  "time \<Rightarrow> SectorID \<Rightarrow> SectorFileType \<Rightarrow> SectorFileType \<Rightarrow> string \<Rightarrow> location_row list \<Rightarrow>
   (lock_error + bool) \<times> location_row list" where
  "index_lock now s read write uuid ls =
     (if read OR write = 0 then (Inr False, ls)
      else if sint (read OR write) > 2 ^ FileTypes_count - 1 then (Inl UnknownTypes, ls)
      else let rows = filter (of_types s (read OR write)) ls
           in if list_ex (\<lambda>wft. isLocked now (snd (lockMap rows wft)) \<or> isLocked now (fst (lockMap rows wft))) (AllSet write)
                 \<or> list_ex (\<lambda>rft. isLocked now (snd (lockMap rows rft))) (AllSet read)
              then (Inl AlreadyLocked, ls)
              else (Inr True,
                    update_where (of_types s read) (\<lambda>l. l\<lparr>loc_read_ts := Some now, loc_read_refs := loc_read_refs l + 1\<rparr>)
                      (update_where (of_types s write) (\<lambda>l. l\<lparr>loc_write_ts := Some now, loc_write_owner := Some uuid\<rparr>) ls)))"

definition index_unlock ::
  "SectorID \<Rightarrow> SectorFileType \<Rightarrow> SectorFileType \<Rightarrow> string \<Rightarrow> location_row list \<Rightarrow> (lock_error + bool) \<times> location_row list" where
  "index_unlock s read write uuid ls =
     (if read OR write = 0 then (Inr False, ls)
      else if sint (read OR write) > 2 ^ FileTypes_count - 1 then (Inl UnknownTypes, ls)
      else (Inr True,
            update_where (of_types s read)
              (\<lambda>l. l\<lparr>loc_read_refs := loc_read_refs l - 1,
                    loc_read_ts := (if loc_read_refs l - 1 = 0 then None else loc_read_ts l)\<rparr>)
              (update_where (\<lambda>l. of_types s write l \<and> loc_write_owner l = Some uuid)
                 (\<lambda>l. l\<lparr>loc_write_ts := None, loc_write_owner := None\<rparr>) ls)))"

text \<open>
  The loop of \<open>StorageLock\<close>: before an attempt, other clients change the table (\<open>interfere\<close>)
  and the database may fail. \<open>None\<close>: it still waits, until its context ends.
\<close>

fun StorageLock_loop ::
  "SectorID \<Rightarrow> SectorFileType \<Rightarrow> SectorFileType \<Rightarrow> string \<Rightarrow> nat \<Rightarrow>
   (time \<times> bool \<times> (location_row list \<Rightarrow> location_row list)) list \<Rightarrow> location_row list \<Rightarrow>
   (lock_error + unit) option \<times> location_row list" where
  "StorageLock_loop s read write uuid retries [] ls = (None, ls)"
| "StorageLock_loop s read write uuid retries ((now, fails, interfere) # env) ls =
     (let ls1 = interfere ls;
          (res, ls2) = (if fails then (Inl LockFailed, ls1) else index_lock now s read write uuid ls1)
      in case res of
           Inr True \<Rightarrow> (Some (Inr ()), ls2)
         | Inr False \<Rightarrow> StorageLock_loop s read write uuid retries env ls2
         | Inl AlreadyLocked \<Rightarrow> StorageLock_loop s read write uuid retries env ls2
         | Inl e \<Rightarrow>
             (if retries - 1 = 0 then (Some (Inl e), ls2)
              else StorageLock_loop s read write uuid (retries - 1) env ls2))"

definition StorageLock where
  "StorageLock s read write uuid env ls = StorageLock_loop s read write uuid 5 env ls"

text \<open>
  \<open>StorageGetLocks\<close> keeps one row per sector and uses the type, a bit, as the index of an array
  with one element per type: \<open>None\<close> is the panic when it lies outside.
\<close>

record SectorLock =
  lk_Sector :: SectorID
  lk_Write :: "uint64 list"
  lk_Read :: "uint64 list"

definition lock_of_row :: "time \<Rightarrow> location_row \<Rightarrow> SectorLock option" where
  "lock_of_row now l =
     (let i = unat (loc_filetype l); zeros = replicate FileTypes_count 0
      in if i < FileTypes_count
         then Some \<lparr>lk_Sector = loc_sector l, lk_Write = zeros[i := if isLocked now (loc_write_ts l) then 1 else 0],
                    lk_Read = zeros[i := if isLocked now (loc_read_ts l) then word_of_int (loc_read_refs l) else 0]\<rparr>
         else None)"

definition StorageGetLocks :: "time \<Rightarrow> location_row list \<Rightarrow> SectorLock list option" where
  "StorageGetLocks now ls =
     those (map (\<lambda>s. Option.bind (find (\<lambda>l. loc_sector l = s) (rev ls)) (lock_of_row now)) (remdups (map loc_sector ls)))"

end
