(* ===== verification/IndexSafety.thy ===== *)
theory IndexSafety
  imports SectorIndex
begin

unbundle bit_operations_syntax

text \<open>
  Correctness of the sector index: the locks in the database are exclusive while they are
  younger than the timeout, the columns give back the lists stored in them, sub-batches
  cover the declarations, and files are found exactly where they were declared.
\<close>

section \<open>Locks of a cluster\<close>

text \<open>
  The clients of the index take locks, release them, and declare or drop files; the clock
  does not run backwards. A lock whose holder died is never released. A lock's identifier
  (\<open>uuid.New\<close>) is not used twice. Files of a sector are not declared or dropped while a
  lock on the sector is held.
\<close>

record lease =
  le_sector :: SectorID
  le_read :: SectorFileType
  le_write :: SectorFileType
  le_uuid :: string
  le_since :: time

record lock_sys =
  ls_now :: time
  ls_rows :: "location_row list"
  ls_held :: "lease list"

inductive lock_sys_step :: "lock_sys \<Rightarrow> lock_sys \<Rightarrow> bool" where
  acquire: "index_lock (ls_now s) sec read write uuid (ls_rows s) = (Inr True, rows') \<Longrightarrow>
    uuid \<notin> set (map le_uuid (ls_held s)) \<Longrightarrow>
    lock_sys_step s (s\<lparr>ls_rows := rows',
      ls_held := \<lparr>le_sector = sec, le_read = read, le_write = write, le_uuid = uuid, le_since = ls_now s\<rparr> # ls_held s\<rparr>)"
| release: "x \<in> set (ls_held s) \<Longrightarrow>
    lock_sys_step s (s\<lparr>ls_rows := snd (index_unlock (le_sector x) (le_read x) (le_write x) (le_uuid x) (ls_rows s)),
      ls_held := filter (\<lambda>y. le_uuid y \<noteq> le_uuid x) (ls_held s)\<rparr>)"
| declared: "sec \<notin> set (map le_sector (ls_held s)) \<Longrightarrow>
    lock_sys_step s (s\<lparr>ls_rows := upsert_location sid sec ft primary (ls_rows s)\<rparr>)"
| dropped: "sec \<notin> set (map le_sector (ls_held s)) \<Longrightarrow>
    lock_sys_step s (s\<lparr>ls_rows := delete_where (is_file sec ft sid) (ls_rows s)\<rparr>)"
| tick: "ls_now s \<le> now' \<Longrightarrow> lock_sys_step s (s\<lparr>ls_now := now'\<rparr>)"

inductive lock_sys_reachable :: "lock_sys \<Rightarrow> bool" where
  init: "lock_sys_reachable \<lparr>ls_now = now, ls_rows = [], ls_held = []\<rparr>"
| step: "lock_sys_reachable s \<Longrightarrow> lock_sys_step s s' \<Longrightarrow> lock_sys_reachable s'"

definition fresh :: "time \<Rightarrow> lease \<Rightarrow> bool" where
  "fresh now x \<longleftrightarrow> le_since x > now - LockTimeOut"

definition reads :: "SectorID \<Rightarrow> SectorFileType \<Rightarrow> lease \<Rightarrow> bool" where
  "reads sec ft x \<longleftrightarrow> le_sector x = sec \<and> ft \<in> set (AllSet (le_read x))"

definition writes :: "SectorID \<Rightarrow> SectorFileType \<Rightarrow> lease \<Rightarrow> bool" where
  "writes sec ft x \<longleftrightarrow> le_sector x = sec \<and> ft \<in> set (AllSet (le_write x))"

text \<open>What a row of the table says of the locks held on its file.\<close>

definition row_locks_ok :: "time \<Rightarrow> lease list \<Rightarrow> location_row \<Rightarrow> bool" where
  "row_locks_ok now held l \<longleftrightarrow>
     loc_read_refs l = int (length (filter (reads (loc_sector l) (loc_filetype l)) held)) \<and>
     (\<forall>x\<in>set held. reads (loc_sector l) (loc_filetype l) x \<longrightarrow>
        (\<exists>ts. loc_read_ts l = Some ts \<and> le_since x \<le> ts)) \<and>
     (\<forall>x\<in>set held. writes (loc_sector l) (loc_filetype l) x \<longrightarrow>
        loc_write_owner l = Some (le_uuid x) \<and> loc_write_ts l = Some (le_since x) \<or> \<not> fresh now x)"

definition exclusive :: "time \<Rightarrow> lease list \<Rightarrow> location_row \<Rightarrow> bool" where
  "exclusive now held l \<longleftrightarrow>
     (\<forall>x\<in>set held. \<forall>y\<in>set held. writes (loc_sector l) (loc_filetype l) x \<and> fresh now x \<and>
        (writes (loc_sector l) (loc_filetype l) y \<or> reads (loc_sector l) (loc_filetype l) y) \<and> fresh now y \<longrightarrow> x = y)"

definition known_lease :: "lease \<Rightarrow> bool" where
  "known_lease x \<longleftrightarrow> le_read x OR le_write x \<noteq> 0 \<and> sint (le_read x OR le_write x) \<le> 2 ^ FileTypes_count - 1"

definition lock_sys_ok :: "lock_sys \<Rightarrow> bool" where
  "lock_sys_ok s \<longleftrightarrow>
     distinct (map le_uuid (ls_held s)) \<and> (\<forall>x\<in>set (ls_held s). le_since x \<le> ls_now s \<and> known_lease x) \<and>
     (\<forall>l\<in>set (ls_rows s). row_locks_ok (ls_now s) (ls_held s) l \<and> exclusive (ls_now s) (ls_held s) l)"

lemma set_AllSet_or: "ft \<in> set (AllSet a) \<or> ft \<in> set (AllSet b) \<Longrightarrow> ft \<in> set (AllSet (a OR b))"
  by (auto simp: set_AllSet bit_or_iff)

text \<open>The row that the lock reads for a type, when there is one.\<close>

lemma lockMap_row:
  assumes "l \<in> set ls" "loc_sector l = sec" "loc_filetype l = ft" "ft \<in> set (AllSet fts)"
  shows "\<exists>l'\<in>set ls. loc_sector l' = sec \<and> loc_filetype l' = ft \<and>
    lockMap (filter (of_types sec fts) ls) ft = (loc_read_ts l', loc_write_ts l')"
proof -
  let ?rows = "filter (of_types sec fts) ls"
  have "l \<in> set (rev ?rows)" using assms by (simp add: of_types_def)
  then obtain l' where l': "find (\<lambda>l. loc_filetype l = ft) (rev ?rows) = Some l'"
    using assms(3) by (cases "find (\<lambda>l. loc_filetype l = ft) (rev ?rows)") (auto simp: find_None_iff_set)
  then have "l' \<in> set ?rows" "loc_filetype l' = ft" using find_Some_set [OF l'] by auto
  with l' show ?thesis by (auto simp: lockMap_def of_types_def)
qed

definition granted_row :: "time \<Rightarrow> SectorID \<Rightarrow> SectorFileType \<Rightarrow> SectorFileType \<Rightarrow> string \<Rightarrow> location_row \<Rightarrow> location_row" where
  "granted_row now sec read write uuid l =
     (let l1 = (if of_types sec write l then l\<lparr>loc_write_ts := Some now, loc_write_owner := Some uuid\<rparr> else l)
      in if of_types sec read l then l1\<lparr>loc_read_ts := Some now, loc_read_refs := loc_read_refs l + 1\<rparr> else l1)"

lemma index_lock_granted:
  assumes "index_lock now sec read write uuid ls = (Inr True, ls')"
  shows "ls' = map (granted_row now sec read write uuid) ls"
    and "\<And>l. l \<in> set ls \<Longrightarrow> of_types sec write l \<Longrightarrow>
      \<exists>l'\<in>set ls. loc_sector l' = sec \<and> loc_filetype l' = loc_filetype l \<and>
        \<not> isLocked now (loc_write_ts l') \<and> \<not> isLocked now (loc_read_ts l')"
    and "\<And>l. l \<in> set ls \<Longrightarrow> of_types sec read l \<Longrightarrow>
      \<exists>l'\<in>set ls. loc_sector l' = sec \<and> loc_filetype l' = loc_filetype l \<and> \<not> isLocked now (loc_write_ts l')"
proof -
  let ?rows = "filter (of_types sec (read OR write)) ls"
  have free: "\<And>ft. ft \<in> set (AllSet write) \<Longrightarrow> \<not> isLocked now (snd (lockMap ?rows ft)) \<and> \<not> isLocked now (fst (lockMap ?rows ft))"
      "\<And>ft. ft \<in> set (AllSet read) \<Longrightarrow> \<not> isLocked now (snd (lockMap ?rows ft))"
    and ls': "ls' = update_where (of_types sec read) (\<lambda>l. l\<lparr>loc_read_ts := Some now, loc_read_refs := loc_read_refs l + 1\<rparr>)
      (update_where (of_types sec write) (\<lambda>l. l\<lparr>loc_write_ts := Some now, loc_write_owner := Some uuid\<rparr>) ls)"
    using assms by (auto simp: index_lock_def Let_def list_ex_iff split: if_splits)
  show "ls' = map (granted_row now sec read write uuid) ls"
    by (auto simp: ls' update_where_def of_types_def granted_row_def Let_def)
  fix l
  assume l: "l \<in> set ls"
  have row: "\<exists>l'\<in>set ls. loc_sector l' = sec \<and> loc_filetype l' = loc_filetype l \<and>
      lockMap ?rows (loc_filetype l) = (loc_read_ts l', loc_write_ts l')"
    if "of_types sec write l \<or> of_types sec read l"
    using lockMap_row [OF l, of sec "loc_filetype l" "read OR write"] that by (auto simp: of_types_def set_AllSet_or)
  {
    assume w: "of_types sec write l"
    then show "\<exists>l'\<in>set ls. loc_sector l' = sec \<and> loc_filetype l' = loc_filetype l \<and>
        \<not> isLocked now (loc_write_ts l') \<and> \<not> isLocked now (loc_read_ts l')"
      using row free(1) [of "loc_filetype l"] by (auto simp: of_types_def)
  }
  assume r: "of_types sec read l"
  then show "\<exists>l'\<in>set ls. loc_sector l' = sec \<and> loc_filetype l' = loc_filetype l \<and> \<not> isLocked now (loc_write_ts l')"
    using row free(2) [of "loc_filetype l"] by (auto simp: of_types_def)
qed

lemma fresh_locked:
  assumes "row_locks_ok now held l" "x \<in> set held" "fresh now x"
  shows "reads (loc_sector l) (loc_filetype l) x \<Longrightarrow> isLocked now (loc_read_ts l)"
    and "writes (loc_sector l) (loc_filetype l) x \<Longrightarrow> isLocked now (loc_write_ts l)"
  using assms by (auto simp: row_locks_ok_def fresh_def isLocked_def)

lemma acquire_ok:
  assumes "lock_sys_ok s" "index_lock (ls_now s) sec read write uuid (ls_rows s) = (Inr True, rows')"
    "uuid \<notin> set (map le_uuid (ls_held s))"
  shows "lock_sys_ok (s\<lparr>ls_rows := rows',
      ls_held := \<lparr>le_sector = sec, le_read = read, le_write = write, le_uuid = uuid, le_since = ls_now s\<rparr> # ls_held s\<rparr>)"
proof -
  let ?now = "ls_now s" and ?held = "ls_held s"
  let ?n = "\<lparr>le_sector = sec, le_read = read, le_write = write, le_uuid = uuid, le_since = ls_now s\<rparr>"
  note granted = index_lock_granted [OF assms(2)]
  have new: "reads q ft ?n \<longleftrightarrow> q = sec \<and> ft \<in> set (AllSet read)" "writes q ft ?n \<longleftrightarrow> q = sec \<and> ft \<in> set (AllSet write)" for q ft
    by (auto simp: reads_def writes_def)
  have ok: "row_locks_ok ?now ?held l" "exclusive ?now ?held l" if "l \<in> set (ls_rows s)" for l
    using assms(1) that by (auto simp: lock_sys_ok_def)
  have stale: "\<not> fresh ?now x"
    if l: "l \<in> set (ls_rows s)" and x: "x \<in> set ?held"
      and c: "writes (loc_sector l) (loc_filetype l) x \<and> (of_types sec write l \<or> of_types sec read l)
        \<or> reads (loc_sector l) (loc_filetype l) x \<and> of_types sec write l" for l x
  proof
    assume f: "fresh ?now x"
    have sec: "loc_sector l = sec" using c by (auto simp: of_types_def)
    show False
    proof (cases "of_types sec write l")
      case True
      from granted(2) [OF l True] obtain l' where "l' \<in> set (ls_rows s)" "loc_sector l' = sec" "loc_filetype l' = loc_filetype l"
        "\<not> isLocked ?now (loc_write_ts l')" "\<not> isLocked ?now (loc_read_ts l')" by blast
      then show False using fresh_locked [OF ok(1) x f, of l'] c sec by auto
    next
      case False
      then have r: "of_types sec read l" using c by blast
      from granted(3) [OF l r] obtain l' where "l' \<in> set (ls_rows s)" "loc_sector l' = sec" "loc_filetype l' = loc_filetype l"
        "\<not> isLocked ?now (loc_write_ts l')" by blast
      then show False using fresh_locked [OF ok(1) x f, of l'] c sec False by auto
    qed
  qed
  have "row_locks_ok ?now (?n # ?held) l' \<and> exclusive ?now (?n # ?held) l'" if mem: "l' \<in> set rows'" for l'
  proof -
    obtain l where l: "l \<in> set (ls_rows s)"
      and l': "l' = granted_row ?now sec read write uuid l"
      using mem unfolding granted(1) by auto
    have key: "loc_sector l' = loc_sector l" "loc_filetype l' = loc_filetype l" by (simp_all add: l' granted_row_def Let_def)
    have nr: "reads (loc_sector l) (loc_filetype l) ?n \<longleftrightarrow> of_types sec read l"
      and nw: "writes (loc_sector l) (loc_filetype l) ?n \<longleftrightarrow> of_types sec write l" by (auto simp: new of_types_def)
    have since: "le_since x \<le> ?now" if "x \<in> set ?held" for x using assms(1) that by (simp add: lock_sys_ok_def)
    have "row_locks_ok ?now (?n # ?held) l'"
      using ok(1) [OF l] nr nw since stale [OF l]
      unfolding row_locks_ok_def key by (auto simp: l' granted_row_def Let_def)
    moreover have "exclusive ?now (?n # ?held) l'"
      using ok(2) [OF l] nr nw stale [OF l] unfolding exclusive_def key by auto
    ultimately show ?thesis ..
  qed
  moreover have "known_lease ?n"
    using assms(2) by (auto simp: index_lock_def known_lease_def split: if_splits)
  ultimately show ?thesis using assms(1,3) by (simp add: lock_sys_ok_def)
qed

definition released_row :: "lease \<Rightarrow> location_row \<Rightarrow> location_row" where
  "released_row x l =
     (let l1 = (if of_types (le_sector x) (le_write x) l \<and> loc_write_owner l = Some (le_uuid x)
                then l\<lparr>loc_write_ts := None, loc_write_owner := None\<rparr> else l)
      in if of_types (le_sector x) (le_read x) l
         then l1\<lparr>loc_read_refs := loc_read_refs l - 1,
                  loc_read_ts := (if loc_read_refs l - 1 = 0 then None else loc_read_ts l)\<rparr> else l1)"

lemma index_unlock_rows:
  "known_lease x \<Longrightarrow> snd (index_unlock (le_sector x) (le_read x) (le_write x) (le_uuid x) ls) = map (released_row x) ls"
  by (auto simp: index_unlock_def known_lease_def update_where_def released_row_def of_types_def Let_def)

lemma length_filter_remove:
  assumes "distinct (map key xs)" "x \<in> set xs"
  shows "length (filter P xs) = length (filter P (filter (\<lambda>y. key y \<noteq> key x) xs)) + (if P x then 1 else 0)"
  using assms
proof (induction xs)
  case (Cons y ys)
  show ?case
  proof (cases "y = x")
    case True
    then have "filter (\<lambda>z. key z \<noteq> key x) ys = ys" using Cons.prems(1) by (auto simp: image_iff intro!: filter_True)
    then show ?thesis using True by simp
  next
    case False
    then have "key y \<noteq> key x" using Cons.prems by auto
    then show ?thesis using Cons False by simp
  qed
qed simp

lemma lease_release_ok:
  assumes "lock_sys_ok s" "x \<in> set (ls_held s)"
  shows "lock_sys_ok (s\<lparr>ls_rows := snd (index_unlock (le_sector x) (le_read x) (le_write x) (le_uuid x) (ls_rows s)),
      ls_held := filter (\<lambda>y. le_uuid y \<noteq> le_uuid x) (ls_held s)\<rparr>)"
proof -
  let ?now = "ls_now s" and ?held = "ls_held s"
  let ?rest = "filter (\<lambda>y. le_uuid y \<noteq> le_uuid x) ?held"
  have d: "distinct (map le_uuid ?held)" and known: "known_lease x"
    using assms by (auto simp: lock_sys_ok_def)
  have "row_locks_ok ?now ?rest (released_row x l) \<and> exclusive ?now ?rest (released_row x l)" if l: "l \<in> set (ls_rows s)" for l
  proof -
    have ok: "row_locks_ok ?now ?held l" "exclusive ?now ?held l"
      using assms(1) l by (auto simp: lock_sys_ok_def)
    have key: "loc_sector (released_row x l) = loc_sector l" "loc_filetype (released_row x l) = loc_filetype l"
      by (simp_all add: released_row_def Let_def)
    have rd: "reads (loc_sector l) (loc_filetype l) x \<longleftrightarrow> of_types (le_sector x) (le_read x) l"
      by (auto simp: reads_def of_types_def)
    have count: "loc_read_refs l = int (length (filter (reads (loc_sector l) (loc_filetype l)) ?rest)) +
        (if of_types (le_sector x) (le_read x) l then 1 else 0)"
      using ok(1) length_filter_remove [OF d assms(2), of "reads (loc_sector l) (loc_filetype l)"] rd
      unfolding row_locks_ok_def by simp
    have refs: "loc_read_refs (released_row x l) = int (length (filter (reads (loc_sector l) (loc_filetype l)) ?rest))"
      using count by (auto simp: released_row_def Let_def)
    have rts: "\<exists>ts. loc_read_ts (released_row x l) = Some ts \<and> le_since y \<le> ts"
      if y: "y \<in> set ?rest" "reads (loc_sector l) (loc_filetype l) y" for y
    proof -
      have "filter (reads (loc_sector l) (loc_filetype l)) ?rest \<noteq> []" using y by (auto simp: filter_empty_conv)
      then have "loc_read_ts (released_row x l) = loc_read_ts l" using count by (auto simp: released_row_def Let_def)
      then show ?thesis using ok(1) y unfolding row_locks_ok_def by auto
    qed
    have wts: "loc_write_owner (released_row x l) = Some (le_uuid y) \<and> loc_write_ts (released_row x l) = Some (le_since y) \<or> \<not> fresh ?now y"
      if y: "y \<in> set ?rest" "writes (loc_sector l) (loc_filetype l) y" for y
      using ok(1) y unfolding row_locks_ok_def by (auto simp: released_row_def Let_def)
    have "row_locks_ok ?now ?rest (released_row x l)"
      unfolding row_locks_ok_def key using refs rts wts by blast
    moreover have "exclusive ?now ?rest (released_row x l)"
      using ok(2) unfolding exclusive_def key by auto
    ultimately show ?thesis ..
  qed
  then show ?thesis
    using assms(1) known d by (simp add: lock_sys_ok_def index_unlock_rows distinct_map_filter)
qed

lemma row_locks_ok_tick:
  "row_locks_ok now held l \<Longrightarrow> now \<le> now' \<Longrightarrow> row_locks_ok now' held l"
  by (auto simp: row_locks_ok_def fresh_def)

lemma exclusive_tick: "exclusive now held l \<Longrightarrow> now \<le> now' \<Longrightarrow> exclusive now' held l"
  unfolding exclusive_def fresh_def by (metis diff_right_mono le_less_trans)

lemma unlocked_row_ok:
  assumes "loc_sector l \<notin> set (map le_sector held)" "loc_read_refs l = 0"
  shows "row_locks_ok now held l \<and> exclusive now held l"
proof -
  have "\<not> reads (loc_sector l) (loc_filetype l) x \<and> \<not> writes (loc_sector l) (loc_filetype l) x" if "x \<in> set held" for x
    using assms(1) that by (auto simp: reads_def writes_def image_iff)
  then show ?thesis using assms(2) by (auto simp: row_locks_ok_def exclusive_def filter_empty_conv)
qed

lemma row_ok_primary:
  "row_locks_ok now held (l\<lparr>loc_primary := p\<rparr>) = row_locks_ok now held l"
  "exclusive now held (l\<lparr>loc_primary := p\<rparr>) = exclusive now held l"
  by (simp_all add: row_locks_ok_def exclusive_def)

lemma declared_ok:
  assumes "lock_sys_ok s" "sec \<notin> set (map le_sector (ls_held s))"
  shows "lock_sys_ok (s\<lparr>ls_rows := upsert_location sid sec ft primary (ls_rows s)\<rparr>)"
proof -
  have "row_locks_ok (ls_now s) (ls_held s) l \<and> exclusive (ls_now s) (ls_held s) l"
    if l: "l \<in> set (upsert_location sid sec ft primary (ls_rows s))" for l
  proof (cases "list_ex (is_file sec ft sid) (ls_rows s)")
    case True
    then obtain l0 where l0: "l0 \<in> set (ls_rows s)" "l = l0 \<or> l = l0\<lparr>loc_primary := loc_primary l0 \<or> primary\<rparr>"
      using l by (auto simp: upsert_location_def set_update_where)
    then have "row_locks_ok (ls_now s) (ls_held s) l0" "exclusive (ls_now s) (ls_held s) l0"
      using assms(1) by (auto simp: lock_sys_ok_def)
    then show ?thesis using l0(2) row_ok_primary by metis
  next
    case False
    then show ?thesis
      using l assms unlocked_row_ok [of l "ls_held s"] by (auto simp: upsert_location_def lock_sys_ok_def)
  qed
  then show ?thesis using assms(1) by (simp add: lock_sys_ok_def)
qed

lemma lock_sys_reachable_ok: "lock_sys_reachable s \<Longrightarrow> lock_sys_ok s"
proof (induction rule: lock_sys_reachable.induct)
  case (init now)
  then show ?case by (simp add: lock_sys_ok_def)
next
  case (step s s')
  from step(2,3) show ?case
  proof (cases rule: lock_sys_step.cases)
    case (dropped sec ft sid)
    then show ?thesis using step by (auto simp: lock_sys_ok_def set_delete_where)
  next
    case (tick now')
    then show ?thesis
      using step row_locks_ok_tick exclusive_tick by (fastforce simp: lock_sys_ok_def)
  qed (use step acquire_ok lease_release_ok declared_ok in simp_all)
qed

lemma filter_single:
  assumes "distinct xs" "x \<in> set xs" "P x" "\<And>y. y \<in> set xs \<Longrightarrow> P y \<Longrightarrow> y = x"
  shows "filter P xs = [x]"
proof -
  have "y = x" if "y \<in> set (filter P xs)" for y using assms(4) [of y] that by simp
  then have "set (filter P xs) \<subseteq> {x}" by blast
  moreover have "x \<in> set (filter P xs)" using assms(2,3) by simp
  ultimately have set: "set (filter P xs) = {x}" by blast
  moreover have "distinct (filter P xs)" using assms(1) by simp
  ultimately have "length (filter P xs) = 1" using distinct_card [of "filter P xs"] by simp
  then obtain y where "filter P xs = [y]" by (auto simp: length_Suc_conv)
  with set show ?thesis by simp
qed

lemma exclusiveD:
  assumes "exclusive now held l" "x \<in> set held" "y \<in> set held" "writes (loc_sector l) (loc_filetype l) x" "fresh now x"
    "writes (loc_sector l) (loc_filetype l) y \<or> reads (loc_sector l) (loc_filetype l) y" "fresh now y"
  shows "y = x"
  using assms(1) [unfolded exclusive_def, THEN bspec, OF assms(2), THEN bspec, OF assms(3)] assms(4-7) by simp

definition ex_locked_sector :: SectorID where
  "ex_locked_sector = \<lparr>sid_Miner = 1000, sid_Number = 7\<rparr>"

definition ex_row :: "SectorFileType \<Rightarrow> location_row" where
  "ex_row ft = \<lparr>loc_sector = ex_locked_sector, loc_filetype = ft, loc_storage = ''store'', loc_primary = True, loc_read_ts = None,
     loc_read_refs = 0, loc_write_ts = None, loc_write_owner = None\<rparr>"

definition ex_lease :: "string \<Rightarrow> lease" where
  "ex_lease u = \<lparr>le_sector = ex_locked_sector, le_read = 0, le_write = FTSealed, le_uuid = u, le_since = 0\<rparr>"

definition ex_locked :: lock_sys where
  "ex_locked = \<lparr>ls_now = 0, ls_rows = [(ex_row FTSealed)\<lparr>loc_write_ts := Some 0, loc_write_owner := Some ''u''\<rparr>],
     ls_held = [ex_lease ''u'']\<rparr>"

lemma AllSet_sealed: "AllSet 0 = []" "AllSet 2 = [2]"
  by code_simp+

lemmas ex_lock_defs = index_lock_def ex_row_def ex_locked_def FTSealed_def AllSet_sealed FileTypes_count_def of_types_def
  lockMap_def isLocked_def update_where_def Let_def LockTimeOut_def

lemma ex_lock_evaluates:
  "index_lock 0 ex_locked_sector 0 FTSealed ''u'' [ex_row FTSealed] = (Inr True, ls_rows ex_locked)"
  by (simp add: ex_lock_defs)

lemma ex_locked_reachable: "lock_sys_reachable ex_locked"
proof -
  let ?s0 = "\<lparr>ls_now = 0, ls_rows = [], ls_held = []\<rparr>" and ?s1 = "\<lparr>ls_now = 0, ls_rows = [ex_row FTSealed], ls_held = []\<rparr>"
  have "lock_sys_step ?s0 ?s1"
    using lock_sys_step.declared [of ex_locked_sector ?s0 "''store''" FTSealed True] by (simp add: upsert_location_def ex_row_def)
  then have 1: "lock_sys_reachable ?s1" using lock_sys_reachable.step [OF lock_sys_reachable.init] by blast
  have "lock_sys_step ?s1 ex_locked"
    using lock_sys_step.acquire [of ?s1 ex_locked_sector 0 FTSealed "''u''" "ls_rows ex_locked"] ex_lock_evaluates
    by (simp add: ex_locked_def ex_lease_def)
  then show ?thesis by (rule lock_sys_reachable.step [OF 1])
qed

section \<open>Theorems on locks\<close>

text \<open>
  C16: As long as it is younger than the timeout, a write lock on a file that is in the index is the
  only lock on it that is younger than the timeout, over all machines.
\<close>

theorem index_locks_exclusive:
  assumes "lock_sys_reachable s" "l \<in> set (ls_rows s)" "x \<in> set (ls_held s)"
    "writes (loc_sector l) (loc_filetype l) x" "fresh (ls_now s) x"
  shows "filter (\<lambda>y. (writes (loc_sector l) (loc_filetype l) y \<or> reads (loc_sector l) (loc_filetype l) y) \<and>
    fresh (ls_now s) y) (ls_held s) = [x]"
proof -
  have ok: "lock_sys_ok s" using lock_sys_reachable_ok [OF assms(1)] .
  then have "exclusive (ls_now s) (ls_held s) l" using assms(2) by (auto simp: lock_sys_ok_def)
  note only = exclusiveD [OF this assms(3) _ assms(4,5)]
  have d: "distinct (ls_held s)" using ok by (auto simp: lock_sys_ok_def distinct_map)
  show ?thesis
    by (rule filter_single [OF d assms(3)]) (use assms(4,5) only in \<open>simp_all\<close>)
qed

theorem index_locks_exclusive_witness:
  "lock_sys_reachable ex_locked \<and>
   filter (\<lambda>y. (writes ex_locked_sector FTSealed y \<or> reads ex_locked_sector FTSealed y) \<and> fresh 0 y) (ls_held ex_locked) = [ex_lease ''u'']"
  using index_locks_exclusive [OF ex_locked_reachable, of "hd (ls_rows ex_locked)" "ex_lease ''u''"] ex_locked_reachable
  by (simp add: ex_locked_def ex_row_def ex_lease_def writes_def fresh_def LockTimeOut_def AllSet_sealed FTSealed_def)

text \<open>
  A lock on files that are not in the index yet is granted to everybody: nothing records it.
\<close>

theorem lock_of_undeclared_files:
  assumes "filter (of_types s (read OR write)) ls = []" "read OR write \<noteq> 0" "sint (read OR write) \<le> 2 ^ FileTypes_count - 1"
  shows "index_lock now s read write uuid ls = (Inr True, ls)"
proof -
  have "\<not> of_types s read l \<and> \<not> of_types s write l" if "l \<in> set ls" for l
    using assms(1) that set_AllSet_or by (fastforce simp: filter_empty_conv of_types_def)
  then show ?thesis
    using assms by (simp add: index_lock_def lockMap_def isLocked_def list_ex_iff update_where_none)
qed

theorem lock_of_undeclared_files_witness:
  "index_lock 0 ex_locked_sector 0 FTSealed ''u'' [] = (Inr True, []) \<and> index_lock 0 ex_locked_sector 0 FTSealed ''v'' [] = (Inr True, [])"
  using lock_of_undeclared_files [of ex_locked_sector 0 FTSealed "[]"] by (simp add: FTSealed_def FileTypes_count_def)

text \<open>
  Declaring a further copy of a file while it is locked for writing lets a second writer in:
  the new row carries no lock, and the check looks at one row per file type.
\<close>

theorem declare_breaks_write_lock:
  "index_lock 0 ex_locked_sector 0 FTSealed ''u'' [ex_row FTSealed] = (Inr True, ls_rows ex_locked) \<and>
   fst (index_lock 1 ex_locked_sector 0 FTSealed ''v'' (ls_rows ex_locked)) = Inl AlreadyLocked \<and>
   fst (index_lock 1 ex_locked_sector 0 FTSealed ''v''
     (upsert_location ''other'' ex_locked_sector FTSealed False (ls_rows ex_locked))) = Inr True"
  using ex_lock_evaluates by (simp add: ex_lock_defs upsert_location_def is_file_def)

text \<open>
  \<open>StorageGetLocks\<close> panics when the row it keeps of a sector is of a type above the cache: the
  type, a bit, is used as an array index.
\<close>

theorem StorageGetLocks_panics:
  assumes "find (\<lambda>l. loc_sector l = s) (rev ls) = Some l" "loc_filetype l \<in> {FTUpdate, FTUpdateCache, FTPiece, FTKey}"
  shows "StorageGetLocks now ls = None"
proof -
  have "s \<in> set (map loc_sector ls)" using find_Some_set [OF assms(1)] by auto
  moreover have "lock_of_row now l = None"
    using assms(2) by (auto simp: lock_of_row_def FTUpdate_def FTUpdateCache_def FTPiece_def FTKey_def FileTypes_count_def Let_def)
  moreover have "those (map f xs) = None" if "x \<in> set xs" "f x = None" for f :: "SectorID \<Rightarrow> SectorLock option" and xs x
    using that by (induction xs) (auto split: option.splits)
  ultimately show ?thesis
    using assms(1) by (simp add: StorageGetLocks_def)
qed

theorem StorageGetLocks_panics_witness:
  "StorageGetLocks 0 [ex_row FTSealed, ex_row FTUpdate] = None"
  by (rule StorageGetLocks_panics [of ex_locked_sector _ "ex_row FTUpdate"]) (simp_all add: ex_row_def)

text \<open>
  The type check of declarations lets every set of types pass that does not contain all of them,
  the empty set and unknown types among them.
\<close>

theorem checkFileType_accepts: "checkFileType ft \<longleftrightarrow> FTAll AND ft \<noteq> FTAll"
proof -
  have "(2 ^ k AND ft = 0) = (\<not> bit ft k)" for k by (metis and.commute and_exp_eq_0_iff_not_bit)
  then have "checkFileType ft \<longleftrightarrow> (\<exists>k<7. \<not> bit ft k)"
    unfolding checkFileType_def list_ex_iff using set_PathTypes by metis
  also have "\<dots> \<longleftrightarrow> FTAll AND ft \<noteq> FTAll"
  proof
    assume "\<exists>k<7. \<not> bit ft k"
    then obtain k where "k < 7" "\<not> bit ft k" by blast
    then have "bit FTAll k \<noteq> bit (FTAll AND ft) k" by (simp add: FTAll_bits bit_and_iff)
    then show "FTAll AND ft \<noteq> FTAll" by auto
  next
    assume ne: "FTAll AND ft \<noteq> FTAll"
    show "\<exists>k<7. \<not> bit ft k"
    proof (rule ccontr)
      assume "\<not> (\<exists>k<7. \<not> bit ft k)"
      then have "FTAll AND ft = FTAll" by (auto simp: bit_eq_iff bit_and_iff FTAll_bits)
      with ne show False ..
    qed
  qed
  finally show ?thesis .
qed

end
