(* ===== verification/StorageGC.thy ===== *)
theory StorageGC
  imports SectorIndex
begin

unbundle bit_operations_syntax

text \<open>
  Garbage collection of sector files (\<open>tasks/gc/storage_gc_mark.go\<close>,
  \<open>tasks/gc/storage_gc_sweep.go\<close>, the approval calls of
  \<open>web/api/webrpcporep/storage_stats.go\<close>, \<open>Remove\<close> of \<open>lib/paths/remote.go\<close> and
  \<open>lib/paths/local.go\<close>).

  A task marks the files that are not needed, an operator approves marks, and a second task
  removes the approved files. What the chain says of a miner is a parameter; a database
  failure is not modelled, it undoes the transaction it hits.
\<close>

section \<open>The tables\<close>

record removal_mark =
  rm_sector :: SectorID
  rm_filetype :: SectorFileType
  rm_storage :: string
  rm_created_at :: time
  rm_approved :: bool
  rm_approved_at :: "time option"

record sectors_meta_row =
  meta_sector :: SectorID
  meta_target_unseal_state :: "bool option"
  meta_has_sector_key :: bool

record gc_db =
  gc_index :: index_db
  storage_removal_marks :: "removal_mark list"
  storage_gc_pins :: "SectorID list"
  pipeline_sectors :: "SectorID list"
  sectors_meta :: "sectors_meta_row list"
  sectors_unseal_pipeline :: "SectorID list"

text \<open>\<open>INSERT ... ON CONFLICT DO NOTHING\<close>\<close>

definition insert_mark :: "time \<Rightarrow> SectorID \<times> SectorFileType \<times> string \<Rightarrow> removal_mark list \<Rightarrow> removal_mark list" where
  "insert_mark now = (\<lambda>(s, ft, sid) ms.
     if list_ex (\<lambda>m. rm_sector m = s \<and> rm_filetype m = ft \<and> rm_storage m = sid) ms then ms
     else ms @ [\<lparr>rm_sector = s, rm_filetype = ft, rm_storage = sid, rm_created_at = now,
                 rm_approved = False, rm_approved_at = None\<rparr>])"

definition insert_marks :: "time \<Rightarrow> (SectorID \<times> SectorFileType \<times> string) list \<Rightarrow> gc_db \<Rightarrow> gc_db" where
  "insert_marks now ks db = db\<lparr>storage_removal_marks := fold (insert_mark now) ks (storage_removal_marks db)\<rparr>"

section \<open>What the chain says\<close>

record chain_sector =
  cs_SectorKeyCID :: "string option"

record miner_state =
  ms_precommits :: "string + uint64 list"
  ms_partitions :: "string + ((string + uint64 list) \<times> (string + uint64 list)) list"
  ms_GetSector :: "uint64 \<Rightarrow> string + chain_sector option"

record gc_chain =
  LoadMiner :: "uint64 \<Rightarrow> string + miner_state"
  HeadHeight :: "string + int"
  SectorSetLookback :: "string + int"
  LoadMinerAt :: "int \<Rightarrow> uint64 \<Rightarrow> string + miner_state"

definition EpochsInDay :: int where
  "EpochsInDay = 2880"

section \<open>Marking\<close>

type_synonym decl = "SectorID \<times> SectorFileType"

definition storage_sectors :: "index_db \<Rightarrow> (string \<times> decl list) list" where
  "storage_sectors db = map (\<lambda>r. (path_storage_id r, StorageList (path_storage_id r) db)) (storage_path db)"

definition removable_decls :: "(string \<times> decl list) list \<Rightarrow> decl list" where
  "removable_decls stored = filter (\<lambda>(s, t). t \<noteq> FTPiece) (concat (map snd stored))"

text \<open>The miners of the files, with their state on chain; the first that cannot be loaded ends the task.\<close>

fun load_miners :: "(uint64 \<Rightarrow> string + miner_state) \<Rightarrow> uint64 list \<Rightarrow> string + (uint64 \<times> miner_state) list" where
  "load_miners load [] = Inr []"
| "load_miners load (m # ms) =
     rbind (load m) (\<lambda>st. rbind (load_miners load ms) (\<lambda>sts. Inr ((m, st) # sts)))"

text \<open>
  \<open>toRemove\<close> is the list of sectors whose bit is set. Clearing the bits of a miner that has
  no entry has no effect.
\<close>

definition clear_bits :: "uint64 \<Rightarrow> uint64 list \<Rightarrow> SectorID list \<Rightarrow> SectorID list" where
  "clear_bits mid ns rs = filter (\<lambda>s. \<not> (sid_Miner s = mid \<and> sid_Number s \<in> set ns)) rs"

fun clear_precommits :: "(uint64 \<times> miner_state) list \<Rightarrow> SectorID list \<Rightarrow> string + SectorID list" where
  "clear_precommits [] rs = Inr rs"
| "clear_precommits ((mid, st) # sts) rs =
     rbind (ms_precommits st) (\<lambda>ns. clear_precommits sts (clear_bits mid ns rs))"

fun clear_partitions ::
  "uint64 \<Rightarrow> ((string + uint64 list) \<times> (string + uint64 list)) list \<Rightarrow> SectorID list \<Rightarrow> string + SectorID list" where
  "clear_partitions mid [] rs = Inr rs"
| "clear_partitions mid ((live, unproven) # ps) rs =
     rbind live (\<lambda>l. rbind unproven (\<lambda>u. clear_partitions mid ps (clear_bits mid u (clear_bits mid l rs))))"

fun clear_live :: "(uint64 \<times> miner_state) list \<Rightarrow> SectorID list \<Rightarrow> string + SectorID list" where
  "clear_live [] rs = Inr rs"
| "clear_live ((mid, st) # sts) rs =
     rbind (ms_partitions st) (\<lambda>ps. rbind (clear_partitions mid ps rs) (clear_live sts))"

definition unused_files :: "(string \<times> decl list) list \<Rightarrow> SectorID list \<Rightarrow> (SectorID \<times> SectorFileType \<times> string) list" where
  "unused_files stored rs =
     [(s, ft, sid). (sid, decls) \<leftarrow> stored, (s, t) \<leftarrow> decls, ft \<leftarrow> AllSet t, ft \<noteq> FTPiece \<and> s \<in> set rs]"

definition mark_unused :: "gc_chain \<Rightarrow> time \<Rightarrow> (string \<times> decl list) list \<Rightarrow> gc_db \<Rightarrow> string + gc_db" where
  "mark_unused ch now stored db =
     rbind (load_miners (LoadMiner ch) (remdups (map (sid_Miner \<circ> fst) (removable_decls stored)))) (\<lambda>states.
     if states = [] then Inr db
     else let rs0 = map fst (removable_decls stored);
              rs1 = filter (\<lambda>s. s \<notin> set (storage_gc_pins db)) rs0;
              rs2 = filter (\<lambda>s. s \<notin> set (pipeline_sectors db)) rs1
          in rbind (clear_precommits states rs2) (\<lambda>rs3.
             rbind (clear_live states rs3) (\<lambda>rs4.
             Inr (insert_marks now (unused_files stored rs4) db))))"

text \<open>Stage 2: unsealed files of sectors that are to be kept sealed only.\<close>

definition unwanted_unsealed :: "gc_db \<Rightarrow> (SectorID \<times> SectorFileType \<times> string) list" where
  "unwanted_unsealed db =
     [(meta_sector m, FTUnsealed, loc_storage l).
        m \<leftarrow> sectors_meta db, l \<leftarrow> sector_location (gc_index db),
        loc_sector l = meta_sector m \<and> meta_target_unseal_state m = Some False \<and> loc_filetype l = 1 \<and>
        meta_sector m \<notin> set (sectors_unseal_pipeline db)]"

definition mark_unsealed :: "time \<Rightarrow> gc_db \<Rightarrow> gc_db" where
  "mark_unsealed now db = insert_marks now (unwanted_unsealed db) db"

text \<open>Stage 3: sealed files of sectors whose update is final.\<close>

definition update_types :: "(string \<times> decl list) list \<Rightarrow> SectorID \<Rightarrow> SectorFileType" where
  "update_types stored s =
     fold (\<lambda>(s', t) acc. if s' = s then acc OR (t AND (FTUpdate OR FTUpdateCache)) else acc) (concat (map snd stored)) 0"

definition finality_height :: "gc_chain \<Rightarrow> string + int" where
  "finality_height ch =
     rbind (HeadHeight ch) (\<lambda>head.
     rbind (SectorSetLookback ch) (\<lambda>lookback.
     let h = head - (lookback + EpochsInDay + 1) in Inr (if h < 0 then 1 else h)))"

fun snapped :: "(uint64 \<times> miner_state) list \<Rightarrow> (string \<times> decl list) list \<Rightarrow> SectorID list \<Rightarrow> string + SectorID list" where
  "snapped states stored [] = Inr []"
| "snapped states stored (s # ss) =
     (case map_of states (sid_Miner s) of
        None \<Rightarrow> snapped states stored ss
      | Some mstate \<Rightarrow>
          rbind (ms_GetSector mstate (sid_Number s)) (\<lambda>info.
          case info of
            None \<Rightarrow> snapped states stored ss
          | Some cs \<Rightarrow>
              if cs_SectorKeyCID cs = None \<or> update_types stored s \<noteq> FTUpdate OR FTUpdateCache
              then snapped states stored ss
              else rbind (snapped states stored ss) (\<lambda>marks. Inr (s # marks))))"

definition sector_key_files :: "(string \<times> decl list) list \<Rightarrow> SectorID list \<Rightarrow> (SectorID \<times> SectorFileType \<times> string) list" where
  "sector_key_files stored marks =
     [(s, FTSealed, sid). (sid, decls) \<leftarrow> stored, (s, t) \<leftarrow> decls, Has t FTSealed \<and> s \<in> set marks]"

definition mark_snapped :: "gc_chain \<Rightarrow> time \<Rightarrow> (string \<times> decl list) list \<Rightarrow> gc_db \<Rightarrow> string + gc_db" where
  "mark_snapped ch now stored db =
     rbind (finality_height ch) (\<lambda>h.
     let keyed = map meta_sector (filter meta_has_sector_key (sectors_meta db))
     in rbind (load_miners (LoadMinerAt ch h) (remdups (map sid_Miner keyed))) (\<lambda>states.
        rbind (snapped states stored keyed) (\<lambda>marks.
        Inr (insert_marks now (sector_key_files stored marks) db))))"

text \<open>
  \<open>StorageGCMark.Do\<close>: the files are listed once; a stage that fails leaves the marks of the
  earlier stages.
\<close>

definition GCMark_Do :: "gc_chain \<Rightarrow> time \<Rightarrow> gc_db \<Rightarrow> (string + bool) \<times> gc_db" where
  "GCMark_Do ch now db =
     (let stored = storage_sectors (gc_index db)
      in case mark_unused ch now stored db of
           Inl e \<Rightarrow> (Inl e, db)
         | Inr db1 \<Rightarrow>
             let db2 = mark_unsealed now db1
             in case mark_snapped ch now stored db2 of
                  Inl e \<Rightarrow> (Inl e, db2)
                | Inr db3 \<Rightarrow> (Inr True, db3))"

section \<open>Approval\<close>

definition is_mark :: "SectorID \<Rightarrow> SectorFileType \<Rightarrow> string \<Rightarrow> removal_mark \<Rightarrow> bool" where
  "is_mark s ft sid m \<longleftrightarrow> rm_sector m = s \<and> rm_filetype m = ft \<and> rm_storage m = sid"

definition StorageGCApprove :: "time \<Rightarrow> SectorID \<Rightarrow> SectorFileType \<Rightarrow> string \<Rightarrow> removal_mark list \<Rightarrow> removal_mark list" where
  "StorageGCApprove now s ft sid =
     update_where (is_mark s ft sid) (\<lambda>m. m\<lparr>rm_approved := True, rm_approved_at := Some now\<rparr>)"

definition StorageGCApproveAll :: "time \<Rightarrow> removal_mark list \<Rightarrow> removal_mark list" where
  "StorageGCApproveAll now =
     update_where (\<lambda>m. \<not> rm_approved m) (\<lambda>m. m\<lparr>rm_approved := True, rm_approved_at := Some now\<rparr>)"

definition StorageGCUnapproveAll :: "removal_mark list \<Rightarrow> removal_mark list" where
  "StorageGCUnapproveAll = update_where rm_approved (\<lambda>m. m\<lparr>rm_approved := False, rm_approved_at := None\<rparr>)"

definition StorageGCUnapprove :: "SectorID \<Rightarrow> SectorFileType \<Rightarrow> string \<Rightarrow> removal_mark list \<Rightarrow> removal_mark list" where
  "StorageGCUnapprove s ft sid =
     update_where (is_mark s ft sid) (\<lambda>m. m\<lparr>rm_approved := False, rm_approved_at := None\<rparr>)"

section \<open>Removing files\<close>

text \<open>
  What \<open>StorageFindSector\<close> without fetching says of a file: the paths that hold it and the
  URLs of the file there.
\<close>

type_synonym finder = "SectorID \<Rightarrow> SectorFileType \<Rightarrow> index_db \<Rightarrow> string + SectorStorageInfo list"

text \<open>\<open>bits.OnesCount(uint(typ)) == 1\<close>\<close>

definition one_type :: "SectorFileType \<Rightarrow> bool" where
  "one_type typ \<longleftrightarrow> list_ex (\<lambda>k. typ = 2 ^ k) [0..<64]"

text \<open>\<open>removeSector\<close> of \<open>local.go\<close>: \<open>here\<close> are the paths of the node.\<close>

fun remove_local :: "(string \<Rightarrow> bool) \<Rightarrow> SectorID \<Rightarrow> SectorFileType \<Rightarrow> string list \<Rightarrow> string list \<Rightarrow> index_db \<Rightarrow> (string + unit) \<times> index_db" where
  "remove_local here s typ keepIn [] db = (Inr (), db)"
| "remove_local here s typ keepIn (sid # sids) db =
     (if sid \<in> set keepIn \<or> \<not> here sid then remove_local here s typ keepIn sids db
      else case StorageDropSector sid s typ db of
        Inl e \<Rightarrow> (Inl ''dropping sector from index'', db)
      | Inr db' \<Rightarrow> remove_local here s typ keepIn sids db')"

definition Local_Remove ::
  "finder \<Rightarrow> (string \<Rightarrow> bool) \<Rightarrow> SectorID \<Rightarrow> SectorFileType \<Rightarrow> bool \<Rightarrow> string list \<Rightarrow> index_db \<Rightarrow> (string + unit) \<times> index_db" where
  "Local_Remove find_s here s typ force keepIn db =
     (if \<not> one_type typ then (Inl ''delete expects one file type'', db)
      else case find_s s typ db of
        Inl e \<Rightarrow> (Inl ''finding existing sector'', db)
      | Inr si \<Rightarrow>
          if si = [] \<and> \<not> force then (Inl ''not found'', db)
          else remove_local here s typ keepIn (map ssi_ID si) db)"

text \<open>
  \<open>serve u\<close>: the paths of the node that answers at a URL, \<open>None\<close> when the request does not get
  there. The node removes the file from its own paths; when that fails the next URL is tried.
\<close>

fun delete_urls ::
  "finder \<Rightarrow> (string \<Rightarrow> (string \<Rightarrow> bool) option) \<Rightarrow> SectorID \<Rightarrow> SectorFileType \<Rightarrow> string list \<Rightarrow> string list \<Rightarrow> index_db \<Rightarrow> index_db" where
  "delete_urls find_s serve s typ keepIn [] db = db"
| "delete_urls find_s serve s typ keepIn (u # us) db =
     (case serve u of
        None \<Rightarrow> delete_urls find_s serve s typ keepIn us db
      | Some there \<Rightarrow>
          (case Local_Remove find_s there s typ False keepIn db of
             (Inl e, db') \<Rightarrow> delete_urls find_s serve s typ keepIn us db'
           | (Inr _, db') \<Rightarrow> db'))"

definition Remote_Remove ::
  "finder \<Rightarrow> (string \<Rightarrow> bool) \<Rightarrow> (string \<Rightarrow> (string \<Rightarrow> bool) option) \<Rightarrow> SectorID \<Rightarrow> SectorFileType \<Rightarrow> bool \<Rightarrow> string list \<Rightarrow>
   index_db \<Rightarrow> (string + unit) \<times> index_db" where
  "Remote_Remove find_s here serve s typ force keepIn db =
     (if \<not> one_type typ then (Inl ''delete expects one file type'', db)
      else case Local_Remove find_s here s typ force keepIn db of
        (Inl e, db1) \<Rightarrow> (Inl ''remove from local'', db1)
      | (Inr _, db1) \<Rightarrow>
          (case find_s s typ db1 of
             Inl e \<Rightarrow> (Inl ''finding existing sector'', db1)
           | Inr si \<Rightarrow>
               (Inr (), fold (\<lambda>info db. if ssi_ID info \<in> set keepIn then db
                                       else delete_urls find_s serve s typ keepIn (ssi_URLs info) db) si db1)))"

section \<open>Sweeping\<close>

text \<open>The oldest approved mark.\<close>

definition next_mark :: "removal_mark list \<Rightarrow> removal_mark option" where
  "next_mark ms =
     (case sort_key rm_created_at (filter rm_approved ms) of [] \<Rightarrow> None | m # _ \<Rightarrow> Some m)"

definition sweep_one ::
  "finder \<Rightarrow> (string \<Rightarrow> bool) \<Rightarrow> (string \<Rightarrow> (string \<Rightarrow> bool) option) \<Rightarrow> removal_mark \<Rightarrow> gc_db \<Rightarrow> (string + unit) \<times> gc_db" where
  "sweep_one find_s here serve m db =
     (if rm_approved_at m = None then (Inl ''approved file approved_at was nil'', db)
      else case find_s (rm_sector m) (rm_filetype m) (gc_index db) of
        Inl e \<Rightarrow> (Inl ''finding existing sector'', db)
      | Inr si \<Rightarrow>
          let keepIn = filter (\<lambda>sid. sid \<noteq> rm_storage m) (map ssi_ID si);
              db1 = db\<lparr>storage_removal_marks :=
                delete_where (is_mark (rm_sector m) (rm_filetype m) (rm_storage m)) (storage_removal_marks db)\<rparr>;
              (res, ix) = Remote_Remove find_s here serve (rm_sector m) (rm_filetype m) True keepIn (gc_index db1)
          in (res, db1\<lparr>gc_index := ix\<rparr>))"

text \<open>\<open>owned\<close>: what \<open>stillOwned\<close> answers in each turn; \<open>None\<close>: the loop has not ended after them.\<close>

fun GCSweep_Do ::
  "finder \<Rightarrow> (string \<Rightarrow> bool) \<Rightarrow> (string \<Rightarrow> (string \<Rightarrow> bool) option) \<Rightarrow> bool list \<Rightarrow> gc_db \<Rightarrow> (string + bool) option \<times> gc_db" where
  "GCSweep_Do find_s here serve [] db = (None, db)"
| "GCSweep_Do find_s here serve (owned # os) db =
     (if \<not> owned then (Some (Inr False), db)
      else case next_mark (storage_removal_marks db) of
        None \<Rightarrow> (Some (Inr True), db)
      | Some m \<Rightarrow>
          (case sweep_one find_s here serve m db of
             (Inl e, db') \<Rightarrow> (Some (Inl e), db')
           | (Inr _, db') \<Rightarrow> GCSweep_Do find_s here serve os db'))"

end
