(* ===== verification/IndexLookup.thy ===== *)
theory IndexLookup
  imports SectorIndex
begin

unbundle bit_operations_syntax

text \<open>
  What the sector index gives back: the description of a storage path that was attached, the
  paths of a file that was declared, and the paths on which space may be allocated.
\<close>

section \<open>Lists in a column\<close>

definition column_ok :: "string list \<Rightarrow> bool" where
  "column_ok ws \<longleftrightarrow> ws \<noteq> [[]] \<and> list_all (\<lambda>w. CHR '','' \<notin> set w) ws"

lemma Split_word: "CHR '','' \<notin> set w \<Longrightarrow> Split w = [w]"
  by (induction w) auto

lemma Split_append: "CHR '','' \<notin> set w \<Longrightarrow> Split (w @ CHR '','' # r) = w # Split r"
  by (induction w) auto

lemma Split_Join: "ws \<noteq> [] \<Longrightarrow> list_all (\<lambda>w. CHR '','' \<notin> set w) ws \<Longrightarrow> Split (Join ws) = ws"
  by (induction ws rule: Join.induct) (simp_all add: Split_word Split_append)

lemma Join_eq_Nil: "Join ws = [] \<longleftrightarrow> ws = [] \<or> ws = [[]]"
  by (induction ws rule: Join.induct) auto

lemma splitString_Join: "column_ok ws \<Longrightarrow> splitString (Join ws) = ws"
  by (auto simp: splitString_def column_ok_def Join_eq_Nil Split_Join)

lemma known_types_column: "column_ok (known_types ws)"
proof -
  have "CHR '','' \<notin> set w \<and> w \<noteq> []" if "TypeFromString w = Some t" for w t
    using that unfolding TypeFromString_def by (drule_tac map_of_SomeD) auto
  then show ?thesis
    by (fastforce simp: column_ok_def known_types_def list_all_iff filter_eq_Cons_iff)
qed

section \<open>Attaching a path\<close>

definition info_columns_ok :: "StorageInfo \<Rightarrow> bool" where
  "info_columns_ok si \<longleftrightarrow> column_ok (info_URLs si) \<and> column_ok (info_Groups si) \<and> column_ok (info_AllowTo si) \<and>
     column_ok (info_AllowMiners si) \<and> column_ok (info_DenyMiners si)"

lemma info_of_set_info:
  assumes "info_columns_ok si"
  shows "info_of_row ((set_info si r)\<lparr>path_urls := Some (Join us)\<rparr>) =
    si\<lparr>info_ID := path_storage_id r, info_URLs := splitString (Join us),
       info_AllowTypes := known_types (info_AllowTypes si), info_DenyTypes := known_types (info_DenyTypes si)\<rparr>"
  using assms by (simp add: info_of_row_def set_info_def info_columns_ok_def splitString_Join known_types_column)

lemma info_of_row_stat: "info_of_row (set_stat st now r) = info_of_row r"
  by (simp add: info_of_row_def set_stat_def)

lemma find_path_append:
  "find_path sid db = None \<Longrightarrow> path_storage_id r = sid \<Longrightarrow>
   find_path sid (db\<lparr>storage_path := storage_path db @ [r]\<rparr>) = Some r"
proof -
  have "find p xs = None \<Longrightarrow> p y \<Longrightarrow> find p (xs @ [y]) = Some y" for p :: "path_row \<Rightarrow> bool" and xs y
    by (induction xs) (auto split: if_splits)
  then show "find_path sid db = None \<Longrightarrow> path_storage_id r = sid \<Longrightarrow>
    find_path sid (db\<lparr>storage_path := storage_path db @ [r]\<rparr>) = Some r"
    by (simp add: find_path_def)
qed

lemma find_path_update:
  assumes "\<And>r. path_storage_id (f r) = path_storage_id r"
  shows "find_path sid (db\<lparr>storage_path := update_where (\<lambda>x. path_storage_id x = sid) f (storage_path db)\<rparr>) =
    map_option f (find_path sid db)"
proof -
  have "find (\<lambda>x. path_storage_id x = sid) (update_where (\<lambda>x. path_storage_id x = sid) f t) =
      map_option f (find (\<lambda>x. path_storage_id x = sid) t)" for t
    using assms by (induction t) (simp_all add: update_where_def)
  then show ?thesis by (simp add: find_path_def)
qed


definition ex_path_info :: "string list \<Rightarrow> StorageInfo" where
  "ex_path_info allow = \<lparr>info_ID = ''p1'', info_URLs = [''http://a'', ''http://b''], info_Weight = 10, info_MaxStorage = 0,
     info_CanSeal = True, info_CanStore = False, info_Groups = [''g''], info_AllowTo = [], info_AllowTypes = allow,
     info_DenyTypes = [], info_AllowMiners = [], info_DenyMiners = []\<rparr>"

definition ex_stat :: FsStat where
  "ex_stat = \<lparr>st_Capacity = 1000, st_Available = 900, st_FSAvailable = 900, st_Reserved = 0, st_Used = 100\<rparr>"

definition empty_index :: index_db where
  "empty_index = \<lparr>storage_path = [], sector_location = []\<rparr>"


text \<open>
  A path whose allow list names no known file type is stored without a list, and then allows
  every type (the comment in the code says that it denies all of them).
\<close>

theorem invalid_allow_list_allows_all:
  assumes "StorageAttach url_ok si st now db = Inr db'" "list_all (\<lambda>t. TypeFromString t = None) (info_AllowTypes si)"
    "info_DenyTypes si = []"
  shows "\<exists>i. StorageInfo_of (info_ID si) db' = Some i \<and> Allowed ft (info_AllowTypes i) (info_DenyTypes i)"
proof -
  have none: "known_types (info_AllowTypes si) = []" "known_types (info_DenyTypes si) = []"
    using assms(2,3) by (auto simp: known_types_def list_all_iff filter_empty_conv)
  obtain r where r: "find_path (info_ID si) db' = Some r" "path_allow_types r = []" "path_deny_types r = []"
  proof (cases "find_path (info_ID si) db")
    case None
    let ?r = "set_stat st now (set_info si ((blank_path (info_ID si))\<lparr>path_urls := Some (Join (info_URLs si))\<rparr>))"
    have "db' = db\<lparr>storage_path := storage_path db @ [?r]\<rparr>"
      using assms(1) None by (auto simp: StorageAttach_def split: if_splits)
    then have "find_path (info_ID si) db' = Some ?r"
      using find_path_append [OF None] by (simp add: set_stat_def set_info_def blank_path_def)
    then show ?thesis using none that [of ?r] by (simp add: set_stat_def set_info_def)
  next
    case (Some r0)
    let ?f = "\<lambda>x. (set_info si x)\<lparr>path_urls := Some (Join (union (case path_urls r0 of None \<Rightarrow> [] | Some u \<Rightarrow> Split u) (info_URLs si))),
      path_last_heartbeat := now\<rparr>"
    have "db' = db\<lparr>storage_path := update_where (\<lambda>x. path_storage_id x = info_ID si) ?f (storage_path db)\<rparr>"
      using assms(1) Some by (auto simp: StorageAttach_def Let_def split: if_splits)
    then have "find_path (info_ID si) db' = Some (?f r0)"
      using find_path_update [of ?f "info_ID si" db] Some by (simp add: set_info_def)
    then show ?thesis using none that [of "?f r0"] by (simp add: set_info_def)
  qed
  then show ?thesis
    by (simp add: StorageInfo_of_def info_of_row_def splitString_def Allowed_def SubAllowed_def deny_mask_def)
qed

theorem invalid_allow_list_allows_all_witness:
  "\<exists>db' i. StorageAttach (\<lambda>_. True) (ex_path_info [''nonsense'']) ex_stat 5 empty_index = Inr db' \<and>
     StorageInfo_of ''p1'' db' = Some i \<and> Allowed FTSealed (info_AllowTypes i) (info_DenyTypes i)"
proof -
  obtain db' where db': "StorageAttach (\<lambda>_. True) (ex_path_info [''nonsense'']) ex_stat 5 empty_index = Inr db'"
    by (simp add: StorageAttach_def ex_path_info_def empty_index_def find_path_def)
  show ?thesis
    using db' invalid_allow_list_allows_all [OF db', of FTSealed] by (simp add: ex_path_info_def TypeFromString_def)
qed

section \<open>Declaring in batches\<close>

lemma concat_slices:
  "concat (map (\<lambda>i. take (min (i * sz + sz) (length ds) - i * sz) (drop (i * sz) ds)) [0..<m]) = take (min (m * sz) (length ds)) ds"
proof (induction m)
  case (Suc m)
  have "take (min (m * sz) (length ds)) ds @ take (min (m * sz + sz) (length ds) - m * sz) (drop (m * sz) ds) =
      take (min (m * sz + sz) (length ds)) ds"
    by (cases "m * sz \<le> length ds") (auto simp: min_def take_add [symmetric])
  with Suc show ?case by (simp add: add.commute)
qed simp

lemma num_sub_batches_range:
  assumes "0 < n"
  shows "1 \<le> num_sub_batches n" "num_sub_batches n \<le> 8" "8 * (num_sub_batches n - 1) \<le> n"
proof -
  have "n div 8 * 8 + n mod 8 = n" by simp
  then show "1 \<le> num_sub_batches n" "num_sub_batches n \<le> 8" "8 * (num_sub_batches n - 1) \<le> n"
    using assms by (auto simp: num_sub_batches_def maxParallelSubBatches_def Let_def)
qed

lemma slice_bounds:
  fixes n k :: nat
  assumes "0 < n" "1 \<le> k" "k \<le> 8" "8 * (k - 1) \<le> n"
  shows "n \<le> k * ((n + k - 1) div k)" "(k - 1) * ((n + k - 1) div k) \<le> n"
proof -
  let ?q = "(n + k - 1) div k"
  have q: "k * ?q \<le> n + k - 1" "n + k - 1 < k * ?q + k"
    using assms(2) dividend_less_div_times [of k "n + k - 1"] by (simp_all add: mult.commute [of k] add.commute)
  show "n \<le> k * ?q" using q(2) by simp
  obtain j where j: "k = Suc j" using assms(2) by (cases k) auto
  have "j * ?q \<le> n"
  proof (rule ccontr)
    assume "\<not> j * ?q \<le> n"
    then have "n < j * ?q" by simp
    then have "n + ?q < n + k" using q(1) unfolding j by simp
    then have "?q \<le> j" unfolding j by simp
    then have "j * ?q \<le> j * j" by simp
    also have "\<dots> \<le> 8 * j" using assms(3) j by simp
    also have "\<dots> \<le> n" using assms(4) j by simp
    finally show False using \<open>n < j * ?q\<close> by simp
  qed
  then show "(k - 1) * ?q \<le> n" by (simp add: j)
qed

lemma sub_batches_cover:
  assumes "ds \<noteq> []"
  obtains bs where "sub_batches ds = Some bs" "concat bs = ds" "length bs \<le> 8"
proof -
  let ?n = "length ds" let ?k = "num_sub_batches ?n" let ?sz = "(?n + ?k - 1) div ?k"
  have n: "0 < ?n" using assms by simp
  note k = num_sub_batches_range [OF n]
  note bounds = slice_bounds [OF n k]
  have "i * ?sz \<le> min (i * ?sz + ?sz) ?n" if "i < ?k" for i
  proof -
    have "i * ?sz \<le> (?k - 1) * ?sz" using that by (intro mult_right_mono) auto
    then show ?thesis using order_trans [OF _ bounds(2)] by simp
  qed
  then have "sub_batches ds = Some (map (\<lambda>i. take (min (i * ?sz + ?sz) ?n - i * ?sz) (drop (i * ?sz) ds)) [0..<?k])"
    by (simp add: sub_batches_def Let_def list_all_iff)
  moreover have "concat (map (\<lambda>i. take (min (i * ?sz + ?sz) ?n - i * ?sz) (drop (i * ?sz) ds)) [0..<?k]) = ds"
    using concat_slices [of ?sz ds ?k] bounds(1) by simp
  ultimately show ?thesis using that k(2) by simp
qed

text \<open>One declaration after the other.\<close>

definition declare_each :: "sector_declaration list \<Rightarrow> index_db \<Rightarrow> string + index_db" where
  "declare_each ds db = fold (\<lambda>(sid, s, ft, p) r. rbind r (StorageDeclareSector sid s ft p)) ds (Inr db)"

lemma declare_each_ok:
  assumes "list_all (\<lambda>(sid, s, ft, p). checkFileType ft) ds"
  shows "declare_each ds db =
    Inr (db\<lparr>sector_location := fold (\<lambda>(sid, s, ft, p). upsert_location sid s ft p) ds (sector_location db)\<rparr>)"
  using assms by (induction ds arbitrary: db) (auto simp: declare_each_def StorageDeclareSector_def)

lemma run_batches_ok:
  assumes "list_all (\<lambda>(sid, s, ft, p). checkFileType ft) (concat bs)"
  shows "run_batches bs db =
    (Inr (), db\<lparr>sector_location := fold (\<lambda>(sid, s, ft, p). upsert_location sid s ft p) (concat bs) (sector_location db)\<rparr>)"
  using assms
proof (induction bs arbitrary: db)
  case (Cons b bs)
  then have "\<not> list_ex (\<lambda>(sid, s, ft, p). \<not> checkFileType ft) b" by (fastforce simp: list_all_iff list_ex_iff)
  then show ?case using Cons by (simp add: batchStorageDeclareSectors_def)
qed simp



section \<open>Finding files\<close>

lemma collect_Inr:
  "collect f xs = Inr ys \<Longrightarrow> \<exists>zs. list_all2 (\<lambda>x z. f x = Inr z) xs zs \<and> ys = List.map_filter id zs"
proof (induction xs arbitrary: ys)
  case (Cons x xs)
  then obtain z ys' where z: "f x = Inr z" "collect f xs = Inr ys'" "ys = (case z of None \<Rightarrow> ys' | Some w \<Rightarrow> w # ys')"
    by (auto simp: rbind_Inr_iff)
  from Cons.IH [OF z(2)] obtain zs where "list_all2 (\<lambda>x z. f x = Inr z) xs zs" "ys' = List.map_filter id zs" by blast
  then show ?case
    using z by (intro exI [of _ "z # zs"]) (simp add: List.map_filter_def split: option.splits)
qed (simp add: List.map_filter_def)

lemma collect_Some:
  assumes "collect f xs = Inr ys" "\<And>x z. x \<in> set xs \<Longrightarrow> f x = Inr z \<Longrightarrow> \<exists>y. z = Some y \<and> g x y"
  shows "list_all2 g xs ys"
  using assms
proof (induction xs arbitrary: ys)
  case (Cons x xs)
  then obtain z ys' where z: "f x = Inr z" "collect f xs = Inr ys'" "ys = (case z of None \<Rightarrow> ys' | Some w \<Rightarrow> w # ys')"
    by (auto simp: rbind_Inr_iff)
  moreover obtain y where "z = Some y" "g x y" using Cons.prems(2) [of x z] z(1) by auto
  ultimately show ?case using Cons.IH [OF z(2)] Cons.prems(2) by auto
qed simp

definition holders :: "SectorID \<Rightarrow> SectorFileType \<Rightarrow> index_db \<Rightarrow> path_row list" where
  "holders s ft db = filter (\<lambda>r. holds_files s ft db r \<noteq> []) (sort_key path_storage_id (storage_path db))"

lemma find_holders:
  assumes "findSectorUncached fu mi s ft ssize False now db = Inr infos"
  shows "list_all2 (\<lambda>r i. ssi_ID i = path_storage_id r \<and> ssi_Primary i = list_ex loc_primary (holds_files s ft db r)) (holders s ft db) infos"
  using assms unfolding findSectorUncached_def Let_def holders_def [symmetric]
  by (auto simp: rbind_Inr_iff storage_entry_def intro!: collect_Some)

lemma list_all2_ids:
  "list_all2 (\<lambda>r i. f i = g r \<and> P r i) rs is \<Longrightarrow> map f is = map g rs"
  by (induction rule: list_all2_induct) auto

lemma list_all2_mem: "list_all2 P xs ys \<Longrightarrow> x \<in> set xs \<Longrightarrow> \<exists>y\<in>set ys. P x y"
  by (induction rule: list_all2_induct) auto

lemma upsert_location_mem:
  assumes "l \<in> set (upsert_location sid s ft p ls)"
  shows "is_file s ft sid l \<longrightarrow> (p \<longrightarrow> loc_primary l)"
proof (cases "list_ex (is_file s ft sid) ls")
  case True
  then obtain l0 where l0: "l = (if is_file s ft sid l0 then l0\<lparr>loc_primary := loc_primary l0 \<or> p\<rparr> else l0)"
    using assms unfolding upsert_location_def update_where_def if_P [OF True] set_map by (elim imageE)
  show ?thesis unfolding l0 by simp
next
  case False
  then have "l \<in> set ls \<or> loc_primary l = p" using assms by (auto simp: upsert_location_def)
  then show ?thesis using False by (auto simp: list_ex_iff)
qed

lemma upsert_location_exists: "\<exists>l\<in>set (upsert_location sid s ft p ls). is_file s ft sid l"
proof (cases "list_ex (is_file s ft sid) ls")
  case True
  then obtain l where "l \<in> set ls" "is_file s ft sid l" by (auto simp: list_ex_iff)
  then show ?thesis using True
    by (auto simp: upsert_location_def set_update_where is_file_def intro!: bexI [of _ "l\<lparr>loc_primary := loc_primary l \<or> p\<rparr>"])
qed (simp add: upsert_location_def is_file_def)

lemma AllSet_single: "ft \<in> set PathTypes \<Longrightarrow> set (AllSet ft) = {ft}"
proof -
  assume "ft \<in> set PathTypes"
  then obtain k where k: "k < 7" "ft = 2 ^ k" using set_PathTypes by blast
  then have "bit ft n \<longleftrightarrow> n = k" for n by (simp add: bit_power)
  then show ?thesis using k by (auto simp: set_AllSet)
qed


definition ex_index :: index_db where
  "ex_index = \<lparr>storage_path = [(blank_path ''p1'')\<lparr>path_can_store := True, path_weight := 1, path_available := 100,
       path_last_heartbeat := 10\<rparr>,
     (blank_path ''p2'')\<lparr>path_can_store := True, path_weight := 2, path_available := 80, path_last_heartbeat := 10\<rparr>,
     (blank_path ''p3'')\<lparr>path_can_store := True, path_weight := 9, path_available := 20, path_last_heartbeat := 10\<rparr>],
     sector_location = []\<rparr>"


section \<open>Allocating\<close>

lemma collect_filter:
  assumes "collect (\<lambda>r. if c then Inr (Some (g r)) else rbind (f r) (\<lambda>ok. Inr (if ok then Some (g r) else None))) xs = Inr ys"
  shows "ys = map g (filter (\<lambda>r. c \<or> f r = Inr True) xs)"
  using assms
proof (induction xs arbitrary: ys)
  case (Cons x xs)
  show ?case
  proof (cases c)
    case True
    then show ?thesis using Cons by (auto simp: rbind_Inr_iff)
  next
    case False
    then obtain ok where "f x = Inr ok" using Cons.prems by (auto simp: rbind_Inr_iff)
    then show ?thesis using Cons False by (cases ok) (auto simp: rbind_Inr_iff)
  qed
qed simp



end
