(* ===== verification/GCSafety.thy ===== *)
theory GCSafety
  imports StorageGC IndexLookup
begin

unbundle bit_operations_syntax

text \<open>
  Safety of garbage collection: which files are marked, and that sweeping removes approved
  files only.
\<close>

section \<open>Marks\<close>

definition mark_key :: "removal_mark \<Rightarrow> SectorID \<times> SectorFileType \<times> string" where
  "mark_key m = (rm_sector m, rm_filetype m, rm_storage m)"

lemma insert_mark_rows:
  "\<exists>new. insert_mark now k ms = ms @ new \<and> list_all (\<lambda>m. \<not> rm_approved m) new \<and> mark_key ` set new \<subseteq> {k}"
  by (cases k) (simp add: insert_mark_def mark_key_def)

lemma insert_mark_keys: "mark_key ` set (insert_mark now k ms) = insert k (mark_key ` set ms)"
proof -
  obtain s ft sid where k: "k = (s, ft, sid)" by (cases k)
  have "list_ex (\<lambda>m. rm_sector m = s \<and> rm_filetype m = ft \<and> rm_storage m = sid) ms \<longleftrightarrow> k \<in> mark_key ` set ms"
    by (auto simp: list_ex_iff k mark_key_def image_iff)
  then show ?thesis by (auto simp: insert_mark_def k mark_key_def)
qed

lemma fold_insert_mark_keys: "mark_key ` set (fold (insert_mark now) ks ms) = mark_key ` set ms \<union> set ks"
  by (induction ks arbitrary: ms) (auto simp: insert_mark_keys)

lemma fold_insert_mark_rows:
  "\<exists>new. fold (insert_mark now) ks ms = ms @ new \<and> list_all (\<lambda>m. \<not> rm_approved m) new \<and> mark_key ` set new \<subseteq> set ks"
proof (induction ks arbitrary: ms)
  case (Cons k ks)
  obtain n1 where n1: "insert_mark now k ms = ms @ n1" "list_all (\<lambda>m. \<not> rm_approved m) n1" "mark_key ` set n1 \<subseteq> {k}"
    using insert_mark_rows by blast
  obtain n2 where "fold (insert_mark now) ks (ms @ n1) = (ms @ n1) @ n2" "list_all (\<lambda>m. \<not> rm_approved m) n2"
    "mark_key ` set n2 \<subseteq> set ks" using Cons by blast
  then show ?case using n1 by (intro exI [of _ "n1 @ n2"]) auto
qed simp

definition adds_marks :: "(SectorID \<times> SectorFileType \<times> string) set \<Rightarrow> gc_db \<Rightarrow> gc_db \<Rightarrow> bool" where
  "adds_marks K db db' \<longleftrightarrow>
     (\<exists>new. db' = db\<lparr>storage_removal_marks := storage_removal_marks db @ new\<rparr> \<and> list_all (\<lambda>m. \<not> rm_approved m) new \<and>
        mark_key ` set new \<subseteq> K) \<and>
     mark_key ` set (storage_removal_marks db') = mark_key ` set (storage_removal_marks db) \<union> K"

lemma insert_marks_adds: "adds_marks (set ks) db (insert_marks now ks db)"
  using fold_insert_mark_rows [of now ks "storage_removal_marks db"] fold_insert_mark_keys [of now ks "storage_removal_marks db"]
  by (auto simp: adds_marks_def insert_marks_def)

lemma adds_marks_refl: "adds_marks {} db db"
  by (auto simp: adds_marks_def intro!: exI [of _ "[]"])

lemma adds_marks_trans:
  assumes "adds_marks K db db1" "adds_marks L db1 db2"
  shows "adds_marks (K \<union> L) db db2"
proof -
  from assms(1) obtain n1 where n1: "db1 = db\<lparr>storage_removal_marks := storage_removal_marks db @ n1\<rparr>"
    "list_all (\<lambda>m. \<not> rm_approved m) n1" "mark_key ` set n1 \<subseteq> K"
    unfolding adds_marks_def by (elim conjE exE)
  from assms(2) obtain n2 where n2: "db2 = db1\<lparr>storage_removal_marks := storage_removal_marks db1 @ n2\<rparr>"
    "list_all (\<lambda>m. \<not> rm_approved m) n2" "mark_key ` set n2 \<subseteq> L"
    unfolding adds_marks_def by (elim conjE exE)
  have keys: "mark_key ` set (storage_removal_marks db2) = mark_key ` set (storage_removal_marks db) \<union> K \<union> L"
    using assms unfolding adds_marks_def by metis
  have "db2 = db\<lparr>storage_removal_marks := storage_removal_marks db @ (n1 @ n2)\<rparr>" by (simp add: n1(1) n2(1))
  moreover have "list_all (\<lambda>m. \<not> rm_approved m) (n1 @ n2)" using n1(2) n2(2) by simp
  moreover have "mark_key ` set (n1 @ n2) \<subseteq> K \<union> L" using n1(3) n2(3) unfolding set_append image_Un by blast
  ultimately show ?thesis
    unfolding adds_marks_def keys Un_assoc by (intro conjI exI [of _ "n1 @ n2"]) (assumption | rule refl)+
qed

section \<open>Use on chain\<close>

text \<open>The chain uses a sector of a miner: precommitted, live or unproven.\<close>

definition precommitted :: "miner_state \<Rightarrow> uint64 \<Rightarrow> bool" where
  "precommitted st n \<longleftrightarrow> (\<exists>ns. ms_precommits st = Inr ns \<and> n \<in> set ns)"

definition in_partition :: "((string + uint64 list) \<times> (string + uint64 list)) list \<Rightarrow> uint64 \<Rightarrow> bool" where
  "in_partition ps n \<longleftrightarrow> (\<exists>l u. (l, u) \<in> set ps \<and> ((\<exists>xs. l = Inr xs \<and> n \<in> set xs) \<or> (\<exists>xs. u = Inr xs \<and> n \<in> set xs)))"

definition proven :: "miner_state \<Rightarrow> uint64 \<Rightarrow> bool" where
  "proven st n \<longleftrightarrow> (\<exists>ps. ms_partitions st = Inr ps \<and> in_partition ps n)"

lemma set_clear_bits: "set (clear_bits mid ns rs) = {s \<in> set rs. \<not> (sid_Miner s = mid \<and> sid_Number s \<in> set ns)}"
  by (auto simp: clear_bits_def)

lemma precommitted_known: "ms_precommits st = Inr ns \<Longrightarrow> precommitted st n \<longleftrightarrow> n \<in> set ns"
  by (simp add: precommitted_def)

lemma proven_known: "ms_partitions st = Inr ps \<Longrightarrow> proven st n \<longleftrightarrow> in_partition ps n"
  by (simp add: proven_def)

lemma in_partition_simps:
  "\<not> in_partition [] n"
  "in_partition ((Inr l, Inr u) # ps) n \<longleftrightarrow> n \<in> set l \<or> n \<in> set u \<or> in_partition ps n"
  unfolding in_partition_def by (simp, auto)

lemma ex_state_Cons:
  "(\<exists>st. (m, st) \<in> set ((mid, st0) # sts) \<and> P st) \<longleftrightarrow> (m = mid \<and> P st0) \<or> (\<exists>st. (m, st) \<in> set sts \<and> P st)"
  by auto

lemma clear_precommits_set:
  "clear_precommits sts rs = Inr rs' \<Longrightarrow>
   set rs' = {s \<in> set rs. \<not> (\<exists>st. (sid_Miner s, st) \<in> set sts \<and> precommitted st (sid_Number s))}"
proof (induction sts rs rule: clear_precommits.induct)
  case (2 mid st sts rs)
  then obtain ns where ns: "ms_precommits st = Inr ns" "clear_precommits sts (clear_bits mid ns rs) = Inr rs'"
    by (auto simp: rbind_Inr_iff)
  show ?case unfolding "2.IH" [OF ns(2)] ex_state_Cons precommitted_known [OF ns(1)] set_clear_bits by auto
qed simp

lemma clear_partitions_set:
  "clear_partitions mid ps rs = Inr rs' \<Longrightarrow>
   set rs' = {s \<in> set rs. \<not> (sid_Miner s = mid \<and> in_partition ps (sid_Number s))}"
proof (induction mid ps rs rule: clear_partitions.induct)
  case (2 mid live unproven ps rs)
  then obtain l u where lu: "live = Inr l" "unproven = Inr u"
    "clear_partitions mid ps (clear_bits mid u (clear_bits mid l rs)) = Inr rs'"
    by (auto simp: rbind_Inr_iff)
  show ?case unfolding "2.IH" [OF lu(3)] lu(1,2) in_partition_simps set_clear_bits by auto
qed (simp add: in_partition_simps)

lemma clear_live_set:
  "clear_live sts rs = Inr rs' \<Longrightarrow>
   set rs' = {s \<in> set rs. \<not> (\<exists>st. (sid_Miner s, st) \<in> set sts \<and> proven st (sid_Number s))}"
proof (induction sts rs rule: clear_live.induct)
  case (2 mid st sts rs)
  then obtain ps rs1 where ps: "ms_partitions st = Inr ps" "clear_partitions mid ps rs = Inr rs1" "clear_live sts rs1 = Inr rs'"
    by (auto simp: rbind_Inr_iff)
  show ?case unfolding "2.IH" [OF ps(3)] clear_partitions_set [OF ps(2)] ex_state_Cons proven_known [OF ps(1)] by auto
qed simp

lemma load_miners_set:
  "load_miners load ms = Inr sts \<Longrightarrow> set sts = {(m, st). m \<in> set ms \<and> load m = Inr st} \<and> map fst sts = ms"
  by (induction ms arbitrary: sts) (auto simp: rbind_Inr_iff)

definition chain_uses :: "gc_chain \<Rightarrow> SectorID \<Rightarrow> bool" where
  "chain_uses ch s \<longleftrightarrow> (\<exists>st. LoadMiner ch (sid_Miner s) = Inr st \<and> (precommitted st (sid_Number s) \<or> proven st (sid_Number s)))"

definition stored_file :: "(string \<times> decl list) list \<Rightarrow> SectorID \<Rightarrow> SectorFileType \<Rightarrow> string \<Rightarrow> bool" where
  "stored_file stored s ft sid \<longleftrightarrow> (\<exists>decls t. (sid, decls) \<in> set stored \<and> (s, t) \<in> set decls \<and> ft \<in> set (AllSet t))"

lemma set_unused_files:
  "set (unused_files stored rs) = {(s, ft, sid). stored_file stored s ft sid \<and> ft \<noteq> FTPiece \<and> s \<in> set rs}"
  by (fastforce simp: unused_files_def stored_file_def)

lemma AllSet_piece: "ft \<in> set (AllSet FTPiece) \<Longrightarrow> ft = FTPiece"
  using AllSet_single [of FTPiece] by (auto simp: PathTypes_def)

text \<open>Stage 1 marks exactly the stored files, pieces apart, of the sectors that nothing needs.\<close>

lemma mark_unused_adds:
  assumes "mark_unused ch now stored db = Inr db'"
  shows "adds_marks {(s, ft, sid). stored_file stored s ft sid \<and> ft \<noteq> FTPiece \<and> s \<notin> set (storage_gc_pins db) \<and>
    s \<notin> set (pipeline_sectors db) \<and> \<not> chain_uses ch s} db db'"
proof -
  let ?ms = "remdups (map (sid_Miner \<circ> fst) (removable_decls stored))"
  obtain sts where sts: "load_miners (LoadMiner ch) ?ms = Inr sts"
    using assms by (auto simp: mark_unused_def rbind_Inr_iff)
  have decl: "\<exists>t. (s, t) \<in> set (removable_decls stored)" if "stored_file stored s ft sid" "ft \<noteq> FTPiece" for s ft sid
  proof -
    from that(1) obtain decls t where d: "(sid, decls) \<in> set stored" "(s, t) \<in> set decls" "ft \<in> set (AllSet t)"
      by (auto simp: stored_file_def)
    then have "t \<noteq> FTPiece" using that(2) AllSet_piece by auto
    with d show ?thesis by (force simp: removable_decls_def)
  qed
  show ?thesis
  proof (cases "sts = []")
    case True
    then have "removable_decls stored = []" using load_miners_set [OF sts] by auto
    then have none: "{(s, ft, sid). stored_file stored s ft sid \<and> ft \<noteq> FTPiece \<and> s \<notin> set (storage_gc_pins db) \<and>
        s \<notin> set (pipeline_sectors db) \<and> \<not> chain_uses ch s} = {}" using decl by fastforce
    have "db' = db" using assms sts True by (simp add: mark_unused_def)
    then show ?thesis unfolding none by (simp add: adds_marks_refl)
  next
    case False
    let ?rs = "filter (\<lambda>s. s \<notin> set (pipeline_sectors db)) (filter (\<lambda>s. s \<notin> set (storage_gc_pins db)) (map fst (removable_decls stored)))"
    obtain rs3 rs4 where rs: "clear_precommits sts ?rs = Inr rs3" "clear_live sts rs3 = Inr rs4"
      and db': "db' = insert_marks now (unused_files stored rs4) db"
      using assms sts False by (auto simp: mark_unused_def rbind_Inr_iff Let_def)
    have uses: "(\<exists>st. (sid_Miner s, st) \<in> set sts \<and> (precommitted st (sid_Number s) \<or> proven st (sid_Number s))) \<longleftrightarrow> chain_uses ch s"
      if "(s, t) \<in> set (removable_decls stored)" for s t
      using load_miners_set [OF sts] that by (force simp: chain_uses_def)
    have rs4: "s \<in> set rs4 \<longleftrightarrow> s \<notin> set (storage_gc_pins db) \<and> s \<notin> set (pipeline_sectors db) \<and> \<not> chain_uses ch s"
      if "(s, t) \<in> set (removable_decls stored)" for s t
      using uses [OF that] that unfolding clear_live_set [OF rs(2)] clear_precommits_set [OF rs(1)] by force
    have "set (unused_files stored rs4) = {(s, ft, sid). stored_file stored s ft sid \<and> ft \<noteq> FTPiece \<and>
        s \<notin> set (storage_gc_pins db) \<and> s \<notin> set (pipeline_sectors db) \<and> \<not> chain_uses ch s}"
      unfolding set_unused_files using decl rs4 by blast
    then show ?thesis using insert_marks_adds [of "unused_files stored rs4" db now] by (simp add: db')
  qed
qed

section \<open>The other stages\<close>

lemma mark_unsealed_adds:
  "adds_marks {(s, ft, sid). ft = FTUnsealed \<and> s \<notin> set (sectors_unseal_pipeline db) \<and>
     (\<exists>m\<in>set (sectors_meta db). meta_sector m = s \<and> meta_target_unseal_state m = Some False) \<and>
     (\<exists>l\<in>set (sector_location (gc_index db)). is_file s FTUnsealed sid l)} db (mark_unsealed now db)"
proof -
  have "set (unwanted_unsealed db) = {(s, ft, sid). ft = FTUnsealed \<and> s \<notin> set (sectors_unseal_pipeline db) \<and>
     (\<exists>m\<in>set (sectors_meta db). meta_sector m = s \<and> meta_target_unseal_state m = Some False) \<and>
     (\<exists>l\<in>set (sector_location (gc_index db)). is_file s FTUnsealed sid l)}"
    by (fastforce simp: unwanted_unsealed_def is_file_def FTUnsealed_def)
  then show ?thesis using insert_marks_adds [of "unwanted_unsealed db" db now] by (simp add: mark_unsealed_def)
qed

text \<open>A sector whose update is final: it had a sector key on chain long ago, and both update files are stored.\<close>

definition update_final :: "gc_chain \<Rightarrow> (string \<times> decl list) list \<Rightarrow> SectorID \<Rightarrow> bool" where
  "update_final ch stored s \<longleftrightarrow>
     (\<exists>h st cs. finality_height ch = Inr h \<and> LoadMinerAt ch h (sid_Miner s) = Inr st \<and>
        ms_GetSector st (sid_Number s) = Inr (Some cs) \<and> cs_SectorKeyCID cs \<noteq> None) \<and>
     update_types stored s = FTUpdate OR FTUpdateCache"

lemma snapped_final:
  assumes "snapped sts stored ss = Inr marks" "load_miners (LoadMinerAt ch h) ms = Inr sts" "finality_height ch = Inr h"
  shows "set marks \<subseteq> {s \<in> set ss. update_final ch stored s}"
  using assms(1)
proof (induction ss arbitrary: marks)
  case (Cons s ss)
  show ?case
  proof (cases "map_of sts (sid_Miner s)")
    case None
    then show ?thesis using Cons by auto
  next
    case (Some st)
    then have st: "LoadMinerAt ch h (sid_Miner s) = Inr st"
      using load_miners_set [OF assms(2)] by (auto dest: map_of_SomeD)
    obtain info where info: "ms_GetSector st (sid_Number s) = Inr info"
      using Cons.prems Some by (auto simp: rbind_Inr_iff)
    show ?thesis
    proof (cases "\<exists>cs. info = Some cs \<and> cs_SectorKeyCID cs \<noteq> None \<and> update_types stored s = FTUpdate OR FTUpdateCache")
      case True
      then obtain ms' where "snapped sts stored ss = Inr ms'" "marks = s # ms'"
        using Cons.prems Some info by (auto simp: rbind_Inr_iff)
      moreover have "update_final ch stored s" using True st info assms(3) by (auto simp: update_final_def)
      ultimately show ?thesis using Cons.IH by auto
    next
      case False
      then have "snapped sts stored ss = Inr marks"
        using Cons.prems Some info by (auto split: option.splits if_splits)
      then show ?thesis using Cons.IH by auto
    qed
  qed
qed simp

lemma mark_snapped_adds:
  assumes "mark_snapped ch now stored db = Inr db'"
  obtains K where "adds_marks K db db'"
    "K \<subseteq> {(s, ft, sid). ft = FTSealed \<and> stored_file stored s FTSealed sid \<and> update_final ch stored s}"
proof -
  obtain h sts marks where h: "finality_height ch = Inr h"
    and sts: "load_miners (LoadMinerAt ch h) (remdups (map sid_Miner (map meta_sector (filter meta_has_sector_key (sectors_meta db))))) = Inr sts"
    and marks: "snapped sts stored (map meta_sector (filter meta_has_sector_key (sectors_meta db))) = Inr marks"
    and db': "db' = insert_marks now (sector_key_files stored marks) db"
    using assms by (auto simp: mark_snapped_def rbind_Inr_iff Let_def)
  have "ft \<in> set (AllSet t)" if "Has t ft" "ft = FTSealed" for t ft
    using that by (auto simp: AllSet_def Has_def PathTypes_def FTSealed_def and.commute)
  then have "set (sector_key_files stored marks) \<subseteq>
      {(s, ft, sid). ft = FTSealed \<and> stored_file stored s FTSealed sid \<and> update_final ch stored s}"
    using snapped_final [OF marks sts h] by (fastforce simp: sector_key_files_def stored_file_def)
  then show ?thesis using that insert_marks_adds db' by blast
qed

text \<open>The reasons for which a file may be marked.\<close>

definition not_needed :: "gc_chain \<Rightarrow> gc_db \<Rightarrow> SectorID \<Rightarrow> SectorFileType \<Rightarrow> bool" where
  "not_needed ch db s ft \<longleftrightarrow>
     ft \<noteq> FTPiece \<and> s \<notin> set (storage_gc_pins db) \<and> s \<notin> set (pipeline_sectors db) \<and> \<not> chain_uses ch s"

definition unsealed_not_wanted :: "gc_db \<Rightarrow> SectorID \<Rightarrow> SectorFileType \<Rightarrow> bool" where
  "unsealed_not_wanted db s ft \<longleftrightarrow> ft = FTUnsealed \<and> s \<notin> set (sectors_unseal_pipeline db) \<and>
     (\<exists>m\<in>set (sectors_meta db). meta_sector m = s \<and> meta_target_unseal_state m = Some False)"


definition ex_state :: miner_state where
  "ex_state = \<lparr>ms_precommits = Inr [], ms_partitions = Inr [(Inr [5], Inr [])], ms_GetSector = (\<lambda>_. Inr None)\<rparr>"

definition ex_chain :: gc_chain where
  "ex_chain = \<lparr>LoadMiner = (\<lambda>_. Inr ex_state), HeadHeight = Inr 10000, SectorSetLookback = Inr 900, LoadMinerAt = (\<lambda>_ _. Inr ex_state)\<rparr>"

definition ex_id :: "uint64 \<Rightarrow> SectorID" where
  "ex_id n = \<lparr>sid_Miner = 1000, sid_Number = n\<rparr>"

definition ex_loc :: "uint64 \<Rightarrow> SectorFileType \<Rightarrow> location_row" where
  "ex_loc n ft = \<lparr>loc_sector = ex_id n, loc_filetype = ft, loc_storage = ''p1'', loc_primary = True, loc_read_ts = None,
     loc_read_refs = 0, loc_write_ts = None, loc_write_owner = None\<rparr>"

text \<open>Sector 4 is not on chain, sector 5 is live and pinned and is to be kept sealed only.\<close>

definition ex_gc :: gc_db where
  "ex_gc = \<lparr>gc_index = \<lparr>storage_path = [blank_path ''p1''],
       sector_location = [ex_loc 4 2, ex_loc 4 4, ex_loc 5 1, ex_loc 5 2]\<rparr>,
     storage_removal_marks = [], storage_gc_pins = [ex_id 5], pipeline_sectors = [],
     sectors_meta = [\<lparr>meta_sector = ex_id 5, meta_target_unseal_state = Some False, meta_has_sector_key = False\<rparr>],
     sectors_unseal_pipeline = []\<rparr>"

lemma ex_gc_marks:
  "fst (GCMark_Do ex_chain 3 ex_gc) = Inr True"
  "map mark_key (storage_removal_marks (snd (GCMark_Do ex_chain 3 ex_gc))) = [(ex_id 4, 2, ''p1''), (ex_id 4, 4, ''p1''), (ex_id 5, 1, ''p1'')]"
  by code_simp+


text \<open>
  A pin does not keep the unsealed file of a sector: the second stage does not look at the pins.
\<close>

theorem pinned_unsealed_file_marked:
  "ex_id 5 \<in> set (storage_gc_pins ex_gc) \<and>
   (ex_id 5, FTUnsealed, ''p1'') \<in> set (map mark_key (storage_removal_marks (snd (GCMark_Do ex_chain 3 ex_gc))))"
  unfolding ex_gc_marks by (simp add: ex_gc_def FTUnsealed_def)

end
