(* ===== verification/SweepSafety.thy ===== *)
theory SweepSafety
  imports GCSafety
begin

unbundle bit_operations_syntax

text \<open>
  Sweeping removes approved files only. The lemmas rely on one law of the search in the sector
  index, that it lists the attached paths that hold the file, stated as a locale and proved of
  \<open>findSectorUncached\<close>.
\<close>

section \<open>Removing from the index\<close>

definition file_paths :: "SectorID \<Rightarrow> SectorFileType \<Rightarrow> index_db \<Rightarrow> string set" where
  "file_paths s typ db =
     {sid. typ \<in> set PathTypes \<and> (\<exists>r\<in>set (storage_path db). path_storage_id r = sid) \<and> (\<exists>l\<in>set (sector_location db). is_file s typ sid l)}"

definition removes :: "SectorID \<Rightarrow> SectorFileType \<Rightarrow> string set \<Rightarrow> index_db \<Rightarrow> index_db \<Rightarrow> bool" where
  "removes s typ F db db' \<longleftrightarrow>
     storage_path db' = storage_path db \<and>
     (\<exists>p. sector_location db' = filter p (sector_location db) \<and>
        (\<forall>l\<in>set (sector_location db). \<not> p l \<longrightarrow> (\<exists>sid\<in>F. is_file s typ sid l)))"

lemma removes_refl: "removes s typ F db db"
  by (auto simp: removes_def intro!: exI [of _ "\<lambda>_. True"])

lemma removes_trans:
  assumes "removes s typ F db db1" "removes s typ G db1 db2" "F \<subseteq> H" "G \<subseteq> H"
  shows "removes s typ H db db2"
proof -
  from assms(1) obtain p where p: "storage_path db1 = storage_path db" "sector_location db1 = filter p (sector_location db)"
    "\<forall>l\<in>set (sector_location db). \<not> p l \<longrightarrow> (\<exists>sid\<in>F. is_file s typ sid l)" by (auto simp: removes_def)
  from assms(2) obtain q where q: "storage_path db2 = storage_path db1" "sector_location db2 = filter q (sector_location db1)"
    "\<forall>l\<in>set (sector_location db1). \<not> q l \<longrightarrow> (\<exists>sid\<in>G. is_file s typ sid l)" by (auto simp: removes_def)
  have "sector_location db2 = filter (\<lambda>l. p l \<and> q l) (sector_location db)" using p(2) q(2) by (simp add: conj_commute)
  moreover have "\<forall>l\<in>set (sector_location db). \<not> (p l \<and> q l) \<longrightarrow> (\<exists>sid\<in>H. is_file s typ sid l)"
  proof (intro ballI impI)
    fix l
    assume l: "l \<in> set (sector_location db)" "\<not> (p l \<and> q l)"
    show "\<exists>sid\<in>H. is_file s typ sid l"
    proof (cases "p l")
      case True
      then have "l \<in> set (sector_location db1)" using l(1) p(2) by simp
      then show ?thesis using q(3) l(2) True assms(4) by blast
    next
      case False
      then show ?thesis using p(3) l(1) assms(3) by blast
    qed
  qed
  ultimately show ?thesis using p(1) q(1) unfolding removes_def by (intro conjI exI [of _ "\<lambda>l. p l \<and> q l"]) simp_all
qed

lemma file_paths_removes: "removes s typ F db db' \<Longrightarrow> file_paths s typ db' \<subseteq> file_paths s typ db"
  by (auto simp: file_paths_def removes_def)

lemma remove_local_removes:
  "remove_local here s typ keepIn sids db = (r, db') \<Longrightarrow> removes s typ (set sids - set keepIn) db db'"
proof (induction sids arbitrary: db)
  case (Cons sid sids)
  show ?case
  proof (cases "sid \<in> set keepIn \<or> \<not> here sid")
    case True
    then have "removes s typ (set sids - set keepIn) db db'" using Cons by auto
    then show ?thesis by (rule removes_trans [OF removes_refl [of s "typ" "{}"]]) auto
  next
    case False
    show ?thesis
    proof (cases "StorageDropSector sid s typ db")
      case (Inl e)
      then show ?thesis using Cons.prems False by (auto simp: removes_refl)
    next
      case (Inr db1)
      then have "removes s typ {sid} db db1"
        by (auto simp: StorageDropSector_def delete_where_def removes_def split: if_splits)
      moreover have "removes s typ (set sids - set keepIn) db1 db'" using Cons False Inr by simp
      ultimately show ?thesis using False by (auto intro: removes_trans)
    qed
  qed
qed (auto simp: removes_refl)

section \<open>The next mark\<close>

lemma next_mark_Some: "next_mark ms = Some m \<Longrightarrow> m \<in> set ms \<and> rm_approved m"
proof -
  assume "next_mark ms = Some m"
  then obtain rest where "sort_key rm_created_at (filter rm_approved ms) = m # rest"
    by (auto simp: next_mark_def split: list.splits)
  then have "m \<in> set (sort_key rm_created_at (filter rm_approved ms))" by simp
  then show ?thesis by simp
qed

lemma next_mark_None: "next_mark ms = None \<longleftrightarrow> filter rm_approved ms = []"
proof -
  have "next_mark ms = None \<longleftrightarrow> sort_key rm_created_at (filter rm_approved ms) = []"
    by (auto simp: next_mark_def split: list.splits)
  also have "\<dots> \<longleftrightarrow> filter rm_approved ms = []" by (metis length_0_conv length_sort)
  finally show ?thesis .
qed

section \<open>The search\<close>

locale sector_finder =
  fixes find_s :: finder
  assumes find_ids: "one_type typ \<Longrightarrow> find_s s typ db = Inr si \<Longrightarrow> set (map ssi_ID si) = file_paths s typ db"
begin

lemma Local_Remove_removes:
  assumes "Local_Remove find_s here s typ force keepIn db = (r, db')"
  shows "removes s typ (file_paths s typ db - set keepIn) db db'"
proof (cases "one_type typ \<and> (\<exists>si. find_s s typ db = Inr si \<and> (si \<noteq> [] \<or> force))")
  case True
  then obtain si where si: "one_type typ" "find_s s typ db = Inr si" "remove_local here s typ keepIn (map ssi_ID si) db = (r, db')"
    using assms by (auto simp: Local_Remove_def)
  then show ?thesis using remove_local_removes [OF si(3)] find_ids [OF si(1,2)] by simp
next
  case False
  then have "db' = db" using assms by (auto simp: Local_Remove_def split: sum.splits if_splits)
  then show ?thesis by (simp add: removes_refl)
qed

lemma delete_urls_removes:
  assumes "file_paths s typ db \<subseteq> F"
  shows "removes s typ (F - set keepIn) db (delete_urls find_s serve s typ keepIn us db)"
  using assms
proof (induction us arbitrary: db)
  case (Cons u us)
  show ?case
  proof (cases "serve u")
    case None
    then show ?thesis using Cons by simp
  next
    case (Some there)
    obtain r db1 where r: "Local_Remove find_s there s typ False keepIn db = (r, db1)" by fastforce
    note rem = Local_Remove_removes [OF r]
    have rem': "removes s typ (F - set keepIn) db db1"
      using removes_trans [OF removes_refl [of s "typ" "{}" db] rem] Cons.prems by blast
    show ?thesis
    proof (cases r)
      case (Inl e)
      have "file_paths s typ db1 \<subseteq> F" using file_paths_removes [OF rem] Cons.prems by blast
      then show ?thesis using Cons.IH [of db1] rem' r Some Inl by (auto intro: removes_trans)
    next
      case (Inr x)
      then show ?thesis using rem' r Some by simp
    qed
  qed
qed (simp add: removes_refl)

lemma Remote_Remove_removes:
  assumes "Remote_Remove find_s here serve s typ force keepIn db = (r, db')"
  shows "removes s typ (file_paths s typ db - set keepIn) db db'"
proof (cases "one_type typ")
  case True
  let ?F = "file_paths s typ db"
  let ?del = "\<lambda>info d. if ssi_ID info \<in> set keepIn then d else delete_urls find_s serve s typ keepIn (ssi_URLs info) d"
  obtain r1 db1 where l: "Local_Remove find_s here s typ force keepIn db = (r1, db1)" by fastforce
  note rem = Local_Remove_removes [OF l]
  have all: "removes s typ (?F - set keepIn) d (fold ?del infos d)" if "file_paths s typ d \<subseteq> ?F" for infos d
    using that
  proof (induction infos arbitrary: d)
    case (Cons i infos)
    have one: "removes s typ (?F - set keepIn) d (?del i d)"
      using delete_urls_removes [OF Cons.prems] by (simp add: removes_refl)
    then have "file_paths s typ (?del i d) \<subseteq> ?F" using file_paths_removes Cons.prems by (meson order_trans)
    from removes_trans [OF one Cons.IH [OF this]] show ?case by simp
  qed (simp add: removes_refl)
  show ?thesis
  proof (cases "\<exists>u si. r1 = Inr u \<and> find_s s typ db1 = Inr si")
    case True
    then obtain si where si: "r1 = Inr ()" "find_s s typ db1 = Inr si" by auto
    have "db' = fold ?del si db1"
      using assms l si \<open>one_type typ\<close> by (simp add: Remote_Remove_def)
    then show ?thesis
      using removes_trans [OF rem all [OF file_paths_removes [OF rem]] order_refl order_refl] by simp
  next
    case False
    then have "db' = db1" using assms l \<open>one_type typ\<close> by (auto simp: Remote_Remove_def split: sum.splits)
    then show ?thesis using rem by simp
  qed
next
  case False
  then show ?thesis using assms by (auto simp: Remote_Remove_def removes_refl)
qed

text \<open>A turn of the sweep removes at most the file of its mark, on the storage of its mark.\<close>

lemma sweep_one_removes:
  assumes "sweep_one find_s here serve m db = (r, db')" "one_type (rm_filetype m)"
  shows "removes (rm_sector m) (rm_filetype m) {rm_storage m} (gc_index db) (gc_index db')"
    "storage_removal_marks db' = storage_removal_marks db \<or>
     storage_removal_marks db' = delete_where (is_mark (rm_sector m) (rm_filetype m) (rm_storage m)) (storage_removal_marks db)"
    "r = Inr x \<Longrightarrow>
     storage_removal_marks db' = delete_where (is_mark (rm_sector m) (rm_filetype m) (rm_storage m)) (storage_removal_marks db)"
proof -
  let ?s = "rm_sector m" and ?t = "rm_filetype m"
  have "removes ?s ?t {rm_storage m} (gc_index db) (gc_index db') \<and>
    (storage_removal_marks db' = storage_removal_marks db \<and> (\<exists>e. r = Inl e) \<or>
     storage_removal_marks db' = delete_where (is_mark ?s ?t (rm_storage m)) (storage_removal_marks db))"
  proof (cases "rm_approved_at m \<noteq> None \<and> (\<exists>si. find_s ?s ?t (gc_index db) = Inr si)")
    case True
    then obtain si where si: "find_s ?s ?t (gc_index db) = Inr si" by blast
    let ?keep = "filter (\<lambda>sid. sid \<noteq> rm_storage m) (map ssi_ID si)"
    obtain r1 ix where rr: "Remote_Remove find_s here serve ?s ?t True ?keep (gc_index db) = (r1, ix)" by fastforce
    have "file_paths ?s ?t (gc_index db) - set ?keep \<subseteq> {rm_storage m}"
      using find_ids [OF assms(2) si] by auto
    then have "removes ?s ?t {rm_storage m} (gc_index db) ix"
      using removes_trans [OF removes_refl [of ?s ?t "{}"] Remote_Remove_removes [OF rr]] by blast
    then show ?thesis using assms(1) True si rr by (auto simp: sweep_one_def Let_def)
  next
    case False
    then have "db' = db \<and> (\<exists>e. r = Inl e)" using assms(1) by (auto simp: sweep_one_def split: sum.splits if_splits)
    then show ?thesis by (simp add: removes_refl)
  qed
  then show "removes ?s ?t {rm_storage m} (gc_index db) (gc_index db')"
    "storage_removal_marks db' = storage_removal_marks db \<or>
     storage_removal_marks db' = delete_where (is_mark ?s ?t (rm_storage m)) (storage_removal_marks db)"
    "r = Inr x \<Longrightarrow> storage_removal_marks db' = delete_where (is_mark ?s ?t (rm_storage m)) (storage_removal_marks db)"
    by auto
qed

text \<open>What a whole sweep may do, relative to the marks it started with.\<close>

lemma sweep_only_approved:
  assumes "GCSweep_Do find_s here serve os db = (res, db')" "distinct (map mark_key (storage_removal_marks db))"
    "list_all (\<lambda>m. one_type (rm_filetype m)) (storage_removal_marks db)"
  shows "filter (\<lambda>m. \<not> rm_approved m) (storage_removal_marks db') = filter (\<lambda>m. \<not> rm_approved m) (storage_removal_marks db) \<and>
    (\<exists>p. sector_location (gc_index db') = filter p (sector_location (gc_index db)) \<and>
       (\<forall>l\<in>set (sector_location (gc_index db)). \<not> p l \<longrightarrow>
          (\<exists>m\<in>set (storage_removal_marks db). rm_approved m \<and> is_mark (loc_sector l) (loc_filetype l) (loc_storage l) m)))"
  using assms
proof (induction os arbitrary: db)
  case Nil
  then show ?case by (auto intro!: exI [of _ "\<lambda>_. True"])
next
  case (Cons owned os)
  show ?case
  proof (cases "owned \<and> (\<exists>m. next_mark (storage_removal_marks db) = Some m)")
    case False
    then have "db' = db" using Cons.prems(1) by (auto split: if_splits option.splits)
    then show ?thesis by (auto intro!: exI [of _ "\<lambda>_. True"])
  next
    case True
    then obtain m where m: "next_mark (storage_removal_marks db) = Some m" by blast
    have mem: "m \<in> set (storage_removal_marks db)" "rm_approved m" using next_mark_Some [OF m] by auto
    let ?ms = "storage_removal_marks db"
    obtain r db1 where r: "sweep_one find_s here serve m db = (r, db1)" by fastforce
    have t: "one_type (rm_filetype m)" using Cons.prems(3) mem(1) by (simp add: list_all_iff)
    note one = sweep_one_removes [OF r t]
    from one(1) obtain p where p: "sector_location (gc_index db1) = filter p (sector_location (gc_index db))"
      "\<forall>l\<in>set (sector_location (gc_index db)). \<not> p l \<longrightarrow> is_file (rm_sector m) (rm_filetype m) (rm_storage m) l"
      by (auto simp: removes_def)
    have p': "\<exists>m\<in>set ?ms. rm_approved m \<and> is_mark (loc_sector l) (loc_filetype l) (loc_storage l) m"
      if "l \<in> set (sector_location (gc_index db))" "\<not> p l" for l
      using that p(2) mem by (auto simp: is_file_def is_mark_def)
    have del: "storage_removal_marks db1 = ?ms \<or> storage_removal_marks db1 = delete_where (\<lambda>x. mark_key x = mark_key m) ?ms"
    proof -
      have "is_mark (rm_sector m) (rm_filetype m) (rm_storage m) = (\<lambda>x. mark_key x = mark_key m)"
        by (auto simp: is_mark_def mark_key_def)
      then show ?thesis using one(2) by simp
    qed
    have kept: "filter (\<lambda>m. \<not> rm_approved m) (storage_removal_marks db1) = filter (\<lambda>m. \<not> rm_approved m) ?ms"
    proof -
      have "filter (\<lambda>m. \<not> rm_approved m) (delete_where (\<lambda>x. mark_key x = mark_key m) ?ms) = filter (\<lambda>m. \<not> rm_approved m) ?ms"
        unfolding delete_where_def filter_filter
        using distinct_key_eq [OF Cons.prems(2) _ mem(1)] mem(2) by (intro filter_cong) auto
      then show ?thesis using del by auto
    qed
    show ?thesis
    proof (cases r)
      case (Inl e)
      then have "db' = db1" using Cons.prems(1) True m r by simp
      then show ?thesis using kept p(1) p' by blast
    next
      case (Inr u)
      then have rest: "GCSweep_Do find_s here serve os db1 = (res, db')" using Cons.prems(1) True m r by simp
      have sub: "set (storage_removal_marks db1) \<subseteq> set ?ms" using del by (auto simp: set_delete_where)
      have d1: "distinct (map mark_key (storage_removal_marks db1))"
        using del Cons.prems(2) distinct_map_delete_where [of mark_key ?ms] by metis
      have t1: "list_all (\<lambda>m. one_type (rm_filetype m)) (storage_removal_marks db1)"
        using Cons.prems(3) sub by (auto simp: list_all_iff)
      from Cons.IH [OF rest d1 t1] obtain q where q: "sector_location (gc_index db') = filter q (sector_location (gc_index db1))"
        "\<forall>l\<in>set (sector_location (gc_index db1)). \<not> q l \<longrightarrow>
           (\<exists>m\<in>set (storage_removal_marks db1). rm_approved m \<and> is_mark (loc_sector l) (loc_filetype l) (loc_storage l) m)"
        and k: "filter (\<lambda>m. \<not> rm_approved m) (storage_removal_marks db') = filter (\<lambda>m. \<not> rm_approved m) (storage_removal_marks db1)"
        by blast
      have "sector_location (gc_index db') = filter (\<lambda>l. p l \<and> q l) (sector_location (gc_index db))"
        using p(1) q(1) by (simp add: conj_commute)
      moreover have "\<exists>m\<in>set ?ms. rm_approved m \<and> is_mark (loc_sector l) (loc_filetype l) (loc_storage l) m"
        if "l \<in> set (sector_location (gc_index db))" "\<not> (p l \<and> q l)" for l
        using that p' p(1) q(2) sub by (cases "p l") (auto, blast)
      ultimately show ?thesis using k kept by (intro conjI exI [of _ "\<lambda>l. p l \<and> q l"] ballI impI) simp_all
    qed
  qed
qed

lemma sweep_returns:
  assumes "length (filter rm_approved (storage_removal_marks db)) < length os"
    "list_all (\<lambda>m. one_type (rm_filetype m)) (storage_removal_marks db)"
  shows "\<exists>r. fst (GCSweep_Do find_s here serve os db) = Some r \<and>
    (r = Inr True \<longrightarrow> filter rm_approved (storage_removal_marks (snd (GCSweep_Do find_s here serve os db))) = [])"
  using assms
proof (induction os arbitrary: db)
  case (Cons owned os)
  show ?case
  proof (cases "owned \<and> (\<exists>m. next_mark (storage_removal_marks db) = Some m)")
    case False
    then show ?thesis using next_mark_None [of "storage_removal_marks db"] by (cases owned) auto
  next
    case True
    then obtain m where m: "next_mark (storage_removal_marks db) = Some m" by blast
    have mem: "m \<in> set (storage_removal_marks db)" "rm_approved m" using next_mark_Some [OF m] by auto
    obtain r db1 where r: "sweep_one find_s here serve m db = (r, db1)" by fastforce
    have t: "one_type (rm_filetype m)" using Cons.prems(2) mem(1) by (simp add: list_all_iff)
    show ?thesis
    proof (cases r)
      case (Inl e)
      then show ?thesis using True m r by simp
    next
      case (Inr u)
      have del: "storage_removal_marks db1 = delete_where (is_mark (rm_sector m) (rm_filetype m) (rm_storage m)) (storage_removal_marks db)"
        using sweep_one_removes(3) [OF r t Inr] .
      have "filter rm_approved (storage_removal_marks db1) =
          filter (\<lambda>x. \<not> is_mark (rm_sector m) (rm_filetype m) (rm_storage m) x) (filter rm_approved (storage_removal_marks db))"
        unfolding del delete_where_def filter_filter by (rule filter_cong) auto
      moreover have "m \<in> set (filter rm_approved (storage_removal_marks db))" using mem by simp
      ultimately have "length (filter rm_approved (storage_removal_marks db1)) < length (filter rm_approved (storage_removal_marks db))"
        by (metis (no_types, lifting) length_filter_less is_mark_def)
      moreover have "list_all (\<lambda>m. one_type (rm_filetype m)) (storage_removal_marks db1)"
        using Cons.prems(2) by (auto simp: del list_all_iff set_delete_where)
      ultimately show ?thesis using Cons.IH [of db1] Cons.prems(1) True m r Inr by simp
    qed
  qed
qed simp

end

section \<open>The search of the index\<close>

abbreviation index_find :: "(string \<Rightarrow> string \<Rightarrow> string option) \<Rightarrow> (string \<Rightarrow> string + uint64) \<Rightarrow> time \<Rightarrow> finder" where
  "index_find fu mi now \<equiv> (\<lambda>s ft db. findSectorUncached fu mi s ft 0 False now db)"

lemma AllSet_one_type:
  assumes "one_type ft"
  shows "set (AllSet ft) = (if ft \<in> set PathTypes then {ft} else {})"
proof -
  obtain k where k: "k < 64" "ft = 2 ^ k" using assms by (auto simp: one_type_def list_ex_iff)
  then have b: "bit ft n \<longleftrightarrow> n = k" for n by (simp add: bit_power)
  have "ft \<in> set PathTypes \<longleftrightarrow> k < 7"
  proof
    assume "ft \<in> set PathTypes"
    then obtain j where "j < 7" "ft = 2 ^ j" using set_PathTypes by blast
    then show "k < 7" using b [of j] bit_power [of j j] by simp
  qed (use k set_PathTypes in blast)
  moreover have "x \<in> set (AllSet ft) \<longleftrightarrow> k < 7 \<and> x = ft" for x unfolding set_AllSet b using k(2) by auto
  ultimately show ?thesis by (intro set_eqI) simp
qed

interpretation index_finder: sector_finder "index_find fu mi now" for fu mi now
proof
  fix ft s db si
  assume one: "one_type ft" and f: "index_find fu mi now s ft db = Inr si"
  have "map ssi_ID si = map path_storage_id (holders s ft db)"
    by (rule list_all2_ids [OF find_holders [OF f]])
  moreover have "holds_files s ft db r \<noteq> [] \<longleftrightarrow> ft \<in> set PathTypes \<and> (\<exists>l\<in>set (sector_location db). is_file s ft (path_storage_id r) l)" for r
    unfolding holds_files_def filter_empty_conv AllSet_one_type [OF one] by (auto simp: is_file_def)
  ultimately show "set (map ssi_ID si) = file_paths s ft db"
    by (auto simp: file_paths_def holders_def)
qed


definition ex_mark :: "uint64 \<Rightarrow> SectorFileType \<Rightarrow> bool \<Rightarrow> removal_mark" where
  "ex_mark n ft ok = \<lparr>rm_sector = ex_id n, rm_filetype = ft, rm_storage = ''p1'', rm_created_at = 1, rm_approved = ok,
     rm_approved_at = (if ok then Some 2 else None)\<rparr>"

definition ex_marked :: gc_db where
  "ex_marked = ex_gc\<lparr>storage_removal_marks := [ex_mark 4 2 False, ex_mark 4 4 True]\<rparr>"

lemma ex_sweep:
  "GCSweep_Do (index_find (\<lambda>_. Some) (\<lambda>_. Inr 0) 0) (\<lambda>_. True) (\<lambda>_. None) [True, True] ex_marked =
    (Some (Inr True), ex_marked\<lparr>storage_removal_marks := [ex_mark 4 2 False],
       gc_index := (gc_index ex_gc)\<lparr>sector_location := [ex_loc 4 2, ex_loc 5 1, ex_loc 5 2]\<rparr>\<rparr>)"
  by code_simp

lemma ex_marked_ok:
  "distinct (map mark_key (storage_removal_marks ex_marked))"
  "list_all (\<lambda>m. one_type (rm_filetype m)) (storage_removal_marks ex_marked)"
  by code_simp+




end
