(* ===== verification/DealIngest.thy ===== *)
theory DealIngest
  imports SealPipeline "HOL-Library.AList"
begin

text \<open>
  Assigning deal pieces to sectors (\<open>market/storageingest/deal_ingest_seal.go\<close>,
  \<open>market/storageingest/deal_ingest_snap.go\<close>, \<open>tasks/seal/sector_num_alloc.go\<close> and the SQL
  functions they call). A piece goes to an open sector with room for it or opens a new one:
  a sector with a fresh number to be sealed, or for snap deals an existing sector without data.
  \<open>Seal\<close> moves the pieces of a full or due sector to the pipeline.

  The chain node and the libraries of the node (piece sizes, addresses, JSON) are parameters,
  held in \<open>ingest_api\<close>. Go iterates over maps in any order; the arguments \<open>ord\<close> are the orders.
  A nil dereference is the error ''panic''. One call sees one chain head.
\<close>

section \<open>Deals\<close>

record DealProposal =
  dp_PieceCID :: string
  dp_PieceSize :: uint64
  dp_VerifiedDeal :: bool
  dp_Client :: string

record PieceActivationManifest =
  am_CID :: string
  am_Size :: uint64
  am_VerifiedAllocationKey :: "(int \<times> int) option"
  am_Notify :: "(string \<times> string) list"

record PieceDealInfo =
  di_DealProposal :: "DealProposal option"
  di_Manifest :: "PieceActivationManifest option"
  di_DealID :: int
  di_PublishCid :: "string option"
  di_StartEpoch :: int
  di_EndEpoch :: int
  di_KeepUnsealed :: bool

record sector_on_chain =
  soc_Expiration :: int
  soc_SealProof :: int

record partition =
  part_Active :: "int \<Rightarrow> string + bool"
  part_Live :: "int \<Rightarrow> string + bool"
  part_Faulty :: "int \<Rightarrow> string + bool"
  part_Recovering :: "int \<Rightarrow> string + bool"

record deadline_info =
  dl_Index :: nat
  dl_PeriodDeadlines :: nat
  dl_CurrentEpoch :: int
  dl_Open :: int
  dl_ProvingPeriod :: int

record ingest_api =
  ig_ChainHead :: "string + int"
  ig_MinerAllocated :: "string \<Rightarrow> string + int list"
  ig_GetAllocation :: "string \<Rightarrow> int \<Rightarrow> string + (int \<times> int) option"
  ig_AllocationForPendingDeal :: "int \<Rightarrow> string + (int \<times> int) option"
  ig_AllocationIdForPendingDeal :: "int \<Rightarrow> string + int"
  ig_LookupID :: "string \<Rightarrow> string + string"
  ig_SectorGetInfo :: "string \<Rightarrow> int \<Rightarrow> string + sector_on_chain option"
  ig_SectorPartition :: "string \<Rightarrow> int \<Rightarrow> string + nat \<times> nat"
  ig_MinerPartitions :: "string \<Rightarrow> nat \<Rightarrow> string + partition list"
  ig_ProvingDeadline :: "string \<Rightarrow> string + deadline_info"
  ig_IDFromAddress :: "string \<Rightarrow> string + int"
  ig_NewIDAddress :: "int \<Rightarrow> string + string"
  ig_PaddedSize :: "int \<Rightarrow> uint64"
  ig_PieceCID :: "PieceDealInfo \<Rightarrow> string"
  ig_Size :: "PieceDealInfo \<Rightarrow> uint64"
  ig_HeaderJson :: "string \<Rightarrow> string + string"
  ig_ProposalJson :: "DealProposal \<Rightarrow> string + string"
  ig_ManifestJson :: "PieceActivationManifest \<Rightarrow> string + string"
  ig_DealIDCbor :: "int \<Rightarrow> string + string"
  ig_MarketAddress :: string

section \<open>Tables\<close>

text \<open>The columns that \<open>open_sector_pieces\<close> and the two tables of initial pieces share.\<close>

record init_piece =
  ip_sp_id :: int
  ip_sector_number :: int
  ip_piece_index :: int
  ip_piece_cid :: string
  ip_piece_size :: uint64
  ip_data_url :: string
  ip_data_headers :: string
  ip_data_raw_size :: int
  ip_data_delete_on_finalize :: bool
  ip_f05_publish_cid :: "string option"
  ip_f05_deal_id :: "int option"
  ip_f05_deal_proposal :: "string option"
  ip_f05_deal_start_epoch :: "int option"
  ip_f05_deal_end_epoch :: "int option"
  ip_direct_start_epoch :: "int option"
  ip_direct_end_epoch :: "int option"
  ip_direct_manifest :: "string option"
  ip_created_at :: time

type_synonym open_piece = "init_piece \<times> bool"

record cc_meta_row =
  cc_sp_id :: int
  cc_sector_num :: int
  cc_reg_seal_proof :: int
  cc_is_cc :: bool
  cc_is_live :: bool
  cc_is_faulty :: bool
  cc_expiration_epoch :: "int option"
  cc_deadline :: "nat option"

record ingest_db =
  open_sector_pieces :: "open_piece list"
  ig_pipeline :: "pipeline_row list"
  ig_initial_pieces :: "init_piece list"
  sectors_snap_pipeline :: "(int \<times> int \<times> int) list"
  sectors_snap_initial_pieces :: "init_piece list"
  sectors_allocated_numbers :: "int \<rightharpoonup> int list"
  ig_sectors_meta :: "cc_meta_row list"

definition open_key :: "open_piece \<Rightarrow> int \<times> int \<times> int" where
  "open_key p = (ip_sp_id (fst p), ip_sector_number (fst p), ip_piece_index (fst p))"

definition of_sector :: "int \<Rightarrow> int \<Rightarrow> init_piece \<Rightarrow> bool" where
  "of_sector sp num p \<longleftrightarrow> ip_sp_id p = sp \<and> ip_sector_number p = num"

definition insert_open_piece :: "open_piece \<Rightarrow> ingest_db \<Rightarrow> string + ingest_db" where
  "insert_open_piece p db =
     (if open_key p \<in> open_key ` set (open_sector_pieces db) then Inl ''Conflict detected for piece_index''
      else Inr (db\<lparr>open_sector_pieces := open_sector_pieces db @ [p]\<rparr>))"

definition insert_sector_market_piece ::
  "int \<Rightarrow> int \<Rightarrow> int \<Rightarrow> DealProposal \<Rightarrow> string \<Rightarrow> string \<Rightarrow> int \<Rightarrow> PieceDealInfo \<Rightarrow> string \<Rightarrow> time \<Rightarrow> ingest_db \<Rightarrow>
   string + ingest_db" where
  "insert_sector_market_piece sp num idx dp url hdr raw deal prop now =
     insert_open_piece (\<lparr>ip_sp_id = sp, ip_sector_number = num, ip_piece_index = idx,
       ip_piece_cid = dp_PieceCID dp, ip_piece_size = dp_PieceSize dp, ip_data_url = url, ip_data_headers = hdr,
       ip_data_raw_size = raw, ip_data_delete_on_finalize = (\<not> di_KeepUnsealed deal),
       ip_f05_publish_cid = di_PublishCid deal, ip_f05_deal_id = Some (di_DealID deal), ip_f05_deal_proposal = Some prop,
       ip_f05_deal_start_epoch = Some (di_StartEpoch deal), ip_f05_deal_end_epoch = Some (di_EndEpoch deal),
       ip_direct_start_epoch = None, ip_direct_end_epoch = None, ip_direct_manifest = None, ip_created_at = now\<rparr>, False)"

definition ddo_piece ::
  "int \<Rightarrow> int \<Rightarrow> int \<Rightarrow> PieceActivationManifest \<Rightarrow> string \<Rightarrow> string \<Rightarrow> int \<Rightarrow> PieceDealInfo \<Rightarrow> string \<Rightarrow> time \<Rightarrow> init_piece" where
  "ddo_piece sp num idx am url hdr raw deal prop now =
     \<lparr>ip_sp_id = sp, ip_sector_number = num, ip_piece_index = idx,
       ip_piece_cid = am_CID am, ip_piece_size = am_Size am, ip_data_url = url, ip_data_headers = hdr,
       ip_data_raw_size = raw, ip_data_delete_on_finalize = (\<not> di_KeepUnsealed deal),
       ip_f05_publish_cid = None, ip_f05_deal_id = None, ip_f05_deal_proposal = None,
       ip_f05_deal_start_epoch = None, ip_f05_deal_end_epoch = None,
       ip_direct_start_epoch = Some (di_StartEpoch deal), ip_direct_end_epoch = Some (di_EndEpoch deal),
       ip_direct_manifest = Some prop, ip_created_at = now\<rparr>"

definition insert_sector_ddo_piece where
  "insert_sector_ddo_piece sp num idx am url hdr raw deal prop now =
     insert_open_piece (ddo_piece sp num idx am url hdr raw deal prop now, False)"

definition insert_snap_ddo_piece where
  "insert_snap_ddo_piece sp num idx am url hdr raw deal prop now =
     insert_open_piece (ddo_piece sp num idx am url hdr raw deal prop now, True)"

text \<open>
  Both transfer functions number the pieces of the sector by size, largest first, and take them
  out of \<open>open_sector_pieces\<close>.
\<close>

definition sorted_pieces :: "int \<Rightarrow> int \<Rightarrow> ingest_db \<Rightarrow> init_piece list" where
  "sorted_pieces sp num db =
     rev (sort_key (unat \<circ> ip_piece_size) (rev (filter (of_sector sp num) (map fst (open_sector_pieces db)))))"

definition renumber :: "init_piece list \<Rightarrow> init_piece list" where
  "renumber ps = map (\<lambda>(i, p). p\<lparr>ip_piece_index := int i\<rparr>) (enumerate 0 ps)"

definition close_sector :: "int \<Rightarrow> int \<Rightarrow> ingest_db \<Rightarrow> ingest_db" where
  "close_sector sp num db =
     db\<lparr>open_sector_pieces := delete_where (\<lambda>p. of_sector sp num (fst p)) (open_sector_pieces db)\<rparr>"

definition transfer_and_delete_sorted_open_piece :: "int \<Rightarrow> int \<Rightarrow> ingest_db \<Rightarrow> string + ingest_db" where
  "transfer_and_delete_sorted_open_piece sp num db =
     (let ps = sorted_pieces sp num db in
      if ps = [] then Inl ''No data found to transfer''
      else if \<exists>p\<in>set (ig_initial_pieces db). of_sector sp num p \<and> 0 \<le> ip_piece_index p \<and> ip_piece_index p < int (length ps)
      then Inl ''duplicate key''
      else Inr ((close_sector sp num db)\<lparr>ig_initial_pieces := ig_initial_pieces db @ renumber ps\<rparr>))"

definition no_f05 :: "init_piece \<Rightarrow> init_piece" where
  "no_f05 p = p\<lparr>ip_f05_publish_cid := None, ip_f05_deal_id := None, ip_f05_deal_proposal := None,
     ip_f05_deal_start_epoch := None, ip_f05_deal_end_epoch := None\<rparr>"

definition transfer_and_delete_sorted_open_piece_snap :: "int \<Rightarrow> int \<Rightarrow> ingest_db \<Rightarrow> string + ingest_db" where
  "transfer_and_delete_sorted_open_piece_snap sp num db =
     (let ps = sorted_pieces sp num db in
      if \<exists>p\<in>set ps. ip_f05_deal_id p \<noteq> None then Inl ''Cannot transfer open_sector_pieces with f05_deal_id not null''
      else if ps = [] then Inl ''No data found to transfer''
      else if \<exists>p\<in>set (sectors_snap_initial_pieces db).
                of_sector sp num p \<and> 0 \<le> ip_piece_index p \<and> ip_piece_index p < int (length ps)
      then Inl ''duplicate key''
      else Inr ((close_sector sp num db)\<lparr>sectors_snap_initial_pieces :=
                  sectors_snap_initial_pieces db @ renumber (map no_f05 ps)\<rparr>))"

section \<open>Sector numbers\<close>

definition MaxSectorNumber :: int where
  "MaxSectorNumber = 2 ^ 63 - 1"

text \<open>
  The first \<open>k\<close> numbers from \<open>n\<close> on that are not used: the code subtracts the used numbers from
  a bit field of all assignable numbers and takes the first \<open>k\<close> bits that are left.
\<close>

function assignable :: "int list \<Rightarrow> int \<Rightarrow> nat \<Rightarrow> int list" where
  "assignable used n k =
     (if k = 0 \<or> n \<ge> MaxSectorNumber then []
      else if n \<in> set used then assignable used (n + 1) k
      else n # assignable used (n + 1) (k - 1))"
  by auto
termination by (relation "measure (\<lambda>(used, n, k). nat (MaxSectorNumber - n))") auto

declare assignable.simps [simp del]

definition AllocateSectorNumbers :: "ingest_api \<Rightarrow> string \<Rightarrow> nat \<Rightarrow> ingest_db \<Rightarrow> string + int list \<times> ingest_db" where
  "AllocateSectorNumbers api maddr cnt db =
     rbind (ig_MinerAllocated api maddr) (\<lambda>chainAlloc.
     rbind (ig_IDFromAddress api maddr) (\<lambda>mid.
       let dbAllocated = (case sectors_allocated_numbers db mid of None \<Rightarrow> [] | Some a \<Rightarrow> a);
           merged = chainAlloc @ dbAllocated;
           res = assignable merged 0 cnt
       in if length res < cnt then Inl ''getting slice of allocated sector numbers''
          else Inr (res, db\<lparr>sectors_allocated_numbers := (sectors_allocated_numbers db)(mid \<mapsto> merged @ res)\<rparr>)))"

section \<open>The ingester\<close>

record mdetails =
  md_sealProof :: int
  md_updateProof :: int
  md_sectorSize :: uint64

record PieceIngester =
  pi_addToID :: "(string \<times> int) list"
  pi_minerDetails :: "int \<rightharpoonup> mdetails"
  pi_maxWaitTime :: duration
  pi_expectedDuration :: int

text \<open>
  The constructor asks for each miner (\<open>info\<close>: the preferred seal proof, the update proof and the
  sector size) and builds the two maps. The loop that calls \<open>Seal\<close> starts after it.
\<close>

fun add_miners :: "(string \<Rightarrow> string + mdetails) \<Rightarrow> (string \<Rightarrow> string + int) \<Rightarrow> string list \<Rightarrow> PieceIngester \<Rightarrow>
    string + PieceIngester" where
  "add_miners info idOf [] p = Inr p"
| "add_miners info idOf (m # ms) p =
     rbind (info m) (\<lambda>d. rbind (idOf m) (\<lambda>mid.
       add_miners info idOf ms (p\<lparr>pi_addToID := AList.update m mid (pi_addToID p),
                                 pi_minerDetails := (pi_minerDetails p)(mid \<mapsto> d)\<rparr>)))"

definition NewPieceIngester ::
  "(string \<Rightarrow> string + mdetails) \<Rightarrow> (string \<Rightarrow> string + int) \<Rightarrow> string list \<Rightarrow> duration \<Rightarrow> int \<Rightarrow> string + PieceIngester" where
  "NewPieceIngester info idOf miners wait dur =
     (if miners = [] then Inl ''no miners provided''
      else add_miners info idOf miners
             \<lparr>pi_addToID = [], pi_minerDetails = Map.empty, pi_maxWaitTime = wait, pi_expectedDuration = dur\<rparr>)"

section \<open>Open sectors\<close>

record openSector =
  os_miner :: int
  os_number :: int
  os_currentSize :: uint64
  os_earliestStartEpoch :: int
  os_index :: int
  os_openedAt :: time
  os_latestEndEpoch :: int
  os_pieces :: "(string \<times> uint64) list"

definition deal_start_epoch :: "init_piece \<Rightarrow> int" where
  "deal_start_epoch p = (case ip_direct_start_epoch p of Some e \<Rightarrow> e | None \<Rightarrow>
     (case ip_f05_deal_start_epoch p of Some e \<Rightarrow> e | None \<Rightarrow> 0))"

definition deal_end_epoch :: "init_piece \<Rightarrow> int" where
  "deal_end_epoch p = (case ip_direct_end_epoch p of Some e \<Rightarrow> e | None \<Rightarrow>
     (case ip_f05_deal_end_epoch p of Some e \<Rightarrow> e | None \<Rightarrow> 0))"

definition getStartEpoch :: "int \<Rightarrow> int \<Rightarrow> int" where
  "getStartEpoch new cur = (if cur > 0 \<and> cur < new then cur else new)"

definition getEndEpoch :: "int \<Rightarrow> int \<Rightarrow> int" where
  "getEndEpoch new cur = (if cur > 0 \<and> cur > new then cur else new)"

definition getOpenedAt :: "init_piece \<Rightarrow> time \<Rightarrow> time" where
  "getOpenedAt p cur = (if ip_created_at p < cur then ip_created_at p else cur)"

definition open_with :: "init_piece \<Rightarrow> openSector" where
  "open_with p = \<lparr>os_miner = ip_sp_id p, os_number = ip_sector_number p, os_currentSize = ip_piece_size p,
     os_earliestStartEpoch = getStartEpoch (deal_start_epoch p) 0, os_index = ip_piece_index p,
     os_openedAt = ip_created_at p, os_latestEndEpoch = getEndEpoch (deal_end_epoch p) 0,
     os_pieces = [(ip_piece_cid p, ip_piece_size p)]\<rparr>"

definition add_to :: "init_piece \<Rightarrow> openSector \<Rightarrow> openSector" where
  "add_to p s =
     (let earliest = getStartEpoch (deal_start_epoch p) (os_earliestStartEpoch s) in
      s\<lparr>os_currentSize := os_currentSize s + ip_piece_size p,
        os_earliestStartEpoch := earliest,
        os_latestEndEpoch := getEndEpoch (deal_end_epoch p) earliest,
        os_index := (if os_index s < ip_piece_index p then ip_piece_index p else os_index s),
        os_openedAt := getOpenedAt p (os_openedAt s),
        os_pieces := os_pieces s @ [(ip_piece_cid p, ip_piece_size p)]\<rparr>)"

fun collect_sectors :: "init_piece list \<Rightarrow> openSector list \<Rightarrow> openSector list" where
  "collect_sectors [] ss = ss"
| "collect_sectors (p # ps) ss =
     collect_sectors ps
       (if \<exists>s\<in>set ss. os_number s = ip_sector_number p
        then update_where (\<lambda>s. os_number s = ip_sector_number p) (add_to p) ss
        else ss @ [open_with p])"

definition select_open :: "bool \<Rightarrow> int \<Rightarrow> ingest_db \<Rightarrow> init_piece list" where
  "select_open snap mid db =
     rev (sort_key ip_piece_index (rev (map fst (filter (\<lambda>(p, s). ip_sp_id p = mid \<and> s = snap) (open_sector_pieces db)))))"

definition getOpenSectors :: "bool \<Rightarrow> int \<Rightarrow> ingest_db \<Rightarrow> openSector list" where
  "getOpenSectors snap mid db = collect_sectors (select_open snap mid db) []"

section \<open>Sealing the open sectors\<close>

definition shouldSeal :: "PieceIngester \<Rightarrow> int \<Rightarrow> time \<Rightarrow> mdetails \<Rightarrow> openSector \<Rightarrow> bool" where
  "shouldSeal p head now d s \<longleftrightarrow>
     os_currentSize s = md_sectorSize d \<or>
     now - os_openedAt s > pi_maxWaitTime p \<or>
     os_earliestStartEpoch s < head + pi_expectedDuration p"

definition new_pipeline_row :: "int \<Rightarrow> int \<Rightarrow> int \<Rightarrow> pipeline_row" where
  "new_pipeline_row sp num proof = \<lparr>p_sp_id = sp, p_sector_number = num, p_reg_seal_proof = proof,
     p_user_duration = None, p_ticket_epoch = None, p_ticket_value = None,
     p_task_sdr = None, p_after_sdr = False, p_task_tree_d = None, p_after_tree_d = False, p_tree_d_cid = None,
     p_task_tree_c = None, p_after_tree_c = False, p_task_tree_r = None, p_after_tree_r = False, p_tree_r_cid = None,
     p_task_synth = None, p_after_synth = False, p_precommit_ready_at = None,
     p_task_precommit_msg = None, p_after_precommit_msg = False, p_precommit_msg_cid = None, p_precommit_msg_tsk = None,
     p_after_precommit_msg_success = False, p_seed_epoch = None, p_seed_value = None,
     p_task_porep = None, p_porep_proof = None, p_after_porep = False,
     p_task_finalize = None, p_after_finalize = False, p_task_move_storage = None, p_after_move_storage = False,
     p_commit_ready_at = None, p_start_epoch = None, p_task_commit_msg = None, p_after_commit_msg = False,
     p_commit_msg_cid = None, p_commit_msg_tsk = None, p_after_commit_msg_success = False,
     p_failed = False, p_failed_reason = []\<rparr>"

definition start_sealing :: "int \<Rightarrow> int \<Rightarrow> int \<Rightarrow> ingest_db \<Rightarrow> string + ingest_db" where
  "start_sealing sp num proof db =
     (if \<exists>r\<in>set (ig_pipeline db). p_sp_id r = sp \<and> p_sector_number r = num then Inl ''adding sector to pipeline''
      else transfer_and_delete_sorted_open_piece sp num
             (db\<lparr>ig_pipeline := ig_pipeline db @ [new_pipeline_row sp num proof]\<rparr>))"

definition start_snap :: "int \<Rightarrow> int \<Rightarrow> int \<Rightarrow> ingest_db \<Rightarrow> string + ingest_db" where
  "start_snap sp num proof db =
     (if \<exists>(sp', num', _)\<in>set (sectors_snap_pipeline db). sp' = sp \<and> num' = num then Inl ''adding sector to pipeline''
      else if \<not> (\<exists>m\<in>set (ig_sectors_meta db). cc_sp_id m = sp \<and> cc_sector_num m = num) then Inl ''foreign key''
      else transfer_and_delete_sorted_open_piece_snap sp num
             (db\<lparr>sectors_snap_pipeline := sectors_snap_pipeline db @ [(sp, num, proof)]\<rparr>))"

fun seal_sectors :: "(openSector \<Rightarrow> bool) \<Rightarrow> (int \<Rightarrow> ingest_db \<Rightarrow> string + ingest_db) \<Rightarrow> openSector list \<Rightarrow> ingest_db \<Rightarrow>
    string + ingest_db" where
  "seal_sectors due start [] db = Inr db"
| "seal_sectors due start (s # ss) db =
     (if due s then rbind (start (os_number s) db) (seal_sectors due start ss)
      else seal_sectors due start ss db)"

fun seal_miners :: "bool \<Rightarrow> PieceIngester \<Rightarrow> (openSector list \<Rightarrow> openSector list) \<Rightarrow> int \<Rightarrow> time \<Rightarrow> int list \<Rightarrow> ingest_db \<Rightarrow>
    string + ingest_db" where
  "seal_miners snap p ord head now [] db = Inr db"
| "seal_miners snap p ord head now (mid # mids) db =
     (case pi_minerDetails p mid of
        None \<Rightarrow> if getOpenSectors snap mid db = [] then seal_miners snap p ord head now mids db else Inl ''panic''
      | Some d \<Rightarrow>
          rbind (seal_sectors (shouldSeal p head now d)
                   (\<lambda>num. if snap then start_snap mid num (md_updateProof d) else start_sealing mid num (md_sealProof d))
                   (ord (getOpenSectors snap mid db)) db)
            (seal_miners snap p ord head now mids))"

definition Seal ::
  "bool \<Rightarrow> ingest_api \<Rightarrow> PieceIngester \<Rightarrow> (openSector list \<Rightarrow> openSector list) \<Rightarrow> time \<Rightarrow> ingest_db \<Rightarrow>
   (string + unit) \<times> ingest_db" where
  "Seal snap api p ord now db =
     (case ig_ChainHead api of
        Inl e \<Rightarrow> (Inl ''getting chain head'', db)
      | Inr head \<Rightarrow>
          (case seal_miners snap p ord head now (map snd (pi_addToID p)) db of
             Inl e \<Rightarrow> (Inl ''start sealing sector'', db)
           | Inr db' \<Rightarrow> (Inr (), db')))"

section \<open>Assigning a piece to a sector that will be sealed\<close>

type_synonym verified_term = "(int \<times> int) option"

definition has_piece :: "string \<Rightarrow> uint64 \<Rightarrow> openSector \<Rightarrow> bool" where
  "has_piece cid sz s \<longleftrightarrow> list_ex (\<lambda>(c, n). c = cid \<and> n = sz) (os_pieces s)"

definition term_rejects :: "verified_term \<Rightarrow> int \<Rightarrow> bool" where
  "term_rejects vd life = (case vd of None \<Rightarrow> False | Some (tmin, tmax) \<Rightarrow> life \<le> tmin \<and> life \<ge> tmax)"

fun to_existing ::
  "(openSector \<Rightarrow> bool) \<Rightarrow> uint64 \<Rightarrow> uint64 \<Rightarrow> verified_term \<Rightarrow> (openSector \<Rightarrow> string + ingest_db) \<Rightarrow> openSector list \<Rightarrow>
   string + (int \<times> ingest_db) option" where
  "to_existing dup psize ssize vd ins [] = Inr None"
| "to_existing dup psize ssize vd ins (s # ss) =
     (if dup s then to_existing dup psize ssize vd ins ss
      else if os_currentSize s + psize \<le> ssize \<and> \<not> term_rejects vd (os_latestEndEpoch s - os_earliestStartEpoch s)
      then rbind (ins s) (\<lambda>db'. Inr (Some (os_number s, db')))
      else to_existing dup psize ssize vd ins ss)"

definition piece_size :: "PieceDealInfo \<Rightarrow> string + uint64" where
  "piece_size deal = (case di_Manifest deal of Some am \<Rightarrow> Inr (am_Size am) | None \<Rightarrow>
     (case di_DealProposal deal of Some dp \<Rightarrow> Inr (dp_PieceSize dp) | None \<Rightarrow> Inl ''panic''))"

text \<open>The term of the allocation a verified piece uses, and the JSON stored with the piece.\<close>

definition allocation_term :: "(int \<times> int) option \<Rightarrow> string + verified_term" where
  "allocation_term a = (case a of None \<Rightarrow> Inl ''no allocation found'' | Some t \<Rightarrow> Inr (Some t))"

definition manifest_term :: "ingest_api \<Rightarrow> PieceActivationManifest \<Rightarrow> string + verified_term" where
  "manifest_term api am =
     (case am_VerifiedAllocationKey am of
        None \<Rightarrow> Inr None
      | Some (client, aid) \<Rightarrow>
          rbind (ig_NewIDAddress api client) (\<lambda>addr. rbind (ig_GetAllocation api addr aid) allocation_term))"

definition deal_term :: "ingest_api \<Rightarrow> PieceDealInfo \<Rightarrow> string + verified_term \<times> string" where
  "deal_term api deal =
     (case di_DealProposal deal of
        Some dp \<Rightarrow>
          rbind (if dp_VerifiedDeal dp then rbind (ig_AllocationForPendingDeal api (di_DealID deal)) allocation_term
                 else Inr None) (\<lambda>vd.
          rbind (ig_ProposalJson api dp) (\<lambda>json. Inr (vd, json)))
      | None \<Rightarrow>
          (case di_Manifest deal of
             None \<Rightarrow> Inl ''panic''
           | Some am \<Rightarrow> rbind (manifest_term api am) (\<lambda>vd. rbind (ig_ManifestJson api am) (\<lambda>json. Inr (vd, json)))))"

definition add_deal ::
  "int \<Rightarrow> int \<Rightarrow> int \<Rightarrow> PieceDealInfo \<Rightarrow> string \<Rightarrow> string \<Rightarrow> int \<Rightarrow> string \<Rightarrow> time \<Rightarrow> ingest_db \<Rightarrow> string + ingest_db" where
  "add_deal sp num idx deal url hdr raw prop now db =
     (case di_DealProposal deal of
        Some dp \<Rightarrow> insert_sector_market_piece sp num idx dp url hdr raw deal prop now db
      | None \<Rightarrow>
          (case di_Manifest deal of
             None \<Rightarrow> Inl ''panic''
           | Some am \<Rightarrow> insert_sector_ddo_piece sp num idx am url hdr raw deal prop now db))"

definition AllocatePieceToSector ::
  "ingest_api \<Rightarrow> PieceIngester \<Rightarrow> (openSector list \<Rightarrow> openSector list) \<Rightarrow> string \<Rightarrow> PieceDealInfo \<Rightarrow> int \<Rightarrow> string \<Rightarrow> string \<Rightarrow>
   time \<Rightarrow> ingest_db \<Rightarrow> string + (int \<times> int) \<times> ingest_db" where
  "AllocatePieceToSector api p ord maddr deal rawSize url header now db =
     rbind (piece_size deal) (\<lambda>psize.
     if psize \<noteq> ig_PaddedSize api rawSize then Inl ''raw size does not match padded piece size''
     else rbind (ig_HeaderJson api header) (\<lambda>hdr.
     rbind (deal_term api deal) (\<lambda>(vd, prop).
     case map_of (pi_addToID p) maddr of
       None \<Rightarrow> Inl ''miner not found''
     | Some mid \<Rightarrow>
         (case pi_minerDetails p mid of
            None \<Rightarrow> Inl ''panic''
          | Some d \<Rightarrow>
              rbind (to_existing (has_piece (ig_PieceCID api deal) (ig_Size api deal)) psize (md_sectorSize d) vd
                       (\<lambda>s. add_deal mid (os_number s) (os_index s + 1) deal url hdr rawSize prop now db)
                       (ord (getOpenSectors False mid db))) (\<lambda>found.
              case found of
                Some (num, db') \<Rightarrow> Inr ((num, md_sealProof d), db')
              | None \<Rightarrow>
                  rbind (AllocateSectorNumbers api maddr 1 db) (\<lambda>(nums, db1).
                  case nums of
                    [n] \<Rightarrow> rbind (add_deal mid n 0 deal url hdr rawSize prop now db1) (\<lambda>db2. Inr ((n, md_sealProof d), db2))
                  | _ \<Rightarrow> Inl ''expected one sector number''))))))"

section \<open>Assigning a piece to a sector that will be updated\<close>

definition IdealEndEpochBuffer :: int where
  "IdealEndEpochBuffer = 2 * 2880"

definition MaxEndEpochBufferUnverified :: int where
  "MaxEndEpochBufferUnverified = 180 * 2880"

definition SnapImmutableDeadlineEpochsBuffer :: int where
  "SnapImmutableDeadlineEpochsBuffer = 59"

text \<open>Deals of the market actor become direct deals that notify it.\<close>

definition as_direct :: "ingest_api \<Rightarrow> PieceDealInfo \<Rightarrow> string + PieceDealInfo" where
  "as_direct api deal =
     (case di_DealProposal deal of
        None \<Rightarrow> Inr deal
      | Some dp \<Rightarrow>
          rbind (ig_AllocationIdForPendingDeal api (di_DealID deal)) (\<lambda>alloc.
          rbind (ig_LookupID api (dp_Client dp)) (\<lambda>clid.
          rbind (ig_IDFromAddress api clid) (\<lambda>clientId.
          rbind (ig_DealIDCbor api (di_DealID deal)) (\<lambda>payload.
          Inr (deal\<lparr>di_Manifest := Some \<lparr>am_CID = ig_PieceCID api deal, am_Size = dp_PieceSize dp,
                      am_VerifiedAllocationKey = (if alloc \<noteq> 0 then Some (clientId, alloc) else None),
                      am_Notify = [(ig_MarketAddress api, payload)]\<rparr>,
                    di_DealProposal := None, di_DealID := 0, di_PublishCid := None\<rparr>))))))"

text \<open>
  An open sector with room takes the piece unless the chain does not know it; the loop asks for
  the sector before it looks at the allocation of a verified piece.
\<close>

fun to_existing_snap ::
  "(int \<Rightarrow> string + sector_on_chain option) \<Rightarrow> int \<Rightarrow> (openSector \<Rightarrow> bool) \<Rightarrow> uint64 \<Rightarrow> uint64 option \<Rightarrow> verified_term \<Rightarrow>
   (openSector \<Rightarrow> string + ingest_db) \<Rightarrow> openSector list \<Rightarrow> string + (int \<times> int \<times> ingest_db) option" where
  "to_existing_snap info head dup psize ssize vd ins [] = Inr None"
| "to_existing_snap info head dup psize ssize vd ins (s # ss) =
     (let skip = to_existing_snap info head dup psize ssize vd ins ss in
      if dup s then skip
      else case ssize of
        None \<Rightarrow> Inl ''panic''
      | Some z \<Rightarrow>
          if os_currentSize s + psize \<le> z then
            (case info (os_number s) of
               Inl e \<Rightarrow> skip
             | Inr None \<Rightarrow> Inl ''panic''
             | Inr (Some si) \<Rightarrow>
                 if vd \<noteq> None \<and> (soc_Expiration si - head < 0 \<or> term_rejects vd (soc_Expiration si - head)) then skip
                 else rbind (ins s) (\<lambda>db'. Inr (Some (os_number s, soc_SealProof si, db'))))
          else skip)"

definition immutable_deadlines :: "deadline_info \<Rightarrow> nat list" where
  "immutable_deadlines dl =
     (let nxt = (dl_Index dl + 1) mod dl_PeriodDeadlines dl;
          epochsInDeadline = dl_CurrentEpoch dl - dl_Open dl;
          epochsPerDeadline = dl_ProvingPeriod dl div int (dl_PeriodDeadlines dl)
      in [dl_Index dl, nxt,
          if epochsInDeadline \<ge> epochsPerDeadline - SnapImmutableDeadlineEpochsBuffer
          then (nxt + 1) mod dl_PeriodDeadlines dl else nxt])"

definition snap_candidate :: "int \<Rightarrow> int \<Rightarrow> int \<Rightarrow> nat list \<Rightarrow> ingest_db \<Rightarrow> cc_meta_row \<Rightarrow> bool" where
  "snap_candidate mid endEpoch maxExp avoid db m \<longleftrightarrow>
     cc_sp_id m = mid \<and> cc_is_cc m \<and> cc_is_live m \<and> \<not> cc_is_faulty m \<and>
     (case cc_expiration_epoch m of None \<Rightarrow> False | Some e \<Rightarrow> e > endEpoch \<and> e < maxExp) \<and>
     (case cc_deadline m of None \<Rightarrow> False | Some d \<Rightarrow> d \<notin> set avoid) \<and>
     \<not> (\<exists>(sp, num, _)\<in>set (sectors_snap_pipeline db). sp = cc_sp_id m \<and> num = cc_sector_num m) \<and>
     \<not> (\<exists>(p, _)\<in>set (open_sector_pieces db). of_sector (cc_sp_id m) (cc_sector_num m) p \<and> ip_piece_index p = 0)"

definition snap_candidates :: "int \<Rightarrow> int \<Rightarrow> int \<Rightarrow> nat list \<Rightarrow> ingest_db \<Rightarrow> cc_meta_row list" where
  "snap_candidates mid endEpoch maxExp avoid db =
     sort_key (\<lambda>m. \<bar>the (cc_expiration_epoch m) - (endEpoch + IdealEndEpochBuffer)\<bar>)
       (filter (snap_candidate mid endEpoch maxExp avoid db) (ig_sectors_meta db))"

fun pick_active ::
  "(int \<Rightarrow> string + nat \<times> nat) \<Rightarrow> (nat \<Rightarrow> string + partition list) \<Rightarrow> cc_meta_row list \<Rightarrow> string + cc_meta_row option" where
  "pick_active loc parts [] = Inr None"
| "pick_active loc parts (m # ms) =
     rbind (loc (cc_sector_num m)) (\<lambda>(dl, pt).
     rbind (parts dl) (\<lambda>ps.
     if length ps \<le> pt then Inl ''partition not found in deadline''
     else rbind (part_Active (ps ! pt) (cc_sector_num m)) (\<lambda>active.
          if active then Inr (Some m)
          else rbind (part_Live (ps ! pt) (cc_sector_num m)) (\<lambda>_.
               rbind (part_Faulty (ps ! pt) (cc_sector_num m)) (\<lambda>_.
               rbind (part_Recovering (ps ! pt) (cc_sector_num m)) (\<lambda>_. pick_active loc parts ms))))))"

definition check_expiration :: "int \<Rightarrow> int \<Rightarrow> int \<Rightarrow> sector_on_chain option \<Rightarrow> string + unit" where
  "check_expiration head endEpoch maxExp info =
     (case info of
        None \<Rightarrow> Inl ''panic''
      | Some si \<Rightarrow>
          if soc_Expiration si - head < 0 then Inl ''sector lifetime is negative!?''
          else if endEpoch > soc_Expiration si then Inl ''sector expiration is too soon''
          else if maxExp \<noteq> 0 \<and> soc_Expiration si > maxExp then Inl ''sector expiration is too late''
          else Inr ())"

text \<open>The best sector without data, for a piece that does not fit into an open one.\<close>

definition open_snap_sector ::
  "ingest_api \<Rightarrow> string \<Rightarrow> int \<Rightarrow> int \<Rightarrow> int \<Rightarrow> PieceActivationManifest \<Rightarrow> string \<Rightarrow> string \<Rightarrow> int \<Rightarrow> PieceDealInfo \<Rightarrow>
   string \<Rightarrow> time \<Rightarrow> ingest_db \<Rightarrow> string + (int \<times> int) \<times> ingest_db" where
  "open_snap_sector api maddr mid head maxExp am url hdr rawSize deal prop now db =
     rbind (ig_ProvingDeadline api maddr) (\<lambda>dl.
     rbind (pick_active (ig_SectorPartition api maddr) (ig_MinerPartitions api maddr)
              (snap_candidates mid (di_EndEpoch deal) maxExp (immutable_deadlines dl) db)) (\<lambda>best.
     case best of
       None \<Rightarrow> Inl ''no suitable sectors found''
     | Some m \<Rightarrow>
         rbind (ig_SectorGetInfo api maddr (cc_sector_num m)) (\<lambda>si.
         rbind (check_expiration head (di_EndEpoch deal) maxExp si) (\<lambda>_.
         rbind (insert_snap_ddo_piece mid (cc_sector_num m) 0 am url hdr rawSize deal prop now db) (\<lambda>db'.
         Inr ((cc_sector_num m, cc_reg_seal_proof m), db'))))))"

definition AllocatePieceToSector_snap ::
  "ingest_api \<Rightarrow> PieceIngester \<Rightarrow> (openSector list \<Rightarrow> openSector list) \<Rightarrow> string \<Rightarrow> PieceDealInfo \<Rightarrow> int \<Rightarrow> string \<Rightarrow> string \<Rightarrow>
   time \<Rightarrow> ingest_db \<Rightarrow> string + (int \<times> int) \<times> ingest_db" where
  "AllocatePieceToSector_snap api p ord maddr deal0 rawSize url header now db =
     rbind (piece_size deal0) (\<lambda>psize.
     if psize \<noteq> ig_PaddedSize api rawSize then Inl ''raw size does not match padded piece size''
     else rbind (ig_HeaderJson api header) (\<lambda>hdr.
     rbind (as_direct api deal0) (\<lambda>deal.
     rbind (ig_ChainHead api) (\<lambda>head.
     case di_Manifest deal of
       None \<Rightarrow> Inl ''panic''
     | Some am \<Rightarrow>
         rbind (manifest_term api am) (\<lambda>vd.
         rbind (ig_ManifestJson api am) (\<lambda>prop.
         let maxExp = (case vd of Some (tmin, tmax) \<Rightarrow> head + tmax | None \<Rightarrow> di_EndEpoch deal + MaxEndEpochBufferUnverified);
             mid = (case map_of (pi_addToID p) maddr of None \<Rightarrow> 0 | Some i \<Rightarrow> i);
             ssize = map_option md_sectorSize (pi_minerDetails p mid)
         in rbind (to_existing_snap (ig_SectorGetInfo api maddr) head
                     (has_piece (ig_PieceCID api deal) (ig_Size api deal)) psize ssize vd
                     (\<lambda>s. insert_snap_ddo_piece mid (os_number s) (os_index s + 1) am url hdr rawSize deal prop now db)
                     (ord (getOpenSectors True mid db))) (\<lambda>found.
            case found of
              Some (num, sp, db') \<Rightarrow> Inr ((num, sp), db')
            | None \<Rightarrow> open_snap_sector api maddr mid head maxExp am url hdr rawSize deal prop now db)))))))"

end
