(* ===== verification/IngestSafety.thy ===== *)
theory IngestSafety
  imports DealIngest
begin

text \<open>
  How the ingester reads its table: the open sectors are the pieces grouped by sector number, with
  the sum of the sizes, the earliest start and the earliest creation of the group. Sums of sizes
  are words in the code; they are exact as long as a sector holds less than \<open>2 ^ 63\<close> bytes.
\<close>

section \<open>Open sectors as the grouping of the pieces\<close>

definition sector_of :: "init_piece list \<Rightarrow> openSector" where
  "sector_of ps = foldl (\<lambda>s p. add_to p s) (open_with (hd ps)) (tl ps)"

lemma sector_of_single: "sector_of [p] = open_with p"
  by (simp add: sector_of_def)

lemma sector_of_snoc: "ps \<noteq> [] \<Longrightarrow> sector_of (ps @ [p]) = add_to p (sector_of ps)"
  by (simp add: sector_of_def)

lemma os_number_add_to [simp]: "os_number (add_to p s) = os_number s"
  by (simp add: add_to_def Let_def)

lemma os_number_open_with [simp]: "os_number (open_with p) = ip_sector_number p"
  by (simp add: open_with_def)

lemma collect_sectors_append: "collect_sectors (ps @ qs) ss = collect_sectors qs (collect_sectors ps ss)"
  by (induction ps arbitrary: ss) simp_all

lemma map_os_number_update:
  "map os_number (update_where (\<lambda>s. os_number s = n) (add_to p) ss) = map os_number ss"
  by (rule map_update_where_key) simp

lemma collect_sectors_grouping:
  "distinct (map os_number (collect_sectors ps [])) \<and>
   os_number ` set (collect_sectors ps []) = ip_sector_number ` set ps \<and>
   (\<forall>s\<in>set (collect_sectors ps []). s = sector_of (filter (\<lambda>p. ip_sector_number p = os_number s) ps))"
proof (induction ps rule: rev_induct)
  case (snoc p ps)
  let ?ss = "collect_sectors ps []"
  let ?n = "ip_sector_number p"
  have dist: "distinct (map os_number ?ss)" and nums: "os_number ` set ?ss = ip_sector_number ` set ps"
    and each: "\<And>s. s \<in> set ?ss \<Longrightarrow> s = sector_of (filter (\<lambda>q. ip_sector_number q = os_number s) ps)"
    using snoc by blast+
  show ?case
  proof (cases "\<exists>s\<in>set ?ss. os_number s = ?n")
    case True
    then have res: "collect_sectors (ps @ [p]) [] = update_where (\<lambda>s. os_number s = ?n) (add_to p) ?ss"
      by (simp add: collect_sectors_append)
    have n_in: "?n \<in> ip_sector_number ` set ps" unfolding nums [symmetric] using True by (metis imageI)
    have "s = sector_of (filter (\<lambda>q. ip_sector_number q = os_number s) (ps @ [p]))"
      if s: "s \<in> set (update_where (\<lambda>s. os_number s = ?n) (add_to p) ?ss)" for s
    proof -
      obtain s0 where s0: "s0 \<in> set ?ss" "s = (if os_number s0 = ?n then add_to p s0 else s0)"
        using s unfolding update_where_def set_map by blast
      show ?thesis
      proof (cases "os_number s0 = ?n")
        case True
        have "filter (\<lambda>q. ip_sector_number q = ?n) ps \<noteq> []" using n_in by (auto simp: filter_empty_conv)
        then have "sector_of (filter (\<lambda>q. ip_sector_number q = ?n) (ps @ [p]))
          = add_to p (sector_of (filter (\<lambda>q. ip_sector_number q = ?n) ps))"
          by (simp add: sector_of_snoc)
        also have "sector_of (filter (\<lambda>q. ip_sector_number q = ?n) ps) = s0" using each [OF s0(1)] True by simp
        finally show ?thesis using s0(2) True by simp
      next
        case False
        then show ?thesis using each [OF s0(1)] s0(2) by simp
      qed
    qed
    moreover have "os_number ` set (update_where (\<lambda>s. os_number s = ?n) (add_to p) ?ss) = os_number ` set ?ss"
      by (metis map_os_number_update list.set_map)
    ultimately show ?thesis
      unfolding res map_os_number_update using dist nums n_in by (auto simp: insert_absorb)
  next
    case False
    then have res: "collect_sectors (ps @ [p]) [] = ?ss @ [open_with p]"
      by (auto simp: collect_sectors_append)
    have n_out: "?n \<notin> ip_sector_number ` set ps" using False nums by force
    then have "filter (\<lambda>q. ip_sector_number q = ?n) ps = []" unfolding filter_empty_conv by (metis imageI)
    then have new: "open_with p = sector_of (filter (\<lambda>q. ip_sector_number q = ?n) (ps @ [p]))"
      by (simp add: sector_of_single)
    have old: "s = sector_of (filter (\<lambda>q. ip_sector_number q = os_number s) (ps @ [p]))" if "s \<in> set ?ss" for s
    proof -
      have "os_number s \<noteq> ?n" using that False by blast
      then show ?thesis using each [OF that] by simp
    qed
    have "os_number (open_with p) = ?n" by simp
    then have "\<forall>s\<in>set (?ss @ [open_with p]). s = sector_of (filter (\<lambda>q. ip_sector_number q = os_number s) (ps @ [p]))"
      unfolding set_append list.set using old new by (metis Un_iff empty_iff insert_iff)
    moreover have "distinct (map os_number (?ss @ [open_with p]))" using dist False by auto
    moreover have "os_number ` set (?ss @ [open_with p]) = ip_sector_number ` set (ps @ [p])" using nums by simp
    ultimately show ?thesis unfolding res by blast
  qed
qed simp

lemmas collect_sectors_distinct = collect_sectors_grouping [THEN conjunct1]
lemmas collect_sectors_numbers = collect_sectors_grouping [THEN conjunct2, THEN conjunct1]
lemmas collect_sectors_each = collect_sectors_grouping [THEN conjunct2, THEN conjunct2, rule_format]

lemma sector_of_sums:
  assumes "ps \<noteq> []"
  shows "os_currentSize (sector_of ps) = sum_list (map ip_piece_size ps)"
    and "os_pieces (sector_of ps) = map (\<lambda>p. (ip_piece_cid p, ip_piece_size p)) ps"
    and "\<forall>p\<in>set ps. ip_piece_index p \<le> os_index (sector_of ps)"
  using assms
  by (induction ps rule: rev_nonempty_induct)
    (auto simp: sector_of_snoc sector_of_single open_with_def add_to_def Let_def dest: bspec)

lemma getStartEpoch_less:
  "0 < new \<Longrightarrow> 0 < cur \<Longrightarrow> getStartEpoch new cur < e \<longleftrightarrow> new < e \<or> cur < e"
  "0 < new \<Longrightarrow> 0 < getStartEpoch new cur"
  by (auto simp: getStartEpoch_def)

lemma sector_of_openedAt:
  "ps \<noteq> [] \<Longrightarrow> w < now - os_openedAt (sector_of ps) \<longleftrightarrow> (\<exists>p\<in>set ps. w < now - ip_created_at p)"
  by (induction ps rule: rev_nonempty_induct)
    (auto simp: sector_of_snoc sector_of_single open_with_def add_to_def Let_def getOpenedAt_def)

lemma sector_of_earliest:
  assumes "ps \<noteq> []" "\<forall>p\<in>set ps. 0 < deal_start_epoch p"
  shows "0 < os_earliestStartEpoch (sector_of ps) \<and>
    (os_earliestStartEpoch (sector_of ps) < e \<longleftrightarrow> (\<exists>p\<in>set ps. deal_start_epoch p < e))"
  using assms
  by (induction ps rule: rev_nonempty_induct)
    (auto simp: sector_of_snoc sector_of_single open_with_def add_to_def Let_def getStartEpoch_less
      getStartEpoch_def [of _ 0])

section \<open>Reading the table\<close>

definition pieces_at :: "int \<Rightarrow> int \<Rightarrow> ingest_db \<Rightarrow> init_piece list" where
  "pieces_at sp num db = filter (of_sector sp num) (map fst (open_sector_pieces db))"

definition content :: "init_piece \<Rightarrow> string \<times> uint64" where
  "content q = (ip_piece_cid q, ip_piece_size q)"

text \<open>All pieces of the sector are of one kind.\<close>

definition of_kind :: "bool \<Rightarrow> int \<Rightarrow> int \<Rightarrow> ingest_db \<Rightarrow> bool" where
  "of_kind snap sp num db \<longleftrightarrow> (\<forall>(q, k)\<in>set (open_sector_pieces db). of_sector sp num q \<longrightarrow> k = snap)"

lemma mset_select_open:
  "mset (select_open snap mid db)
   = mset (map fst (filter (\<lambda>(p, s). ip_sp_id p = mid \<and> s = snap) (open_sector_pieces db)))"
  unfolding select_open_def by simp

lemma set_select_open:
  "set (select_open snap mid db) = {q. (q, snap) \<in> set (open_sector_pieces db) \<and> ip_sp_id q = mid}"
  using arg_cong [OF mset_select_open, of set_mset snap mid db] by force

lemma mset_select_sector:
  assumes "of_kind snap mid n db"
  shows "mset (filter (\<lambda>q. ip_sector_number q = n) (select_open snap mid db)) = mset (pieces_at mid n db)"
proof -
  have "filter (\<lambda>q. ip_sector_number q = n) (map fst (filter (\<lambda>(p, s). ip_sp_id p = mid \<and> s = snap) xs))
     = filter (of_sector mid n) (map fst xs)"
    if "\<forall>(q, k)\<in>set xs. of_sector mid n q \<longrightarrow> k = snap" for xs
    using that by (induction xs) (auto simp: of_sector_def)
  then have "filter (\<lambda>q. ip_sector_number q = n)
      (map fst (filter (\<lambda>(p, s). ip_sp_id p = mid \<and> s = snap) (open_sector_pieces db))) = pieces_at mid n db"
    using assms by (simp add: of_kind_def pieces_at_def)
  then show ?thesis by (metis mset_filter mset_select_open)
qed

lemma getOpenSectors_number:
  "os_number ` set (getOpenSectors snap mid db)
   = {n. \<exists>q. (q, snap) \<in> set (open_sector_pieces db) \<and> of_sector mid n q}"
  unfolding getOpenSectors_def collect_sectors_numbers set_select_open by (auto simp: of_sector_def)

lemma distinct_getOpenSectors: "distinct (map os_number (getOpenSectors snap mid db))"
  unfolding getOpenSectors_def by (rule collect_sectors_distinct)

lemma open_sector_pieces_of:
  assumes s: "s \<in> set (getOpenSectors snap mid db)" and kind: "of_kind snap mid (os_number s) db"
  obtains ps where "ps \<noteq> []" "mset ps = mset (pieces_at mid (os_number s) db)" "s = sector_of ps"
proof
  let ?ps = "filter (\<lambda>q. ip_sector_number q = os_number s) (select_open snap mid db)"
  show "mset ?ps = mset (pieces_at mid (os_number s) db)" by (rule mset_select_sector [OF kind])
  show "s = sector_of ?ps"
    using s unfolding getOpenSectors_def by (rule collect_sectors_each)
  have "os_number s \<in> os_number ` set (getOpenSectors snap mid db)" using s by (rule imageI)
  then obtain q where "(q, snap) \<in> set (open_sector_pieces db)" "of_sector mid (os_number s) q"
    unfolding getOpenSectors_number by blast
  then show "?ps \<noteq> []" by (auto simp: filter_empty_conv set_select_open of_sector_def)
qed

section \<open>Sizes\<close>

definition total_size :: "init_piece list \<Rightarrow> nat" where
  "total_size ps = (\<Sum>q\<leftarrow>ps. unat (ip_piece_size q))"

lemma total_size_simps [simp]:
  "total_size [] = 0" "total_size (q # ps) = unat (ip_piece_size q) + total_size ps"
  "total_size (ps @ qs) = total_size ps + total_size qs"
  by (simp_all add: total_size_def)

lemma total_size_mset: "mset ps = mset qs \<Longrightarrow> total_size ps = total_size qs"
  unfolding total_size_def by (metis mset_map sum_mset_sum_list)

lemma unat_sum_sizes:
  "total_size ps < 2 ^ 64 \<Longrightarrow> unat (sum_list (map ip_piece_size ps)) = total_size ps"
proof (induction ps)
  case (Cons q ps)
  then have "unat (ip_piece_size q) + unat (sum_list (map ip_piece_size ps)) < 2 ^ LENGTH(64)" by simp
  then show ?case using Cons by (simp add: unat_plus_if')
qed (simp add: total_size_def)

lemma fits_iff:
  assumes "total_size ps < 2 ^ 63" "unat psize < 2 ^ 63"
  shows "sum_list (map ip_piece_size ps) + psize \<le> (z :: uint64) \<longleftrightarrow> total_size ps + unat psize \<le> unat z"
proof -
  have "unat (sum_list (map ip_piece_size ps)) = total_size ps" using assms by (simp add: unat_sum_sizes)
  moreover from this have "unat (sum_list (map ip_piece_size ps) + psize) = total_size ps + unat psize"
    using assms by (simp add: unat_plus_if')
  ultimately show ?thesis by (simp add: word_le_nat_alt)
qed

end
