(* ===== verification/IngestSystem.thy ===== *)
theory IngestSystem
  imports IngestSafety
begin

text \<open>
  The ingester at work: pieces are assigned and sectors sealed in any order, for both kinds of
  deals, while the rest of the program adds sectors without data, moves sectors on and the chain
  grows. The invariant says where the pieces of an open sector stand; from it follows that
  \<open>Seal\<close> never fails for a reason of its own and that open sectors never overflow.
\<close>

record ingest_sys =
  ig_db :: ingest_db
  ig_chain :: "int \<Rightarrow> int set"

definition in_pipeline :: "ingest_db \<Rightarrow> int \<Rightarrow> int \<Rightarrow> bool" where
  "in_pipeline db sp n \<longleftrightarrow> (\<exists>r\<in>set (ig_pipeline db). p_sp_id r = sp \<and> p_sector_number r = n)"

definition in_meta :: "ingest_db \<Rightarrow> int \<Rightarrow> int \<Rightarrow> bool" where
  "in_meta db sp n \<longleftrightarrow> (\<exists>m\<in>set (ig_sectors_meta db). cc_sp_id m = sp \<and> cc_sector_num m = n)"

definition in_snap :: "ingest_db \<Rightarrow> int \<Rightarrow> int \<Rightarrow> bool" where
  "in_snap db sp n \<longleftrightarrow> (\<exists>(sp', n', _)\<in>set (sectors_snap_pipeline db). sp' = sp \<and> n' = n)"

definition allocated :: "ingest_db \<Rightarrow> int \<Rightarrow> int set" where
  "allocated db sp = (case sectors_allocated_numbers db sp of None \<Rightarrow> {} | Some a \<Rightarrow> set a)"

definition known :: "ingest_sys \<Rightarrow> int \<Rightarrow> int set" where
  "known s sp = allocated (ig_db s) sp \<union> ig_chain s sp"

section \<open>The invariant\<close>

definition place_ok :: "ingest_db \<Rightarrow> open_piece \<Rightarrow> bool" where
  "place_ok db x =
     (let sp = ip_sp_id (fst x); n = ip_sector_number (fst x) in
      if snd x then in_meta db sp n \<and> \<not> in_snap db sp n \<and> ip_f05_deal_id (fst x) = None
      else n \<in> allocated db sp \<and> \<not> in_pipeline db sp n \<and> \<not> in_meta db sp n)"

definition sector_ok :: "PieceIngester \<Rightarrow> ingest_db \<Rightarrow> int \<Rightarrow> int \<Rightarrow> bool" where
  "sector_ok p db sp n \<longleftrightarrow>
     (\<exists>d. pi_minerDetails p sp = Some d \<and> total_size (pieces_at sp n db) \<le> unat (md_sectorSize d)) \<and>
     distinct (map content (pieces_at sp n db))"

definition piece_ok :: "PieceIngester \<Rightarrow> ingest_db \<Rightarrow> open_piece \<Rightarrow> bool" where
  "piece_ok p db x \<longleftrightarrow>
     place_ok db x \<and> sector_ok p db (ip_sp_id (fst x)) (ip_sector_number (fst x)) \<and> 0 < deal_start_epoch (fst x)"

definition tables_ok :: "ingest_sys \<Rightarrow> bool" where
  "tables_ok s \<longleftrightarrow>
     (\<forall>sp n. in_pipeline (ig_db s) sp n \<or> in_meta (ig_db s) sp n \<longrightarrow> n \<in> known s sp) \<and>
     (\<forall>q\<in>set (ig_initial_pieces (ig_db s)). in_pipeline (ig_db s) (ip_sp_id q) (ip_sector_number q)) \<and>
     (\<forall>q\<in>set (sectors_snap_initial_pieces (ig_db s)). in_snap (ig_db s) (ip_sp_id q) (ip_sector_number q))"

text \<open>A sector with open pieces has one with index 0.\<close>

definition first_index :: "ingest_db \<Rightarrow> bool" where
  "first_index db \<longleftrightarrow> (\<forall>(q, k)\<in>set (open_sector_pieces db).
     \<exists>(q', k')\<in>set (open_sector_pieces db). of_sector (ip_sp_id q) (ip_sector_number q) q' \<and> ip_piece_index q' = 0)"

lemma first_index_add:
  assumes "first_index db" "insert_open_piece (q, k) db = Inr db'"
    and "ip_piece_index q = 0 \<or> (\<exists>q0. (q0, k) \<in> set (open_sector_pieces db) \<and> of_sector (ip_sp_id q) (ip_sector_number q) q0)"
  shows "first_index db'"
proof -
  have db': "open_sector_pieces db' = open_sector_pieces db @ [(q, k)]"
    using assms(2) by (auto simp: insert_open_piece_def split: if_splits)
  have "\<exists>(q', k')\<in>set (open_sector_pieces db'). of_sector (ip_sp_id q1) (ip_sector_number q1) q' \<and> ip_piece_index q' = 0"
    if "(q1, k1) \<in> set (open_sector_pieces db)" for q1 k1
    using assms(1) that unfolding first_index_def db' by fastforce
  moreover have "\<exists>(q', k')\<in>set (open_sector_pieces db'). of_sector (ip_sp_id q) (ip_sector_number q) q' \<and> ip_piece_index q' = 0"
  proof (cases "ip_piece_index q = 0")
    case True then show ?thesis unfolding db' by (auto simp: of_sector_def)
  next
    case False
    then obtain q0 where "(q0, k) \<in> set (open_sector_pieces db)" "of_sector (ip_sp_id q) (ip_sector_number q) q0"
      using assms(3) by blast
    then show ?thesis using calculation [of q0 k] by (simp add: of_sector_def)
  qed
  ultimately show ?thesis unfolding first_index_def db' by auto
qed

definition ingest_inv :: "PieceIngester \<Rightarrow> ingest_sys \<Rightarrow> bool" where
  "ingest_inv p s \<longleftrightarrow>
     distinct (map open_key (open_sector_pieces (ig_db s))) \<and>
     (\<forall>x\<in>set (open_sector_pieces (ig_db s)). piece_ok p (ig_db s) x) \<and> tables_ok s \<and> first_index (ig_db s)"

lemma ingest_invD:
  assumes "ingest_inv p s"
  shows "distinct (map open_key (open_sector_pieces (ig_db s)))" "tables_ok s"
    "first_index (ig_db s)"
    and "x \<in> set (open_sector_pieces (ig_db s)) \<Longrightarrow> piece_ok p (ig_db s) x"
  using assms by (simp_all add: ingest_inv_def)

text \<open>A sector has pieces of one kind only: sectors to be updated are on the chain, the others are not.\<close>

lemma place_kind:
  "place_ok db x \<Longrightarrow> snd x \<longleftrightarrow> in_meta db (ip_sp_id (fst x)) (ip_sector_number (fst x))"
  by (cases "snd x") (simp_all add: place_ok_def Let_def)

lemma inv_of_kind:
  assumes inv: "ingest_inv p s" and q: "(q, k) \<in> set (open_sector_pieces (ig_db s))" "of_sector sp n q"
  shows "of_kind k sp n (ig_db s)"
proof -
  have meta: "snd x \<longleftrightarrow> in_meta (ig_db s) sp n"
    if "x \<in> set (open_sector_pieces (ig_db s))" "of_sector sp n (fst x)" for x
    using place_kind [of "ig_db s" x] ingest_invD(4) [OF inv that(1)] that(2) by (simp add: piece_ok_def of_sector_def)
  have "k \<longleftrightarrow> in_meta (ig_db s) sp n" using meta [OF q(1)] q(2) by simp
  then show ?thesis unfolding of_kind_def using meta by fastforce
qed

lemma inv_sector:
  assumes inv: "ingest_inv p s" and q: "(q, k) \<in> set (open_sector_pieces (ig_db s))" "of_sector sp n q"
  shows "sector_ok p (ig_db s) sp n" "place_ok (ig_db s) (q, k)"
  using ingest_invD(4) [OF inv q(1)] q(2) by (simp_all add: piece_ok_def of_sector_def)

section \<open>Adding a piece\<close>

lemma pieces_at_add:
  "pieces_at sp n (db\<lparr>open_sector_pieces := open_sector_pieces db @ [x]\<rparr>) =
   pieces_at sp n db @ (if of_sector sp n (fst x) then [fst x] else [])"
  by (simp add: pieces_at_def)

lemma in_tables_add [simp]:
  "in_pipeline (db\<lparr>open_sector_pieces := xs\<rparr>) = in_pipeline db"
  "in_meta (db\<lparr>open_sector_pieces := xs\<rparr>) = in_meta db"
  "in_snap (db\<lparr>open_sector_pieces := xs\<rparr>) = in_snap db"
  "allocated (db\<lparr>open_sector_pieces := xs\<rparr>) = allocated db"
  "in_pipeline (db\<lparr>sectors_allocated_numbers := al\<rparr>) = in_pipeline db"
  "in_meta (db\<lparr>sectors_allocated_numbers := al\<rparr>) = in_meta db"
  "in_snap (db\<lparr>sectors_allocated_numbers := al\<rparr>) = in_snap db"
  "pieces_at sp n (db\<lparr>sectors_allocated_numbers := al\<rparr>) = pieces_at sp n db"
  by (simp_all add: in_pipeline_def in_meta_def in_snap_def allocated_def pieces_at_def fun_eq_iff)

lemma inv_add_piece:
  assumes inv: "ingest_inv p s" and ins: "insert_open_piece (q, k) (ig_db s) = Inr db'"
    and d: "pi_minerDetails p (ip_sp_id q) = Some d"
    and room: "total_size (pieces_at (ip_sp_id q) (ip_sector_number q) (ig_db s)) + unat (ip_piece_size q) \<le> unat (md_sectorSize d)"
    and new: "content q \<notin> content ` set (pieces_at (ip_sp_id q) (ip_sector_number q) (ig_db s))"
    and start: "0 < deal_start_epoch q" and place: "place_ok (ig_db s) (q, k)"
    and first: "ip_piece_index q = 0 \<or>
      (\<exists>q0. (q0, k) \<in> set (open_sector_pieces (ig_db s)) \<and> of_sector (ip_sp_id q) (ip_sector_number q) q0)"
  shows "ingest_inv p (s\<lparr>ig_db := db'\<rparr>)"
proof -
  let ?db = "ig_db s"
  have fresh: "open_key (q, k) \<notin> open_key ` set (open_sector_pieces ?db)"
    and db': "db' = ?db\<lparr>open_sector_pieces := open_sector_pieces ?db @ [(q, k)]\<rparr>"
    using ins by (auto simp: insert_open_piece_def split: if_splits)
  have place': "place_ok db' x = place_ok ?db x" for x
    unfolding db' by (simp add: place_ok_def Let_def)
  have self: "sector_ok p db' (ip_sp_id q) (ip_sector_number q)"
  proof -
    have old: "distinct (map content (pieces_at (ip_sp_id q) (ip_sector_number q) ?db))"
    proof (cases "pieces_at (ip_sp_id q) (ip_sector_number q) ?db")
      case (Cons q' qs)
      then have "q' \<in> set (pieces_at (ip_sp_id q) (ip_sector_number q) ?db)" by simp
      then obtain k' where "(q', k') \<in> set (open_sector_pieces ?db)" "of_sector (ip_sp_id q) (ip_sector_number q) q'"
        by (auto simp: pieces_at_def)
      then show ?thesis using inv_sector(1) [OF inv] by (simp add: sector_ok_def)
    qed simp
    have "pieces_at (ip_sp_id q) (ip_sector_number q) db' = pieces_at (ip_sp_id q) (ip_sector_number q) ?db @ [q]"
      unfolding db' pieces_at_add by (simp add: of_sector_def)
    then show ?thesis unfolding sector_ok_def using old new room d by simp
  qed
  have "piece_ok p db' x" if x: "x \<in> set (open_sector_pieces ?db)" for x
  proof (cases "of_sector (ip_sp_id (fst x)) (ip_sector_number (fst x)) q")
    case True
    then have "ip_sp_id (fst x) = ip_sp_id q" "ip_sector_number (fst x) = ip_sector_number q" by (simp_all add: of_sector_def)
    then show ?thesis using self ingest_invD(4) [OF inv x] by (simp add: piece_ok_def place')
  next
    case False
    then have "pieces_at (ip_sp_id (fst x)) (ip_sector_number (fst x)) db'
      = pieces_at (ip_sp_id (fst x)) (ip_sector_number (fst x)) ?db" unfolding db' pieces_at_add by simp
    then show ?thesis using ingest_invD(4) [OF inv x] by (simp add: piece_ok_def place' sector_ok_def)
  qed
  moreover have "piece_ok p db' (q, k)" using self place start by (simp add: piece_ok_def place')
  moreover have "tables_ok (s\<lparr>ig_db := db'\<rparr>)"
    using ingest_invD(2) [OF inv] unfolding db' by (simp add: tables_ok_def known_def)
  moreover have "first_index db'" by (rule first_index_add [OF ingest_invD(3) [OF inv] ins first])
  ultimately show ?thesis
    using ingest_invD(1) [OF inv] fresh unfolding ingest_inv_def db' by simp
qed

section \<open>Sector numbers\<close>

lemma assignable_eq: "assignable used n k = take k (filter (\<lambda>m. m \<notin> set used) [n..MaxSectorNumber - 1])"
proof (induction used n k rule: assignable.induct)
  case (1 used n k)
  show ?case
  proof (cases "k = 0 \<or> n \<ge> MaxSectorNumber")
    case True then show ?thesis by (auto simp: assignable.simps)
  next
    case False
    then have up: "[n..MaxSectorNumber - 1] = n # [n + 1..MaxSectorNumber - 1]" by (simp add: upto.simps)
    show ?thesis
    proof (cases "n \<in> set used")
      case True
      then show ?thesis using 1(1) False by (simp add: assignable.simps [of used n k] up)
    next
      case out: False
      then have "assignable used n k = n # assignable used (n + 1) (k - 1)"
        using False by (simp add: assignable.simps [of used n k])
      also have "\<dots> = n # take (k - 1) (filter (\<lambda>m. m \<notin> set used) [n + 1..MaxSectorNumber - 1])"
        using 1(2) False out by simp
      also have "\<dots> = take k (n # filter (\<lambda>m. m \<notin> set used) [n + 1..MaxSectorNumber - 1])"
        using False by (cases k) simp_all
      finally show ?thesis using out unfolding up by simp
    qed
  qed
qed

lemma assignable_facts:
  shows "distinct (assignable used n k)" "set (assignable used n k) \<inter> set used = {}"
    and "m \<in> set (assignable used n k) \<Longrightarrow> n \<le> m \<and> m < MaxSectorNumber"
  unfolding assignable_eq by (auto dest!: in_set_takeD)

lemma AllocateSectorNumbers_Inr:
  assumes "AllocateSectorNumbers api maddr cnt db = Inr (nums, db')"
  obtains mid ch where "ig_IDFromAddress api maddr = Inr mid" "ig_MinerAllocated api maddr = Inr ch"
    "nums = assignable (ch @ (case sectors_allocated_numbers db mid of None \<Rightarrow> [] | Some a \<Rightarrow> a)) 0 cnt"
    "length nums = cnt" "set nums \<inter> (set ch \<union> allocated db mid) = {}" "distinct nums"
    "db' = db\<lparr>sectors_allocated_numbers := (sectors_allocated_numbers db)
       (mid \<mapsto> (ch @ (case sectors_allocated_numbers db mid of None \<Rightarrow> [] | Some a \<Rightarrow> a)) @ nums)\<rparr>"
proof -
  obtain mid ch where ids: "ig_IDFromAddress api maddr = Inr mid" "ig_MinerAllocated api maddr = Inr ch"
    using assms by (auto simp: AllocateSectorNumbers_def rbind_Inr_iff)
  let ?old = "case sectors_allocated_numbers db mid of None \<Rightarrow> [] | Some a \<Rightarrow> a"
  have nums: "nums = assignable (ch @ ?old) 0 cnt" and len: "\<not> length (assignable (ch @ ?old) 0 cnt) < cnt"
    and db': "db' = db\<lparr>sectors_allocated_numbers := (sectors_allocated_numbers db)(mid \<mapsto> (ch @ ?old) @ nums)\<rparr>"
    using assms ids by (auto simp: AllocateSectorNumbers_def Let_def split: if_splits)
  have "set ?old = allocated db mid" by (simp add: allocated_def split: option.splits)
  then have free: "set nums \<inter> (set ch \<union> allocated db mid) = {}"
    using assignable_facts(2) [of "ch @ ?old" 0 cnt] nums by simp
  have cnt: "length nums = cnt" using len unfolding nums assignable_eq by simp
  have dist: "distinct nums" unfolding nums by (rule assignable_facts)
  show ?thesis by (rule that [OF ids nums cnt free dist db'])
qed

text \<open>What the chain knows is what the node answers; the identities of the miners agree.\<close>

definition api_ok :: "PieceIngester \<Rightarrow> ingest_sys \<Rightarrow> ingest_api \<Rightarrow> bool" where
  "api_ok p s api \<longleftrightarrow>
     (\<forall>maddr mid. map_of (pi_addToID p) maddr = Some mid \<longrightarrow> ig_IDFromAddress api maddr = Inr mid) \<and>
     (\<forall>maddr mid ns. ig_IDFromAddress api maddr = Inr mid \<longrightarrow> ig_MinerAllocated api maddr = Inr ns \<longrightarrow>
        set ns = ig_chain s mid) \<and>
     (\<forall>deal. case di_DealProposal deal of
        Some dp \<Rightarrow> ig_PieceCID api deal = dp_PieceCID dp \<and> ig_Size api deal = dp_PieceSize dp
      | None \<Rightarrow> (case di_Manifest deal of None \<Rightarrow> True
                 | Some am \<Rightarrow> ig_PieceCID api deal = am_CID am \<and> ig_Size api deal = am_Size am))"

lemma inv_allocate_numbers:
  assumes inv: "ingest_inv p s" and api: "api_ok p s api"
    and al: "AllocateSectorNumbers api maddr cnt (ig_db s) = Inr (nums, db')"
    and mid: "ig_IDFromAddress api maddr = Inr mid"
  shows "ingest_inv p (s\<lparr>ig_db := db'\<rparr>)"
    and "n \<in> set nums \<Longrightarrow> n \<in> allocated db' mid \<and> \<not> in_pipeline db' mid n \<and> \<not> in_meta db' mid n \<and> pieces_at mid n db' = []"
    and "distinct nums" "length nums = cnt"
proof -
  from al obtain ch where ch: "ig_MinerAllocated api maddr = Inr ch"
    and free: "set nums \<inter> (set ch \<union> allocated (ig_db s) mid) = {}" "distinct nums" "length nums = cnt"
    and db': "db' = (ig_db s)\<lparr>sectors_allocated_numbers := (sectors_allocated_numbers (ig_db s))
       (mid \<mapsto> (ch @ (case sectors_allocated_numbers (ig_db s) mid of None \<Rightarrow> [] | Some a \<Rightarrow> a)) @ nums)\<rparr>"
    using mid by (elim AllocateSectorNumbers_Inr) auto
  have chain: "set ch = ig_chain s mid" using api ch mid unfolding api_ok_def by blast
  have alloc: "allocated db' sp = (if sp = mid then allocated (ig_db s) mid \<union> ig_chain s mid \<union> set nums else allocated (ig_db s) sp)" for sp
    unfolding db' by (auto simp: allocated_def chain split: option.splits)
  have "place_ok db' x" if "place_ok (ig_db s) x" for x
    using that alloc unfolding place_ok_def Let_def db' by (auto split: if_splits)
  then have "piece_ok p db' x" if "piece_ok p (ig_db s) x" for x
    using that unfolding piece_ok_def sector_ok_def by (simp add: db')
  moreover have "tables_ok (s\<lparr>ig_db := db'\<rparr>)"
    using ingest_invD(2) [OF inv] alloc unfolding tables_ok_def known_def by (auto simp: db' split: if_splits)
  ultimately show "ingest_inv p (s\<lparr>ig_db := db'\<rparr>)"
    using inv unfolding ingest_inv_def first_index_def by (simp add: db')
  show "n \<in> allocated db' mid \<and> \<not> in_pipeline db' mid n \<and> \<not> in_meta db' mid n \<and> pieces_at mid n db' = []"
    if n: "n \<in> set nums"
  proof -
    have out: "n \<notin> known s mid" using n free(1) chain by (auto simp: known_def)
    have "\<not> in_pipeline (ig_db s) mid n" "\<not> in_meta (ig_db s) mid n"
      using out ingest_invD(2) [OF inv] unfolding tables_ok_def by blast+
    moreover have "pieces_at mid n (ig_db s) = []"
    proof (rule ccontr)
      assume "pieces_at mid n (ig_db s) \<noteq> []"
      then obtain q k where q: "(q, k) \<in> set (open_sector_pieces (ig_db s))" "of_sector mid n q"
        by (auto simp: pieces_at_def filter_empty_conv)
      show False using inv_sector(2) [OF inv q] q(2) out calculation
        by (auto simp: place_ok_def Let_def of_sector_def known_def split: if_splits)
    qed
    ultimately show ?thesis using n alloc by (simp add: db')
  qed
  show "distinct nums" "length nums = cnt" by (fact free)+
qed

section \<open>Assigning a piece\<close>

definition orders :: "(openSector list \<Rightarrow> openSector list) \<Rightarrow> bool" where
  "orders ord \<longleftrightarrow> (\<forall>ss. mset (ord ss) = mset ss)"

lemma orders_set: "orders ord \<Longrightarrow> set (ord ss) = set ss"
  unfolding orders_def by (metis mset_eq_setD)

text \<open>
  A deal of a miner the ingester works for: it is a market deal or a direct one, starts after the
  first epoch, and its piece is not larger than a sector.
\<close>

definition deal_ok :: "PieceIngester \<Rightarrow> string \<Rightarrow> PieceDealInfo \<Rightarrow> bool" where
  "deal_ok p maddr deal \<longleftrightarrow>
     (di_DealProposal deal = None \<or> di_Manifest deal = None) \<and> 0 < di_StartEpoch deal \<and>
     (\<exists>mid d. map_of (pi_addToID p) maddr = Some mid \<and> pi_minerDetails p mid = Some d \<and>
        (\<forall>sz. piece_size deal = Inr sz \<longrightarrow> sz \<le> md_sectorSize d))"

definition ingester_ok :: "PieceIngester \<Rightarrow> bool" where
  "ingester_ok p \<longleftrightarrow> (\<forall>mid d. pi_minerDetails p mid = Some d \<longrightarrow> md_sectorSize d < 2 ^ 63)"

lemma to_existing_Some:
  "to_existing dup psize ssize vd ins ss = Inr (Some (num, db')) \<Longrightarrow>
   \<exists>s\<in>set ss. os_number s = num \<and> \<not> dup s \<and> os_currentSize s + psize \<le> ssize \<and> ins s = Inr db'"
  by (induction ss) (auto simp: rbind_Inr_iff split: if_splits)

lemma to_existing_snap_Some:
  "to_existing_snap info head dup psize ssize vd ins ss = Inr (Some (num, sp, db')) \<Longrightarrow>
   \<exists>s\<in>set ss. os_number s = num \<and> \<not> dup s \<and> (\<exists>z. ssize = Some z \<and> os_currentSize s + psize \<le> z) \<and> ins s = Inr db'"
  by (induction ss) (auto simp: rbind_Inr_iff Let_def split: if_splits option.splits sum.splits)

lemma open_sector_room:
  assumes inv: "ingest_inv p s" and wf: "ingester_ok p"
    and o: "os \<in> set (getOpenSectors k mid (ig_db s))" and d: "pi_minerDetails p mid = Some d"
    and fits: "os_currentSize os + psize \<le> md_sectorSize d" and small: "psize \<le> md_sectorSize d"
  obtains q where "(q, k) \<in> set (open_sector_pieces (ig_db s))" "of_sector mid (os_number os) q"
    "total_size (pieces_at mid (os_number os) (ig_db s)) + unat psize \<le> unat (md_sectorSize d)"
    "\<not> has_piece cid sz os \<Longrightarrow> (cid, sz) \<notin> content ` set (pieces_at mid (os_number os) (ig_db s))"
proof -
  have "os_number os \<in> os_number ` set (getOpenSectors k mid (ig_db s))" using o by (rule imageI)
  then obtain q where q: "(q, k) \<in> set (open_sector_pieces (ig_db s))" "of_sector mid (os_number os) q"
    unfolding getOpenSectors_number by blast
  obtain ps where ps: "ps \<noteq> []" "mset ps = mset (pieces_at mid (os_number os) (ig_db s))" "os = sector_of ps"
    using open_sector_pieces_of [OF o inv_of_kind [OF inv q]] by metis
  have tot: "total_size (pieces_at mid (os_number os) (ig_db s)) = total_size ps"
    using ps(2) by (metis total_size_mset)
  have dsz: "md_sectorSize d < 2 ^ 63" using wf d unfolding ingester_ok_def by blast
  have "total_size ps \<le> unat (md_sectorSize d)"
    using inv_sector(1) [OF inv q] d tot by (auto simp: sector_ok_def)
  moreover have lim: "unat (md_sectorSize d) < 2 ^ 63" using dsz unfolding word_less_nat_alt by simp
  moreover have "unat psize \<le> unat (md_sectorSize d)" using small by (simp add: word_le_nat_alt)
  ultimately have "total_size ps < 2 ^ 63" "unat psize < 2 ^ 63" by linarith+
  then have "total_size ps + unat psize \<le> unat (md_sectorSize d)"
    using fits_iff sector_of_sums(1) [OF ps(1)] ps(3) fits by metis
  moreover have "(cid, sz) \<notin> content ` set (pieces_at mid (os_number os) (ig_db s))" if "\<not> has_piece cid sz os"
  proof -
    have "set (pieces_at mid (os_number os) (ig_db s)) = set ps" using ps(2) by (metis mset_eq_setD)
    then show ?thesis
      using that ps(3) sector_of_sums(2) [OF ps(1)] by (auto simp: has_piece_def list_ex_iff content_def)
  qed
  ultimately show ?thesis using that q tot by metis
qed

lemma place_same_sector:
  "place_ok db (q, k) \<Longrightarrow> of_sector sp n q \<Longrightarrow> of_sector sp n q' \<Longrightarrow> (k \<Longrightarrow> ip_f05_deal_id q' = None) \<Longrightarrow> place_ok db (q', k)"
  by (cases k) (auto simp: place_ok_def Let_def of_sector_def)

text \<open>The piece that a deal becomes.\<close>

definition piece_of_deal :: "ingest_api \<Rightarrow> PieceDealInfo \<Rightarrow> int \<Rightarrow> int \<Rightarrow> int \<Rightarrow> uint64 \<Rightarrow> init_piece \<Rightarrow> bool" where
  "piece_of_deal api deal sp n idx psize q \<longleftrightarrow>
     of_sector sp n q \<and> ip_piece_index q = idx \<and> ip_piece_size q = psize \<and> content q = (ig_PieceCID api deal, ig_Size api deal) \<and>
     deal_start_epoch q = di_StartEpoch deal"

lemma api_ok_content:
  assumes "api_ok p s api"
  shows "di_DealProposal deal = Some dp \<Longrightarrow> ig_PieceCID api deal = dp_PieceCID dp \<and> ig_Size api deal = dp_PieceSize dp"
    and "di_DealProposal deal = None \<Longrightarrow> di_Manifest deal = Some am \<Longrightarrow>
      ig_PieceCID api deal = am_CID am \<and> ig_Size api deal = am_Size am"
proof -
  have "case di_DealProposal deal of
        Some dp \<Rightarrow> ig_PieceCID api deal = dp_PieceCID dp \<and> ig_Size api deal = dp_PieceSize dp
      | None \<Rightarrow> (case di_Manifest deal of None \<Rightarrow> True
                 | Some am \<Rightarrow> ig_PieceCID api deal = am_CID am \<and> ig_Size api deal = am_Size am)"
    using assms unfolding api_ok_def by blast
  then show "di_DealProposal deal = Some dp \<Longrightarrow> ig_PieceCID api deal = dp_PieceCID dp \<and> ig_Size api deal = dp_PieceSize dp"
    and "di_DealProposal deal = None \<Longrightarrow> di_Manifest deal = Some am \<Longrightarrow>
      ig_PieceCID api deal = am_CID am \<and> ig_Size api deal = am_Size am" by simp_all
qed

lemma add_deal_insert:
  assumes "add_deal sp n idx deal url hdr raw prop now db = Inr db'" "piece_size deal = Inr psize"
    "di_DealProposal deal = None \<or> di_Manifest deal = None" "api_ok p s api"
  obtains q where "insert_open_piece (q, False) db = Inr db'" "piece_of_deal api deal sp n idx psize q"
proof (cases "di_DealProposal deal")
  case None
  then obtain am where am: "di_Manifest deal = Some am"
    using assms(1) by (auto simp: add_deal_def split: option.splits)
  show ?thesis
  proof (rule that)
    show "insert_open_piece (ddo_piece sp n idx am url hdr raw deal prop now, False) db = Inr db'"
      using assms(1) None am by (simp add: add_deal_def insert_sector_ddo_piece_def)
    show "piece_of_deal api deal sp n idx psize (ddo_piece sp n idx am url hdr raw deal prop now)"
      using assms(2) None am api_ok_content(2) [OF assms(4) None am]
      by (simp add: piece_of_deal_def ddo_piece_def of_sector_def content_def deal_start_epoch_def piece_size_def)
  qed
next
  case (Some dp)
  then have "di_Manifest deal = None" using assms(3) by simp
  then show ?thesis
    using assms(1,2) Some api_ok_content(1) [OF assms(4) Some]
    by (intro that)
      (auto simp: add_deal_def insert_sector_market_piece_def piece_of_deal_def of_sector_def content_def
        deal_start_epoch_def piece_size_def)
qed

lemma inv_to_existing:
  assumes inv: "ingest_inv p s" and wf: "ingester_ok p" and d: "pi_minerDetails p mid = Some d"
    and o: "os \<in> set (getOpenSectors k mid (ig_db s))"
    and dup: "\<not> has_piece (ig_PieceCID api deal) (ig_Size api deal) os"
    and fits: "os_currentSize os + psize \<le> md_sectorSize d" and small: "psize \<le> md_sectorSize d"
    and q: "insert_open_piece (q, k) (ig_db s) = Inr db'" "piece_of_deal api deal mid (os_number os) idx psize q"
    and f05: "k \<Longrightarrow> ip_f05_deal_id q = None" and start: "0 < di_StartEpoch deal"
  shows "ingest_inv p (s\<lparr>ig_db := db'\<rparr>)"
proof -
  obtain q0 where q0: "(q0, k) \<in> set (open_sector_pieces (ig_db s))" "of_sector mid (os_number os) q0"
    and room: "total_size (pieces_at mid (os_number os) (ig_db s)) + unat psize \<le> unat (md_sectorSize d)"
    and new: "(ig_PieceCID api deal, ig_Size api deal) \<notin> content ` set (pieces_at mid (os_number os) (ig_db s))"
    using open_sector_room [OF inv wf o d fits small] dup by metis
  have key: "ip_sp_id q = mid" "ip_sector_number q = os_number os" using q(2) by (simp_all add: piece_of_deal_def of_sector_def)
  show ?thesis
  proof (rule inv_add_piece [OF inv q(1)])
    show "place_ok (ig_db s) (q, k)"
      using place_same_sector [OF inv_sector(2) [OF inv q0] q0(2)] q(2) f05 by (simp add: piece_of_deal_def)
    show "ip_piece_index q = 0 \<or>
      (\<exists>q0. (q0, k) \<in> set (open_sector_pieces (ig_db s)) \<and> of_sector (ip_sp_id q) (ip_sector_number q) q0)"
      unfolding key using q0 by blast
  qed (use key d room new start q(2) in \<open>simp_all add: piece_of_deal_def\<close>)
qed

lemma inv_AllocatePieceToSector:
  assumes inv: "ingest_inv p s" and wf: "ingester_ok p" and api: "api_ok p s api" and ord: "orders ord"
    and deal: "deal_ok p maddr deal"
    and res: "AllocatePieceToSector api p ord maddr deal rawSize url header now (ig_db s) = Inr (r, db')"
  shows "ingest_inv p (s\<lparr>ig_db := db'\<rparr>)"
proof -
  from deal obtain mid d where md: "map_of (pi_addToID p) maddr = Some mid" "pi_minerDetails p mid = Some d"
    and one: "di_DealProposal deal = None \<or> di_Manifest deal = None" and start: "0 < di_StartEpoch deal"
    and small: "\<And>sz. piece_size deal = Inr sz \<Longrightarrow> sz \<le> md_sectorSize d"
    unfolding deal_ok_def by blast
  have mid_api: "ig_IDFromAddress api maddr = Inr mid" using api md unfolding api_ok_def by blast
  from res md obtain psize hdr vd pj found where ps: "piece_size deal = Inr psize"
    and found: "to_existing (has_piece (ig_PieceCID api deal) (ig_Size api deal)) psize (md_sectorSize d) vd
        (\<lambda>s'. add_deal mid (os_number s') (os_index s' + 1) deal url hdr rawSize pj now (ig_db s))
        (ord (getOpenSectors False mid (ig_db s))) = Inr found"
    and rest: "(case found of
         Some (num, db2) \<Rightarrow> Inr ((num, md_sealProof d), db2)
       | None \<Rightarrow> rbind (AllocateSectorNumbers api maddr 1 (ig_db s)) (\<lambda>(nums, db1).
           case nums of
             [n] \<Rightarrow> rbind (add_deal mid n 0 deal url hdr rawSize pj now db1) (\<lambda>db2. Inr ((n, md_sealProof d), db2))
           | _ \<Rightarrow> Inl ''expected one sector number'')) = (Inr (r, db') :: string + _)"
    unfolding AllocatePieceToSector_def
    by (auto simp: rbind_Inr_iff split: if_splits simp del: One_nat_def)
  show ?thesis
  proof (cases found)
    case (Some nd)
    obtain num db2 where "nd = (num, db2)" by (cases nd)
    then have "to_existing (has_piece (ig_PieceCID api deal) (ig_Size api deal)) psize (md_sectorSize d) vd
        (\<lambda>s'. add_deal mid (os_number s') (os_index s' + 1) deal url hdr rawSize pj now (ig_db s))
        (ord (getOpenSectors False mid (ig_db s))) = Inr (Some (num, db'))"
      using found rest Some by simp
    from to_existing_Some [OF this] obtain os where os: "os \<in> set (getOpenSectors False mid (ig_db s))"
      "\<not> has_piece (ig_PieceCID api deal) (ig_Size api deal) os" "os_currentSize os + psize \<le> md_sectorSize d"
      and add: "add_deal mid (os_number os) (os_index os + 1) deal url hdr rawSize pj now (ig_db s) = Inr db'"
      using orders_set [OF ord] by auto
    obtain q where q: "insert_open_piece (q, False) (ig_db s) = Inr db'" "piece_of_deal api deal mid (os_number os) (os_index os + 1) psize q"
      by (rule add_deal_insert [OF add ps one api])
    show ?thesis by (rule inv_to_existing [OF inv wf md(2) os(1,2,3) small [OF ps] q _ start]) simp
  next
    case None
    then have "rbind (AllocateSectorNumbers api maddr 1 (ig_db s)) (\<lambda>(nums, db1).
        case nums of
          [n] \<Rightarrow> rbind (add_deal mid n 0 deal url hdr rawSize pj now db1) (\<lambda>db2. Inr ((n, md_sealProof d), db2))
        | _ \<Rightarrow> Inl ''expected one sector number'') = (Inr (r, db') :: string + _)"
      using rest by simp
    then obtain ns db1 where ns: "AllocateSectorNumbers api maddr 1 (ig_db s) = Inr (ns, db1)"
      and cs: "(case ns of
          [n] \<Rightarrow> rbind (add_deal mid n 0 deal url hdr rawSize pj now db1) (\<lambda>db2. Inr ((n, md_sealProof d), db2))
        | _ \<Rightarrow> Inl ''expected one sector number'') = (Inr (r, db') :: string + _)"
      unfolding rbind_Inr_iff split_paired_Ex prod.case by blast
    have "length ns = 1" by (rule inv_allocate_numbers(4) [OF inv api ns mid_api])
    then obtain n where n: "ns = [n]" by (auto simp: length_Suc_conv)
    have add: "add_deal mid n 0 deal url hdr rawSize pj now db1 = Inr db'"
      using cs n by (auto simp: rbind_Inr_iff)
    have nums: "AllocateSectorNumbers api maddr 1 (ig_db s) = Inr ([n], db1)" using ns n by simp
    note new = inv_allocate_numbers [OF inv api nums mid_api]
    have new_n: "n \<in> allocated db1 mid \<and> \<not> in_pipeline db1 mid n \<and> \<not> in_meta db1 mid n \<and> pieces_at mid n db1 = []"
      by (rule new(2)) simp
    obtain q where q: "insert_open_piece (q, False) db1 = Inr db'" "piece_of_deal api deal mid n 0 psize q"
      by (rule add_deal_insert [OF add ps one api])
    have key: "ip_sp_id q = mid" "ip_sector_number q = n" using q(2) by (simp_all add: piece_of_deal_def of_sector_def)
    have "ingest_inv p ((s\<lparr>ig_db := db1\<rparr>)\<lparr>ig_db := db'\<rparr>)"
    proof (rule inv_add_piece [OF new(1)])
      show "insert_open_piece (q, False) (ig_db (s\<lparr>ig_db := db1\<rparr>)) = Inr db'" using q(1) by simp
      show "place_ok (ig_db (s\<lparr>ig_db := db1\<rparr>)) (q, False)" using new_n key by (simp add: place_ok_def)
      show "pi_minerDetails p (ip_sp_id q) = Some d" using md key by simp
      show "total_size (pieces_at (ip_sp_id q) (ip_sector_number q) (ig_db (s\<lparr>ig_db := db1\<rparr>))) + unat (ip_piece_size q)
        \<le> unat (md_sectorSize d)"
        using new_n key small [OF ps] q(2) by (simp add: piece_of_deal_def word_le_nat_alt)
    qed (use key new_n start q(2) in \<open>simp_all add: piece_of_deal_def\<close>)
    then show ?thesis by simp
  qed
qed

lemma as_direct_Inr:
  assumes "as_direct api deal0 = Inr deal" "piece_size deal0 = Inr psize"
    "di_DealProposal deal0 = None \<or> di_Manifest deal0 = None" "di_Manifest deal = Some am"
  shows "di_DealProposal deal = None" "am_Size am = psize" "di_StartEpoch deal = di_StartEpoch deal0"
  using assms by (auto simp: as_direct_def piece_size_def rbind_Inr_iff split: option.splits)

lemma ddo_piece_of_deal:
  assumes "api_ok p s api" "di_DealProposal deal = None" "di_Manifest deal = Some am" "am_Size am = psize"
  shows "piece_of_deal api deal sp n idx psize (ddo_piece sp n idx am url hdr raw deal pj now)"
    and "ip_f05_deal_id (ddo_piece sp n idx am url hdr raw deal pj now) = None"
  using assms(3,4) api_ok_content(2) [OF assms(1,2,3)]
  by (simp_all add: piece_of_deal_def ddo_piece_def of_sector_def content_def deal_start_epoch_def)

lemma pick_active_set: "pick_active loc parts ms = Inr (Some m) \<Longrightarrow> m \<in> set ms"
  by (induction ms) (auto simp: rbind_Inr_iff split: if_splits prod.splits)

text \<open>So a candidate for an update has no open pieces.\<close>

lemma candidate_no_pieces:
  assumes "first_index db" "snap_candidate mid e mx avoid db m"
  shows "pieces_at mid (cc_sector_num m) db = []"
proof (rule ccontr)
  assume "pieces_at mid (cc_sector_num m) db \<noteq> []"
  then obtain q k where q: "(q, k) \<in> set (open_sector_pieces db)" "of_sector mid (cc_sector_num m) q"
    by (auto simp: pieces_at_def filter_empty_conv)
  then obtain q' k' where "(q', k') \<in> set (open_sector_pieces db)" "of_sector mid (cc_sector_num m) q'" "ip_piece_index q' = 0"
    using assms(1) unfolding first_index_def by (fastforce simp: of_sector_def)
  then show False using assms(2) unfolding snap_candidate_def by (auto simp: of_sector_def)
qed

lemma inv_AllocatePieceToSector_snap:
  assumes inv: "ingest_inv p s" and wf: "ingester_ok p" and api: "api_ok p s api" and ord: "orders ord"
    and deal0: "deal_ok p maddr deal0"
    and res: "AllocatePieceToSector_snap api p ord maddr deal0 rawSize url header now (ig_db s) = Inr (r, db')"
  shows "ingest_inv p (s\<lparr>ig_db := db'\<rparr>)"
proof -
  from deal0 obtain mid d where md: "map_of (pi_addToID p) maddr = Some mid" "pi_minerDetails p mid = Some d"
    and one: "di_DealProposal deal0 = None \<or> di_Manifest deal0 = None" and start: "0 < di_StartEpoch deal0"
    and small: "\<And>sz. piece_size deal0 = Inr sz \<Longrightarrow> sz \<le> md_sectorSize d"
    unfolding deal_ok_def by blast
  let ?dup = "\<lambda>deal. has_piece (ig_PieceCID api deal) (ig_Size api deal)"
  obtain deal where deal: "as_direct api deal0 = Inr deal"
    using res unfolding AllocatePieceToSector_snap_def by (auto simp: rbind_Inr_iff split: if_splits)
  obtain am where am: "di_Manifest deal = Some am"
    using res deal unfolding AllocatePieceToSector_snap_def
    by (cases "di_Manifest deal") (auto simp: rbind_Inr_iff split: if_splits)
  note dir = deal am
  from res md dir obtain psize hdr head vd pj found maxExp where ps: "piece_size deal0 = Inr psize"
    and found: "to_existing_snap (ig_SectorGetInfo api maddr) head (?dup deal) psize (Some (md_sectorSize d)) vd
        (\<lambda>s'. insert_snap_ddo_piece mid (os_number s') (os_index s' + 1) am url hdr rawSize deal pj now (ig_db s))
        (ord (getOpenSectors True mid (ig_db s))) = Inr found"
    and rest: "(case found of
         Some (num, sp, db2) \<Rightarrow> Inr ((num, sp), db2)
       | None \<Rightarrow> open_snap_sector api maddr mid head maxExp am url hdr rawSize deal pj now (ig_db s))
       = (Inr (r, db') :: string + _)"
    unfolding AllocatePieceToSector_snap_def
    by (auto simp: rbind_Inr_iff Let_def split: if_splits)
  note direct = as_direct_Inr [OF dir(1) ps one dir(2)]
  note piece = ddo_piece_of_deal [OF api direct(1) dir(2) direct(2)]
  have start': "0 < di_StartEpoch deal" using start direct(3) by simp
  show ?thesis
  proof (cases found)
    case (Some nd)
    obtain num sp db2 where "nd = (num, sp, db2)" by (cases nd)
    then have "to_existing_snap (ig_SectorGetInfo api maddr) head (?dup deal) psize (Some (md_sectorSize d)) vd
        (\<lambda>s'. insert_snap_ddo_piece mid (os_number s') (os_index s' + 1) am url hdr rawSize deal pj now (ig_db s))
        (ord (getOpenSectors True mid (ig_db s))) = Inr (Some (num, sp, db'))"
      using found rest Some by simp
    from to_existing_snap_Some [OF this] obtain os where os: "os \<in> set (getOpenSectors True mid (ig_db s))"
      "\<not> ?dup deal os" "os_currentSize os + psize \<le> md_sectorSize d"
      and add: "insert_snap_ddo_piece mid (os_number os) (os_index os + 1) am url hdr rawSize deal pj now (ig_db s) = Inr db'"
      using orders_set [OF ord] by auto
    show ?thesis
      by (rule inv_to_existing [OF inv wf md(2) os(1,2,3) small [OF ps] add [unfolded insert_snap_ddo_piece_def] piece start'])
  next
    case None
    then obtain dl m where m: "m \<in> set (snap_candidates mid (di_EndEpoch deal) maxExp (immutable_deadlines dl) (ig_db s))"
      and ins: "insert_open_piece (ddo_piece mid (cc_sector_num m) 0 am url hdr rawSize deal pj now, True) (ig_db s) = Inr db'"
      using rest by (auto simp: open_snap_sector_def rbind_Inr_iff insert_snap_ddo_piece_def split: option.split_asm dest!: pick_active_set)
    then have cand: "snap_candidate mid (di_EndEpoch deal) maxExp (immutable_deadlines dl) (ig_db s) m"
      and meta: "m \<in> set (ig_sectors_meta (ig_db s))" by (simp_all add: snap_candidates_def)
    let ?q = "ddo_piece mid (cc_sector_num m) 0 am url hdr rawSize deal pj now"
    have q: "piece_of_deal api deal mid (cc_sector_num m) 0 psize ?q" "ip_f05_deal_id ?q = None" by (fact piece)+
    have key: "ip_sp_id ?q = mid" "ip_sector_number ?q = cc_sector_num m" by (simp_all add: ddo_piece_def)
    have "cc_sp_id m = mid" "\<not> in_snap (ig_db s) mid (cc_sector_num m)"
      using cand unfolding snap_candidate_def in_snap_def by auto
    then have place: "place_ok (ig_db s) (?q, True)" using meta q(2) by (auto simp: place_ok_def Let_def key in_meta_def)
    show ?thesis
      by (rule inv_add_piece [OF inv ins])
        (use md key candidate_no_pieces [OF ingest_invD(3) [OF inv] cand] small [OF ps] start' place q(1) in
          \<open>simp_all add: piece_of_deal_def word_le_nat_alt\<close>)
  qed
qed

end
