(* ===== verification/IngestSeal.thy ===== *)
theory IngestSeal
  imports IngestSystem
begin

text \<open>
  Sealing the open sectors. The two ways to start a sector, into the sealing pipeline and into
  the update pipeline, meet one contract, the locale \<open>sealing_start\<close>; what the loops over miners
  and sectors do is proved once from it.
\<close>

section \<open>Rows of a sector\<close>

definition rows_at :: "int \<Rightarrow> int \<Rightarrow> ingest_db \<Rightarrow> open_piece list" where
  "rows_at sp n db = filter (\<lambda>x. of_sector sp n (fst x)) (open_sector_pieces db)"

lemma pieces_at_rows: "pieces_at sp n db = map fst (rows_at sp n db)"
  by (simp add: pieces_at_def rows_at_def filter_map o_def)

lemma sorted_pieces_rows:
  "sorted_pieces sp n db = rev (sort_key (unat \<circ> ip_piece_size) (rev (pieces_at sp n db)))"
  by (simp add: sorted_pieces_def pieces_at_def)

lemma rows_at_close:
  "rows_at sp n (close_sector sp' n' db) = (if (sp, n) = (sp', n') then [] else rows_at sp n db)"
  by (auto simp: rows_at_def close_sector_def delete_where_def filter_empty_conv of_sector_def intro!: filter_cong)

lemma of_sector_self [simp]: "of_sector (ip_sp_id q) (ip_sector_number q) q"
  by (simp add: of_sector_def)

lemma of_sector_renumber: "q \<in> set (renumber ps) \<Longrightarrow> \<forall>x\<in>set ps. of_sector sp n x \<Longrightarrow> of_sector sp n q"
  by (auto simp: renumber_def of_sector_def in_set_enumerate_eq)

lemma filter_renumber:
  assumes "\<forall>x\<in>set ps. of_sector sp n x"
  shows "filter (of_sector sp' n') (renumber ps) = (if (sp', n') = (sp, n) then renumber ps else [])"
proof (cases "(sp', n') = (sp, n)")
  case True
  then show ?thesis using of_sector_renumber [OF _ assms] by simp
next
  case False
  then have "\<not> of_sector sp' n' q" if "q \<in> set (renumber ps)" for q
    using of_sector_renumber [OF that assms] by (auto simp: of_sector_def)
  then have "filter (of_sector sp' n') (renumber ps) = []" by (simp add: filter_empty_conv)
  then show ?thesis using False by (simp only: if_False)
qed

lemma sorted_pieces_sector: "x \<in> set (sorted_pieces sp n db) \<Longrightarrow> of_sector sp n x"
  by (auto simp: sorted_pieces_def)

lemma inv_close:
  assumes inv: "ingest_inv p s" and q: "(q, k) \<in> set (open_sector_pieces (ig_db s))" "of_sector sp n q"
    and rows: "open_sector_pieces db' = open_sector_pieces (close_sector sp n (ig_db s))"
    and same: "allocated db' = allocated (ig_db s)" "in_meta db' = in_meta (ig_db s)"
    and pipe: "\<And>sp' n'. in_pipeline db' sp' n' \<longleftrightarrow> in_pipeline (ig_db s) sp' n' \<or> \<not> k \<and> (sp', n') = (sp, n)"
    and snap: "\<And>sp' n'. in_snap db' sp' n' \<longleftrightarrow> in_snap (ig_db s) sp' n' \<or> k \<and> (sp', n') = (sp, n)"
    and init: "\<forall>x\<in>set (ig_initial_pieces db'). in_pipeline db' (ip_sp_id x) (ip_sector_number x)"
      "\<forall>x\<in>set (sectors_snap_initial_pieces db'). in_snap db' (ip_sp_id x) (ip_sector_number x)"
  shows "ingest_inv p (s\<lparr>ig_db := db'\<rparr>)"
proof -
  let ?xs = "open_sector_pieces (ig_db s)"
  have xs': "open_sector_pieces db' = delete_where (\<lambda>x. of_sector sp n (fst x)) ?xs"
    unfolding rows close_sector_def by simp
  have at: "rows_at sp' n' db' = (if (sp', n') = (sp, n) then [] else rows_at sp' n' (ig_db s))" for sp' n'
    using rows_at_close [of sp' n' sp n "ig_db s"] unfolding rows_at_def rows by simp
  have keep: "x \<in> set ?xs \<and> (ip_sp_id (fst x), ip_sector_number (fst x)) \<noteq> (sp, n)"
    if "x \<in> set (open_sector_pieces db')" for x
    using that unfolding xs' by (auto simp: table_simps of_sector_def)
  have "piece_ok p db' x" if x: "x \<in> set (open_sector_pieces db')" for x
  proof -
    have ok: "piece_ok p (ig_db s) x" using keep [OF x] ingest_invD(4) [OF inv] by blast
    have "place_ok db' x" using ok keep [OF x] pipe snap same
      by (auto simp: piece_ok_def place_ok_def Let_def)
    then show ?thesis using ok keep [OF x] at unfolding piece_ok_def sector_ok_def pieces_at_rows by auto
  qed
  moreover have "distinct (map open_key (open_sector_pieces db'))"
    unfolding xs' by (rule distinct_map_delete_where [OF ingest_invD(1) [OF inv]])
  moreover have "tables_ok (s\<lparr>ig_db := db'\<rparr>)"
  proof -
    have "\<not> k \<Longrightarrow> n \<in> known s sp"
      using inv_sector(2) [OF inv q] q(2) by (simp add: place_ok_def Let_def of_sector_def known_def)
    then show ?thesis
      using ingest_invD(2) [OF inv] pipe same init unfolding tables_ok_def known_def by auto
  qed
  moreover have "first_index db'"
  proof -
    have "\<exists>(q', k')\<in>set (open_sector_pieces db'). of_sector (ip_sp_id q1) (ip_sector_number q1) q' \<and> ip_piece_index q' = 0"
      if x: "(q1, k1) \<in> set (open_sector_pieces db')" for q1 k1
    proof -
      obtain q' k' where q': "(q', k') \<in> set ?xs" "of_sector (ip_sp_id q1) (ip_sector_number q1) q'" "ip_piece_index q' = 0"
        using ingest_invD(3) [OF inv] keep [OF x] unfolding first_index_def by force
      have "(ip_sp_id q1, ip_sector_number q1) \<noteq> (sp, n)" using keep [OF x] by simp
      then have "(q', k') \<in> set (open_sector_pieces db')"
        using q' unfolding xs' by (auto simp: table_simps of_sector_def)
      then show ?thesis using q' by blast
    qed
    then show ?thesis unfolding first_index_def by auto
  qed
  ultimately show ?thesis unfolding ingest_inv_def by simp
qed

section \<open>The contract of starting a sector\<close>

definition moved ::
  "(ingest_db \<Rightarrow> init_piece list) \<Rightarrow> (init_piece \<Rightarrow> init_piece) \<Rightarrow> (ingest_db \<Rightarrow> int \<Rightarrow> int \<Rightarrow> bool) \<Rightarrow> (int \<times> int) set \<Rightarrow>
   ingest_db \<Rightarrow> ingest_db \<Rightarrow> bool" where
  "moved initial conv started S db db' \<longleftrightarrow>
     (\<forall>sp n. if (sp, n) \<in> S
        then rows_at sp n db' = [] \<and>
             filter (of_sector sp n) (initial db') = renumber (map conv (sorted_pieces sp n db)) \<and> started db' sp n
        else rows_at sp n db' = rows_at sp n db \<and>
             filter (of_sector sp n) (initial db') = filter (of_sector sp n) (initial db) \<and>
             (started db sp n \<longrightarrow> started db' sp n))"

lemma movedD:
  assumes "moved initial conv started S db db'"
  shows "(sp, n) \<in> S \<Longrightarrow> rows_at sp n db' = [] \<and>
      filter (of_sector sp n) (initial db') = renumber (map conv (sorted_pieces sp n db)) \<and> started db' sp n"
    and "(sp, n) \<notin> S \<Longrightarrow> rows_at sp n db' = rows_at sp n db \<and>
      filter (of_sector sp n) (initial db') = filter (of_sector sp n) (initial db) \<and> (started db sp n \<longrightarrow> started db' sp n)"
  using assms unfolding moved_def by metis+

lemma moved_refl: "moved initial conv started {} db db"
  by (simp add: moved_def)

lemma moved_trans:
  assumes a: "moved initial conv started S db db1" and b: "moved initial conv started T db1 db2" and dis: "S \<inter> T = {}"
  shows "moved initial conv started (S \<union> T) db db2"
  unfolding moved_def
proof (intro allI)
  fix sp n
  consider "(sp, n) \<in> S" "(sp, n) \<notin> T" | "(sp, n) \<in> T" "(sp, n) \<notin> S" | "(sp, n) \<notin> S" "(sp, n) \<notin> T"
    using dis by blast
  then show "if (sp, n) \<in> S \<union> T
        then rows_at sp n db2 = [] \<and>
             filter (of_sector sp n) (initial db2) = renumber (map conv (sorted_pieces sp n db)) \<and> started db2 sp n
        else rows_at sp n db2 = rows_at sp n db \<and>
             filter (of_sector sp n) (initial db2) = filter (of_sector sp n) (initial db) \<and>
             (started db sp n \<longrightarrow> started db2 sp n)"
  proof cases
    case 1 then show ?thesis using movedD(1) [OF a] movedD(2) [OF b] by simp
  next
    case 2
    then have "sorted_pieces sp n db1 = sorted_pieces sp n db"
      using movedD(2) [OF a] by (simp add: sorted_pieces_rows pieces_at_rows)
    then show ?thesis using 2 movedD(1) [OF b] by simp
  next
    case 3 then show ?thesis using movedD(2) [OF a] movedD(2) [OF b] by simp
  qed
qed

locale sealing_start =
  fixes kind :: bool
    and start :: "int \<Rightarrow> int \<Rightarrow> int \<Rightarrow> ingest_db \<Rightarrow> string + ingest_db"
    and initial :: "ingest_db \<Rightarrow> init_piece list"
    and conv :: "init_piece \<Rightarrow> init_piece"
    and started :: "ingest_db \<Rightarrow> int \<Rightarrow> int \<Rightarrow> bool"
  assumes start_sector:
    "ingest_inv p s \<Longrightarrow> (q, kind) \<in> set (open_sector_pieces (ig_db s)) \<Longrightarrow> of_sector sp n q \<Longrightarrow>
     \<exists>db'. start sp n prf (ig_db s) = Inr db' \<and> ingest_inv p (s\<lparr>ig_db := db'\<rparr>) \<and>
       moved initial conv started {(sp, n)} (ig_db s) db'"
begin

lemma seal_sectors_moves:
  assumes "ingest_inv p s" "distinct (map os_number ss)"
    and "\<forall>x\<in>set ss. \<exists>q. (q, kind) \<in> set (open_sector_pieces (ig_db s)) \<and> of_sector mid (os_number x) q"
  shows "\<exists>db'. seal_sectors due (\<lambda>n. start mid n prf) ss (ig_db s) = Inr db' \<and> ingest_inv p (s\<lparr>ig_db := db'\<rparr>) \<and>
    moved initial conv started {(mid, os_number x) |x. x \<in> set ss \<and> due x} (ig_db s) db'"
  using assms
proof (induction ss arbitrary: s)
  case Nil
  then show ?case using moved_refl by simp
next
  case (Cons x ss)
  show ?case
  proof (cases "due x")
    case False
    have "{(mid, os_number y) |y. y \<in> set (x # ss) \<and> due y} = {(mid, os_number y) |y. y \<in> set ss \<and> due y}"
      using False by auto
    then show ?thesis using Cons.IH [OF Cons.prems(1)] Cons.prems(2,3) False by simp
  next
    case True
    obtain q where q: "(q, kind) \<in> set (open_sector_pieces (ig_db s))" "of_sector mid (os_number x) q"
      using Cons.prems(3) by (metis list.set_intros(1))
    obtain db1 where db1: "start mid (os_number x) prf (ig_db s) = Inr db1" "ingest_inv p (s\<lparr>ig_db := db1\<rparr>)"
      and mv: "moved initial conv started {(mid, os_number x)} (ig_db s) db1"
      using start_sector [OF Cons.prems(1) q] by blast
    have "\<exists>q. (q, kind) \<in> set (open_sector_pieces db1) \<and> of_sector mid (os_number y) q" if y: "y \<in> set ss" for y
    proof -
      have "os_number y \<noteq> os_number x" using Cons.prems(2) y by (metis distinct.simps(2) image_eqI list.set_map list.simps(9))
      then have eq: "rows_at mid (os_number y) db1 = rows_at mid (os_number y) (ig_db s)"
        using movedD(2) [OF mv, of mid "os_number y"] by simp
      obtain q where "(q, kind) \<in> set (open_sector_pieces (ig_db s))" "of_sector mid (os_number y) q"
        using Cons.prems(3) y by (metis list.set_intros(2))
      then have "(q, kind) \<in> set (rows_at mid (os_number y) db1)" unfolding eq by (simp add: rows_at_def)
      then show ?thesis by (auto simp: rows_at_def)
    qed
    then obtain db2 where db2: "seal_sectors due (\<lambda>n. start mid n prf) ss db1 = Inr db2" "ingest_inv p (s\<lparr>ig_db := db2\<rparr>)"
      and mv2: "moved initial conv started {(mid, os_number y) |y. y \<in> set ss \<and> due y} db1 db2"
      using Cons.IH [OF db1(2)] Cons.prems(2) by auto
    have "{(mid, os_number x)} \<inter> {(mid, os_number y) |y. y \<in> set ss \<and> due y} = {}" using Cons.prems(2) by auto
    note moved_trans [OF mv mv2 this]
    moreover have "{(mid, os_number x)} \<union> {(mid, os_number y) |y. y \<in> set ss \<and> due y}
      = {(mid, os_number y) |y. y \<in> set (x # ss) \<and> due y}" using True by auto
    ultimately show ?thesis using db1 db2 True by simp
  qed
qed

end

section \<open>Both pipelines meet the contract\<close>

lemma open_piece_sorted:
  assumes "(q, k) \<in> set (open_sector_pieces db)" "of_sector sp n q"
  shows "sorted_pieces sp n db \<noteq> []"
proof -
  have "q \<in> set (sorted_pieces sp n db)" using assms by (force simp: sorted_pieces_def)
  then show ?thesis by auto
qed

lemma moved_one:
  assumes rows: "open_sector_pieces db' = open_sector_pieces (close_sector sp n db)"
    and init: "initial db' = initial db @ renumber (map conv (sorted_pieces sp n db))"
    and fresh: "\<forall>x\<in>set (initial db). \<not> of_sector sp n x" and conv: "\<And>x. of_sector sp n (conv x) = of_sector sp n x"
    and started: "started db' sp n" "\<And>sp' n'. started db sp' n' \<Longrightarrow> started db' sp' n'"
  shows "moved initial conv started {(sp, n)} db db'"
proof -
  have at: "rows_at sp' n' db' = (if (sp', n') = (sp, n) then [] else rows_at sp' n' db)" for sp' n'
    using rows_at_close [of sp' n' sp n db] unfolding rows_at_def rows by simp
  have "\<forall>x\<in>set (map conv (sorted_pieces sp n db)). of_sector sp n x"
    using conv sorted_pieces_sector by auto
  note new = filter_renumber [OF this]
  have "filter (of_sector sp' n') (initial db') =
    (if (sp', n') = (sp, n) then renumber (map conv (sorted_pieces sp n db)) else filter (of_sector sp' n') (initial db))" for sp' n'
    using fresh unfolding init filter_append new by (auto simp: filter_empty_conv)
  then show ?thesis using at started unfolding moved_def by auto
qed

lemma in_pipeline_new_row:
  "in_pipeline (db\<lparr>ig_pipeline := ig_pipeline db @ [new_pipeline_row sp n prf]\<rparr>) sp' n' \<longleftrightarrow>
   in_pipeline db sp' n' \<or> (sp', n') = (sp, n)"
  by (auto simp: in_pipeline_def new_pipeline_row_def)

lemma sorted_pieces_cong: "open_sector_pieces db' = open_sector_pieces db \<Longrightarrow> sorted_pieces sp n db' = sorted_pieces sp n db"
  by (simp add: sorted_pieces_def)

lemma start_sealing_moves:
  assumes inv: "ingest_inv p s" and q: "(q, False) \<in> set (open_sector_pieces (ig_db s))" "of_sector sp n q"
  shows "\<exists>db'. start_sealing sp n prf (ig_db s) = Inr db' \<and> ingest_inv p (s\<lparr>ig_db := db'\<rparr>) \<and>
    moved ig_initial_pieces id in_pipeline {(sp, n)} (ig_db s) db'"
proof -
  let ?db = "ig_db s"
  let ?db1 = "?db\<lparr>ig_pipeline := ig_pipeline ?db @ [new_pipeline_row sp n prf]\<rparr>"
  let ?ps = "sorted_pieces sp n ?db"
  let ?db' = "(close_sector sp n ?db1)\<lparr>ig_initial_pieces := ig_initial_pieces ?db @ renumber ?ps\<rparr>"
  have sorted: "sorted_pieces sp n ?db1 = ?ps" by (rule sorted_pieces_cong) simp
  have out: "\<not> in_pipeline ?db sp n"
    using inv_sector(2) [OF inv q] q(2) by (simp add: place_ok_def Let_def of_sector_def)
  have fresh: "\<forall>x\<in>set (ig_initial_pieces ?db). \<not> of_sector sp n x"
    using ingest_invD(2) [OF inv] out unfolding tables_ok_def by (auto simp: of_sector_def)
  have res: "start_sealing sp n prf ?db = Inr ?db'"
    using out fresh open_piece_sorted [OF q]
    by (auto simp: start_sealing_def in_pipeline_def transfer_and_delete_sorted_open_piece_def Let_def sorted)
  have rows: "open_sector_pieces ?db' = open_sector_pieces (close_sector sp n ?db)" by (simp add: close_sector_def)
  have pipe: "in_pipeline ?db' sp' n' \<longleftrightarrow> in_pipeline ?db sp' n' \<or> (sp', n') = (sp, n)" for sp' n'
    by (auto simp: in_pipeline_def new_pipeline_row_def close_sector_def)
  have new: "in_pipeline ?db' (ip_sp_id x) (ip_sector_number x)" if "x \<in> set (renumber ?ps)" for x
    using of_sector_renumber [OF that] sorted_pieces_sector pipe by (metis of_sector_def)
  have "ingest_inv p (s\<lparr>ig_db := ?db'\<rparr>)"
  proof (rule inv_close [OF inv q rows])
    show "in_pipeline ?db' sp' n' \<longleftrightarrow> in_pipeline ?db sp' n' \<or> \<not> False \<and> (sp', n') = (sp, n)" for sp' n' using pipe by simp
    show "\<forall>x\<in>set (ig_initial_pieces ?db'). in_pipeline ?db' (ip_sp_id x) (ip_sector_number x)"
      using ingest_invD(2) [OF inv] new pipe unfolding tables_ok_def by auto
  qed (use ingest_invD(2) [OF inv] in \<open>auto simp: close_sector_def allocated_def in_meta_def in_snap_def tables_ok_def fun_eq_iff\<close>)
  moreover have "moved ig_initial_pieces id in_pipeline {(sp, n)} ?db ?db'"
    using fresh pipe by (intro moved_one rows) simp_all
  ultimately show ?thesis using res by blast
qed

lemma start_snap_moves:
  assumes inv: "ingest_inv p s" and q: "(q, True) \<in> set (open_sector_pieces (ig_db s))" "of_sector sp n q"
  shows "\<exists>db'. start_snap sp n prf (ig_db s) = Inr db' \<and> ingest_inv p (s\<lparr>ig_db := db'\<rparr>) \<and>
    moved sectors_snap_initial_pieces no_f05 in_snap {(sp, n)} (ig_db s) db'"
proof -
  let ?db = "ig_db s"
  let ?db1 = "?db\<lparr>sectors_snap_pipeline := sectors_snap_pipeline ?db @ [(sp, n, prf)]\<rparr>"
  let ?ps = "sorted_pieces sp n ?db"
  let ?db' = "(close_sector sp n ?db1)\<lparr>sectors_snap_initial_pieces := sectors_snap_initial_pieces ?db @ renumber (map no_f05 ?ps)\<rparr>"
  have sorted: "sorted_pieces sp n ?db1 = ?ps" by (rule sorted_pieces_cong) simp
  have out: "\<not> in_snap ?db sp n" and meta: "in_meta ?db sp n"
    using inv_sector(2) [OF inv q] q(2) by (simp_all add: place_ok_def Let_def of_sector_def)
  have fresh: "\<forall>x\<in>set (sectors_snap_initial_pieces ?db). \<not> of_sector sp n x"
    using ingest_invD(2) [OF inv] out unfolding tables_ok_def by (auto simp: of_sector_def)
  have f05: "ip_f05_deal_id x = None" if x: "x \<in> set ?ps" for x
  proof -
    obtain k where k: "(x, k) \<in> set (open_sector_pieces ?db)" "of_sector sp n x"
      using x by (auto simp: sorted_pieces_def)
    then have "k" using inv_of_kind [OF inv q] unfolding of_kind_def by blast
    then show ?thesis using inv_sector(2) [OF inv k] by (simp add: place_ok_def Let_def)
  qed
  have res: "start_snap sp n prf ?db = Inr ?db'"
    using out meta fresh f05 open_piece_sorted [OF q]
    by (auto simp: start_snap_def in_snap_def in_meta_def transfer_and_delete_sorted_open_piece_snap_def Let_def sorted)
  have rows: "open_sector_pieces ?db' = open_sector_pieces (close_sector sp n ?db)" by (simp add: close_sector_def)
  have pipe: "in_snap ?db' sp' n' \<longleftrightarrow> in_snap ?db sp' n' \<or> (sp', n') = (sp, n)" for sp' n'
    by (auto simp: in_snap_def close_sector_def)
  have conv: "of_sector sp n (no_f05 x) = of_sector sp n x" for x by (simp add: of_sector_def no_f05_def)
  have new: "in_snap ?db' (ip_sp_id x) (ip_sector_number x)" if "x \<in> set (renumber (map no_f05 ?ps))" for x
  proof -
    have "of_sector sp n x" using of_sector_renumber [OF that] conv sorted_pieces_sector by auto
    then show ?thesis using pipe by (simp only: of_sector_def) blast
  qed
  have "ingest_inv p (s\<lparr>ig_db := ?db'\<rparr>)"
  proof (rule inv_close [OF inv q rows])
    show "in_snap ?db' sp' n' \<longleftrightarrow> in_snap ?db sp' n' \<or> True \<and> (sp', n') = (sp, n)" for sp' n' using pipe by simp
    show "\<forall>x\<in>set (sectors_snap_initial_pieces ?db'). in_snap ?db' (ip_sp_id x) (ip_sector_number x)"
      using ingest_invD(2) [OF inv] new pipe unfolding tables_ok_def by auto
  qed (use ingest_invD(2) [OF inv] in \<open>auto simp: close_sector_def allocated_def in_meta_def in_pipeline_def tables_ok_def fun_eq_iff\<close>)
  moreover have "moved sectors_snap_initial_pieces no_f05 in_snap {(sp, n)} ?db ?db'"
    using fresh pipe conv by (intro moved_one rows) simp_all
  ultimately show ?thesis using res by blast
qed

interpretation seal_start: sealing_start False start_sealing ig_initial_pieces id in_pipeline
  by unfold_locales (rule start_sealing_moves)

interpretation snap_start: sealing_start True start_snap sectors_snap_initial_pieces no_f05 in_snap
  by unfold_locales (rule start_snap_moves)

section \<open>All miners\<close>

text \<open>When a sector is due, in terms of its pieces.\<close>

definition sector_due :: "PieceIngester \<Rightarrow> int \<Rightarrow> time \<Rightarrow> mdetails \<Rightarrow> init_piece list \<Rightarrow> bool" where
  "sector_due p head now d ps \<longleftrightarrow>
     total_size ps = unat (md_sectorSize d) \<or>
     (\<exists>q\<in>set ps. now - ip_created_at q > pi_maxWaitTime p) \<or>
     (\<exists>q\<in>set ps. deal_start_epoch q < head + pi_expectedDuration p)"

lemma shouldSeal_iff:
  assumes inv: "ingest_inv p s" and wf: "ingester_ok p" and d: "pi_minerDetails p mid = Some d"
    and o: "os \<in> set (getOpenSectors k mid (ig_db s))"
  shows "shouldSeal p head now d os \<longleftrightarrow> sector_due p head now d (pieces_at mid (os_number os) (ig_db s))"
proof -
  have "os_number os \<in> os_number ` set (getOpenSectors k mid (ig_db s))" using o by (rule imageI)
  then obtain q where q: "(q, k) \<in> set (open_sector_pieces (ig_db s))" "of_sector mid (os_number os) q"
    unfolding getOpenSectors_number by blast
  obtain ps where ps: "ps \<noteq> []" "mset ps = mset (pieces_at mid (os_number os) (ig_db s))" "os = sector_of ps"
    using open_sector_pieces_of [OF o inv_of_kind [OF inv q]] by metis
  have set: "set ps = set (pieces_at mid (os_number os) (ig_db s))" using ps(2) by (metis mset_eq_setD)
  have tot: "total_size (pieces_at mid (os_number os) (ig_db s)) = total_size ps" using ps(2) by (metis total_size_mset)
  have "total_size ps \<le> unat (md_sectorSize d)" using inv_sector(1) [OF inv q] d tot by (auto simp: sector_ok_def)
  then have "unat (sum_list (map ip_piece_size ps)) = total_size ps"
    by (intro unat_sum_sizes) (use unsigned_less [where 'a = nat, of "md_sectorSize d"] in simp)
  then have full: "os_currentSize os = md_sectorSize d \<longleftrightarrow> total_size ps = unat (md_sectorSize d)"
    unfolding ps(3) sector_of_sums(1) [OF ps(1)] by (metis word_unat_eq_iff)
  have "0 < deal_start_epoch x" if x: "x \<in> set ps" for x
  proof -
    obtain k' where "(x, k') \<in> set (open_sector_pieces (ig_db s))" using x unfolding set by (auto simp: pieces_at_def)
    then show ?thesis using ingest_invD(4) [OF inv] by (fastforce simp: piece_ok_def)
  qed
  then have early: "os_earliestStartEpoch os < e \<longleftrightarrow> (\<exists>x\<in>set ps. deal_start_epoch x < e)" for e
    unfolding ps(3) using sector_of_earliest [OF ps(1)] by blast
  show ?thesis
    unfolding shouldSeal_def sector_due_def tot full early set [symmetric]
    unfolding ps(3) sector_of_openedAt [OF ps(1)] by blast
qed

definition due_sectors :: "bool \<Rightarrow> PieceIngester \<Rightarrow> int \<Rightarrow> time \<Rightarrow> int set \<Rightarrow> ingest_db \<Rightarrow> (int \<times> int) set" where
  "due_sectors snap p head now mids db =
     {(mid, n). mid \<in> mids \<and> (\<exists>d. pi_minerDetails p mid = Some d \<and>
        (\<exists>q. (q, snap) \<in> set (rows_at mid n db)) \<and> sector_due p head now d (pieces_at mid n db))}"

definition initial_of :: "bool \<Rightarrow> ingest_db \<Rightarrow> init_piece list" where
  "initial_of snap = (if snap then sectors_snap_initial_pieces else ig_initial_pieces)"

definition conv_of :: "bool \<Rightarrow> init_piece \<Rightarrow> init_piece" where
  "conv_of snap = (if snap then no_f05 else id)"

definition started_of :: "bool \<Rightarrow> ingest_db \<Rightarrow> int \<Rightarrow> int \<Rightarrow> bool" where
  "started_of snap = (if snap then in_snap else in_pipeline)"

abbreviation sealed :: "bool \<Rightarrow> (int \<times> int) set \<Rightarrow> ingest_db \<Rightarrow> ingest_db \<Rightarrow> bool" where
  "sealed snap \<equiv> moved (initial_of snap) (conv_of snap) (started_of snap)"

lemma seal_miner_moves:
  assumes inv: "ingest_inv p s" and wf: "ingester_ok p" and d: "pi_minerDetails p mid = Some d" and ord: "orders ord"
  shows "\<exists>db'. seal_sectors (shouldSeal p head now d)
        (\<lambda>num. if snap then start_snap mid num (md_updateProof d) else start_sealing mid num (md_sealProof d))
        (ord (getOpenSectors snap mid (ig_db s))) (ig_db s) = Inr db' \<and>
      ingest_inv p (s\<lparr>ig_db := db'\<rparr>) \<and> sealed snap (due_sectors snap p head now {mid} (ig_db s)) (ig_db s) db'"
proof -
  let ?ss = "ord (getOpenSectors snap mid (ig_db s))"
  have set: "set ?ss = set (getOpenSectors snap mid (ig_db s))" by (rule orders_set [OF ord])
  have dist: "distinct (map os_number ?ss)"
    using ord distinct_getOpenSectors [of snap mid "ig_db s"] unfolding orders_def by (metis mset_eq_imp_distinct_iff mset_map)
  have pieces: "\<forall>x\<in>set ?ss. \<exists>q. (q, snap) \<in> set (open_sector_pieces (ig_db s)) \<and> of_sector mid (os_number x) q"
    unfolding set using getOpenSectors_number [of snap mid "ig_db s"] by blast
  have "{(mid, os_number x) |x. x \<in> set ?ss \<and> shouldSeal p head now d x} = due_sectors snap p head now {mid} (ig_db s)"
  proof (intro set_eqI iffI)
    fix y assume "y \<in> {(mid, os_number x) |x. x \<in> set ?ss \<and> shouldSeal p head now d x}"
    then obtain x where x: "y = (mid, os_number x)" "x \<in> set (getOpenSectors snap mid (ig_db s))" "shouldSeal p head now d x"
      unfolding set by blast
    moreover have "\<exists>q. (q, snap) \<in> set (rows_at mid (os_number x) (ig_db s))"
      using pieces x(2) unfolding set by (auto simp: rows_at_def)
    ultimately show "y \<in> due_sectors snap p head now {mid} (ig_db s)"
      using shouldSeal_iff [OF inv wf d x(2)] d by (simp add: due_sectors_def)
  next
    fix y assume "y \<in> due_sectors snap p head now {mid} (ig_db s)"
    then obtain n q where y: "y = (mid, n)" "(q, snap) \<in> set (open_sector_pieces (ig_db s))" "of_sector mid n q"
      "sector_due p head now d (pieces_at mid n (ig_db s))"
      using d by (auto simp: due_sectors_def rows_at_def)
    then have "n \<in> os_number ` set (getOpenSectors snap mid (ig_db s))" unfolding getOpenSectors_number by blast
    then obtain x where x: "x \<in> set (getOpenSectors snap mid (ig_db s))" "n = os_number x" by blast
    then show "y \<in> {(mid, os_number x) |x. x \<in> set ?ss \<and> shouldSeal p head now d x}"
      using y(1,4) shouldSeal_iff [OF inv wf d x(1)] unfolding set by blast
  qed
  note due = this
  show ?thesis
  proof (cases snap)
    case True
    then show ?thesis
      using snap_start.seal_sectors_moves [OF inv dist, of mid "shouldSeal p head now d" "md_updateProof d"] pieces
      unfolding due by (simp add: initial_of_def conv_of_def started_of_def)
  next
    case False
    then show ?thesis
      using seal_start.seal_sectors_moves [OF inv dist, of mid "shouldSeal p head now d" "md_sealProof d"] pieces
      unfolding due by (simp add: initial_of_def conv_of_def started_of_def)
  qed
qed

lemma due_sectors_rows:
  assumes "\<And>mid n. mid \<in> mids \<Longrightarrow> rows_at mid n db' = rows_at mid n db"
  shows "due_sectors snap p head now mids db' = due_sectors snap p head now mids db"
  unfolding due_sectors_def pieces_at_rows using assms by auto

lemma due_sectors_insert:
  "due_sectors snap p head now (insert mid mids) db = due_sectors snap p head now {mid} db \<union> due_sectors snap p head now mids db"
  unfolding due_sectors_def by auto

lemma seal_miners_moves:
  assumes "ingest_inv p s" "ingester_ok p" "orders ord" "distinct mids"
  shows "\<exists>db'. seal_miners snap p ord head now mids (ig_db s) = Inr db' \<and> ingest_inv p (s\<lparr>ig_db := db'\<rparr>) \<and>
    sealed snap (due_sectors snap p head now (set mids) (ig_db s)) (ig_db s) db'"
  using assms(1,4)
proof (induction mids arbitrary: s)
  case Nil
  have "due_sectors snap p head now {} (ig_db s) = {}" by (simp add: due_sectors_def)
  then show ?case using Nil moved_refl by simp
next
  case (Cons mid mids)
  let ?D = "due_sectors snap p head now"
  show ?case
  proof (cases "pi_minerDetails p mid")
    case None
    have "\<not> of_sector mid n q" if "(q, k) \<in> set (open_sector_pieces (ig_db s))" for q k n
      using inv_sector(1) [OF Cons.prems(1) that, of mid n] None by (auto simp: sector_ok_def)
    then have "os_number ` set (getOpenSectors snap mid (ig_db s)) = {}" unfolding getOpenSectors_number by auto
    then have "getOpenSectors snap mid (ig_db s) = []" by simp
    moreover have "?D {mid} (ig_db s) = {}" using None by (simp add: due_sectors_def)
    ultimately show ?thesis
      using Cons.IH [OF Cons.prems(1)] Cons.prems(2) None due_sectors_insert [of snap p head now mid "set mids"] by simp
  next
    case (Some d)
    obtain db1 where db1: "seal_sectors (shouldSeal p head now d)
        (\<lambda>num. if snap then start_snap mid num (md_updateProof d) else start_sealing mid num (md_sealProof d))
        (ord (getOpenSectors snap mid (ig_db s))) (ig_db s) = Inr db1" "ingest_inv p (s\<lparr>ig_db := db1\<rparr>)"
      and mv: "sealed snap (?D {mid} (ig_db s)) (ig_db s) db1"
      using seal_miner_moves [OF Cons.prems(1) assms(2) Some assms(3)] by metis
    obtain db2 where db2: "seal_miners snap p ord head now mids db1 = Inr db2" "ingest_inv p (s\<lparr>ig_db := db2\<rparr>)"
      and mv2: "sealed snap (?D (set mids) db1) db1 db2"
      using Cons.IH [OF db1(2)] Cons.prems(2) by auto
    have "rows_at m n db1 = rows_at m n (ig_db s)" if "m \<in> set mids" for m n
    proof -
      have "(m, n) \<notin> ?D {mid} (ig_db s)" using that Cons.prems(2) by (auto simp: due_sectors_def)
      then show ?thesis using movedD(2) [OF mv] by blast
    qed
    then have same: "?D (set mids) db1 = ?D (set mids) (ig_db s)" by (rule due_sectors_rows)
    have "?D {mid} (ig_db s) \<inter> ?D (set mids) (ig_db s) = {}" using Cons.prems(2) by (auto simp: due_sectors_def)
    from moved_trans [OF mv mv2 [unfolded same] this] show ?thesis
      using db1 db2 Some due_sectors_insert [of snap p head now mid "set mids" "ig_db s"] by simp
  qed
qed

end
