(* ===== verification/IngestRun.thy ===== *)
theory IngestRun
  imports IngestSeal SealSystem
begin

text \<open>
  Runs of the ingester among the other parts of the program, and the properties of its states:
  open sectors never overflow, \<open>Seal\<close> takes exactly the full and due sectors, sector numbers are
  used once. The last section shows where the code does not do what its comments say.
\<close>

section \<open>Runs\<close>

text \<open>
  Besides the two ingesters: sectors without data are added with fresh numbers
  (\<open>cmd/curio/seal.go\<close>), the pipelines move on and drop rows with the pieces that refer to them,
  committed sectors and sectors found on the chain get a row in \<open>sectors_meta\<close>, and the chain
  allocates more numbers.
\<close>

inductive ingest_step :: "PieceIngester \<Rightarrow> ingest_sys \<Rightarrow> ingest_sys \<Rightarrow> bool" for p where
  allocate: "api_ok p s api \<Longrightarrow> orders ord \<Longrightarrow> deal_ok p maddr deal \<Longrightarrow>
    AllocatePieceToSector api p ord maddr deal rawSize url header now (ig_db s) = Inr (r, db') \<Longrightarrow>
    ingest_step p s (s\<lparr>ig_db := db'\<rparr>)"
| allocate_snap: "api_ok p s api \<Longrightarrow> orders ord \<Longrightarrow> deal_ok p maddr deal \<Longrightarrow>
    AllocatePieceToSector_snap api p ord maddr deal rawSize url header now (ig_db s) = Inr (r, db') \<Longrightarrow>
    ingest_step p s (s\<lparr>ig_db := db'\<rparr>)"
| seal: "orders ord \<Longrightarrow> ingest_step p s (s\<lparr>ig_db := snd (Seal snap api p ord now (ig_db s))\<rparr>)"
| no_data: "api_ok p s api \<Longrightarrow> ig_IDFromAddress api maddr = Inr mid \<Longrightarrow>
    AllocateSectorNumbers api maddr cnt (ig_db s) = Inr (nums, db') \<Longrightarrow>
    ingest_step p s (s\<lparr>ig_db := db'\<lparr>ig_pipeline := ig_pipeline db' @ map (\<lambda>n. new_pipeline_row mid n prf) nums\<rparr>\<rparr>)"
| pipeline: "sector_key ` set rows \<subseteq> sector_key ` set (ig_pipeline (ig_db s)) \<Longrightarrow>
    set ps \<subseteq> {q \<in> set (ig_initial_pieces (ig_db s)). (ip_sp_id q, ip_sector_number q) \<in> sector_key ` set rows} \<Longrightarrow>
    ingest_step p s (s\<lparr>ig_db := (ig_db s)\<lparr>ig_pipeline := rows, ig_initial_pieces := ps\<rparr>\<rparr>)"
| snap_pipeline: "set rows \<subseteq> set (sectors_snap_pipeline (ig_db s)) \<Longrightarrow>
    set ps \<subseteq> {q \<in> set (sectors_snap_initial_pieces (ig_db s)). \<exists>prf. (ip_sp_id q, ip_sector_number q, prf) \<in> set rows} \<Longrightarrow>
    ingest_step p s (s\<lparr>ig_db := (ig_db s)\<lparr>sectors_snap_pipeline := rows, sectors_snap_initial_pieces := ps\<rparr>\<rparr>)"
| committed: "in_pipeline (ig_db s) (cc_sp_id m) (cc_sector_num m) \<Longrightarrow>
    ingest_step p s (s\<lparr>ig_db := (ig_db s)\<lparr>ig_sectors_meta := ig_sectors_meta (ig_db s) @ [m]\<rparr>\<rparr>)"
| imported: "cc_sector_num m \<in> ig_chain s (cc_sp_id m) \<Longrightarrow> rows_at (cc_sp_id m) (cc_sector_num m) (ig_db s) = [] \<Longrightarrow>
    ingest_step p s (s\<lparr>ig_db := (ig_db s)\<lparr>ig_sectors_meta := ig_sectors_meta (ig_db s) @ [m]\<rparr>\<rparr>)"
| crawled: "map (\<lambda>m. (cc_sp_id m, cc_sector_num m)) ms = map (\<lambda>m. (cc_sp_id m, cc_sector_num m)) (ig_sectors_meta (ig_db s)) \<Longrightarrow>
    ingest_step p s (s\<lparr>ig_db := (ig_db s)\<lparr>ig_sectors_meta := ms\<rparr>\<rparr>)"
| chain: "(\<And>sp. ig_chain s sp \<subseteq> ch sp) \<Longrightarrow> ingest_step p s (s\<lparr>ig_chain := ch\<rparr>)"

inductive ingest_reachable :: "PieceIngester \<Rightarrow> ingest_sys \<Rightarrow> bool" for p where
  init: "open_sector_pieces (ig_db s) = [] \<Longrightarrow> tables_ok s \<Longrightarrow> ingest_reachable p s"
| step: "ingest_reachable p s \<Longrightarrow> ingest_step p s s' \<Longrightarrow> ingest_reachable p s'"

lemma inv_tables_change:
  assumes inv: "ingest_inv p s" and open_same: "open_sector_pieces (ig_db s') = open_sector_pieces (ig_db s)"
    and alloc: "\<And>sp. allocated (ig_db s) sp \<subseteq> allocated (ig_db s') sp" and tab: "tables_ok s'"
    and seal: "\<And>q sp n. (q, False) \<in> set (rows_at sp n (ig_db s)) \<Longrightarrow> \<not> in_pipeline (ig_db s) sp n \<Longrightarrow> \<not> in_meta (ig_db s) sp n \<Longrightarrow>
      \<not> in_pipeline (ig_db s') sp n \<and> \<not> in_meta (ig_db s') sp n"
    and snap: "\<And>sp n. in_meta (ig_db s) sp n \<Longrightarrow> in_meta (ig_db s') sp n"
      "\<And>sp n. in_snap (ig_db s') sp n \<Longrightarrow> in_snap (ig_db s) sp n"
  shows "ingest_inv p s'"
proof -
  have at: "pieces_at sp n (ig_db s') = pieces_at sp n (ig_db s)" for sp n by (simp add: pieces_at_def open_same)
  have "piece_ok p (ig_db s') x" if x: "x \<in> set (open_sector_pieces (ig_db s))" for x
  proof -
    obtain q k where qk: "x = (q, k)" by (cases x)
    have ok: "piece_ok p (ig_db s) (q, k)" using ingest_invD(4) [OF inv x] qk by simp
    have row: "(q, k) \<in> set (rows_at (ip_sp_id q) (ip_sector_number q) (ig_db s))"
      using x qk by (simp add: rows_at_def)
    have "place_ok (ig_db s') (q, k)"
    proof (cases k)
      case True
      then show ?thesis using ok snap by (auto simp: piece_ok_def place_ok_def Let_def)
    next
      case False
      then show ?thesis using ok seal [of q] row alloc by (auto simp: piece_ok_def place_ok_def Let_def)
    qed
    then show ?thesis using ok qk by (simp add: piece_ok_def sector_ok_def at)
  qed
  then show ?thesis using inv tab unfolding ingest_inv_def first_index_def open_same by simp
qed

lemma Seal_sealed:
  assumes "ingest_inv p s" "ingester_ok p" "orders ord" "distinct (map snd (pi_addToID p))" "ig_ChainHead api = Inr head"
  obtains db' where "Seal snap api p ord now (ig_db s) = (Inr (), db')" "ingest_inv p (s\<lparr>ig_db := db'\<rparr>)"
    "sealed snap (due_sectors snap p head now (snd ` set (pi_addToID p)) (ig_db s)) (ig_db s) db'"
  using seal_miners_moves [OF assms(1,2,3,4), of snap head now] assms(5) by (auto simp: Seal_def)

lemma inv_Seal:
  assumes "ingest_inv p s" "ingester_ok p" "orders ord" "distinct (map snd (pi_addToID p))"
  shows "ingest_inv p (s\<lparr>ig_db := snd (Seal snap api p ord now (ig_db s))\<rparr>)"
proof (cases "ig_ChainHead api")
  case (Inl e)
  then show ?thesis using assms(1) by (simp add: Seal_def)
next
  case (Inr head)
  then show ?thesis using Seal_sealed [OF assms Inr, of snap now] by (metis snd_conv)
qed

lemma in_pipeline_key: "in_pipeline db sp n \<longleftrightarrow> (sp, n) \<in> sector_key ` set (ig_pipeline db)"
  by (auto simp: in_pipeline_def sector_key_def)

lemma sector_key_new_row [simp]: "sector_key (new_pipeline_row sp n prf) = (sp, n)"
  by (simp add: sector_key_def new_pipeline_row_def)

lemma in_snap_key: "in_snap db sp n \<longleftrightarrow> (\<exists>prf. (sp, n, prf) \<in> set (sectors_snap_pipeline db))"
  by (auto simp: in_snap_def)

lemma in_meta_key: "in_meta db sp n \<longleftrightarrow> (sp, n) \<in> set (map (\<lambda>m. (cc_sp_id m, cc_sector_num m)) (ig_sectors_meta db))"
  by (auto simp: in_meta_def)

lemma rows_at_open: "(q, k) \<in> set (rows_at sp n db) \<longleftrightarrow> (q, k) \<in> set (open_sector_pieces db) \<and> of_sector sp n q"
  by (auto simp: rows_at_def)

lemma in_tables_other [simp]:
  "in_meta (db\<lparr>ig_pipeline := rs\<rparr>) = in_meta db" "in_snap (db\<lparr>ig_pipeline := rs\<rparr>) = in_snap db"
  "allocated (db\<lparr>ig_pipeline := rs\<rparr>) = allocated db"
  "in_meta (db\<lparr>ig_initial_pieces := ps\<rparr>) = in_meta db" "in_snap (db\<lparr>ig_initial_pieces := ps\<rparr>) = in_snap db"
  "allocated (db\<lparr>ig_initial_pieces := ps\<rparr>) = allocated db" "in_pipeline (db\<lparr>ig_initial_pieces := ps\<rparr>) = in_pipeline db"
  "in_meta (db\<lparr>sectors_snap_pipeline := ts\<rparr>) = in_meta db" "in_pipeline (db\<lparr>sectors_snap_pipeline := ts\<rparr>) = in_pipeline db"
  "allocated (db\<lparr>sectors_snap_pipeline := ts\<rparr>) = allocated db"
  "in_meta (db\<lparr>sectors_snap_initial_pieces := ps\<rparr>) = in_meta db"
  "in_pipeline (db\<lparr>sectors_snap_initial_pieces := ps\<rparr>) = in_pipeline db"
  "in_snap (db\<lparr>sectors_snap_initial_pieces := ps\<rparr>) = in_snap db"
  "allocated (db\<lparr>sectors_snap_initial_pieces := ps\<rparr>) = allocated db"
  "in_snap (db\<lparr>ig_sectors_meta := ms\<rparr>) = in_snap db" "in_pipeline (db\<lparr>ig_sectors_meta := ms\<rparr>) = in_pipeline db"
  "allocated (db\<lparr>ig_sectors_meta := ms\<rparr>) = allocated db"
  by (simp_all add: in_pipeline_def in_meta_def in_snap_def allocated_def fun_eq_iff)

lemma in_meta_append: "in_meta (db\<lparr>ig_sectors_meta := ig_sectors_meta db @ [m]\<rparr>) sp n \<longleftrightarrow>
    in_meta db sp n \<or> (sp, n) = (cc_sp_id m, cc_sector_num m)"
  by (auto simp: in_meta_def)

lemma tables_okD:
  assumes "tables_ok s"
  shows "in_pipeline (ig_db s) sp n \<Longrightarrow> n \<in> known s sp" "in_meta (ig_db s) sp n \<Longrightarrow> n \<in> known s sp"
    and "q \<in> set (ig_initial_pieces (ig_db s)) \<Longrightarrow> in_pipeline (ig_db s) (ip_sp_id q) (ip_sector_number q)"
    and "q \<in> set (sectors_snap_initial_pieces (ig_db s)) \<Longrightarrow> in_snap (ig_db s) (ip_sp_id q) (ip_sector_number q)"
  using assms unfolding tables_ok_def by blast+

lemma inv_no_data:
  assumes inv: "ingest_inv p s" and api: "api_ok p s api" and mid: "ig_IDFromAddress api maddr = Inr mid"
    and al: "AllocateSectorNumbers api maddr cnt (ig_db s) = Inr (nums, db')"
  shows "ingest_inv p (s\<lparr>ig_db := db'\<lparr>ig_pipeline := ig_pipeline db' @ map (\<lambda>n. new_pipeline_row mid n prf) nums\<rparr>\<rparr>)"
proof -
  note new = inv_allocate_numbers [OF inv api al mid]
  let ?s = "s\<lparr>ig_db := db'\<rparr>"
  let ?db = "db'\<lparr>ig_pipeline := ig_pipeline db' @ map (\<lambda>n. new_pipeline_row mid n prf) nums\<rparr>"
  have pipe: "in_pipeline ?db sp n \<longleftrightarrow> in_pipeline db' sp n \<or> sp = mid \<and> n \<in> set nums" for sp n
    by (auto simp: in_pipeline_key image_Un image_image)
  have tab: "tables_ok ?s" by (rule ingest_invD(2) [OF new(1)])
  have known': "known (s\<lparr>ig_db := ?db\<rparr>) = known ?s" by (simp add: known_def fun_eq_iff)
  have "tables_ok (s\<lparr>ig_db := ?db\<rparr>)"
    unfolding tables_ok_def known'
    using tables_okD [OF tab] new(2) pipe by (auto simp: known_def)
  then show ?thesis
  proof (rule inv_tables_change [OF new(1), rotated 2])
    fix q sp n assume row: "(q, False) \<in> set (rows_at sp n (ig_db ?s))"
      and out: "\<not> in_pipeline (ig_db ?s) sp n" "\<not> in_meta (ig_db ?s) sp n"
    have "\<not> (sp = mid \<and> n \<in> set nums)"
    proof
      assume "sp = mid \<and> n \<in> set nums"
      then have "pieces_at sp n db' = []" using new(2) by blast
      then show False using row by (auto simp: pieces_at_rows)
    qed
    then show "\<not> in_pipeline (ig_db (s\<lparr>ig_db := ?db\<rparr>)) sp n \<and> \<not> in_meta (ig_db (s\<lparr>ig_db := ?db\<rparr>)) sp n"
      using out pipe by simp
  qed simp_all
qed

lemma inv_new_meta:
  assumes inv: "ingest_inv p s" and kn: "cc_sector_num m \<in> known s (cc_sp_id m)"
    and out: "\<And>q. (q, False) \<in> set (rows_at (cc_sp_id m) (cc_sector_num m) (ig_db s)) \<Longrightarrow> False"
  shows "ingest_inv p (s\<lparr>ig_db := (ig_db s)\<lparr>ig_sectors_meta := ig_sectors_meta (ig_db s) @ [m]\<rparr>\<rparr>)"
proof (rule inv_tables_change [OF inv])
  show "tables_ok (s\<lparr>ig_db := (ig_db s)\<lparr>ig_sectors_meta := ig_sectors_meta (ig_db s) @ [m]\<rparr>\<rparr>)"
    using tables_okD [OF ingest_invD(2) [OF inv]] kn by (auto simp: tables_ok_def known_def in_meta_append)
qed (use out in \<open>auto simp: in_meta_append\<close>)

lemma inv_step:
  assumes "ingest_inv p s" "ingester_ok p" "distinct (map snd (pi_addToID p))" "ingest_step p s s'"
  shows "ingest_inv p s'"
  using assms(4)
proof cases
  case allocate
  then show ?thesis using inv_AllocatePieceToSector [OF assms(1,2)] by metis
next
  case allocate_snap
  then show ?thesis using inv_AllocatePieceToSector_snap [OF assms(1,2)] by metis
next
  case seal
  then show ?thesis using inv_Seal [OF assms(1,2) _ assms(3)] by metis
next
  case no_data
  then show ?thesis using inv_no_data [OF assms(1)] by metis
next
  case (pipeline rows ps)
  note tab = tables_okD [OF ingest_invD(2) [OF assms(1)]]
  have pipe: "in_pipeline (ig_db s') sp n \<Longrightarrow> in_pipeline (ig_db s) sp n" for sp n
    using pipeline(2) unfolding pipeline(1) in_pipeline_key by auto
  have "tables_ok s'"
    using tab(1,2,4) pipe pipeline(3) unfolding tables_ok_def pipeline(1) by (auto simp: known_def in_pipeline_key)
  then show ?thesis
    by (rule inv_tables_change [OF assms(1), rotated 2]) (use pipe in \<open>auto simp: pipeline(1)\<close>)
next
  case (snap_pipeline rows ps)
  note tab = tables_okD [OF ingest_invD(2) [OF assms(1)]]
  have pipe: "in_snap (ig_db s') sp n \<Longrightarrow> in_snap (ig_db s) sp n" for sp n
    using snap_pipeline(2) unfolding snap_pipeline(1) in_snap_key by auto
  have "tables_ok s'"
    using tab(1,2,3) snap_pipeline(3) unfolding tables_ok_def snap_pipeline(1) by (auto simp: known_def in_snap_key)
  then show ?thesis
    by (rule inv_tables_change [OF assms(1), rotated 2]) (use pipe in \<open>auto simp: snap_pipeline(1)\<close>)
next
  case (committed m)
  have "cc_sector_num m \<in> known s (cc_sp_id m)" by (rule tables_okD(1) [OF ingest_invD(2) [OF assms(1)] committed(2)])
  then show ?thesis unfolding committed(1)
  proof (rule inv_new_meta [OF assms(1)])
    fix q assume "(q, False) \<in> set (rows_at (cc_sp_id m) (cc_sector_num m) (ig_db s))"
    then have "place_ok (ig_db s) (q, False)" "of_sector (cc_sp_id m) (cc_sector_num m) q"
      using inv_sector(2) [OF assms(1)] by (auto simp: rows_at_open)
    then show False using committed(2) by (auto simp: place_ok_def Let_def of_sector_def)
  qed
next
  case (imported m)
  then have "cc_sector_num m \<in> known s (cc_sp_id m)" by (simp add: known_def)
  then show ?thesis unfolding imported(1) by (rule inv_new_meta [OF assms(1)]) (use imported(3) in simp)
next
  case (crawled ms)
  have meta: "in_meta (ig_db s') = in_meta (ig_db s)" unfolding crawled(1) by (simp add: in_meta_key fun_eq_iff crawled(2))
  have "tables_ok s'"
    using ingest_invD(2) [OF assms(1)] meta unfolding tables_ok_def known_def by (simp add: crawled(1))
  then show ?thesis
    by (rule inv_tables_change [OF assms(1), rotated 2]) (use meta in \<open>auto simp: crawled(1)\<close>)
next
  case (chain ch)
  have "tables_ok s'"
    using tables_okD [OF ingest_invD(2) [OF assms(1)]] chain(2) unfolding tables_ok_def chain(1) by (fastforce simp: known_def)
  then show ?thesis
    by (rule inv_tables_change [OF assms(1), rotated 2]) (auto simp: chain(1))
qed

lemma ingest_reachable_inv:
  assumes "ingest_reachable p s" "ingester_ok p" "distinct (map snd (pi_addToID p))"
  shows "ingest_inv p s"
  using assms(1)
proof induction
  case (init s)
  then show ?case by (simp add: ingest_inv_def first_index_def)
next
  case (step s s')
  then show ?case using inv_step [OF _ assms(2,3)] by blast
qed

section \<open>Properties\<close>



lemma AllocateSectorNumbers_facts:
  assumes "AllocateSectorNumbers api maddr cnt db = Inr (nums, db')"
    and "ig_IDFromAddress api maddr = Inr mid" "ig_MinerAllocated api maddr = Inr ch"
  shows "length nums = cnt" "sorted_wrt (<) nums" "set nums \<inter> (set ch \<union> allocated db mid) = {}"
    and "0 \<le> m \<Longrightarrow> m < x \<Longrightarrow> x \<in> set nums \<Longrightarrow> m \<notin> set ch \<union> allocated db mid \<Longrightarrow> m \<in> set nums"
    and "allocated db' = (allocated db)(mid := set ch \<union> allocated db mid \<union> set nums)"
proof -
  let ?used = "ch @ (case sectors_allocated_numbers db mid of None \<Rightarrow> [] | Some a \<Rightarrow> a)"
  let ?free = "filter (\<lambda>m. m \<notin> set ?used) [0..MaxSectorNumber - 1]"
  have nums: "nums = assignable ?used 0 cnt" and len: "length nums = cnt"
    and free: "set nums \<inter> (set ch \<union> allocated db mid) = {}"
    and db': "db' = db\<lparr>sectors_allocated_numbers := (sectors_allocated_numbers db)(mid \<mapsto> ?used @ nums)\<rparr>"
    using AllocateSectorNumbers_Inr [OF assms(1)] assms(2,3) by (metis sum.inject(2))+
  have used: "set ?used = set ch \<union> allocated db mid" by (simp add: allocated_def split: option.splits)
  have nums': "nums = take cnt ?free" unfolding nums by (rule assignable_eq)
  have sorted: "sorted_wrt (<) ?free" by (rule sorted_wrt_filter) (simp add: strict_sorted_iff)
  show "length nums = cnt" by (rule len)
  show "sorted_wrt (<) nums" unfolding nums' using sorted by (rule sorted_wrt_take)
  show "set nums \<inter> (set ch \<union> allocated db mid) = {}" by (rule free)
  show "allocated db' = (allocated db)(mid := set ch \<union> allocated db mid \<union> set nums)"
    unfolding db' using used by (auto simp: allocated_def fun_eq_iff)
  show "m \<in> set nums" if m: "0 \<le> m" "m < x" "x \<in> set nums" "m \<notin> set ch \<union> allocated db mid"
  proof (rule ccontr)
    assume out: "m \<notin> set nums"
    have x: "x \<in> set ?free" using m(3) unfolding nums' by (rule in_set_takeD)
    then have "m \<in> set ?free" using m used by simp
    then have "m \<in> set (drop cnt ?free)" using out unfolding nums' by (metis UnE append_take_drop_id set_append)
    moreover have "sorted_wrt (<) (take cnt ?free @ drop cnt ?free)" using sorted by simp
    ultimately have "x < m" using m(3) unfolding nums' sorted_wrt_append by blast
    then show False using m(2) by simp
  qed
qed

text \<open>
  C21: The numbers given out are the lowest that neither the chain nor an earlier call has used, and
  they are recorded as used.
\<close>

theorem AllocateSectorNumbers_unused:
  assumes "AllocateSectorNumbers api maddr cnt db = Inr (nums, db')"
    and "ig_IDFromAddress api maddr = Inr mid" "ig_MinerAllocated api maddr = Inr ch"
  shows "length nums = cnt \<and> sorted_wrt (<) nums \<and> set nums \<inter> (set ch \<union> allocated db mid) = {} \<and>
    (\<forall>x\<in>set nums. {0..x} \<subseteq> set ch \<union> allocated db mid \<union> set nums) \<and>
    allocated db' = (allocated db)(mid := set ch \<union> allocated db mid \<union> set nums)"
  using AllocateSectorNumbers_facts [OF assms] by (auto simp: le_less)

section \<open>An example run\<close>

definition ex_api :: ingest_api where
  "ex_api = \<lparr>ig_ChainHead = Inr 100, ig_MinerAllocated = \<lambda>_. Inr [0],
     ig_GetAllocation = \<lambda>_ _. Inr (Some (1000, 2000)), ig_AllocationForPendingDeal = \<lambda>_. Inr None,
     ig_AllocationIdForPendingDeal = \<lambda>_. Inr 0, ig_LookupID = Inr,
     ig_SectorGetInfo = \<lambda>_ _. Inr (Some \<lparr>soc_Expiration = 9000, soc_SealProof = 8\<rparr>),
     ig_SectorPartition = \<lambda>_ _. Inr (5, 0),
     ig_MinerPartitions = \<lambda>_ _. Inr [\<lparr>part_Active = \<lambda>_. Inr True, part_Live = \<lambda>_. Inr True, part_Faulty = \<lambda>_. Inr False,
        part_Recovering = \<lambda>_. Inr False\<rparr>],
     ig_ProvingDeadline = \<lambda>_. Inr \<lparr>dl_Index = 1, dl_PeriodDeadlines = 48, dl_CurrentEpoch = 100, dl_Open = 90, dl_ProvingPeriod = 2880\<rparr>,
     ig_IDFromAddress = \<lambda>a. if a = ''m'' then Inr 1 else Inl ''no ID'', ig_NewIDAddress = \<lambda>_. Inr ''c'',
     ig_PaddedSize = \<lambda>raw. if raw \<le> 508 then 512 else if raw \<le> 1016 then 1024 else if raw \<le> 2032 then 2048 else 4096,
     ig_PieceCID = \<lambda>deal. case di_DealProposal deal of Some dp \<Rightarrow> dp_PieceCID dp
       | None \<Rightarrow> (case di_Manifest deal of Some am \<Rightarrow> am_CID am | None \<Rightarrow> []),
     ig_Size = \<lambda>deal. case di_DealProposal deal of Some dp \<Rightarrow> dp_PieceSize dp
       | None \<Rightarrow> (case di_Manifest deal of Some am \<Rightarrow> am_Size am | None \<Rightarrow> 0),
     ig_HeaderJson = Inr, ig_ProposalJson = \<lambda>_. Inr ''p'', ig_ManifestJson = \<lambda>_. Inr ''a'', ig_DealIDCbor = \<lambda>_. Inr ''d'',
     ig_MarketAddress = ''f05''\<rparr>"

definition ex_ingester :: PieceIngester where
  "ex_ingester = \<lparr>pi_addToID = [(''m'', 1)],
     pi_minerDetails = [1 \<mapsto> \<lparr>md_sealProof = 8, md_updateProof = 3, md_sectorSize = 2048\<rparr>],
     pi_maxWaitTime = 3600 * second, pi_expectedDuration = 10\<rparr>"

definition ex_deal :: "string \<Rightarrow> uint64 \<Rightarrow> int \<Rightarrow> int \<Rightarrow> (int \<times> int) option \<Rightarrow> PieceDealInfo" where
  "ex_deal cid sz e1 e2 key = \<lparr>di_DealProposal = None,
     di_Manifest = Some \<lparr>am_CID = cid, am_Size = sz, am_VerifiedAllocationKey = key, am_Notify = []\<rparr>, di_DealID = 0,
     di_PublishCid = None, di_StartEpoch = e1, di_EndEpoch = e2, di_KeepUnsealed = False\<rparr>"

definition ex_meta :: cc_meta_row where
  "ex_meta = \<lparr>cc_sp_id = 1, cc_sector_num = 0, cc_reg_seal_proof = 8, cc_is_cc = True, cc_is_live = True,
     cc_is_faulty = False, cc_expiration_epoch = Some 9000, cc_deadline = Some 5\<rparr>"

definition ex_empty :: ingest_db where
  "ex_empty = \<lparr>open_sector_pieces = [], ig_pipeline = [], ig_initial_pieces = [], sectors_snap_pipeline = [],
     sectors_snap_initial_pieces = [], sectors_allocated_numbers = Map.empty, ig_sectors_meta = [ex_meta]\<rparr>"

definition ex_assign :: "PieceDealInfo \<Rightarrow> int \<Rightarrow> ingest_db \<Rightarrow> ingest_db" where
  "ex_assign deal raw db = snd (projr (AllocatePieceToSector ex_api ex_ingester id ''m'' deal raw ''url'' ''h'' 7 db))"

definition ex_assign_snap :: "PieceDealInfo \<Rightarrow> int \<Rightarrow> ingest_db \<Rightarrow> ingest_db" where
  "ex_assign_snap deal raw db = snd (projr (AllocatePieceToSector_snap ex_api ex_ingester id ''m'' deal raw ''url'' ''h'' 7 db))"

abbreviation ex_a :: PieceDealInfo where "ex_a \<equiv> ex_deal ''a'' 512 500 5000 None"
abbreviation ex_b :: PieceDealInfo where "ex_b \<equiv> ex_deal ''b'' 1024 400 4000 None"

definition ex_sys :: "ingest_db \<Rightarrow> ingest_sys" where
  "ex_sys db = \<lparr>ig_db = db, ig_chain = \<lambda>_. {0}\<rparr>"

lemma ex_sys_update [simp]: "ig_db (ex_sys db) = db" "(ex_sys db)\<lparr>ig_db := db'\<rparr> = ex_sys db'"
  by (simp_all add: ex_sys_def)

lemma ex_facts: "ingester_ok ex_ingester" "distinct (map snd (pi_addToID ex_ingester))" "orders id" "api_ok ex_ingester (ex_sys db) ex_api"
  by (auto simp: ingester_ok_def ex_ingester_def orders_def api_ok_def ex_api_def ex_sys_def split: option.splits if_splits)

lemma ex_deal_ok: "0 < e1 \<Longrightarrow> sz \<le> 2048 \<Longrightarrow> deal_ok ex_ingester ''m'' (ex_deal cid sz e1 e2 key)"
  by (simp add: deal_ok_def ex_deal_def ex_ingester_def piece_size_def)

lemma ex_ingest_start: "ingest_reachable ex_ingester (ex_sys ex_empty)"
  by (rule ingest_reachable.init)
    (auto simp: ex_empty_def tables_ok_def in_pipeline_def in_meta_def known_def ex_meta_def ex_sys_def)

lemma ex_assign_step:
  assumes "ingest_reachable ex_ingester (ex_sys db)" "0 < e1" "sz \<le> 2048"
    and "\<not> isl (AllocatePieceToSector ex_api ex_ingester id ''m'' (ex_deal cid sz e1 e2 key) raw ''url'' ''h'' 7 db)"
  shows "ingest_reachable ex_ingester (ex_sys (ex_assign (ex_deal cid sz e1 e2 key) raw db))"
proof -
  obtain r db' where res: "AllocatePieceToSector ex_api ex_ingester id ''m'' (ex_deal cid sz e1 e2 key) raw ''url'' ''h'' 7 db = Inr (r, db')"
    using assms(4) by (cases "AllocatePieceToSector ex_api ex_ingester id ''m'' (ex_deal cid sz e1 e2 key) raw ''url'' ''h'' 7 db") auto
  have "ingest_step ex_ingester (ex_sys db) ((ex_sys db)\<lparr>ig_db := db'\<rparr>)"
    by (rule ingest_step.allocate [OF ex_facts(4,3) ex_deal_ok [OF assms(2,3)]]) (unfold ex_sys_update, rule res)
  then show ?thesis using ingest_reachable.step [OF assms(1)] res by (simp add: ex_assign_def)
qed

definition ex_two :: ingest_db where
  "ex_two = ex_assign ex_b 1016 (ex_assign ex_a 508 ex_empty)"

lemma ex_two_reachable: "ingest_reachable ex_ingester (ex_sys ex_two)"
  unfolding ex_two_def by (intro ex_assign_step ex_ingest_start) (simp_all, code_simp+)

lemma ex_two_row: "\<exists>q. (q, False) \<in> set (rows_at 1 1 ex_two)"
proof -
  have "\<exists>x\<in>set (rows_at 1 1 ex_two). \<not> snd x" by code_simp
  then show ?thesis by auto
qed



theorem AllocateSectorNumbers_unused_witness:
  "\<exists>db'. AllocateSectorNumbers ex_api ''m'' 2 ex_two = Inr ([2, 3], db') \<and> {0, 1, 2, 3} \<subseteq> allocated db' 1 \<and> allocated ex_two 1 = {0, 1}"
proof -
  have "fst (projr (AllocateSectorNumbers ex_api ''m'' 2 ex_two)) = [2, 3] \<and> \<not> isl (AllocateSectorNumbers ex_api ''m'' 2 ex_two)"
    by code_simp
  then obtain db' where res: "AllocateSectorNumbers ex_api ''m'' 2 ex_two = Inr ([2, 3], db')"
    by (cases "AllocateSectorNumbers ex_api ''m'' 2 ex_two") auto
  have api: "ig_IDFromAddress ex_api ''m'' = Inr 1" "ig_MinerAllocated ex_api ''m'' = Inr [0]" by (simp_all add: ex_api_def)
  have old: "allocated ex_two 1 = {0, 1}" by code_simp
  then show ?thesis using AllocateSectorNumbers_unused [OF res api] res by auto
qed

section \<open>Where the code differs from its comments\<close>

text \<open>
  The term of the allocation of a verified deal never keeps it out of an open sector: with a
  minimal term below the maximal one the deal is treated like an unverified one, although the
  minimal term must fit into the life of the sector and the maximal term must cover it.
\<close>

theorem verified_term_ignored:
  assumes "tmin < tmax"
  shows "to_existing dup psize ssize (Some (tmin, tmax)) ins ss = to_existing dup psize ssize None ins ss"
proof -
  have "\<not> term_rejects (Some (tmin, tmax)) life" for life using assms by (simp add: term_rejects_def)
  moreover have "\<not> term_rejects None life" for life by (simp add: term_rejects_def)
  ultimately show ?thesis by (induction ss) simp_all
qed

theorem verified_term_ignored_witness:
  "to_existing (\<lambda>_. False) 512 2048 (Some (1000, 2000)) (\<lambda>s. Inr ex_two) (getOpenSectors False 1 ex_two)
     = to_existing (\<lambda>_. False) 512 2048 None (\<lambda>s. Inr ex_two) (getOpenSectors False 1 ex_two) \<and>
   map (\<lambda>s. os_latestEndEpoch s - os_earliestStartEpoch s) (getOpenSectors False 1 ex_two) = [4600]"
proof
  show "to_existing (\<lambda>_. False) 512 2048 (Some (1000, 2000)) (\<lambda>s. Inr ex_two) (getOpenSectors False 1 ex_two)
     = to_existing (\<lambda>_. False) 512 2048 None (\<lambda>s. Inr ex_two) (getOpenSectors False 1 ex_two)"
    by (rule verified_term_ignored) simp
  show "map (\<lambda>s. os_latestEndEpoch s - os_earliestStartEpoch s) (getOpenSectors False 1 ex_two) = [4600]" by code_simp
qed

text \<open>
  A piece for an update joins an open sector without a look at the expiration of the sector: a
  deal that ends in epoch 20000 is put into a sector that expires in epoch 9000.
\<close>

theorem snap_piece_outlives_sector:
  "let db = ex_assign_snap (ex_deal ''a'' 512 500 5000 None) 508 ex_empty;
       res = AllocatePieceToSector_snap ex_api ex_ingester id ''m'' (ex_deal ''b'' 512 500 20000 None) 508 ''url'' ''h'' 7 db
   in map os_number (getOpenSectors True 1 db) = [0] \<and> ig_SectorGetInfo ex_api ''m'' 0 = Inr (Some \<lparr>soc_Expiration = 9000, soc_SealProof = 8\<rparr>) \<and>
      \<not> isl res \<and> fst (projr res) = (0, 8)"
  unfolding Let_def by (intro conjI; code_simp)

text \<open>The end of an open sector is the end of its first piece, not the latest.\<close>

lemma latest_end_is_not_latest:
  "let db = ex_assign ex_a 508 (ex_assign ex_b 1016 ex_empty)
   in map os_latestEndEpoch (getOpenSectors False 1 db) = [4000] \<and> map deal_end_epoch (select_open False 1 db) = [5000, 4000]"
  unfolding Let_def by (intro conjI; code_simp)

text \<open>A piece that is larger than a sector opens a new sector all the same.\<close>

lemma oversized_piece_accepted:
  "let db = ex_assign (ex_deal ''x'' 4096 500 5000 None) 4000 ex_empty
   in total_size (pieces_at 1 1 db) = 4096 \<and> md_sectorSize (the (pi_minerDetails ex_ingester 1)) = 2048"
  unfolding Let_def by (intro conjI; code_simp)

text \<open>The rows \<open>Seal\<close> inserts are new sectors in the sense of the sealing pipeline.\<close>

lemma new_pipeline_row_new_sector: "new_sector (new_pipeline_row sp n prf)"
  by (simp add: new_sector_def new_pipeline_row_def task_columns_def numeral_eq_Suc)

end
