(* ===== verification/DealData.thy ===== *)
theory DealData
  imports IngestSeal
begin

unbundle bit_operations_syntax

text \<open>
  The data of a sector (\<open>lib/dealdata/dealdata.go\<close>) and the padding at its end
  (\<open>lib/filler/filler.go\<close>): the pieces in order of their index, zero pieces in front of a piece
  that would not be aligned, and zero pieces for what is left of the sector.

  The piece sizes of the node's libraries are parameters: \<open>pad\<close> and \<open>unpad\<close> convert between sizes
  with and without the Fr32 padding, \<open>required\<close> returns the padding needed in front of a piece.
\<close>

section \<open>Filling the end of a sector\<close>

definition OnesCount64 :: "uint64 \<Rightarrow> nat" where
  "OnesCount64 w = length (filter (bit w) [0..<64])"

definition TrailingZeros64 :: "uint64 \<Rightarrow> nat" where
  "TrailingZeros64 w = length (takeWhile (\<lambda>i. \<not> bit w i) [0..<64])"

fun fill_loop :: "nat \<Rightarrow> uint64 \<Rightarrow> uint64 list" where
  "fill_loop 0 toFill = []"
| "fill_loop (Suc n) toFill =
     (let psize = push_bit (TrailingZeros64 toFill) 1 in psize # fill_loop n (toFill XOR psize))"

definition FillersFromRem :: "(uint64 \<Rightarrow> uint64) \<Rightarrow> uint64 \<Rightarrow> uint64 list" where
  "FillersFromRem unpad inn =
     (let toFill = inn + inn div 127 in map unpad (fill_loop (OnesCount64 toFill) toFill))"

section \<open>The pieces of a sector\<close>

record dealMetadata =
  dm_PieceIndex :: int
  dm_PieceCID :: string
  dm_PieceSize :: uint64
  dm_DataUrl :: "string option"
  dm_DataHeaders :: string
  dm_DataRawSize :: int
  dm_DataDelOnFinalize :: bool

datatype reader = NullReader uint64 | PieceReader int int | UrlReader string string int

record DealData =
  dd_CommD :: string
  dd_Data :: "reader list"
  dd_IsUnpadded :: bool
  dd_PieceInfos :: "(uint64 \<times> string) list"
  dd_KeepUnsealed :: bool

record data_env =
  de_Padded :: "uint64 \<Rightarrow> uint64"
  de_Unpadded :: "uint64 \<Rightarrow> uint64"
  de_GetRequiredPadding :: "uint64 \<Rightarrow> uint64 \<Rightarrow> uint64 list \<times> uint64"
  de_SectorSize :: "int \<Rightarrow> string + uint64"
  de_ParseCid :: "string \<Rightarrow> string + string"
  de_ZeroPieceCommitment :: "uint64 \<Rightarrow> string"
  de_PieceAggregateCommP :: "int \<Rightarrow> (uint64 \<times> string) list \<Rightarrow> string + string"
  de_ParseUrl :: "string \<Rightarrow> string + (string \<times> string)"
  de_ParseHeaders :: "string \<Rightarrow> string + string"
  de_ParseInt :: "string \<Rightarrow> string + int"
  de_OpenPiece :: "int \<Rightarrow> string + unit"

definition meta_of_piece :: "init_piece \<Rightarrow> dealMetadata" where
  "meta_of_piece q = \<lparr>dm_PieceIndex = ip_piece_index q, dm_PieceCID = ip_piece_cid q, dm_PieceSize = ip_piece_size q,
     dm_DataUrl = Some (ip_data_url q), dm_DataHeaders = ip_data_headers q, dm_DataRawSize = ip_data_raw_size q,
     dm_DataDelOnFinalize = ip_data_delete_on_finalize q\<rparr>"

definition select_pieces :: "int \<Rightarrow> int \<Rightarrow> init_piece list \<Rightarrow> dealMetadata list" where
  "select_pieces sp n ps = map meta_of_piece (sort_key ip_piece_index (filter (of_sector sp n) ps))"

text \<open>Where the data of a piece comes from; \<open>refs\<close> is \<open>parked_piece_refs\<close> (reference and piece).\<close>

definition piece_reader :: "data_env \<Rightarrow> (int \<times> int) list \<Rightarrow> dealMetadata \<Rightarrow> string + reader" where
  "piece_reader env refs p =
     (case dm_DataUrl p of
        None \<Rightarrow> Inr (NullReader (de_Unpadded env (dm_PieceSize p)))
      | Some url \<Rightarrow>
          rbind (de_ParseUrl env url) (\<lambda>(scheme, rest).
          rbind (de_ParseHeaders env (dm_DataHeaders p)) (\<lambda>hdrs.
          if scheme = ''pieceref'' then
            rbind (de_ParseInt env rest) (\<lambda>refNum.
            case filter (\<lambda>r. fst r = refNum) refs of
              [(_, pieceID)] \<Rightarrow> rbind (de_OpenPiece env pieceID) (\<lambda>_. Inr (PieceReader pieceID (dm_DataRawSize p)))
            | _ \<Rightarrow> Inl ''expected 1 pieceID'')
          else Inr (UrlReader url hdrs (dm_DataRawSize p)))))"

definition zero_piece :: "data_env \<Rightarrow> uint64 \<Rightarrow> uint64 \<times> string" where
  "zero_piece env size_p = (size_p, de_ZeroPieceCommitment env (de_Unpadded env size_p))"

fun lay_pieces ::
  "data_env \<Rightarrow> (int \<times> int) list \<Rightarrow> bool \<Rightarrow> dealMetadata list \<Rightarrow> uint64 \<Rightarrow>
   string + (uint64 \<times> string) list \<times> reader list \<times> uint64" where
  "lay_pieces env refs commDOnly [] offset = Inr ([], [], offset)"
| "lay_pieces env refs commDOnly (p # ps) offset =
     rbind (de_ParseCid env (dm_PieceCID p)) (\<lambda>c.
       let (pads, padLength) = de_GetRequiredPadding env (de_Padded env offset) (dm_PieceSize p);
           offset' = offset + de_Unpadded env padLength + de_Unpadded env (dm_PieceSize p)
       in rbind (if commDOnly then Inr [] else rbind (piece_reader env refs p) (\<lambda>r. Inr [r])) (\<lambda>rs.
          rbind (lay_pieces env refs commDOnly ps offset') (\<lambda>(infos, readers, end_offset).
          Inr (map (zero_piece env) pads @ (dm_PieceSize p, c) # infos,
               map (\<lambda>z. NullReader (de_Unpadded env z)) pads @ rs @ readers, end_offset))))"

definition getDealMetadata ::
  "data_env \<Rightarrow> (int \<times> int) list \<Rightarrow> int \<Rightarrow> dealMetadata list \<Rightarrow> bool \<Rightarrow> string + DealData" where
  "getDealMetadata env refs spt pieces commDOnly =
     rbind (de_SectorSize env spt) (\<lambda>ssize.
     if pieces \<noteq> [] then
       rbind (lay_pieces env refs commDOnly pieces 0) (\<lambda>(infos, readers, offset).
         let fil = FillersFromRem (de_Unpadded env) (de_Unpadded env ssize - offset);
             allInfos = infos @ map (\<lambda>f. (de_Padded env f, de_ZeroPieceCommitment env f)) fil
         in rbind (de_PieceAggregateCommP env spt allInfos) (\<lambda>commD.
            Inr \<lparr>dd_CommD = commD, dd_Data = readers @ map NullReader fil, dd_IsUnpadded = True, dd_PieceInfos = allInfos,
                 dd_KeepUnsealed = (\<exists>p\<in>set pieces. \<not> dm_DataDelOnFinalize p)\<rparr>))
     else
       let commD = de_ZeroPieceCommitment env (de_Unpadded env ssize)
       in Inr \<lparr>dd_CommD = commD, dd_Data = (if commDOnly then [] else [NullReader ssize]), dd_IsUnpadded = False,
               dd_PieceInfos = [(ssize, commD)], dd_KeepUnsealed = False\<rparr>)"

definition DealDataSDRPoRep :: "data_env \<Rightarrow> (int \<times> int) list \<Rightarrow> int \<Rightarrow> int \<Rightarrow> int \<Rightarrow> bool \<Rightarrow> ingest_db \<Rightarrow> string + DealData" where
  "DealDataSDRPoRep env refs sp n spt commDOnly db =
     getDealMetadata env refs spt (select_pieces sp n (ig_initial_pieces db)) commDOnly"

definition DealDataSnap :: "data_env \<Rightarrow> (int \<times> int) list \<Rightarrow> int \<Rightarrow> int \<Rightarrow> int \<Rightarrow> ingest_db \<Rightarrow> string + DealData" where
  "DealDataSnap env refs sp n spt db =
     getDealMetadata env refs spt (select_pieces sp n (sectors_snap_initial_pieces db)) False"

text \<open>The commitment from \<open>sectors_meta\<close> and \<open>sectors_meta_pieces\<close>, whose rows are (number, CID, size).\<close>

definition UnsealedCidFromPieces :: "data_env \<Rightarrow> int list \<Rightarrow> (int \<times> string \<times> uint64) list \<Rightarrow> string + string" where
  "UnsealedCidFromPieces env sectorParams rows =
     (case sectorParams of
        [spt] \<Rightarrow>
          rbind (getDealMetadata env [] spt
            (map (\<lambda>(num, cid, size_p). \<lparr>dm_PieceIndex = num, dm_PieceCID = cid, dm_PieceSize = size_p, dm_DataUrl = None,
                 dm_DataHeaders = [], dm_DataRawSize = 0, dm_DataDelOnFinalize = False\<rparr>) (sort_key fst rows)) True)
            (\<lambda>dd. Inr (dd_CommD dd))
      | _ \<Rightarrow> Inl ''expected 1 sector param'')"

section \<open>The fillers are the bits of the remaining size\<close>

lemma TrailingZeros64_bits:
  assumes "filter (bit w) [0..<64] = i # is"
  shows "TrailingZeros64 w = i"
proof -
  obtain us vs where xs: "[0..<64] = us @ i # vs" and us: "\<forall>u\<in>set us. \<not> bit w u" and i: "bit w i"
    using filter_eq_ConsD [OF assms] by blast
  have "length us < 64" using arg_cong [OF xs, of length] by simp
  then have "i = length us" using arg_cong [OF xs, of "\<lambda>zs. zs ! length us"] by simp
  moreover have "takeWhile (\<lambda>k. \<not> bit w k) (us @ i # vs) = us" using us i by (simp add: takeWhile_tail)
  ultimately show ?thesis by (simp add: TrailingZeros64_def xs)
qed

lemma bits_of_xor:
  fixes w :: uint64
  assumes "filter (bit w) [0..<64] = i # is"
  shows "filter (bit (w XOR push_bit i 1)) [0..<64] = is"
proof -
  have i: "i < 64" "bit w i" using assms by (metis atLeastLessThan_iff filter_eq_ConsD in_set_conv_decomp set_upt)+
  have "distinct (i # is)" unfolding assms [symmetric] by simp
  then have out: "i \<notin> set is" by simp
  have "filter (bit (w XOR push_bit i 1)) [0..<64] = filter (\<lambda>k. bit w k \<and> k \<noteq> i) [0..<64]"
    using i by (intro filter_cong) (auto simp: bit_xor_iff bit_exp_iff)
  also have "\<dots> = filter (\<lambda>k. k \<noteq> i) (i # is)" unfolding assms [symmetric] by (simp add: conj_commute)
  also have "\<dots> = is" using out by (auto simp: filter_id_conv)
  finally show ?thesis .
qed

lemma fill_loop_bits: "length (filter (bit w) [0..<64]) = n \<Longrightarrow> fill_loop n w = map (\<lambda>i. push_bit i 1) (filter (bit w) [0..<64])"
proof (induction n arbitrary: w)
  case (Suc n)
  then obtain i js where js: "filter (bit w) [0..<64] = i # js" by (cases "filter (bit w) [0..<64]") simp_all
  note rest = bits_of_xor [OF js]
  have "fill_loop n (w XOR push_bit i 1) = map (\<lambda>i. push_bit i 1) js" using Suc.IH rest Suc.prems js by simp
  then show ?case using TrailingZeros64_bits [OF js] js by (simp add: Let_def)
qed simp

lemma sum_of_bits: "(\<Sum>i\<leftarrow>filter (bit w) [0..<64]. 2 ^ i) = unat (w :: uint64)"
proof -
  have "(\<Sum>i\<leftarrow>filter (bit w) [0..<64]. 2 ^ i) = (\<Sum>i\<leftarrow>[0..<64]. if bit w i then 2 ^ i else 0 :: nat)"
    by (rule sum_list_map_filter')
  also have "\<dots> = (\<Sum>i = 0..<64. if bit w i then 2 ^ i else 0)" by (simp add: interv_sum_list_conv_sum_set_nat)
  also have "\<dots> = (\<Sum>i = 0..<64. push_bit i (of_bool (bit (unat w) i)))"
    by (intro sum.cong) (auto simp: bit_unsigned_iff push_bit_eq_mult dest: bit_imp_le_length)
  also have "\<dots> = take_bit 64 (unat w)" by (rule take_bit_sum [symmetric])
  also have "\<dots> = unat w" by (simp add: take_bit_nat_eq_self_iff) (use unsigned_less [where 'a = nat, of w] in simp)
  finally show ?thesis .
qed

section \<open>The layout of aligned pieces\<close>

text \<open>
  What the size functions promise: 127 bytes of data take 128 bytes in the sector, and a piece at a
  multiple of its size needs no padding.
\<close>

definition data_env_ok :: "data_env \<Rightarrow> bool" where
  "data_env_ok env \<longleftrightarrow>
     (\<forall>k<2 ^ 57. de_Unpadded env (of_nat (128 * k)) = of_nat (127 * k) \<and> de_Padded env (of_nat (127 * k)) = of_nat (128 * k)) \<and>
     (\<forall>off sz. sz \<noteq> 0 \<longrightarrow> unat sz dvd unat off \<longrightarrow> de_GetRequiredPadding env off sz = ([], 0))"

lemma data_env_okD:
  assumes "data_env_ok env"
  shows "k < 2 ^ 57 \<Longrightarrow> de_Unpadded env (of_nat (128 * k)) = of_nat (127 * k)"
    and "k < 2 ^ 57 \<Longrightarrow> de_Padded env (of_nat (127 * k)) = of_nat (128 * k)"
    and "sz \<noteq> 0 \<Longrightarrow> unat sz dvd unat off \<Longrightarrow> de_GetRequiredPadding env off sz = ([], 0)"
    and "de_Unpadded env 0 = 0"
proof -
  show "k < 2 ^ 57 \<Longrightarrow> de_Unpadded env (of_nat (128 * k)) = of_nat (127 * k)"
    "k < 2 ^ 57 \<Longrightarrow> de_Padded env (of_nat (127 * k)) = of_nat (128 * k)"
    "sz \<noteq> 0 \<Longrightarrow> unat sz dvd unat off \<Longrightarrow> de_GetRequiredPadding env off sz = ([], 0)"
    using assms unfolding data_env_ok_def by blast+
  have "de_Unpadded env (of_nat (128 * 0)) = of_nat (127 * 0)" using assms unfolding data_env_ok_def by (metis zero_less_numeral zero_less_power)
  then show "de_Unpadded env 0 = 0" by simp
qed

lemma unat_of_nat_small: "n < 2 ^ 64 \<Longrightarrow> unat (of_nat n :: uint64) = n"
  by (simp add: unsigned_of_nat take_bit_nat_eq_self_iff)

lemma word_of_unat: "unat (w :: uint64) = n \<Longrightarrow> w = of_nat n"
  by auto

lemma toFill_eq:
  assumes "k < 2 ^ 57"
  shows "(of_nat (127 * k) :: uint64) + of_nat (127 * k) div 127 = of_nat (128 * k)"
proof -
  have "unat ((of_nat (127 * k) :: uint64) div 127) = k"
    using assms by (simp add: unat_div unat_of_nat_small del: of_nat_mult)
  then have "(of_nat (127 * k) :: uint64) div 127 = of_nat k" by (rule word_of_unat)
  then show ?thesis by (simp add: algebra_simps)
qed

lemma bit_multiple_128:
  assumes "bit (of_nat (128 * k) :: uint64) i"
  shows "7 \<le> i" "i < 64"
proof -
  show "i < 64" using bit_imp_le_length [OF assms] by simp
  have "bit (push_bit 7 (of_nat k :: uint64)) i" using assms by (simp add: push_bit_eq_mult ac_simps)
  then show "7 \<le> i" by (simp add: bit_push_bit_iff)
qed

lemma filler_sizes:
  assumes env: "data_env_ok env" and k: "k < 2 ^ 57"
  shows "map (\<lambda>f. unat (de_Padded env f)) (FillersFromRem (de_Unpadded env) (of_nat (127 * k)))
    = map ((^) 2) (filter (bit (of_nat (128 * k) :: uint64)) [0..<64])"
proof -
  let ?w = "of_nat (128 * k) :: uint64"
  let ?bits = "filter (bit ?w) [0..<64]"
  have fil: "FillersFromRem (de_Unpadded env) (of_nat (127 * k)) = map (de_Unpadded env) (map (\<lambda>i. push_bit i 1) ?bits)"
    unfolding FillersFromRem_def toFill_eq [OF k] Let_def OnesCount64_def by (simp only: fill_loop_bits)
  have one: "unat (de_Padded env (de_Unpadded env (push_bit i 1))) = 2 ^ i" if i: "i \<in> set ?bits" for i
  proof -
    have lim: "7 \<le> i" "i < 64" using i bit_multiple_128 by auto
    from lim(1) obtain j where j: "i = 7 + j" by (auto simp: le_iff_add)
    have "j < 57" using lim(2) j by simp
    have small: "(2 :: nat) ^ j < 2 ^ 57" using \<open>j < 57\<close> by (intro power_strict_increasing) auto
    have "push_bit i (1 :: uint64) = of_nat (128 * 2 ^ j)" unfolding j by (simp add: power_add)
    moreover have "128 * (2 :: nat) ^ j < 2 ^ 64" using small by simp
    ultimately show ?thesis
      using data_env_okD(1,2) [OF env small] unat_of_nat_small [of "128 * 2 ^ j"] j by (simp add: power_add)
  qed
  show ?thesis unfolding fil map_map by (intro map_cong refl) (simp only: o_def one)
qed

lemma fillers_fill:
  assumes env: "data_env_ok env" and k: "k < 2 ^ 57"
  shows "(\<Sum>f\<leftarrow>FillersFromRem (de_Unpadded env) (of_nat (127 * k)). unat (de_Padded env f)) = 128 * k"
    and "f \<in> set (FillersFromRem (de_Unpadded env) (of_nat (127 * k))) \<Longrightarrow> \<exists>i\<ge>7. unat (de_Padded env f) = 2 ^ i"
proof -
  let ?bits = "filter (bit (of_nat (128 * k) :: uint64)) [0..<64]"
  have "(\<Sum>f\<leftarrow>FillersFromRem (de_Unpadded env) (of_nat (127 * k)). unat (de_Padded env f)) = (\<Sum>i\<leftarrow>?bits. 2 ^ i)"
    unfolding filler_sizes [OF env k] ..
  also have "\<dots> = unat (of_nat (128 * k) :: uint64)" by (rule sum_of_bits)
  also have "\<dots> = 128 * k" using k by (intro unat_of_nat_small) simp
  finally show "(\<Sum>f\<leftarrow>FillersFromRem (de_Unpadded env) (of_nat (127 * k)). unat (de_Padded env f)) = 128 * k" .
  show "\<exists>i\<ge>7. unat (de_Padded env f) = 2 ^ i" if f: "f \<in> set (FillersFromRem (de_Unpadded env) (of_nat (127 * k)))"
  proof -
    have "unat (de_Padded env f) \<in> set (map ((^) 2) ?bits)" unfolding filler_sizes [OF env k, symmetric] using f by auto
    then show ?thesis using bit_multiple_128(1) by auto
  qed
qed

text \<open>Pieces whose sizes divide the sizes of the pieces before them follow each other without gaps.\<close>

lemma lay_pieces_aligned:
  assumes env: "data_env_ok env"
    and cids: "\<forall>p\<in>set ps. de_ParseCid env (dm_PieceCID p) = Inr (pc p)"
    and readers: "commDOnly \<or> (\<forall>p\<in>set ps. piece_reader env refs p = Inr (rd p))"
    and sizes: "\<forall>p\<in>set ps. dm_PieceSize p \<noteq> 0 \<and> 128 dvd unat (dm_PieceSize p) \<and> unat (dm_PieceSize p) dvd 128 * K"
    and sorted: "sorted_wrt (\<lambda>p q. unat (dm_PieceSize q) dvd unat (dm_PieceSize p)) ps"
    and room: "128 * K + (\<Sum>p\<leftarrow>ps. unat (dm_PieceSize p)) < 2 ^ 63"
  shows "lay_pieces env refs commDOnly ps (of_nat (127 * K)) =
    Inr (map (\<lambda>p. (dm_PieceSize p, pc p)) ps, if commDOnly then [] else map rd ps,
         of_nat (127 * (K + (\<Sum>p\<leftarrow>ps. unat (dm_PieceSize p) div 128))))"
  using cids readers sizes sorted room
proof (induction ps arbitrary: K)
  case (Cons p ps)
  obtain c where c: "unat (dm_PieceSize p) = 128 * c" using Cons.prems(3) by (auto simp: dvd_def)
  have lim: "K < 2 ^ 57" "c < 2 ^ 57" using Cons.prems(5) c by simp_all
  have size: "dm_PieceSize p = of_nat (128 * c)" using c by (rule word_of_unat)
  have off: "de_Padded env (of_nat (127 * K)) = of_nat (128 * K)" by (rule data_env_okD(2) [OF env lim(1)])
  have pads: "de_GetRequiredPadding env (of_nat (128 * K)) (dm_PieceSize p) = ([], 0)"
    using Cons.prems(3,5) by (intro data_env_okD(3) [OF env]) (simp_all add: unat_of_nat_small del: of_nat_mult)
  have unp: "de_Unpadded env (dm_PieceSize p) = of_nat (127 * c)" unfolding size by (rule data_env_okD(1) [OF env lim(2)])
  have next_off: "of_nat (127 * K) + de_Unpadded env 0 + de_Unpadded env (dm_PieceSize p) = of_nat (127 * (K + c))"
    unfolding unp data_env_okD(4) [OF env] by (simp add: algebra_simps)
  have "lay_pieces env refs commDOnly ps (of_nat (127 * (K + c))) =
    Inr (map (\<lambda>p. (dm_PieceSize p, pc p)) ps, if commDOnly then [] else map rd ps,
         of_nat (127 * (K + c + (\<Sum>p\<leftarrow>ps. unat (dm_PieceSize p) div 128))))"
  proof (rule Cons.IH)
    show "\<forall>q\<in>set ps. dm_PieceSize q \<noteq> 0 \<and> 128 dvd unat (dm_PieceSize q) \<and> unat (dm_PieceSize q) dvd 128 * (K + c)"
      using Cons.prems(3,4) c by (auto simp: distrib_left)
    show "128 * (K + c) + (\<Sum>p\<leftarrow>ps. unat (dm_PieceSize p)) < 2 ^ 63" using Cons.prems(5) c by simp
  qed (use Cons.prems in auto)
  moreover have "K + c + (\<Sum>p\<leftarrow>ps. unat (dm_PieceSize p) div 128) = K + (\<Sum>p\<leftarrow>p # ps. unat (dm_PieceSize p) div 128)"
    using c by simp
  ultimately show ?case
    using Cons.prems(1,2) by (auto simp: off pads next_off Let_def simp del: of_nat_mult of_nat_add sum_list.Cons)
qed simp

text \<open>A list of pieces that fit, each size dividing those before it, is filled up to the sector.\<close>

lemma getDealMetadata_aligned:
  assumes env: "data_env_ok env" and ssize: "de_SectorSize env spt = Inr ssize" "128 dvd unat ssize" "unat ssize < 2 ^ 63"
    and cids: "\<forall>p\<in>set ps. de_ParseCid env (dm_PieceCID p) = Inr (pc p)"
    and sizes: "\<forall>p\<in>set ps. \<exists>j\<ge>7. unat (dm_PieceSize p) = 2 ^ j"
    and sorted: "sorted_wrt (\<lambda>p q. unat (dm_PieceSize q) dvd unat (dm_PieceSize p)) ps"
    and room: "ps \<noteq> []" "(\<Sum>p\<leftarrow>ps. unat (dm_PieceSize p)) \<le> unat ssize"
    and agg: "\<And>infos. (\<Sum>i\<leftarrow>infos. unat (fst i)) = unat ssize \<Longrightarrow> \<forall>i\<in>set infos. \<exists>j\<ge>7. unat (fst i) = 2 ^ j \<Longrightarrow>
      \<not> isl (de_PieceAggregateCommP env spt infos)"
  shows "\<exists>dd fil. getDealMetadata env refs spt ps True = Inr dd \<and>
    dd_PieceInfos dd = map (\<lambda>p. (dm_PieceSize p, pc p)) ps @ fil \<and>
    (\<Sum>i\<leftarrow>dd_PieceInfos dd. unat (fst i)) = unat ssize"
proof -
  let ?fits = "\<Sum>p\<leftarrow>ps. unat (dm_PieceSize p) div 128"
  have pow: "128 dvd (2 :: nat) ^ j" if "7 \<le> j" for j using le_imp_power_dvd [OF that, of "2 :: nat"] by simp
  have each: "dm_PieceSize p \<noteq> 0 \<and> 128 dvd unat (dm_PieceSize p)" if p: "p \<in> set ps" for p
  proof -
    obtain j where j: "7 \<le> j" "unat (dm_PieceSize p) = 2 ^ j" using sizes p by blast
    then have "dm_PieceSize p \<noteq> 0" by (metis power_not_zero unat_eq_zero zero_neq_numeral)
    then show ?thesis using pow j by simp
  qed
  have "128 * (\<Sum>p\<leftarrow>qs. unat (dm_PieceSize p) div 128) = (\<Sum>p\<leftarrow>qs. unat (dm_PieceSize p))" if "set qs \<subseteq> set ps" for qs
    using that each by (induction qs) (auto simp: distrib_left)
  then have total: "128 * ?fits = (\<Sum>p\<leftarrow>ps. unat (dm_PieceSize p))" by blast
  obtain S where S: "unat ssize = 128 * S" using ssize(2) by (auto simp: dvd_def)
  then have le: "?fits \<le> S" using room(2) total by linarith
  have lim: "S < 2 ^ 57" using ssize(3) unfolding S by simp
  have lay: "lay_pieces env refs True ps 0 = Inr (map (\<lambda>p. (dm_PieceSize p, pc p)) ps, [], of_nat (127 * ?fits))"
    using lay_pieces_aligned [OF env cids, of True refs undefined 0] each sorted room(2) ssize(3) by simp
  have "de_Unpadded env ssize = of_nat (127 * S)" using word_of_unat [OF S] data_env_okD(1) [OF env lim] by metis
  then have rem: "de_Unpadded env ssize - of_nat (127 * ?fits) = of_nat (127 * (S - ?fits))"
    using le by (simp add: of_nat_diff right_diff_distrib)
  let ?F = "FillersFromRem (de_Unpadded env) (of_nat (127 * (S - ?fits)))"
  let ?fil = "map (\<lambda>f. (de_Padded env f, de_ZeroPieceCommitment env f)) ?F"
  let ?all = "map (\<lambda>p. (dm_PieceSize p, pc p)) ps @ ?fil"
  have small: "S - ?fits < 2 ^ 57" using lim by simp
  have sum: "(\<Sum>i\<leftarrow>?all. unat (fst i)) = unat ssize"
    using fillers_fill(1) [OF env small] total S le by (simp add: o_def)
  moreover have "\<forall>i\<in>set ?all. \<exists>j\<ge>7. unat (fst i) = 2 ^ j" using sizes fillers_fill(2) [OF env small] by auto
  ultimately have "\<not> isl (de_PieceAggregateCommP env spt ?all)" by (rule agg)
  then obtain c where c: "de_PieceAggregateCommP env spt ?all = Inr c" unfolding isl_def by (meson sum.exhaust)
  have "getDealMetadata env refs spt ps True =
    Inr \<lparr>dd_CommD = c, dd_Data = [] @ map NullReader ?F, dd_IsUnpadded = True, dd_PieceInfos = ?all,
         dd_KeepUnsealed = (\<exists>p\<in>set ps. \<not> dm_DataDelOnFinalize p)\<rparr>" (is "_ = Inr ?dd")
    unfolding getDealMetadata_def ssize(1) lay rbind_simps Let_def prod.case rem c using room(1) by (simp only: if_True not_False_eq_True)
  then show ?thesis
  proof (intro exI conjI)
    show "dd_PieceInfos ?dd = map (\<lambda>p. (dm_PieceSize p, pc p)) ps @ ?fil" by simp
    show "(\<Sum>i\<leftarrow>dd_PieceInfos ?dd. unat (fst i)) = unat ssize" using sum by (simp del: map_map map_append sum_list_append)
  qed
qed

end
