(* ===== verification/SectorLayout.thy ===== *)
theory SectorLayout
  imports IngestRun DealData
begin

text \<open>
  From the deals to the data of the sector: the pieces that \<open>Seal\<close> moves into the pipeline fill
  the sector without gaps, each at a multiple of its size, as the proofs need it. This is why the
  ingester only compares sizes and the transfer to the pipeline sorts the pieces.
\<close>

section \<open>The order of the pieces\<close>

lemma sorted_pieces_desc: "sorted_wrt (\<lambda>p q. unat (ip_piece_size q) \<le> unat (ip_piece_size p)) (sorted_pieces sp n db)"
proof -
  have "sorted (map (unat \<circ> ip_piece_size) (sort_key (unat \<circ> ip_piece_size) (rev (pieces_at sp n db))))" by (rule sorted_sort_key)
  then show ?thesis unfolding sorted_pieces_rows sorted_wrt_rev sorted_map by simp
qed

lemma set_sorted_pieces: "set (sorted_pieces sp n db) = set (pieces_at sp n db)"
  unfolding sorted_pieces_rows by simp

lemma total_sorted_pieces: "total_size (sorted_pieces sp n db) = total_size (pieces_at sp n db)"
  by (rule total_size_mset) (simp add: sorted_pieces_rows)

lemma dvd_total: "\<forall>x\<in>set xs. d dvd f x \<Longrightarrow> (d :: nat) dvd (\<Sum>x\<leftarrow>xs. f x)"
  by (induction xs) simp_all

lemma prefix_dvd:
  assumes "sorted_wrt (\<lambda>p q. f q dvd f p) xs" "i < length xs"
  shows "(f (xs ! i) :: nat) dvd (\<Sum>x\<leftarrow>take i xs. f x)"
  using assms by (intro dvd_total) (auto simp: in_set_conv_nth sorted_wrt_iff_nth_less)

lemma sorted_power_dvd:
  assumes "sorted_wrt (\<lambda>p q. f q \<le> f p) xs" "\<forall>x\<in>set xs. \<exists>j. f x = (2 :: nat) ^ j"
  shows "sorted_wrt (\<lambda>p q. f q dvd f p) xs"
proof (rule sorted_wrt_mono_rel [OF _ assms(1)])
  fix x y assume "x \<in> set xs" "y \<in> set xs" "f y \<le> f x"
  moreover from this assms(2) obtain i j where "f x = 2 ^ i" "f y = 2 ^ j" by blast
  ultimately show "f y dvd f x" by (simp add: le_imp_power_dvd)
qed

lemma renumber_nth:
  "length (renumber ps) = length ps" "i < length ps \<Longrightarrow> renumber ps ! i = (ps ! i)\<lparr>ip_piece_index := int i\<rparr>"
  by (simp_all add: renumber_def nth_enumerate_eq)

lemma renumber_sorted: "sort_key ip_piece_index (renumber ps) = renumber ps"
proof (rule sort_key_id_if_sorted)
  show "sorted (map ip_piece_index (renumber ps))" by (auto simp: sorted_iff_nth_mono renumber_nth)
qed

lemma map_renumber: "(\<And>q i. f (q\<lparr>ip_piece_index := i\<rparr>) = f q) \<Longrightarrow> map f (renumber ps) = map f ps"
  by (simp add: list_eq_iff_nth_eq renumber_nth)

section \<open>The sector\<close>

definition ref_of :: "init_piece \<Rightarrow> uint64 \<times> string" where
  "ref_of q = (ip_piece_size q, ip_piece_cid q)"

text \<open>What the commitment of the libraries accepts: pieces of proper sizes that fill the sector.\<close>

definition commp_ok :: "data_env \<Rightarrow> int \<Rightarrow> nat \<Rightarrow> bool" where
  "commp_ok env spt S \<longleftrightarrow>
     (\<forall>infos. (\<Sum>i\<leftarrow>infos. unat (fst i)) = S \<longrightarrow> (\<forall>i\<in>set infos. \<exists>j\<ge>7. unat (fst i) = 2 ^ j) \<longrightarrow>
        \<not> isl (de_PieceAggregateCommP env spt infos))"

lemma layout_of_renumbered:
  assumes env: "data_env_ok env" "commp_ok env spt (unat ssize)" and ssize: "de_SectorSize env spt = Inr ssize" "128 dvd unat ssize" "unat ssize < 2 ^ 63"
    and init: "filter (of_sector sp n) (ig_initial_pieces db) = renumber ps"
    and cids: "\<forall>q\<in>set ps. de_ParseCid env (ip_piece_cid q) = Inr (ip_piece_cid q)"
    and sizes: "\<forall>q\<in>set ps. \<exists>j\<ge>7. unat (ip_piece_size q) = 2 ^ j"
    and sorted: "sorted_wrt (\<lambda>p q. unat (ip_piece_size q) \<le> unat (ip_piece_size p)) ps"
    and room: "ps \<noteq> []" "total_size ps \<le> unat ssize"
  shows "\<exists>dd fil. DealDataSDRPoRep env refs sp n spt True db = Inr dd \<and> dd_PieceInfos dd = map ref_of ps @ fil \<and>
    (\<Sum>i\<leftarrow>dd_PieceInfos dd. unat (fst i)) = unat ssize \<and>
    (\<forall>i<length ps. unat (ip_piece_size (ps ! i)) dvd (\<Sum>i\<leftarrow>take i (dd_PieceInfos dd). unat (fst i)))"
proof -
  let ?ms = "map meta_of_piece (renumber ps)"
  have ms: "select_pieces sp n (ig_initial_pieces db) = ?ms" unfolding select_pieces_def init renumber_sorted ..
  have sz: "map dm_PieceSize ?ms = map ip_piece_size ps" and cd: "map dm_PieceCID ?ms = map ip_piece_cid ps"
    and both: "map (\<lambda>p. (dm_PieceSize p, dm_PieceCID p)) ?ms = map ref_of ps"
    by (simp_all add: o_def map_renumber meta_of_piece_def ref_of_def)
  have sz': "map (\<lambda>p. unat (dm_PieceSize p)) ?ms = map (\<lambda>q. unat (ip_piece_size q)) ps"
    using arg_cong [OF sz, of "map unat"] by (simp add: o_def)
  have dvd: "sorted_wrt (\<lambda>p q. unat (ip_piece_size q) dvd unat (ip_piece_size p)) ps"
    using sorted sizes by (intro sorted_power_dvd) auto
  have "\<exists>dd fil. getDealMetadata env refs spt ?ms True = Inr dd \<and>
    dd_PieceInfos dd = map (\<lambda>p. (dm_PieceSize p, dm_PieceCID p)) ?ms @ fil \<and> (\<Sum>i\<leftarrow>dd_PieceInfos dd. unat (fst i)) = unat ssize"
  proof (rule getDealMetadata_aligned [OF env(1) ssize])
    show "\<forall>p\<in>set ?ms. de_ParseCid env (dm_PieceCID p) = Inr (dm_PieceCID p)"
      using cids arg_cong [OF cd, of set] by (metis (no_types, lifting) imageE image_eqI list.set_map)
    show "\<forall>p\<in>set ?ms. \<exists>j\<ge>7. unat (dm_PieceSize p) = 2 ^ j"
      using sizes arg_cong [OF sz', of set] by (metis (no_types, lifting) imageE image_eqI list.set_map)
    show "sorted_wrt (\<lambda>p q. unat (dm_PieceSize q) dvd unat (dm_PieceSize p)) ?ms"
      using dvd by (simp add: sorted_wrt_iff_nth_less renumber_nth meta_of_piece_def)
    show "?ms \<noteq> []" using room(1) renumber_nth(1) [of ps] by (metis length_0_conv map_is_Nil_conv)
    show "(\<Sum>p\<leftarrow>?ms. unat (dm_PieceSize p)) \<le> unat ssize" unfolding sz' using room(2) by (simp add: total_size_def)
  qed (use env(2) in \<open>auto simp: commp_ok_def\<close>)
  then obtain dd fil where dd: "getDealMetadata env refs spt ?ms True = Inr dd" "dd_PieceInfos dd = map ref_of ps @ fil"
    "(\<Sum>i\<leftarrow>dd_PieceInfos dd. unat (fst i)) = unat ssize" unfolding both by blast
  have "unat (ip_piece_size (ps ! i)) dvd (\<Sum>i\<leftarrow>take i (dd_PieceInfos dd). unat (fst i))" if i: "i < length ps" for i
    using prefix_dvd [OF dvd i] i unfolding dd(2) by (simp add: take_map o_def ref_of_def)
  then show ?thesis using dd unfolding DealDataSDRPoRep_def ms by blast
qed


section \<open>An example\<close>

definition ex_env :: data_env where
  "ex_env = \<lparr>de_Padded = \<lambda>u. u + u div 127, de_Unpadded = \<lambda>z. z - z div 128,
     de_GetRequiredPadding = \<lambda>off sz. let r = unat off mod unat sz in
       if r = 0 then ([], 0) else ([of_nat (unat sz - r)], of_nat (unat sz - r)),
     de_SectorSize = \<lambda>_. Inr 2048, de_ParseCid = Inr, de_ZeroPieceCommitment = \<lambda>_. ''zero'',
     de_PieceAggregateCommP = \<lambda>_ infos. if (\<Sum>i\<leftarrow>infos. unat (fst i)) = 2048 then Inr ''commd'' else Inl ''size'',
     de_ParseUrl = \<lambda>u. Inr (''https'', u), de_ParseHeaders = Inr, de_ParseInt = \<lambda>_. Inl ''number'', de_OpenPiece = \<lambda>_. Inr ()\<rparr>"

lemma ex_env_ok: "data_env_ok ex_env"
proof -
  have "(of_nat (128 * k) :: uint64) - of_nat (128 * k) div 128 = of_nat (127 * k)" if k: "k < 2 ^ 57" for k
  proof -
    have "unat ((of_nat (128 * k) :: uint64) div 128) = k"
      using k by (simp add: unat_div unat_of_nat_small del: of_nat_mult)
    then have "(of_nat (128 * k) :: uint64) div 128 = of_nat k" by (rule word_of_unat)
    then show ?thesis by (simp add: algebra_simps)
  qed
  then show ?thesis using toFill_eq by (simp add: data_env_ok_def ex_env_def Let_def dvd_eq_mod_eq_0)
qed

lemma exponents_from:
  "\<forall>q\<in>A. \<exists>j\<in>set js. f q = (2 :: nat) ^ j \<Longrightarrow> \<forall>j\<in>set js. 7 \<le> j \<Longrightarrow> \<forall>q\<in>A. \<exists>j\<ge>7. f q = 2 ^ j"
  by blast


end
