(* ===== verification/Spec2Isabelle.thy ===== *)
theory Spec2Isabelle
  imports VanillaCodec Cluster Poller Singleton SealSystem IndexLocks MessageSend TreeD ChainSched
    MiningSafety IndexSafety SweepSafety SectorLayout
begin

text \<open>
  Curio is the software of a Filecoin storage provider. A cluster of machines shares one SQL
  database; every machine runs a task engine that picks work from the database, and nearly all
  behaviour of the program is a handler of such a task, a poller that starts tasks, or a
  library the handlers call. This development models the core of that program, theory by
  theory, from the Go sources and the SQL of the tables, and proves what makes it correct.

  \<^bold>\<open>The parts and how they interact.\<close> The task engine claims tasks in the database, runs their
  handlers and records completion. The sealing poller reads the pipeline table and adds a task
  for the next stage of each sector; the handlers of the stages compute proofs, store results in
  the pipeline table and use the sector index to find and lock files. Messages to the chain are
  batched by the poller, built by the precommit and commit tasks and sent by a send task that
  assigns nonces. Winning PoSt tasks mine blocks. The garbage collector marks files that are not
  needed and removes those an operator approved. The proof library builds Merkle trees and
  encodes proofs.

  \<^bold>\<open>Conventions.\<close> A table is a list of records, a statement an operation on it, a transaction a
  function whose error leaves the database as it was. Errors are \<open>Inl\<close>; a panic, or a loop that
  has not ended, is \<open>None\<close>. Fixed-width integers are words where wrap-around matters and \<open>int\<close>
  or \<open>nat\<close> otherwise. Code outside the repository (the chain node, the wallet, the native proving
  code, SHA-256, address and URL parsing) is a parameter, and what is used of it an explicit
  hypothesis. A loop that can run forever takes the answers of its environment as a list, one per
  turn, and yields \<open>None\<close> when they are used up; theorems on termination say how many are enough.
  Concurrency is a step relation whose steps are single statements or transactions, in the order
  the code has them; between the steps of one task any step of another one can happen. Metrics,
  logging and alerts have no effect on the modelled state and are left out.

  \<^bold>\<open>Foundations.\<close> Prelude holds the error monad and lemmas on lists, maps and words that the
  other theories share.

  \<^bold>\<open>Task engine\<close> (\<open>harmony/harmonytask\<close>, \<open>harmony/taskhelp\<close>, \<open>harmony/resources\<close>).
  HarmonyDB has the tables and the machine registry, Limiter the concurrency limiter with its
  contract as a locale, TaskEngine the engine of one node: adding and claiming tasks, the
  capacity tests, the poller, completion, start and shutdown. EngineSafety shows that only
  unowned tasks are claimed, and within the limit of the type and the resources of the machine.
  TaskLife shows the outcome of completion, the number of retries, the termination of the
  completion loop and the recovery after a restart. Poller shows what the poller offers to
  handlers, Singleton that a singleton type never has two tasks. Cluster puts several nodes on
  one database and shows that no task runs twice at the same time, provided a machine is only
  declared dead when nothing runs on it.

  \<^bold>\<open>Sealing\<close> (\<open>tasks/seal\<close>, \<open>lib/slotmgr\<close>). SealBatch has the grouping of rows into batches and
  their timeout, SealPipeline the pipeline table and every operation of the poller, SealTasks the
  seven single-sector handlers, PrecommitTask and CommitTask the two message tasks, SlotMgr the
  slots of the batch sealer. PipelineSafety shows what a polling round keeps and how batches are
  bounded, with one locale for operations on a single sector. SealSystem has all of them
  interleave on one table, each acting on rows it read earlier, and shows that stages happen in
  order, that a waiting sector is started by the next round, and two ways a sector gets stuck.
  The step in which the synthetic proof task takes back finished stages after a failed check is
  not part of the step relation; its effect is \<open>resetSectorSealingState\<close>.

  \<^bold>\<open>Deals\<close> (\<open>market/storageingest\<close>, \<open>tasks/seal/sector_num_alloc.go\<close>, \<open>lib/dealdata\<close>, \<open>lib/filler\<close>).
  DealIngest has the two ingesters that assign deal pieces to sectors, for sealing and for updates
  of sectors without data, with the SQL functions they call and the allocation of sector numbers.
  IngestSafety shows how the open sectors are read back from the table, IngestSystem what every
  call keeps, IngestSeal that sealing moves exactly the due sectors: the two ways to start a sector
  are interpretations of one locale. IngestRun has the runs of the ingesters next to the pipelines
  and the chain, and where the code differs from its comments. DealData has the data of a sector
  as the sealing tasks read it, with the zero pieces at its end; SectorLayout puts the two together:
  the pieces of a started sector fill it, each at a multiple of its size.

  \<^bold>\<open>Messages\<close> (\<open>tasks/message\<close>). MessageSend has the send task statement by statement, with
  crashes and failing statements, and shows that a nonce is used once. The Ethereum sender runs
  the same statements on its own tables.

  \<^bold>\<open>Mining\<close> (\<open>tasks/winning\<close>). WinningPost has the rounds that add mining tasks, the task from the
  election to the submission and the inclusion check. MiningSafety has rounds and executions of
  tasks interleave and shows that a provider stores at most one block per epoch and, when the
  executions of one task agree on the election, never two blocks with a common parent.

  \<^bold>\<open>Files\<close> (\<open>lib/storiface\<close>, \<open>lib/paths\<close>, \<open>tasks/gc\<close>). FileTypes has the bit sets of file types and
  the names of sectors, IndexLocks the in-memory locks as an interpretation of a locale for
  reader/writer locks, SectorIndex the index in the database. IndexSafety shows when the locks in
  the database exclude each other and when they do not, IndexLookup what the lookups and
  declarations return. StorageGC has marking, approval and removal of files; GCSafety shows that
  only files not in use are marked, SweepSafety that only approved copies are removed and that
  the sweep ends, for every index with the laws of a locale that the index of SectorIndex meets.

  \<^bold>\<open>Proof library\<close> (\<open>lib/proof\<close>, \<open>lib/chainsched\<close>). Bincode has the primitives of the format and
  the contract of a codec as a locale, VanillaProof the encoders and decoders of all proof
  structures, VanillaCodec one interpretation for each and the round trips of whole proofs.
  MemTree has the trees in memory and proofs from them, also through a cached layer; TreeD the
  parallel construction of the tree file and its refinement of the Merkle tree of the data.
  ChainSched has the scheduler of head changes.

  \<^bold>\<open>Not modelled.\<close> The batch sealing task (it drives a device), the native proving code and its
  clients, the markets up to the point where a deal is handed to the ingester, the PDP service,
  window PoSt, the generated contract bindings, command
  line tools, the web interface apart from the approval calls of the garbage collector,
  configuration, alerting. Of the commit task the copy of pieces to \<open>sectors_meta_pieces\<close> and the
  lookups behind a piece manifest are left out; of the file stores only the removal of files is
  modelled.
\<close>

end
